(* ===== verification/IpcPrelude.thy ===== *)
theory IpcPrelude
  imports Main "HOL-Library.Word" "HOL-Library.Sublist"
begin

text \<open>
  Shared vocabulary of the development: the machine types, C strings (character lists
  without the terminating zero), the two \<open>ctype.h\<close> functions the program calls in the
  C locale, C strings as seen by \<^verbatim>\<open>strlen\<close>/\<^verbatim>\<open>strchr\<close>/\<^verbatim>\<open>strncmp\<close>/\<^verbatim>\<open>strstr\<close>, pointers
  to strings, results with an error, and the small list lemmas the components share.
  Plain \<^verbatim>\<open>char\<close> is unsigned on the ARM target, as in the type \<open>char\<close> of HOL.
\<close>

named_theorems dict_simps "laws of the string dictionary"
named_theorems wf_intros "a component's invariant is kept by an operation"

type_synonym byte = "8 word"
type_synonym u32 = "32 word"
type_synonym u64 = "64 word"

section \<open>Pointers to strings\<close>

text \<open>
  A \<^verbatim>\<open>const char *\<close> is NULL, the token \<^verbatim>\<open>(char *)-1\<close> of the INI parser, or a string.
\<close>

datatype cptr = Null | Invalid_key | Str string

fun ptr_of :: "string option \<Rightarrow> cptr" where
  "ptr_of None = Null"
| "ptr_of (Some s) = Str s"

lemma ptr_of_neq_Invalid [simp]: "ptr_of v \<noteq> Invalid_key" "Invalid_key \<noteq> ptr_of v"
  by (cases v; simp)+

lemma ptr_of_eq_Str [simp]: "ptr_of v = Str s \<longleftrightarrow> v = Some s"
  by (cases v) auto

lemma ptr_of_eq_Null [simp]: "ptr_of v = Null \<longleftrightarrow> v = None"
  by (cases v) auto

section \<open>Characters in the C locale\<close>

abbreviation ccode :: "char \<Rightarrow> nat" where
  "ccode c \<equiv> of_char c"

abbreviation NUL :: char where
  "NUL \<equiv> CHR 0x00"

abbreviation NL :: char where
  "NL \<equiv> CHR 0x0A"

definition c_tolower :: "char \<Rightarrow> char" where
  "c_tolower c = (if 65 \<le> ccode c \<and> ccode c \<le> 90 then char_of (ccode c + 32) else c)"

definition c_isspace :: "char \<Rightarrow> bool" where
  "c_isspace c \<longleftrightarrow> ccode c = 32 \<or> (9 \<le> ccode c \<and> ccode c \<le> 13)"

lemma ccode_lt [simp]: "ccode c < 256"
  using of_char_mod_256 [of c, where 'a = nat] by (metis mod_less_divisor zero_less_numeral)

lemma ccode_tolower: "ccode (c_tolower c) = (if 65 \<le> ccode c \<and> ccode c \<le> 90 then ccode c + 32 else ccode c)"
  by (simp add: c_tolower_def)

lemma c_tolower_idem [simp]: "c_tolower (c_tolower c) = c_tolower c"
  by (subst (1) c_tolower_def) (auto simp: ccode_tolower c_tolower_def)

lemma c_tolower_eq_other:
  "ccode x < 65 \<Longrightarrow> c_tolower c = x \<longleftrightarrow> c = x"
  using ccode_tolower [of c] by (auto simp: c_tolower_def split: if_splits)

lemma c_isspace_tolower [simp]: "c_isspace (c_tolower c) = c_isspace c"
  by (simp add: c_isspace_def ccode_tolower)

section \<open>C string functions\<close>

text \<open>The string a buffer holds ends at its first zero byte.\<close>

definition cstr :: "char list \<Rightarrow> string" where
  "cstr b = takeWhile (\<lambda>c. c \<noteq> NUL) b"

text \<open>\<^verbatim>\<open>!strncmp(s, p, strlen(p))\<close>\<close>

definition str_starts :: "string \<Rightarrow> string \<Rightarrow> bool" where
  "str_starts s p \<longleftrightarrow> take (length p) s = p"

text \<open>\<^verbatim>\<open>strstr(hay, needle) != NULL\<close>\<close>

fun str_contains :: "string \<Rightarrow> string \<Rightarrow> bool" where
  "str_contains [] needle = (needle = [])"
| "str_contains (c # cs) needle = (str_starts (c # cs) needle \<or> str_contains cs needle)"

lemma str_starts_Nil [simp]: "str_starts s []"
  by (simp add: str_starts_def)

lemma str_starts_append [simp]: "str_starts (p @ s) p"
  by (simp add: str_starts_def)

lemma str_starts_iff: "str_starts s p \<longleftrightarrow> (\<exists>r. s = p @ r)"
  by (metis append_take_drop_id append_eq_conv_conj str_starts_def)

lemma str_contains_iff: "str_contains s p \<longleftrightarrow> (\<exists>a b. s = a @ p @ b)"
proof (induction s)
  case Nil
  then show ?case by auto
next
  case (Cons c cs)
  have "(\<exists>a b. c # cs = a @ p @ b) \<longleftrightarrow> (\<exists>b. c # cs = p @ b) \<or> (\<exists>a b. cs = a @ p @ b)"
    by (metis append_Cons append_Nil neq_Nil_conv list.inject)
  with Cons show ?case by (simp add: str_starts_iff)
qed

section \<open>Results with an error\<close>

text \<open>
  A computation that may throw returns \<open>Inl\<close> of the error. \<open>bindE\<close> runs the next
  statement with the value, and passes an error on.
\<close>

definition bindE :: "'e + 'a \<Rightarrow> ('a \<Rightarrow> 'e + 'b) \<Rightarrow> 'e + 'b" where
  "bindE m k = (case m of Inl e \<Rightarrow> Inl e | Inr x \<Rightarrow> k x)"

definition unlessE :: "bool \<Rightarrow> 'e \<Rightarrow> 'e + unit" where
  "unlessE ok e = (if ok then Inr () else Inl e)"

lemma bindE_simps [simp]: "bindE (Inl e) k = Inl e" "bindE (Inr x) k = k x"
  by (simp_all add: bindE_def)

lemma bindE_Inr: "bindE m k = Inr y \<longleftrightarrow> (\<exists>x. m = Inr x \<and> k x = Inr y)"
  by (cases m) auto

lemma unlessE_Inr [simp]: "unlessE ok e = Inr u \<longleftrightarrow> ok"
  by (simp add: unlessE_def)

lemma unlessE_Inl [simp]: "unlessE ok e = Inl e' \<longleftrightarrow> \<not> ok \<and> e' = e"
  by (auto simp: unlessE_def)

section \<open>Lists\<close>

lemma takeWhile_nth_first:
  "i < length xs \<Longrightarrow> \<not> P (xs ! i) \<Longrightarrow> (\<And>j. j < i \<Longrightarrow> P (xs ! j)) \<Longrightarrow> takeWhile P xs = take i xs"
  by (rule takeWhile_eq_take_P_nth) auto

lemma map_eqI:
  assumes "\<And>k v. f k = Some v \<longleftrightarrow> g k = Some v"
  shows "f = g"
  by (rule ext) (metis assms not_None_eq)

lemma nth_list_update_any:
  "xs[i := x] ! j = (if i = j \<and> j < length xs then x else xs ! j)"
  by (cases "i < length xs") (auto simp: nth_list_update list_update_beyond)

lemma list_update_None_count:
  "i < length xs \<Longrightarrow>
   length (filter P (xs[i := x])) + (if P (xs ! i) then 1 else 0) =
   length (filter P xs) + (if P x then 1 else 0)"
proof (induction xs arbitrary: i)
  case Nil
  then show ?case by simp
next
  case (Cons y ys)
  then show ?case
    by (cases i) (auto simp: algebra_simps dest: Cons.IH)
qed

lemma filter_length_lt:
  "length (filter P xs) < length xs \<Longrightarrow> \<exists>i < length xs. \<not> P (xs ! i)"
  by (metis filter_id_conv in_set_conv_nth less_irrefl)

end
