(* ===== verification/Dictionary.thy ===== *)
theory Dictionary
  imports IpcPrelude "HOL-Library.AList"
begin

unbundle bit_operations_syntax

text \<open>
  The string dictionary of \<^verbatim>\<open>common/param/dictionary.c\<close>: three parallel arrays of keys,
  values and hashes with free slots in between, scanned linearly, doubled when full. The
  outcome of each memory allocation is an argument of the operations that allocate.
  \<open>dict_map\<close> is the abstract map a dictionary stands for; the laws of the locale
  \<open>string_store\<close> are what the INI layer relies on.
\<close>

section \<open>State and hash\<close>

record dictionary =
  d_n :: nat
  d_size :: nat
  d_val :: "string option list"
  d_key :: "string option list"
  d_hash :: "u32 list"

text \<open>Which allocations of one call succeed: the three arrays, the key copy, the value copy.\<close>

record dict_alloc =
  a_grow :: bool
  a_key :: bool
  a_val :: bool

definition alloc_ok :: dict_alloc where
  "alloc_ok = \<lparr>a_grow = True, a_key = True, a_val = True\<rparr>"

definition DICTMINSZ :: nat where
  "DICTMINSZ = 128"

definition xstrdup :: "bool \<Rightarrow> string option \<Rightarrow> string option" where
  "xstrdup ok s = (case s of None \<Rightarrow> None | Some t \<Rightarrow> if ok then Some t else None)"

lemma xstrdup_True [simp]: "xstrdup True s = s"
  by (simp add: xstrdup_def split: option.splits)

definition hash_step :: "u32 \<Rightarrow> char \<Rightarrow> u32" where
  "hash_step hash c =
     (let h1 = hash + of_nat (ccode c);
          h2 = h1 + push_bit 10 h1
      in h2 XOR drop_bit 6 h2)"

definition dictionary_hash :: "string option \<Rightarrow> u32" where
  "dictionary_hash key =
     (case key of
        None \<Rightarrow> 0
      | Some s \<Rightarrow>
          let h = foldl hash_step 0 s;
              h1 = h + push_bit 3 h;
              h2 = h1 XOR drop_bit 11 h1
          in h2 + push_bit 15 h2)"

section \<open>Operations\<close>

definition dictionary_new :: "bool \<Rightarrow> nat \<Rightarrow> dictionary option" where
  "dictionary_new ok sz0 =
     (let sz = (if sz0 < DICTMINSZ then DICTMINSZ else sz0)
      in if ok then Some \<lparr>d_n = 0, d_size = sz, d_val = replicate sz None,
                          d_key = replicate sz None, d_hash = replicate sz 0\<rparr>
         else None)"

definition dictionary_grow :: "dict_alloc \<Rightarrow> dictionary \<Rightarrow> int \<times> dictionary" where
  "dictionary_grow mem d =
     (if \<not> a_grow mem then (-1, d)
      else (0, d\<lparr>d_size := d_size d * 2,
                d_val := d_val d @ replicate (d_size d) None,
                d_key := d_key d @ replicate (d_size d) None,
                d_hash := d_hash d @ replicate (d_size d) 0\<rparr>))"

text \<open>The scan shared by get, set and unset: the first slot from \<open>i\<close> on that holds the key.\<close>

function dict_find :: "dictionary \<Rightarrow> u32 \<Rightarrow> string \<Rightarrow> nat \<Rightarrow> nat option" where
  "dict_find d h key i =
     (if i < d_size d then
        (case d_key d ! i of
           None \<Rightarrow> dict_find d h key (Suc i)
         | Some k \<Rightarrow> if h = d_hash d ! i \<and> key = k then Some i
                     else dict_find d h key (Suc i))
      else None)"
  by pat_completeness auto
termination
  by (relation "measure (\<lambda>(d, h, key, i). d_size d - i)") auto

declare dict_find.simps [simp del]

text \<open>The probe for a free slot, with wrap-around; \<open>None\<close> is a probe that does not return.\<close>

fun dict_probe :: "nat \<Rightarrow> dictionary \<Rightarrow> nat \<Rightarrow> nat option" where
  "dict_probe 0 d i = None"
| "dict_probe (Suc fuel) d i =
     (case d_key d ! i of
        None \<Rightarrow> Some i
      | Some _ \<Rightarrow> dict_probe fuel d (if Suc i = d_size d then 0 else Suc i))"

definition dictionary_get :: "dictionary \<Rightarrow> string \<Rightarrow> cptr \<Rightarrow> cptr" where
  "dictionary_get d key def =
     (case dict_find d (dictionary_hash (Some key)) key 0 of
        Some i \<Rightarrow> ptr_of (d_val d ! i)
      | None \<Rightarrow> def)"

definition dict_put ::
  "dict_alloc \<Rightarrow> dictionary \<Rightarrow> string \<Rightarrow> string option \<Rightarrow> (int \<times> dictionary) option" where
  "dict_put mem d key val =
     (let hash = dictionary_hash (Some key)
      in case (if 0 < d_n d then dict_find d hash key 0 else None) of
           Some i \<Rightarrow> Some (0, d\<lparr>d_val := (d_val d)[i := xstrdup (a_val mem) val]\<rparr>)
         | None \<Rightarrow>
             (case (if d_n d = d_size d then dictionary_grow mem d else (0, d)) of
                (rc, e) \<Rightarrow>
                  if rc \<noteq> 0 then Some (-1, e)
                  else case dict_probe (d_size e) e (d_n e) of
                         None \<Rightarrow> None
                       | Some i \<Rightarrow>
                           Some (0, e\<lparr>d_key := (d_key e)[i := xstrdup (a_key mem) (Some key)],
                                      d_val := (d_val e)[i := xstrdup (a_val mem) val],
                                      d_hash := (d_hash e)[i := hash],
                                      d_n := Suc (d_n e)\<rparr>)))"

text \<open>The NULL checks of \<^verbatim>\<open>dictionary_set\<close> around the body above.\<close>

fun dictionary_set ::
  "dict_alloc \<Rightarrow> dictionary option \<Rightarrow> string option \<Rightarrow> string option
     \<Rightarrow> (int \<times> dictionary option) option" where
  "dictionary_set mem None key val = Some (-1, None)"
| "dictionary_set mem (Some d) None val = Some (-1, Some d)"
| "dictionary_set mem (Some d) (Some key) val =
     (case dict_put mem d key val of None \<Rightarrow> None | Some (rc, e) \<Rightarrow> Some (rc, Some e))"

definition dict_del :: "dictionary \<Rightarrow> string \<Rightarrow> dictionary" where
  "dict_del d key =
     (case dict_find d (dictionary_hash (Some key)) key 0 of
        None \<Rightarrow> d
      | Some i \<Rightarrow> d\<lparr>d_key := (d_key d)[i := None], d_val := (d_val d)[i := None],
                     d_hash := (d_hash d)[i := 0], d_n := d_n d - 1\<rparr>)"

fun dictionary_unset :: "dictionary option \<Rightarrow> string option \<Rightarrow> dictionary option" where
  "dictionary_unset None key = None"
| "dictionary_unset (Some d) None = Some d"
| "dictionary_unset (Some d) (Some key) = Some (dict_del d key)"

definition pad_left :: "nat \<Rightarrow> string \<Rightarrow> string" where
  "pad_left w s = replicate (w - length s) CHR '' '' @ s"

fun dump_entry :: "string option \<times> string option \<Rightarrow> string" where
  "dump_entry (None, v) = []"
| "dump_entry (Some k, v) =
     pad_left 20 k @ [CHR 0x09] @ ''['' @ (case v of None \<Rightarrow> ''UNDEF'' | Some s \<Rightarrow> s) @ '']'' @ [NL]"

definition dictionary_dump :: "dictionary option \<Rightarrow> string" where
  "dictionary_dump d =
     (case d of
        None \<Rightarrow> []
      | Some d \<Rightarrow> if d_n d < 1 then ''empty dictionary'' @ [NL]
                  else concat (map dump_entry (zip (d_key d) (d_val d))))"

section \<open>Invariant and abstraction\<close>

definition used :: "dictionary \<Rightarrow> nat" where
  "used d = length (filter (\<lambda>k. k \<noteq> None) (d_key d))"

text \<open>
  What every operation keeps, even when allocations fail: the arrays have the same
  length, at most \<open>d_n\<close> slots are used, hashes belong to their keys, no key is stored twice.
\<close>

definition dict_inv :: "dictionary \<Rightarrow> bool" where
  "dict_inv d \<longleftrightarrow>
     0 < d_size d \<and> length (d_key d) = d_size d \<and> length (d_val d) = d_size d \<and>
     length (d_hash d) = d_size d \<and> used d \<le> d_n d \<and> d_n d \<le> d_size d \<and>
     (\<forall>i < d_size d. \<forall>k. d_key d ! i = Some k \<longrightarrow> d_hash d ! i = dictionary_hash (Some k)) \<and>
     (\<forall>i < d_size d. \<forall>j < d_size d. d_key d ! i \<noteq> None \<longrightarrow> d_key d ! i = d_key d ! j \<longrightarrow> i = j)"

text \<open>While no key copy fails, \<open>d_n\<close> counts the used slots exactly.\<close>

definition dict_exact :: "dictionary \<Rightarrow> bool" where
  "dict_exact d \<longleftrightarrow> dict_inv d \<and> used d = d_n d"

definition dict_map :: "dictionary \<Rightarrow> string \<Rightarrow> string option option" where
  "dict_map d k = map_option (\<lambda>i. d_val d ! i) (dict_find d (dictionary_hash (Some k)) k 0)"

lemma dict_find_eq_find:
  "dict_find d h k i = find (\<lambda>j. d_key d ! j = Some k \<and> d_hash d ! j = h) [i..<d_size d]"
proof (induction d h k i rule: dict_find.induct)
  case (1 d h k i)
  show ?case
  proof (cases "i < d_size d")
    case True
    then show ?thesis
      using "1.IH" by (cases "d_key d ! i") (auto simp: dict_find.simps [of d h k i] upt_conv_Cons)
  qed (simp add: dict_find.simps [of d h k i])
qed

lemma dict_find_Some:
  "dict_find d h k i = Some j \<Longrightarrow>
   i \<le> j \<and> j < d_size d \<and> d_key d ! j = Some k \<and> d_hash d ! j = h"
  by (auto simp: dict_find_eq_find find_Some_iff)

lemma dict_find_None:
  "dict_find d h k i = None \<Longrightarrow> i \<le> j \<Longrightarrow> j < d_size d \<Longrightarrow> d_key d ! j = Some k \<Longrightarrow>
   d_hash d ! j \<noteq> h"
  by (auto simp: dict_find_eq_find find_None_iff)

lemma dict_find_iff:
  assumes "dict_inv d"
  shows "dict_find d (dictionary_hash (Some k)) k 0 = Some j \<longleftrightarrow>
         j < d_size d \<and> d_key d ! j = Some k"
proof
  assume "dict_find d (dictionary_hash (Some k)) k 0 = Some j"
  then show "j < d_size d \<and> d_key d ! j = Some k"
    by (auto dest: dict_find_Some)
next
  assume j: "j < d_size d \<and> d_key d ! j = Some k"
  with assms have h: "d_hash d ! j = dictionary_hash (Some k)"
    by (auto simp: dict_inv_def)
  show "dict_find d (dictionary_hash (Some k)) k 0 = Some j"
  proof (cases "dict_find d (dictionary_hash (Some k)) k 0")
    case None
    with j h show ?thesis by (auto dest: dict_find_None)
  next
    case (Some i)
    then have "i < d_size d" "d_key d ! i = Some k"
      by (auto dest: dict_find_Some)
    with j assms have "i = j" by (auto simp: dict_inv_def)
    with Some show ?thesis by simp
  qed
qed

lemma dict_find_None_iff:
  assumes "dict_inv d"
  shows "dict_find d (dictionary_hash (Some k)) k 0 = None \<longleftrightarrow>
         (\<forall>j < d_size d. d_key d ! j \<noteq> Some k)"
  using dict_find_iff [OF assms] by (metis not_None_eq)

lemma dict_map_Some:
  assumes "dict_inv d"
  shows "dict_map d k = Some v \<longleftrightarrow> (\<exists>j < d_size d. d_key d ! j = Some k \<and> d_val d ! j = v)"
  using dict_find_iff [OF assms] by (auto simp: dict_map_def)

lemma dict_map_None:
  assumes "dict_inv d"
  shows "dict_map d k = None \<longleftrightarrow> (\<forall>j < d_size d. d_key d ! j \<noteq> Some k)"
  using dict_find_None_iff [OF assms] by (simp add: dict_map_def)

lemma dict_map_agree:
  assumes "dict_inv d" "dict_inv e" "d_size e = d_size d"
    and "\<And>j. j < d_size d \<Longrightarrow> (d_key e ! j = Some k \<and> d_val e ! j = w) =
              (d_key d ! j = Some k \<and> d_val d ! j = w)"
  shows "dict_map e k = Some w \<longleftrightarrow> dict_map d k = Some w"
  using assms by (auto simp: dict_map_Some)

lemma dictionary_get_map [dict_simps]:
  "dictionary_get d k def = (case dict_map d k of None \<Rightarrow> def | Some v \<Rightarrow> ptr_of v)"
  by (auto simp: dictionary_get_def dict_map_def split: option.splits)


section \<open>Preservation and termination of the probe\<close>

lemma used_le_size: "used d \<le> length (d_key d)"
  by (simp add: used_def)

lemma dict_inv_free_slot:
  assumes "dict_inv d" "d_n d < d_size d"
  shows "\<exists>i < d_size d. d_key d ! i = None"
  using filter_length_lt [of "\<lambda>k. k \<noteq> None" "d_key d"] assms
  by (auto simp: dict_inv_def used_def)

text \<open>
  From slot \<open>i\<close> the probe finds a free slot at cyclic distance \<open>m\<close> if it may look at
  more than \<open>m\<close> slots.
\<close>

lemma dict_probe_finds:
  assumes "d_key d ! ((i + m) mod d_size d) = None" "i < d_size d" "m < fuel"
  shows "\<exists>j < d_size d. dict_probe fuel d i = Some j \<and> d_key d ! j = None"
  using assms
proof (induction fuel arbitrary: i m)
  case 0
  then show ?case by simp
next
  case (Suc fuel)
  show ?case
  proof (cases "d_key d ! i")
    case None
    with Suc.prems show ?thesis by auto
  next
    case (Some k)
    let ?i = "if Suc i = d_size d then 0 else Suc i"
    from Some Suc.prems obtain m' where m: "m = Suc m'"
      by (cases m) auto
    have "(?i + m') mod d_size d = (i + m) mod d_size d"
      using Suc.prems(2) m by (auto simp: mod_add_self1 split: if_splits) (metis add_Suc mod_add_self1)
    moreover have "?i < d_size d" using Suc.prems(2) by auto
    moreover have "m' < fuel" using Suc.prems(3) m by simp
    ultimately obtain j where "j < d_size d" "dict_probe fuel d ?i = Some j" "d_key d ! j = None"
      using Suc.IH [of ?i m'] Suc.prems(1) by auto
    with Some show ?thesis by auto
  qed
qed

lemma dict_probe_total:
  assumes "dict_inv d" "d_n d < d_size d"
  shows "\<exists>j < d_size d. dict_probe (d_size d) d (d_n d) = Some j \<and> d_key d ! j = None"
proof -
  obtain j where j: "j < d_size d" "d_key d ! j = None"
    using dict_inv_free_slot [OF assms] by auto
  let ?m = "(j + d_size d - d_n d) mod d_size d"
  have "(d_n d + ?m) mod d_size d = (d_n d + (j + d_size d - d_n d)) mod d_size d"
    by (simp add: mod_add_right_eq)
  also have "\<dots> = j"
    using assms(2) j(1) by simp
  finally have "d_key d ! ((d_n d + ?m) mod d_size d) = None"
    using j(2) by simp
  moreover have "?m < d_size d"
    using assms(2) by simp
  ultimately show ?thesis
    using dict_probe_finds [of d "d_n d" ?m "d_size d"] assms(2) by simp
qed

lemma dictionary_new_inv [wf_intros]:
  "dictionary_new ok n = Some d \<Longrightarrow> dict_exact d \<and> dict_map d = Map.empty \<and> d_n d = 0"
  by (auto simp: dictionary_new_def dict_exact_def dict_inv_def used_def DICTMINSZ_def Let_def
      dict_map_def dict_find_eq_find find_None_iff fun_eq_iff split: if_splits)

lemma dictionary_grow_inv:
  assumes "dict_inv d" "dictionary_grow mem d = (rc, e)"
  shows "dict_inv e \<and> used e = used d \<and> d_n e = d_n d \<and> dict_map e = dict_map d"
proof (cases "a_grow mem")
  case False
  with assms show ?thesis by (simp add: dictionary_grow_def)
next
  case True
  with assms(2) have e: "e = d\<lparr>d_size := d_size d * 2,
      d_val := d_val d @ replicate (d_size d) None, d_key := d_key d @ replicate (d_size d) None,
      d_hash := d_hash d @ replicate (d_size d) 0\<rparr>"
    by (simp add: dictionary_grow_def)
  have new: "d_key e ! i = (if i < d_size d then d_key d ! i else None)"
    and newv: "i < d_size d \<Longrightarrow> d_val e ! i = d_val d ! i"
    and newh: "i < d_size d \<Longrightarrow> d_hash e ! i = d_hash d ! i" if "i < d_size e" for i
    using assms(1) that by (auto simp: e dict_inv_def nth_append)
  have inv: "dict_inv e"
    unfolding dict_inv_def
  proof (intro conjI allI impI)
    show "d_hash e ! i = dictionary_hash (Some k)" if "i < d_size e" "d_key e ! i = Some k" for i k
      using that assms(1) new [of i] newh [of i] by (auto simp: dict_inv_def split: if_splits)
    show "i = j" if "i < d_size e" "j < d_size e" "d_key e ! i \<noteq> None" "d_key e ! i = d_key e ! j" for i j
      using that assms(1) new [of i] new [of j] by (auto simp: dict_inv_def split: if_splits)
  qed (use assms(1) in \<open>auto simp: e dict_inv_def used_def\<close>)
  have "(\<exists>j < d_size e. d_key e ! j = Some k \<and> d_val e ! j = v) \<longleftrightarrow>
        (\<exists>j < d_size d. d_key d ! j = Some k \<and> d_val d ! j = v)" for k v
  proof
    assume "\<exists>j < d_size e. d_key e ! j = Some k \<and> d_val e ! j = v"
    then obtain j where j: "j < d_size e" "d_key e ! j = Some k" "d_val e ! j = v" by auto
    with new [of j] have "j < d_size d" by (auto split: if_splits)
    with j new [of j] newv [of j] show "\<exists>j < d_size d. d_key d ! j = Some k \<and> d_val d ! j = v"
      by auto
  next
    assume "\<exists>j < d_size d. d_key d ! j = Some k \<and> d_val d ! j = v"
    then obtain j where j: "j < d_size d" "d_key d ! j = Some k" "d_val d ! j = v" by auto
    moreover from j have "j < d_size e" by (simp add: e)
    ultimately show "\<exists>j < d_size e. d_key e ! j = Some k \<and> d_val e ! j = v"
      using new [of j] newv [of j] by auto
  qed
  then have "dict_map e k = Some v \<longleftrightarrow> dict_map d k = Some v" for k v
    using dict_map_Some [OF inv] dict_map_Some [OF assms(1)] by simp
  then have "dict_map e = dict_map d"
    by (intro map_eqI) simp
  with inv show ?thesis by (simp add: e used_def)
qed


text \<open>Filling a free slot with a key that is not stored yet.\<close>

lemma dict_fill_slot:
  fixes k :: string and v :: "string option"
  assumes inv: "dict_inv d" and n: "d_n d < d_size d"
    and i: "i < d_size d" "d_key d ! i = None"
    and new: "dict_map d k = None"
  defines "e \<equiv> d\<lparr>d_key := (d_key d)[i := Some k], d_val := (d_val d)[i := v],
                   d_hash := (d_hash d)[i := dictionary_hash (Some k)], d_n := Suc (d_n d)\<rparr>"
  shows "dict_inv e" "used e = Suc (used d)" "dict_map e = (dict_map d)(k \<mapsto> v)"
proof -
  have len: "length (d_key d) = d_size d" "length (d_val d) = d_size d" "length (d_hash d) = d_size d"
    using inv by (auto simp: dict_inv_def)
  have fresh: "\<forall>j < d_size d. d_key d ! j \<noteq> Some k"
    using new dict_map_None [OF inv] by simp
  show u: "used e = Suc (used d)"
    using list_update_None_count [of i "d_key d" "\<lambda>k. k \<noteq> None" "Some k"] i len
    by (simp add: used_def e_def)
  show inve: "dict_inv e"
    unfolding dict_inv_def
  proof (intro conjI allI impI)
    show "d_hash e ! j = dictionary_hash (Some k')" if "j < d_size e" "d_key e ! j = Some k'" for j k'
      using that inv i len by (auto simp: e_def dict_inv_def nth_list_update split: if_splits)
    show "a = b" if "a < d_size e" "b < d_size e" "d_key e ! a \<noteq> None" "d_key e ! a = d_key e ! b" for a b
      using that inv i len fresh
      by (auto simp: e_def dict_inv_def nth_list_update split: if_splits)
  qed (use inv n u in \<open>auto simp: e_def dict_inv_def\<close>)
  have "dict_map e k' = Some w \<longleftrightarrow> ((dict_map d)(k \<mapsto> v)) k' = Some w" for k' w
  proof (cases "k' = k")
    case True
    have "i < d_size e" "d_key e ! i = Some k" "d_val e ! i = v"
      using i len by (auto simp: e_def)
    then have "dict_map e k = Some v"
      using dict_map_Some [OF inve] by blast
    with True show ?thesis by auto
  next
    case False
    then have "dict_map e k' = Some w \<longleftrightarrow> dict_map d k' = Some w"
      using i len by (intro dict_map_agree [OF inv inve]) (auto simp: e_def nth_list_update split: if_splits)
    with False show ?thesis by simp
  qed
  then show "dict_map e = (dict_map d)(k \<mapsto> v)"
    by (intro map_eqI) simp
qed

text \<open>Filling the slot when the key copy failed: the slot stays free but is counted.\<close>

lemma dict_fill_failed:
  fixes h :: u32 and v :: "string option"
  assumes inv: "dict_inv d" and n: "d_n d < d_size d"
    and i: "i < d_size d" "d_key d ! i = None"
  defines "e \<equiv> d\<lparr>d_key := (d_key d)[i := None], d_val := (d_val d)[i := v],
                   d_hash := (d_hash d)[i := h], d_n := Suc (d_n d)\<rparr>"
  shows "dict_inv e" "used e = used d" "dict_map e = dict_map d"
proof -
  have key: "d_key e = d_key d"
    using i by (simp add: e_def list_update_same_conv [THEN iffD2] inv [unfolded dict_inv_def])
  have len: "length (d_key d) = d_size d" "length (d_val d) = d_size d" "length (d_hash d) = d_size d"
    using inv by (auto simp: dict_inv_def)
  show u: "used e = used d" by (simp add: used_def key)
  show inve: "dict_inv e"
    unfolding dict_inv_def
  proof (intro conjI allI impI)
    show "d_hash e ! j = dictionary_hash (Some k')" if "j < d_size e" "d_key e ! j = Some k'" for j k'
    proof -
      from that i have "j \<noteq> i" "j < d_size d" "d_key d ! j = Some k'"
        by (auto simp: key) (simp add: e_def)
      with inv show ?thesis by (simp add: e_def dict_inv_def)
    qed
    show "a = b" if "a < d_size e" "b < d_size e" "d_key e ! a \<noteq> None" "d_key e ! a = d_key e ! b" for a b
      using that inv by (auto simp: key dict_inv_def) (auto simp: e_def)
  qed (use inv n u in \<open>auto simp: e_def dict_inv_def\<close>)
  have "dict_map e k = Some w \<longleftrightarrow> dict_map d k = Some w" for k w
    using i len by (intro dict_map_agree [OF inv inve]) (auto simp: key, auto simp: e_def nth_list_update split: if_splits)
  then show "dict_map e = dict_map d"
    by (intro map_eqI) simp
qed


section \<open>Set and unset\<close>

text \<open>
  The body of \<^verbatim>\<open>dictionary_set\<close> always returns, keeps the invariant, and on success
  stores the value; the only failure is that of growing a full dictionary.
\<close>

lemma dict_put_spec:
  assumes inv: "dict_inv d"
  shows "\<exists>rc e. dict_put mem d k v = Some (rc, e) \<and> dict_inv e \<and>
           (a_key mem \<and> a_val mem \<and> rc = 0 \<longrightarrow>
              dict_map e = (dict_map d)(k \<mapsto> v) \<and> (used d = d_n d \<longrightarrow> used e = d_n e)) \<and>
           (a_grow mem \<longrightarrow> rc = 0) \<and> (rc \<noteq> 0 \<longrightarrow> rc = -1 \<and> e = d)"
proof (cases "if 0 < d_n d then dict_find d (dictionary_hash (Some k)) k 0 else None")
  case (Some i)
  then have i: "dict_find d (dictionary_hash (Some k)) k 0 = Some i"
    by (auto split: if_splits)
  then have ki: "i < d_size d" "d_key d ! i = Some k"
    using dict_find_iff [OF inv] by auto
  let ?w = "xstrdup (a_val mem) v"
  let ?e = "d\<lparr>d_val := (d_val d)[i := ?w]\<rparr>"
  have e: "dict_put mem d k v = Some (0, ?e)"
    using Some by (simp add: dict_put_def Let_def)
  have inve: "dict_inv ?e" using inv by (auto simp: dict_inv_def used_def)
  have "dict_map ?e k' = Some w \<longleftrightarrow> ((dict_map d)(k \<mapsto> ?w)) k' = Some w" for k' w
  proof (cases "k' = k")
    case True
    have "length (d_val d) = d_size d" using inv by (simp add: dict_inv_def)
    then have "i < d_size ?e \<and> d_key ?e ! i = Some k \<and> d_val ?e ! i = ?w"
      using ki by simp
    then have "dict_map ?e k = Some ?w"
      using dict_map_Some [OF inve] by blast
    with True show ?thesis by auto
  next
    case False
    then have "dict_map ?e k' = Some w \<longleftrightarrow> dict_map d k' = Some w"
      using ki by (intro dict_map_agree [OF inv inve]) (auto simp: nth_list_update_any split: if_splits)
    with False show ?thesis by simp
  qed
  then have m: "dict_map ?e = (dict_map d)(k \<mapsto> ?w)"
    by (intro map_eqI) simp
  show ?thesis
  proof (intro exI conjI impI)
    show "dict_put mem d k v = Some (0, ?e)" by (rule e)
    show "dict_inv ?e" by (rule inve)
    show "dict_map ?e = (dict_map d)(k \<mapsto> v)" if "a_key mem \<and> a_val mem \<and> (0::int) = 0"
      using m that by simp
  qed (simp_all add: used_def)
next
  case None
  have new: "dict_map d k = None"
  proof (cases "d_n d")
    case 0
    then have "\<forall>x \<in> set (d_key d). x = None" "length (d_key d) = d_size d"
      using inv by (auto simp: dict_inv_def used_def filter_empty_conv)
    then have "\<forall>j < d_size d. d_key d ! j \<noteq> Some k"
      by (metis nth_mem option.distinct(1))
    then show ?thesis by (simp add: dict_map_None [OF inv])
  next
    case (Suc n)
    with None show ?thesis by (simp add: dict_map_def)
  qed
  obtain rc0 f where f: "(if d_n d = d_size d then dictionary_grow mem d else (0, d)) = (rc0, f)"
    by fastforce
  have invf: "dict_inv f" "used f = used d" "d_n f = d_n d" "dict_map f = dict_map d"
    using f inv dictionary_grow_inv [OF inv] by (auto split: if_splits)
  show ?thesis
  proof (cases "rc0 = 0")
    case False
    then have "rc0 = -1 \<and> f = d \<and> \<not> a_grow mem"
      using f by (auto simp: dictionary_grow_def split: if_splits)
    with None f False inv show ?thesis by (auto simp: dict_put_def Let_def)
  next
    case True
    have n: "d_n f < d_size f"
      using f inv True by (auto simp: dictionary_grow_def dict_inv_def split: if_splits)
    obtain i where i: "i < d_size f" "dict_probe (d_size f) f (d_n f) = Some i" "d_key f ! i = None"
      using dict_probe_total [OF invf(1) n] by auto
    let ?e = "f\<lparr>d_key := (d_key f)[i := xstrdup (a_key mem) (Some k)],
                d_val := (d_val f)[i := xstrdup (a_val mem) v],
                d_hash := (d_hash f)[i := dictionary_hash (Some k)], d_n := Suc (d_n f)\<rparr>"
    have e: "dict_put mem d k v = Some (0, ?e)"
      using None f True i by (simp add: dict_put_def Let_def)
    have newf: "dict_map f k = None" using new invf(4) by simp
    show ?thesis
    proof (cases "a_key mem")
      case True
      then show ?thesis
        using e dict_fill_slot [OF invf(1) n i(1,3) newf, of "xstrdup (a_val mem) v"] invf
        by (auto simp: xstrdup_def split: option.splits)
    next
      case False
      then show ?thesis
        using e dict_fill_failed [OF invf(1) n i(1,3), of "dictionary_hash (Some k)" "xstrdup (a_val mem) v"]
        by (auto simp: xstrdup_def)
    qed
  qed
qed

lemma dict_put_ok:
  assumes "dict_inv d"
  shows "\<exists>e. dict_put alloc_ok d k v = Some (0, e) \<and> dict_inv e \<and>
             dict_map e = (dict_map d)(k \<mapsto> v) \<and> (dict_exact d \<longrightarrow> dict_exact e)"
  using dict_put_spec [OF assms, of alloc_ok k v]
  by (auto simp: alloc_ok_def dict_exact_def)

lemma dict_put_inv [wf_intros]:
  "dict_inv d \<Longrightarrow> dict_put mem d k v = Some (rc, e) \<Longrightarrow> dict_inv e"
  using dict_put_spec [of d mem k v] by auto

lemma dict_del_spec:
  assumes inv: "dict_inv d"
  shows "dict_inv (dict_del d k)" "dict_map (dict_del d k) = (dict_map d)(k := None)"
    "dict_exact d \<Longrightarrow> dict_exact (dict_del d k)"
proof -
  have "dict_inv (dict_del d k) \<and> dict_map (dict_del d k) = (dict_map d)(k := None) \<and>
        (used d = d_n d \<longrightarrow> used (dict_del d k) = d_n (dict_del d k))"
  proof (cases "dict_find d (dictionary_hash (Some k)) k 0")
    case None
    then have "dict_map d k = None" by (simp add: dict_map_def)
    with None inv show ?thesis by (auto simp: dict_del_def)
  next
    case (Some i)
    then have i: "i < d_size d" "d_key d ! i = Some k"
      using dict_find_iff [OF inv] by auto
    have len: "length (d_key d) = d_size d" "length (d_val d) = d_size d" "length (d_hash d) = d_size d"
      using inv by (auto simp: dict_inv_def)
    let ?e = "dict_del d k"
    have e: "?e = d\<lparr>d_key := (d_key d)[i := None], d_val := (d_val d)[i := None],
                   d_hash := (d_hash d)[i := 0], d_n := d_n d - 1\<rparr>"
      using Some by (simp add: dict_del_def)
    have u: "Suc (used ?e) = used d"
      using list_update_None_count [of i "d_key d" "\<lambda>k. k \<noteq> None" None] i len
      by (simp add: used_def e)
    have inve: "dict_inv ?e"
      unfolding dict_inv_def
    proof (intro conjI allI impI)
      show "d_hash ?e ! j = dictionary_hash (Some k')" if "j < d_size ?e" "d_key ?e ! j = Some k'" for j k'
        using that inv i len by (auto simp: e dict_inv_def nth_list_update split: if_splits)
      show "a = b" if "a < d_size ?e" "b < d_size ?e" "d_key ?e ! a \<noteq> None" "d_key ?e ! a = d_key ?e ! b" for a b
        using that inv i len by (auto simp: e dict_inv_def nth_list_update split: if_splits)
    qed (use inv u in \<open>auto simp: e dict_inv_def\<close>)
    have uniq: "j < d_size d \<Longrightarrow> d_key d ! j = Some k \<Longrightarrow> j = i" for j
      using inv i by (auto simp: dict_inv_def)
    have "dict_map ?e k' = Some w \<longleftrightarrow> ((dict_map d)(k := None)) k' = Some w" for k' w
    proof (cases "k' = k")
      case True
      have "dict_map ?e k = None"
        unfolding dict_map_None [OF inve]
      proof (intro allI impI notI)
        fix j assume j: "j < d_size ?e" "d_key ?e ! j = Some k"
        then have "j \<noteq> i" using i len by (auto simp: e)
        with j uniq [of j] show False by (simp add: e)
      qed
      with True show ?thesis by simp
    next
      case False
      then have "dict_map ?e k' = Some w \<longleftrightarrow> dict_map d k' = Some w"
        using i len
        by (intro dict_map_agree [OF inv inve]) (auto simp: e nth_list_update split: if_splits)
      with False show ?thesis by simp
    qed
    then have "dict_map ?e = (dict_map d)(k := None)"
      by (intro map_eqI) simp
    with inve u e show ?thesis by auto
  qed
  then show "dict_inv (dict_del d k)" "dict_map (dict_del d k) = (dict_map d)(k := None)"
    "dict_exact d \<Longrightarrow> dict_exact (dict_del d k)"
    by (auto simp: dict_exact_def)
qed


section \<open>Slot order\<close>

text \<open>
  The stored pairs in slot order: what the enumerating loops of the INI layer see.
\<close>

fun slot_entry :: "string option \<times> string option \<Rightarrow> (string \<times> string option) list" where
  "slot_entry (None, v) = []"
| "slot_entry (Some k, v) = [(k, v)]"

definition dict_entries :: "dictionary \<Rightarrow> (string \<times> string option) list" where
  "dict_entries d = concat (map slot_entry (zip (d_key d) (d_val d)))"

text \<open>No key was removed yet: the used slots are the first \<open>d_n\<close> ones.\<close>

definition dict_dense :: "dictionary \<Rightarrow> bool" where
  "dict_dense d \<longleftrightarrow> dict_inv d \<and> (\<forall>i < d_size d. d_key d ! i \<noteq> None \<longleftrightarrow> i < d_n d)"

lemma slot_entries_in:
  "length ks = length vs \<Longrightarrow>
   (k, v) \<in> set (concat (map slot_entry (zip ks vs))) \<longleftrightarrow>
   (\<exists>i < length ks. ks ! i = Some k \<and> vs ! i = v)"
proof (induction ks vs rule: list_induct2)
  case Nil
  then show ?case by simp
next
  case (Cons x xs y ys)
  show ?case
    using Cons.IH by (cases x) (auto simp: less_Suc_eq_0_disj)
qed

lemma slot_entries_distinct:
  "length ks = length vs \<Longrightarrow>
   (\<And>i j. i < length ks \<Longrightarrow> j < length ks \<Longrightarrow> ks ! i \<noteq> None \<Longrightarrow> ks ! i = ks ! j \<Longrightarrow> i = j) \<Longrightarrow>
   distinct (map fst (concat (map slot_entry (zip ks vs))))"
proof (induction ks vs rule: list_induct2)
  case Nil
  then show ?case by simp
next
  case (Cons x xs y ys)
  have "distinct (map fst (concat (map slot_entry (zip xs ys))))"
  proof (rule Cons.IH)
    fix i j
    assume "i < length xs" "j < length xs" "xs ! i \<noteq> None" "xs ! i = xs ! j"
    then show "i = j" using Cons.prems [of "Suc i" "Suc j"] by simp
  qed
  moreover have "k \<notin> fst ` set (concat (map slot_entry (zip xs ys)))" if "x = Some k" for k
  proof
    assume "k \<in> fst ` set (concat (map slot_entry (zip xs ys)))"
    then obtain v where "(k, v) \<in> set (concat (map slot_entry (zip xs ys)))" by force
    then obtain i where "i < length xs" "xs ! i = Some k"
      using slot_entries_in [OF Cons.hyps(1)] by blast
    then show False using Cons.prems [of 0 "Suc i"] that by simp
  qed
  ultimately show ?case by (cases x) auto
qed

lemma dict_entries_distinct: "dict_inv d \<Longrightarrow> distinct (map fst (dict_entries d))"
  unfolding dict_entries_def by (rule slot_entries_distinct) (auto simp: dict_inv_def)

lemma map_of_dict_entries:
  assumes "dict_inv d"
  shows "map_of (dict_entries d) = dict_map d"
proof
  fix k
  have "map_of (dict_entries d) k = Some v \<longleftrightarrow> dict_map d k = Some v" for v
    using dict_entries_distinct [OF assms] dict_map_Some [OF assms]
      slot_entries_in [of "d_key d" "d_val d" k v] assms
    by (auto simp: dict_entries_def dict_inv_def)
  then show "map_of (dict_entries d) k = dict_map d k"
    by (metis option.exhaust)
qed

lemma dict_new_dense: "dictionary_new ok n = Some d \<Longrightarrow> dict_dense d \<and> dict_entries d = []"
  using dictionary_new_inv [of ok n d]
  by (auto simp: dict_dense_def dict_exact_def dictionary_new_def dict_entries_def Let_def zip_replicate
      split: if_splits)

section \<open>The store interface\<close>

text \<open>
  What the INI layer and the parameter layer rely on: a partial map from keys to
  (possibly NULL) values that put and del update, where put returns.
\<close>

locale string_store =
  fixes lookup :: "'s \<Rightarrow> string \<Rightarrow> string option option"
    and put :: "'s \<Rightarrow> string \<Rightarrow> string option \<Rightarrow> 's option"
    and del :: "'s \<Rightarrow> string \<Rightarrow> 's"
    and invar :: "'s \<Rightarrow> bool"
  assumes put_total: "invar s \<Longrightarrow> \<exists>t. put s k v = Some t"
    and put_invar: "invar s \<Longrightarrow> put s k v = Some t \<Longrightarrow> invar t"
    and lookup_put: "invar s \<Longrightarrow> put s k v = Some t \<Longrightarrow> lookup t = (lookup s)(k \<mapsto> v)"
    and del_invar: "invar s \<Longrightarrow> invar (del s k)"
    and lookup_del: "invar s \<Longrightarrow> lookup (del s k) = (lookup s)(k := None)"

text \<open>A sequence of assignments, as a loader makes them.\<close>

fun put_all :: "('s \<Rightarrow> 'k \<Rightarrow> 'v \<Rightarrow> 's option) \<Rightarrow> 's \<Rightarrow> ('k \<times> 'v) list \<Rightarrow> 's option" where
  "put_all put s [] = Some s"
| "put_all put s ((k, v) # kvs) =
     (case put s k v of None \<Rightarrow> None | Some t \<Rightarrow> put_all put t kvs)"

context string_store begin

lemma put_all_spec:
  "invar s \<Longrightarrow> \<exists>t. put_all put s kvs = Some t \<and> invar t \<and> lookup t = lookup s ++ map_of (rev kvs)"
proof (induction kvs arbitrary: s)
  case Nil
  then show ?case by simp
next
  case (Cons kv kvs)
  obtain k v where kv: "kv = (k, v)" by fastforce
  obtain t where t: "put s k v = Some t" using put_total [OF Cons.prems] by blast
  have t': "lookup t = lookup s ++ [k \<mapsto> v]" "invar t"
    using lookup_put [OF Cons.prems t] put_invar [OF Cons.prems t] by auto
  from Cons.IH [OF t'(2)] t kv show ?case
    by (auto simp: t'(1) map_of_append simp del: map_add_upd)
qed

lemma put_overrides:
  "invar s \<Longrightarrow> put s k v = Some t \<Longrightarrow> put t k w = Some u \<Longrightarrow>
   lookup u = (lookup s)(k \<mapsto> w)"
  by (metis fun_upd_upd lookup_put put_invar)

lemma del_put:
  "invar s \<Longrightarrow> put s k v = Some t \<Longrightarrow> lookup (del t k) = (lookup s)(k := None)"
  by (metis fun_upd_upd lookup_del lookup_put put_invar)

end

definition dict_put_ok_state :: "dictionary \<Rightarrow> string \<Rightarrow> string option \<Rightarrow> dictionary option" where
  "dict_put_ok_state d k v = map_option snd (dict_put alloc_ok d k v)"

interpretation dict: string_store dict_map dict_put_ok_state dict_del dict_inv
proof unfold_locales
  fix d k v e
  assume inv: "dict_inv d"
  obtain f where f: "dict_put alloc_ok d k v = Some (0, f)" "dict_inv f" "dict_map f = (dict_map d)(k \<mapsto> v)"
    using dict_put_ok [OF inv] by blast
  then show "\<exists>t. dict_put_ok_state d k v = Some t"
    by (simp add: dict_put_ok_state_def)
  show "dict_put_ok_state d k v = Some e \<Longrightarrow> dict_inv e"
    "dict_put_ok_state d k v = Some e \<Longrightarrow> dict_map e = (dict_map d)(k \<mapsto> v)"
    using f by (auto simp: dict_put_ok_state_def)
  show "dict_inv (dict_del d k)" "dict_map (dict_del d k) = (dict_map d)(k := None)"
    using dict_del_spec [OF inv] by auto
qed


text \<open>Any finite list of assignments has a well-formed dictionary that holds it.\<close>

lemma dict_with_entries: "\<exists>d. dict_inv d \<and> dict_map d = map_of (rev kvs)"
proof -
  obtain d0 where "dictionary_new True 0 = Some d0" by (simp add: dictionary_new_def Let_def)
  from dictionary_new_inv [OF this] dict.put_all_spec [of d0 kvs] show ?thesis
    by (auto simp: dict_exact_def)
qed

section \<open>Properties\<close>


text \<open>The empty dictionary the loader starts with.\<close>

definition fresh_dict :: dictionary where
  "fresh_dict = the (dictionary_new True 0)"

lemma fresh_dict: "dictionary_new True 0 = Some fresh_dict"
  by (simp add: fresh_dict_def dictionary_new_def Let_def)

lemma fresh_dict_props [simp]: "dict_inv fresh_dict" "dict_map fresh_dict = Map.empty" "d_n fresh_dict = 0"
  using dictionary_new_inv [OF fresh_dict] by (auto simp: dict_exact_def)


text \<open>C34. Whatever allocations fail, an assignment returns (the probe for a free slot ends, also
  with gaps and after growth), with 0 or -1, keeps the dictionary well formed, and -1 means
  that nothing was changed.\<close>

theorem dictionary_set_total:
  assumes "dict_inv d"
  shows "\<exists>rc e. dictionary_set mem (Some d) (Some k) v = Some (rc, Some e) \<and> dict_inv e \<and>
           rc \<in> {0, -1} \<and> (rc = -1 \<longrightarrow> e = d \<and> \<not> a_grow mem)"
proof -
  obtain rc e where e: "dict_put mem d k v = Some (rc, e)" "dict_inv e"
      "a_grow mem \<longrightarrow> rc = 0" "rc \<noteq> 0 \<longrightarrow> rc = -1 \<and> e = d"
    using dict_put_spec [OF assms] by blast
  have "dictionary_set mem (Some d) (Some k) v = Some (rc, Some e)"
    using e(1) by simp
  moreover have "rc \<in> {0, -1}" using e(4) by blast
  moreover have "rc = -1 \<longrightarrow> e = d \<and> \<not> a_grow mem"
  proof
    assume "rc = -1"
    then have "rc \<noteq> 0" by simp
    with e(3,4) show "e = d \<and> \<not> a_grow mem" by blast
  qed
  ultimately show ?thesis using e(2) by blast
qed

theorem dictionary_set_total_witness:
  "\<exists>rc e. dictionary_set \<lparr>a_grow = False, a_key = False, a_val = True\<rparr>
      (Some fresh_dict) (Some ''k'') None = Some (rc, Some e) \<and> dict_inv e"
  using dictionary_set_total [OF fresh_dict_props(1)] by blast

text \<open>Removing a key makes it absent and leaves every other key as it was; removing an absent
  key changes nothing.\<close>

theorem dictionary_unset_spec:
  assumes "dict_inv d"
  shows "\<exists>e. dictionary_unset (Some d) (Some k) = Some e \<and> dict_inv e \<and>
           dictionary_get e k def = def \<and>
           (\<forall>k' def. k' \<noteq> k \<longrightarrow> dictionary_get e k' def = dictionary_get d k' def) \<and>
           (dict_map d k = None \<longrightarrow> e = d)"
proof -
  have "dict_map d k = None \<Longrightarrow> dict_del d k = d"
    by (simp add: dict_map_def dict_del_def)
  then show ?thesis
    using dict_del_spec [OF assms, of k] by (auto simp: dict_simps)
qed

theorem dictionary_unset_spec_witness:
  "\<exists>e. dictionary_unset (Some fresh_dict) (Some ''k'') = Some e \<and>
       dictionary_get e ''k'' (Str ''x'') = Str ''x''"
  using dictionary_unset_spec [OF fresh_dict_props(1), of "''k''" "Str ''x''"] by blast

text \<open>When only the copy of a new key cannot be allocated, the assignment still reports success
  although the key is not stored: the caller cannot tell, and the slot counter is one too high.\<close>

theorem dictionary_set_lost_key:
  assumes "dict_inv d" and "dict_map d k = None" and "a_grow mem" and "\<not> a_key mem"
  shows "\<exists>e. dictionary_set mem (Some d) (Some k) v = Some (0, Some e) \<and>
           dictionary_get e k def = def \<and> d_n e = Suc (d_n d)"
proof -
  have nf: "dict_find d (dictionary_hash (Some k)) k 0 = None"
    using assms(2) by (simp add: dict_map_def)
  obtain f where f: "(if d_n d = d_size d then dictionary_grow mem d else (0, d)) = (0, f)"
      "dict_inv f" "dict_map f = dict_map d" "d_n f = d_n d" "d_n f < d_size f"
  proof (cases "d_n d = d_size d")
    case True
    with assms dictionary_grow_inv [OF assms(1), of mem] show ?thesis
      by (intro that [of "snd (dictionary_grow mem d)"]) (auto simp: dictionary_grow_def dict_inv_def)
  next
    case False
    with assms show ?thesis by (intro that [of d]) (auto simp: dict_inv_def)
  qed
  from dict_probe_total [OF f(2,5)] obtain i where
    i: "i < d_size f" "dict_probe (d_size f) f (d_n f) = Some i" "d_key f ! i = None" by blast
  let ?e = "f\<lparr>d_key := (d_key f)[i := None], d_val := (d_val f)[i := xstrdup (a_val mem) v],
              d_hash := (d_hash f)[i := dictionary_hash (Some k)], d_n := Suc (d_n f)\<rparr>"
  have "dict_put mem d k v = Some (0, ?e)"
    unfolding dict_put_def Let_def f(1) using assms(4) i nf by (simp add: xstrdup_def)
  moreover have "dict_map ?e k = None"
    using dict_fill_failed [OF f(2,5) i(1,3)] f(3) assms(2) by simp
  ultimately show ?thesis
    using f(4) by (auto simp: dict_simps)
qed

theorem dictionary_set_lost_key_witness:
  "\<exists>e. dictionary_set \<lparr>a_grow = True, a_key = False, a_val = True\<rparr>
         (Some fresh_dict) (Some ''k'') (Some ''v'') = Some (0, Some e) \<and>
       dictionary_get e ''k'' Null = Null \<and> d_n e = Suc (d_n fresh_dict)"
  by (intro dictionary_set_lost_key) auto

end
