(* ===== verification/CNumbers.thy ===== *)
theory CNumbers
  imports IpcPrelude
begin

text \<open>
  The decimal conversions of the C library the program uses: \<^verbatim>\<open>printf\<close> of integers, with
  zero padding, and \<^verbatim>\<open>strtol\<close> in base 0 and 10 with the 32-bit \<^verbatim>\<open>long\<close> of the ARM target
  (the value, the rest of the string, whether the value was clamped). The round-trip
  lemmas are what every component that prints and reads back a number rests on.
\<close>

section \<open>Printing\<close>

definition digit_char :: "nat \<Rightarrow> char" where
  "digit_char n = char_of (48 + n)"

fun show_nat :: "nat \<Rightarrow> string" where
  "show_nat n = (if n < 10 then [digit_char n] else show_nat (n div 10) @ [digit_char (n mod 10)])"

declare show_nat.simps [simp del]

definition show_int :: "int \<Rightarrow> string" where
  "show_int i = (if i < 0 then CHR ''-'' # show_nat (nat (- i)) else show_nat (nat i))"

text \<open>\<^verbatim>\<open>%0wd\<close> of a value that is not negative.\<close>

definition show_pad :: "nat \<Rightarrow> nat \<Rightarrow> string" where
  "show_pad w n = replicate (w - length (show_nat n)) CHR ''0'' @ show_nat n"

section \<open>Reading\<close>

definition digit_val :: "char \<Rightarrow> nat option" where
  "digit_val c =
     (let n = ccode c
      in if 48 \<le> n \<and> n \<le> 57 then Some (n - 48)
         else if 97 \<le> n \<and> n \<le> 122 then Some (n - 87)
         else if 65 \<le> n \<and> n \<le> 90 then Some (n - 55)
         else None)"

definition is_digit :: "nat \<Rightarrow> char \<Rightarrow> bool" where
  "is_digit base c = (case digit_val c of None \<Rightarrow> False | Some v \<Rightarrow> v < base)"

abbreviation c_isdigit :: "char \<Rightarrow> bool" where
  "c_isdigit \<equiv> is_digit 10"

fun read_digits :: "nat \<Rightarrow> nat \<Rightarrow> string \<Rightarrow> nat \<times> string" where
  "read_digits base acc [] = (acc, [])"
| "read_digits base acc (c # cs) =
     (if is_digit base c then read_digits base (acc * base + the (digit_val c)) cs
      else (acc, c # cs))"

text \<open>Base and digits of \<^verbatim>\<open>strtol(s, &end, 0)\<close> after blanks and sign.\<close>

fun strtol_base :: "string \<Rightarrow> nat \<times> string" where
  "strtol_base (z # x # h # r) =
     (if z = CHR ''0'' then
        (if (x = CHR ''x'' \<or> x = CHR ''X'') \<and> is_digit 16 h then (16, h # r) else (8, z # x # h # r))
      else (10, z # x # h # r))"
| "strtol_base (z # r) = (if z = CHR ''0'' then (8, z # r) else (10, z # r))"
| "strtol_base [] = (10, [])"

definition LONG_MAX :: int where "LONG_MAX = 2147483647"
definition LONG_MIN :: int where "LONG_MIN = - 2147483648"

definition clamp_long :: "int \<Rightarrow> int \<times> bool" where
  "clamp_long v = (if v > LONG_MAX then (LONG_MAX, True)
                   else if v < LONG_MIN then (LONG_MIN, True) else (v, False))"

definition strtol_number :: "nat \<Rightarrow> bool \<Rightarrow> string \<Rightarrow> string \<Rightarrow> int \<times> string \<times> bool" where
  "strtol_number base neg s s2 =
     (case (if base = 0 then strtol_base s2 else (base, s2)) of
        (b, ds) \<Rightarrow>
          if ds = [] \<or> \<not> is_digit b (hd ds) then (0, s, False)
          else (case read_digits b 0 ds of
                  (n, rest) \<Rightarrow>
                    (case clamp_long (if neg then - int n else int n) of
                       (v, erange) \<Rightarrow> (v, rest, erange))))"

definition c_strtol :: "nat \<Rightarrow> string \<Rightarrow> int \<times> string \<times> bool" where
  "c_strtol base s =
     (case dropWhile c_isspace s of
        [] \<Rightarrow> (0, s, False)
      | c # cs \<Rightarrow>
          strtol_number base (c = CHR ''-'') s
            (if c = CHR ''-'' \<or> c = CHR ''+'' then cs else c # cs))"

section \<open>Lemmas\<close>

lemma digit_char_0 [simp]: "digit_char 0 = CHR ''0''"
  by (rule iffD1 [OF of_char_eq_iff [where 'a = nat]]) (simp add: digit_char_def)

lemma ccode_digit_char [simp]: "n < 10 \<Longrightarrow> ccode (digit_char n) = 48 + n"
  by (simp add: digit_char_def)

lemma digit_val_digit_char [simp]: "n < 10 \<Longrightarrow> digit_val (digit_char n) = Some n"
  by (simp add: digit_val_def)

lemma is_digit_digit_char [simp]: "n < 10 \<Longrightarrow> is_digit b (digit_char n) = (n < b)"
  by (simp add: is_digit_def)

lemma not_space_digit_char [simp]: "n < 10 \<Longrightarrow> \<not> c_isspace (digit_char n)"
  by (simp add: c_isspace_def)

lemma digit_char_inj [simp]: "m < 10 \<Longrightarrow> n < 10 \<Longrightarrow> digit_char m = digit_char n \<longleftrightarrow> m = n"
  by (metis digit_val_digit_char option.inject)

lemma c_isdigit_iff: "c_isdigit c \<longleftrightarrow> 48 \<le> ccode c \<and> ccode c \<le> 57"
  by (auto simp: is_digit_def digit_val_def Let_def)

lemma c_isdigit_digit_char: "c_isdigit c \<Longrightarrow> \<exists>n < 10. c = digit_char n"
  by (rule exI [of _ "ccode c - 48"]) (auto simp: c_isdigit_iff digit_char_def)

lemma is_digit_mono: "is_digit b c \<Longrightarrow> b \<le> b' \<Longrightarrow> is_digit b' c"
  by (auto simp: is_digit_def split: option.splits)

lemma digit_char_neq_sign [simp]:
  "n < 10 \<Longrightarrow> digit_char n \<noteq> CHR ''-''" "n < 10 \<Longrightarrow> digit_char n \<noteq> CHR ''+''"
  "n < 10 \<Longrightarrow> digit_char n \<noteq> CHR ''x''" "n < 10 \<Longrightarrow> digit_char n \<noteq> CHR ''X''"
  by (auto dest!: arg_cong [where f = digit_val] simp: digit_val_def)

lemma show_nat_digits: "c \<in> set (show_nat n) \<Longrightarrow> c_isdigit c"
proof (induction n rule: show_nat.induct)
  case (1 n)
  then show ?case
    by (subst (asm) (2) show_nat.simps) (auto split: if_splits)
qed

lemma show_nat_nonempty [simp]: "show_nat n \<noteq> []"
  by (subst show_nat.simps) simp

lemma show_nat_nonempty' [simp]: "[] \<noteq> show_nat n"
  by (metis show_nat_nonempty)

lemma read_digits_append:
  "read_digits b acc (xs @ ys) =
     (case read_digits b acc xs of (n, []) \<Rightarrow> read_digits b n ys | (n, r) \<Rightarrow> (n, r @ ys))"
  by (induction b acc xs rule: read_digits.induct) (auto split: list.splits)

lemma read_digits_show_nat:
  "read_digits 10 0 (show_nat n) = (n, [])"
proof (induction n rule: show_nat.induct)
  case (1 n)
  show ?case
  proof (cases "n < 10")
    case True
    then show ?thesis by (subst show_nat.simps) simp
  next
    case False
    then show ?thesis
      by (subst show_nat.simps) (simp add: read_digits_append 1)
  qed
qed

lemma read_digits_show_nat_append [simp]:
  "rest = [] \<or> \<not> c_isdigit (hd rest) \<Longrightarrow> read_digits 10 0 (show_nat n @ rest) = (n, rest)"
  by (cases rest) (auto simp: read_digits_append read_digits_show_nat)

lemma show_nat_inj: "show_nat m = show_nat n \<Longrightarrow> m = n"
  by (metis prod.inject read_digits_show_nat)

lemma hd_show_nat_zero: "hd (show_nat n) = CHR ''0'' \<longleftrightarrow> n = 0"
proof (induction n rule: show_nat.induct)
  case (1 n)
  have z: "CHR ''0'' = digit_char 0" by simp
  show ?case
  proof (cases "n < 10")
    case True
    then show ?thesis by (subst show_nat.simps) (simp add: z del: digit_char_0)
  next
    case False
    then show ?thesis
      using 1 by (subst show_nat.simps) simp
  qed
qed

lemma show_nat_0 [simp]: "show_nat 0 = ''0''"
  by (subst show_nat.simps) simp

lemma length_show_nat: "n < 10 ^ k \<Longrightarrow> 0 < k \<Longrightarrow> length (show_nat n) \<le> k"
proof (induction k arbitrary: n)
  case 0
  then show ?case by simp
next
  case (Suc k)
  show ?case
  proof (cases "n < 10")
    case True
    then show ?thesis by (subst show_nat.simps) simp
  next
    case False
    with Suc.prems have "0 < k" "n div 10 < 10 ^ k" by (cases k; auto)+
    with Suc.IH [of "n div 10"] False show ?thesis
      by (subst show_nat.simps) simp
  qed
qed

lemma show_nat_hd:
  "c_isdigit (hd (show_nat n))"
  using show_nat_digits [of "hd (show_nat n)" n] by simp

lemma strtol_base_other:
  "s \<noteq> [] \<Longrightarrow> hd s \<noteq> CHR ''0'' \<Longrightarrow> strtol_base s = (10, s)"
  by (cases s rule: strtol_base.cases) auto

lemma strtol_number_show:
  assumes "base = 0 \<or> base = 10"
  shows "strtol_number base neg s (show_nat n) =
         (case clamp_long (if neg then - int n else int n) of (v, e) \<Rightarrow> (v, [], e))"
proof (cases "base = 0 \<and> n = 0")
  case True
  then show ?thesis
    by (simp add: strtol_number_def is_digit_def digit_val_def)
next
  case False
  with assms have b: "(if base = 0 then strtol_base (show_nat n) else (base, show_nat n)) = (10, show_nat n)"
    using strtol_base_other [of "show_nat n"] hd_show_nat_zero [of n] by auto
  show ?thesis
    unfolding strtol_number_def b by (simp add: read_digits_show_nat show_nat_hd)
qed

lemma strtol_show_nat:
  assumes "base = 0 \<or> base = 10"
  shows "c_strtol base (show_nat n) = (case clamp_long (int n) of (v, e) \<Rightarrow> (v, [], e))"
proof -
  obtain m cs where m: "m < 10" "show_nat n = digit_char m # cs"
    using c_isdigit_digit_char [OF show_nat_hd] by (metis list.collapse show_nat_nonempty)
  then show ?thesis
    using strtol_number_show [OF assms, of False "show_nat n" n] by (simp add: c_strtol_def)
qed

lemma strtol_neg_show_nat:
  assumes "base = 0 \<or> base = 10"
  shows "c_strtol base (CHR ''-'' # show_nat n) = (case clamp_long (- int n) of (v, e) \<Rightarrow> (v, [], e))"
proof -
  have "\<not> c_isspace CHR ''-''" by (simp add: c_isspace_def)
  then show ?thesis
    using strtol_number_show [OF assms, of True "CHR ''-'' # show_nat n" n] by (simp add: c_strtol_def)
qed

lemma strtol_show_int:
  assumes "base = 0 \<or> base = 10"
  shows "c_strtol base (show_int i) = (case clamp_long i of (v, e) \<Rightarrow> (v, [], e))"
  using strtol_show_nat [OF assms, of "nat i"] strtol_neg_show_nat [OF assms, of "nat (- i)"]
  by (simp add: show_int_def)

lemma clamp_long_id [simp]: "LONG_MIN \<le> v \<Longrightarrow> v \<le> LONG_MAX \<Longrightarrow> clamp_long v = (v, False)"
  by (simp add: clamp_long_def)


text \<open>A digit sequence without a leading zero is the decimal print of its value.\<close>

lemma show_nat_snoc: "0 < m \<Longrightarrow> x < 10 \<Longrightarrow> show_nat (10 * m + x) = show_nat m @ [digit_char x]"
  by (subst show_nat.simps) simp

lemma digits_show_nat:
  assumes "ds \<noteq> []" "\<forall>c \<in> set ds. c_isdigit c" "length ds = 1 \<or> hd ds \<noteq> CHR ''0''"
  shows "\<exists>n. ds = show_nat n"
  using assms
proof (induction ds rule: rev_induct)
  case Nil
  then show ?case by simp
next
  case (snoc c cs)
  obtain x where x: "x < 10" "c = digit_char x"
    using snoc.prems(2) c_isdigit_digit_char by auto
  show ?case
  proof (cases "cs = []")
    case True
    with x show ?thesis by (intro exI [of _ x]) (subst show_nat.simps, simp)
  next
    case False
    with snoc obtain m where m: "cs = show_nat m" by auto
    with snoc.prems(3) False have "m \<noteq> 0"
      using hd_show_nat_zero [of m] by (cases cs) auto
    with m x show ?thesis by (intro exI [of _ "10 * m + x"]) (simp add: show_nat_snoc)
  qed
qed

lemma read_digits_rest:
  "read_digits b a s = (n, r) \<Longrightarrow> \<exists>p. s = p @ r \<and> (\<forall>c \<in> set p. is_digit b c) \<and> (r = [] \<or> \<not> is_digit b (hd r))"
proof (induction b a s arbitrary: n r rule: read_digits.induct)
  case (1 base acc)
  then show ?case by simp
next
  case (2 base acc c cs)
  show ?case
  proof (cases "is_digit base c")
    case True
    with 2 obtain p where "cs = p @ r" "\<forall>c \<in> set p. is_digit base c" "r = [] \<or> \<not> is_digit base (hd r)"
      by auto
    with True show ?thesis by (intro exI [of _ "c # p"]) simp
  qed (use 2 in auto)
qed

end
