(* ===== verification/IniParser.thy ===== *)
theory IniParser
  imports Dictionary CNumbers
begin

text \<open>
  The INI reader and writer of \<^verbatim>\<open>common/param/iniparser.c\<close> over the dictionary: the line
  classifier with the \<^verbatim>\<open>sscanf\<close> directives it uses, the loading loop with continuation
  lines, the typed getters with the \<^verbatim>\<open>strtol\<close> of a 32-bit \<^verbatim>\<open>long\<close> (the ARM target), the
  enumerating functions and the two dump functions, whose output is returned as text.
\<close>

section \<open>String helpers\<close>

definition ASCIILINESZ :: nat where
  "ASCIILINESZ = 1024"

definition strlwc :: "string option \<Rightarrow> nat \<Rightarrow> string option" where
  "strlwc inp len =
     (case inp of
        None \<Rightarrow> None
      | Some s \<Rightarrow> if len = 0 then None else Some (map c_tolower (take (len - 1) s)))"

definition rstrip :: "string \<Rightarrow> string" where
  "rstrip s = rev (dropWhile c_isspace (rev s))"

definition strstrip :: "string \<Rightarrow> string" where
  "strstrip s = rstrip (dropWhile c_isspace s)"

text \<open>The \<^verbatim>\<open>sscanf\<close> directives: a scan set takes at least one character, a blank any number.\<close>

definition scan_set :: "(char \<Rightarrow> bool) \<Rightarrow> string \<Rightarrow> (string \<times> string) option" where
  "scan_set P s = (case takeWhile P s of [] \<Rightarrow> None | t \<Rightarrow> Some (t, dropWhile P s))"

definition scan_ws :: "string \<Rightarrow> string" where
  "scan_ws s = dropWhile c_isspace s"

definition scan_lit :: "char \<Rightarrow> string \<Rightarrow> string option" where
  "scan_lit c s = (case s of x # r \<Rightarrow> if x = c then Some r else None | [] \<Rightarrow> None)"

text \<open>\<^verbatim>\<open>%[^=] =\<close> followed by blanks: the key and what is left after the sign.\<close>

definition scan_key :: "string \<Rightarrow> (string \<times> string) option" where
  "scan_key line =
     (case scan_set (\<lambda>c. c \<noteq> CHR ''='') line of
        None \<Rightarrow> None
      | Some (k, r) \<Rightarrow>
          (case scan_lit CHR ''='' (scan_ws r) of
             None \<Rightarrow> None
           | Some r' \<Rightarrow> Some (k, scan_ws r')))"

definition scan_quoted :: "char \<Rightarrow> string \<Rightarrow> (string \<times> string) option" where
  "scan_quoted q line =
     (case scan_key line of
        None \<Rightarrow> None
      | Some (k, r) \<Rightarrow>
          (case scan_lit q r of
             None \<Rightarrow> None
           | Some r' \<Rightarrow> (case scan_set (\<lambda>c. c \<noteq> q) r' of None \<Rightarrow> None | Some (v, _) \<Rightarrow> Some (k, v))))"

abbreviation comment_char :: "char \<Rightarrow> bool" where
  "comment_char c \<equiv> c = CHR '';'' \<or> c = CHR ''#''"

definition scan_plain :: "string \<Rightarrow> (string \<times> string) option" where
  "scan_plain line =
     (case scan_key line of
        None \<Rightarrow> None
      | Some (k, r) \<Rightarrow>
          (case scan_set (\<lambda>c. \<not> comment_char c) r of None \<Rightarrow> None | Some (v, _) \<Rightarrow> Some (k, v)))"

definition scan_empty_comment :: "string \<Rightarrow> (string \<times> string) option" where
  "scan_empty_comment line =
     (case scan_key line of
        None \<Rightarrow> None
      | Some (k, r) \<Rightarrow>
          (case scan_set comment_char r of None \<Rightarrow> None | Some (v, _) \<Rightarrow> Some (k, v)))"

definition scan_bare :: "string \<Rightarrow> (string \<times> string) option" where
  "scan_bare line =
     (case scan_set (\<lambda>c. c \<noteq> CHR ''='') line of
        None \<Rightarrow> None
      | Some (k, r) \<Rightarrow>
          (case scan_set (\<lambda>c. c = CHR ''='') (scan_ws r) of None \<Rightarrow> None | Some (v, _) \<Rightarrow> Some (k, v)))"

section \<open>One line\<close>

text \<open>
  The status of a line, with the output buffers it makes meaningful. The section buffer
  keeps its old contents where \<^verbatim>\<open>sscanf\<close> assigns nothing.
\<close>

datatype line_status =
    LINE_ERROR
  | LINE_EMPTY
  | LINE_COMMENT
  | LINE_SECTION string
  | LINE_VALUE string string

definition lower_upto :: "nat \<Rightarrow> string \<Rightarrow> string" where
  "lower_upto len s = map c_tolower (take (len - 1) s)"

definition iniparser_line :: "string \<Rightarrow> string \<Rightarrow> line_status" where
  "iniparser_line sec input_line =
     (let line = strstrip input_line; len = length line
      in if len < 1 then LINE_EMPTY
         else if hd line = CHR ''#'' \<or> hd line = CHR '';'' then LINE_COMMENT
         else if hd line = CHR ''['' \<and> last line = CHR '']'' then
           (let buf = (case scan_set (\<lambda>c. c \<noteq> CHR '']'') (tl line) of None \<Rightarrow> sec | Some (t, _) \<Rightarrow> t)
            in LINE_SECTION (lower_upto len (strstrip buf)))
         else
           (case (case scan_quoted (CHR 0x22) line of
                    Some kv \<Rightarrow> Some kv
                  | None \<Rightarrow> scan_quoted (CHR 0x27) line) of
              Some (k, v) \<Rightarrow> LINE_VALUE (lower_upto len (strstrip k)) v
            | None \<Rightarrow>
                (case scan_plain line of
                   Some (k, v) \<Rightarrow>
                     (let w = strstrip v
                      in LINE_VALUE (lower_upto len (strstrip k))
                           (if w = [CHR 0x22, CHR 0x22] \<or> w = [CHR 0x27, CHR 0x27] then [] else w))
                 | None \<Rightarrow>
                     (case (case scan_empty_comment line of
                              Some kv \<Rightarrow> Some kv
                            | None \<Rightarrow> scan_bare line) of
                        Some (k, v) \<Rightarrow> LINE_VALUE (lower_upto len (strstrip k)) []
                      | None \<Rightarrow> LINE_ERROR))))"

section \<open>Loading a file\<close>

text \<open>
  \<^verbatim>\<open>fgets(buf, n, in)\<close> on the characters left in the file: the chunk read, what is left,
  and whether the end of the file was met. It is only called with \<open>n \<ge> 2\<close>.
\<close>

definition c_fgets :: "nat \<Rightarrow> string \<Rightarrow> string \<times> string \<times> bool" where
  "c_fgets n s =
     (let t = take (n - 1) s;
          got = (if NL \<in> set t then takeWhile (\<lambda>c. c \<noteq> NL) t @ [NL] else t)
      in (got, drop (length got) s, NL \<notin> set t \<and> length s < n - 1))"

lemma c_fgets_decreases:
  "s \<noteq> [] \<Longrightarrow> 2 \<le> n \<Longrightarrow> c_fgets n s = (got, rest, eof) \<Longrightarrow> length rest < length s"
  by (cases s; cases n) (auto simp: c_fgets_def Let_def split: if_splits)

text \<open>
  The loop of \<^verbatim>\<open>iniparser_load\<close>: \<open>pend\<close> is the joined prefix of a continued line (of
  length \<^verbatim>\<open>last\<close>), \<open>sec\<close> the section buffer, \<open>errs\<close> whether a line had a syntax error.
  The outer \<open>None\<close> is a call that does not return, the inner one the NULL result.
\<close>

definition pend_limit :: "string \<Rightarrow> nat" where
  "pend_limit pend = max 2 (ASCIILINESZ - length pend)"

lemma c_fgets_rest_less [simp]:
  "(got, rest', eof) = c_fgets (pend_limit pend) s \<Longrightarrow> s \<noteq> [] \<Longrightarrow> length rest' < length s"
  by (rule c_fgets_decreases [OF _ _ sym]) (auto simp: pend_limit_def)

function ini_loop ::
  "(nat \<Rightarrow> dict_alloc) \<Rightarrow> bool \<Rightarrow> string \<Rightarrow> string \<Rightarrow> string \<Rightarrow> dictionary \<Rightarrow> nat \<Rightarrow> bool
     \<Rightarrow> dictionary option option" where
  "ini_loop mem ferr rest pend sec d lineno errs =
     (if rest = [] then
        Some (if errs \<or> ferr \<or> pend \<noteq> [] then None else Some d)
      else
        (case c_fgets (pend_limit pend) rest of
           (chunk, rest', eof) \<Rightarrow>
             (let buf = cstr (pend @ chunk); lineno' = Suc lineno
              in if length buf \<le> 1 then ini_loop mem ferr rest' pend sec d lineno' errs
                 else if last buf \<noteq> NL \<and> \<not> eof then Some None
                 else
                   (let line = rstrip buf
                    in if line \<noteq> [] \<and> last line = CHR 0x5C
                       then ini_loop mem ferr rest' (butlast line) sec d lineno' errs
                       else
                         (case iniparser_line sec line of
                            LINE_EMPTY \<Rightarrow> ini_loop mem ferr rest' [] sec d lineno' errs
                          | LINE_COMMENT \<Rightarrow> ini_loop mem ferr rest' [] sec d lineno' errs
                          | LINE_ERROR \<Rightarrow> ini_loop mem ferr rest' [] sec d lineno' True
                          | LINE_SECTION sec' \<Rightarrow>
                              (case dictionary_set (mem lineno') (Some d) (Some sec') None of
                                 Some (rc, Some d') \<Rightarrow>
                                   if rc < 0 then Some None
                                   else ini_loop mem ferr rest' [] sec' d' lineno' errs
                               | _ \<Rightarrow> None)
                          | LINE_VALUE k v \<Rightarrow>
                              (case dictionary_set (mem lineno') (Some d) (Some (sec @ '':'' @ k)) (Some v) of
                                 Some (rc, Some d') \<Rightarrow>
                                   if rc < 0 then Some None
                                   else ini_loop mem ferr rest' [] sec d' lineno' errs
                               | _ \<Rightarrow> None))))))"
  by pat_completeness auto
termination
  by (relation "measure (\<lambda>(mem, ferr, rest, pend, sec, d, lineno, errs). length rest)")
    (use c_fgets_rest_less in auto)

declare ini_loop.simps [simp del]

text \<open>\<open>content\<close> is what can be read of the file, \<open>None\<close> when it cannot be opened.\<close>

definition iniparser_load :: "(nat \<Rightarrow> dict_alloc) \<Rightarrow> bool \<Rightarrow> bool \<Rightarrow> string option \<Rightarrow> dictionary option option" where
  "iniparser_load mem new_ok ferr content =
     (case content of
        None \<Rightarrow> Some None
      | Some text \<Rightarrow>
          (case dictionary_new new_ok 0 of
             None \<Rightarrow> Some None
           | Some d \<Rightarrow> ini_loop mem ferr text [] [] d 0 False))"


section \<open>Reading entries\<close>

definition iniparser_getstring :: "dictionary option \<Rightarrow> string option \<Rightarrow> cptr \<Rightarrow> cptr" where
  "iniparser_getstring d key def =
     (case d of
        None \<Rightarrow> def
      | Some d \<Rightarrow>
          (case strlwc key (ASCIILINESZ + 1) of
             None \<Rightarrow> def
           | Some lc_key \<Rightarrow> dictionary_get d lc_key def))"

text \<open>
  The typed getters: \<open>None\<close> is the undefined behaviour of reading through the NULL value a
  section entry has.
\<close>

definition iniparser_getlongint :: "dictionary option \<Rightarrow> string option \<Rightarrow> int \<Rightarrow> int option" where
  "iniparser_getlongint d key notfound =
     (case iniparser_getstring d key Invalid_key of
        Invalid_key \<Rightarrow> Some notfound
      | Null \<Rightarrow> None
      | Str s \<Rightarrow> Some (fst (c_strtol 0 s)))"

definition iniparser_getint :: "dictionary option \<Rightarrow> string option \<Rightarrow> int \<Rightarrow> int option" where
  "iniparser_getint d key notfound = iniparser_getlongint d key notfound"

definition iniparser_getboolean :: "dictionary option \<Rightarrow> string option \<Rightarrow> int \<Rightarrow> int option" where
  "iniparser_getboolean d key notfound =
     (case iniparser_getstring d key Invalid_key of
        Invalid_key \<Rightarrow> Some notfound
      | Null \<Rightarrow> None
      | Str s \<Rightarrow>
          (let c = (if s = [] then NUL else hd s)
           in Some (if c \<in> set ''yY1tT'' then 1
                    else if c \<in> set ''nN0fF'' then 0
                    else notfound)))"

definition iniparser_find_entry :: "dictionary option \<Rightarrow> string option \<Rightarrow> bool" where
  "iniparser_find_entry ini entry \<longleftrightarrow> iniparser_getstring ini entry Invalid_key \<noteq> Invalid_key"

definition iniparser_set ::
  "dict_alloc \<Rightarrow> dictionary option \<Rightarrow> string option \<Rightarrow> string option
     \<Rightarrow> (int \<times> dictionary option) option" where
  "iniparser_set mem ini entry val = dictionary_set mem ini (strlwc entry (ASCIILINESZ + 1)) val"

definition iniparser_unset :: "dictionary option \<Rightarrow> string option \<Rightarrow> dictionary option" where
  "iniparser_unset ini entry = dictionary_unset ini (strlwc entry (ASCIILINESZ + 1))"

section \<open>Enumerating and dumping\<close>

abbreviation is_secname :: "string \<Rightarrow> bool" where
  "is_secname k \<equiv> CHR '':'' \<notin> set k"

abbreviation dict_keys :: "dictionary \<Rightarrow> string list" where
  "dict_keys d \<equiv> map fst (dict_entries d)"

definition iniparser_getnsec :: "dictionary option \<Rightarrow> int" where
  "iniparser_getnsec d =
     (case d of None \<Rightarrow> -1 | Some d \<Rightarrow> int (length (filter is_secname (dict_keys d))))"

fun secname_loop :: "nat \<Rightarrow> nat \<Rightarrow> string list \<Rightarrow> string option" where
  "secname_loop foundsec n [] = None"
| "secname_loop foundsec n (k # ks) =
     (if is_secname k then
        (if Suc foundsec > n then Some k else secname_loop (Suc foundsec) n ks)
      else secname_loop foundsec n ks)"

definition iniparser_getsecname :: "dictionary option \<Rightarrow> int \<Rightarrow> string option" where
  "iniparser_getsecname d n =
     (case d of
        None \<Rightarrow> None
      | Some d \<Rightarrow> if n < 0 then None else secname_loop 0 (nat n) (dict_keys d))"

definition iniparser_dump :: "dictionary option \<Rightarrow> string" where
  "iniparser_dump d =
     (case d of
        None \<Rightarrow> []
      | Some d \<Rightarrow>
          concat (map (\<lambda>(k, v). case v of
                         Some s \<Rightarrow> ''['' @ k @ '']=['' @ s @ '']'' @ [NL]
                       | None \<Rightarrow> ''['' @ k @ '']=UNDEF'' @ [NL]) (dict_entries d)))"

definition pad_right :: "nat \<Rightarrow> string \<Rightarrow> string" where
  "pad_right w s = s @ replicate (w - length s) CHR '' ''"

definition dump_kv :: "string \<Rightarrow> string option \<Rightarrow> string" where
  "dump_kv k v = pad_right 30 k @ '' = '' @ (case v of None \<Rightarrow> [] | Some s \<Rightarrow> s) @ [NL]"

definition iniparser_dumpsection_ini :: "dictionary option \<Rightarrow> string option \<Rightarrow> string" where
  "iniparser_dumpsection_ini d s =
     (case (d, s) of
        (Some d', Some s') \<Rightarrow>
          if \<not> iniparser_find_entry d s then []
          else [NL] @ ''['' @ s' @ '']'' @ [NL] @
               concat (map (\<lambda>(k, v). dump_kv (drop (length s' + 1) k) v)
                         (filter (\<lambda>(k, v). str_starts k (s' @ '':'')) (dict_entries d'))) @ [NL]
      | _ \<Rightarrow> [])"

text \<open>Without sections a NULL value is printed as \<^verbatim>\<open>(null)\<close> by the C library.\<close>

definition iniparser_dump_ini :: "dictionary option \<Rightarrow> string" where
  "iniparser_dump_ini d =
     (case d of
        None \<Rightarrow> []
      | Some d' \<Rightarrow>
          (let nsec = iniparser_getnsec d
           in if nsec < 1 then
                concat (map (\<lambda>(k, v). k @ '' = '' @ (case v of None \<Rightarrow> ''(null)'' | Some s \<Rightarrow> s) @ [NL])
                          (dict_entries d'))
              else concat (map (\<lambda>i. iniparser_dumpsection_ini d (iniparser_getsecname d (int i)))
                             [0..<nat nsec]) @ [NL]))"

text \<open>
  \<^verbatim>\<open>keym\<close> of the two functions below is the lower-cased section name with a colon; names
  longer than its buffer are outside the model.
\<close>

definition iniparser_getsecnkeys :: "dictionary option \<Rightarrow> string option \<Rightarrow> nat" where
  "iniparser_getsecnkeys d s =
     (case (d, s) of
        (Some d', Some s') \<Rightarrow>
          if \<not> iniparser_find_entry d s then 0
          else length (filter (\<lambda>k. str_starts k (map c_tolower s' @ '':'')) (dict_keys d'))
      | _ \<Rightarrow> 0)"

definition iniparser_getseckeys :: "dictionary option \<Rightarrow> string option \<Rightarrow> string list option" where
  "iniparser_getseckeys d s =
     (case (d, s) of
        (Some d', Some s') \<Rightarrow>
          if \<not> iniparser_find_entry d s then None
          else Some (filter (\<lambda>k. str_starts k (map c_tolower s' @ '':'')) (dict_keys d'))
      | _ \<Rightarrow> None)"

end
