(* ===== verification/IniFormat.thy ===== *)
theory IniFormat
  imports IniParser
begin

text \<open>
  What the INI loader computes: it returns on every input, its line buffer is never
  overrun, a file of complete lines denotes a list of assignments that the loaded
  dictionary holds, and a written dictionary of clean entries is read back unchanged.
\<close>

section \<open>The loop returns\<close>

lemma dictionary_set_cases:
  assumes "dict_inv d"
  obtains rc e where "dictionary_set mem (Some d) (Some k) v = Some (rc, Some e)" "dict_inv e"
proof -
  obtain rc e where "dict_put mem d k v = Some (rc, e)" "dict_inv e"
    using dict_put_spec [OF assms, of mem k v] by blast
  then show thesis by (intro that [of rc e]) simp_all
qed

abbreviation load_result_ok :: "dictionary option option \<Rightarrow> bool" where
  "load_result_ok res \<equiv> (\<exists>r. res = Some r \<and> (\<forall>e. r = Some e \<longrightarrow> dict_inv e))"

lemma ini_loop_total:
  "dict_inv d \<Longrightarrow> load_result_ok (ini_loop mem ferr rest pend sec d n errs)"
proof (induction "length rest" arbitrary: rest pend sec d n errs rule: less_induct)
  case less
  show ?case
  proof (cases "rest = []")
    case True
    with less.prems show ?thesis by (simp add: ini_loop.simps)
  next
    case False
    obtain chunk rest' eof where f: "c_fgets (pend_limit pend) rest = (chunk, rest', eof)"
      by (metis prod_cases3)
    with False have len: "length rest' < length rest" by (metis c_fgets_rest_less)
    have IH: "load_result_ok (ini_loop mem ferr rest' p s e m x)" if "dict_inv e" for p s e m x
      using less.hyps [OF len that] .
    let ?line = "rstrip (cstr (pend @ chunk))"
    show ?thesis
    proof (cases "iniparser_line sec ?line")
      case (LINE_SECTION s)
      obtain rc e where "dictionary_set (mem (Suc n)) (Some d) (Some s) None = Some (rc, Some e)" "dict_inv e"
        by (rule dictionary_set_cases [OF less.prems])
      then show ?thesis
        using False less.prems LINE_SECTION by (subst ini_loop.simps) (simp add: f Let_def IH)
    next
      case (LINE_VALUE k v)
      obtain rc e where "dictionary_set (mem (Suc n)) (Some d) (Some (sec @ '':'' @ k)) (Some v) = Some (rc, Some e)"
          "dict_inv e"
        by (rule dictionary_set_cases [OF less.prems])
      then show ?thesis
        using False less.prems LINE_VALUE by (subst ini_loop.simps) (simp add: f Let_def IH)
    qed (use False less.prems in \<open>subst ini_loop.simps, simp add: f Let_def IH\<close>)+
  qed
qed

lemma load_returns:
  "\<exists>r. iniparser_load mem ok ferr content = Some r \<and> (case r of None \<Rightarrow> True | Some d \<Rightarrow> dict_inv d)"
proof (cases "content = None \<or> dictionary_new ok 0 = None")
  case True
  then show ?thesis by (auto simp: iniparser_load_def split: option.splits)
next
  case False
  then obtain body d where t: "content = Some body" and d: "dictionary_new ok 0 = Some d" by auto
  have "dict_inv d" using dictionary_new_inv [OF d] by (simp add: dict_exact_def)
  then obtain r where r: "ini_loop mem ferr body [] [] d 0 False = Some r" "\<forall>e. r = Some e \<longrightarrow> dict_inv e"
    using ini_loop_total by blast
  show ?thesis
    by (cases r) (use r t d in \<open>simp_all add: iniparser_load_def\<close>)
qed


section \<open>The line buffer\<close>

lemma length_rstrip: "length (rstrip s) \<le> length s"
  by (metis length_dropWhile_le length_rev rstrip_def)

lemma length_cstr: "length (cstr s) \<le> length s"
  by (simp add: cstr_def length_takeWhile_le)

lemma c_fgets_length:
  assumes "c_fgets n s = (got, rest, eof)" "2 \<le> n"
  shows "length got \<le> n - 1"
proof (cases "NL \<in> set (take (n - 1) s)")
  case True
  have "takeWhile (\<lambda>c. c \<noteq> NL) (take (n - 1) s) \<noteq> take (n - 1) s"
    using True by (metis set_takeWhileD)
  then have "length (takeWhile (\<lambda>c. c \<noteq> NL) (take (n - 1) s)) < length (take (n - 1) s)"
    by (metis le_neq_implies_less length_takeWhile_le takeWhile_eq_take take_all_iff order_refl)
  then show ?thesis using assms True by (auto simp: c_fgets_def Let_def)
qed (use assms in \<open>auto simp: c_fgets_def Let_def\<close>)

lemma ini_line_buffer_bounds_parts:
  assumes "length pend \<le> 1022" and "c_fgets (pend_limit pend) rest = (chunk, rest', eof)"
  shows "pend_limit pend = ASCIILINESZ - length pend" and "length (pend @ chunk) \<le> 1023"
    and "length (butlast (rstrip (cstr (pend @ chunk)))) \<le> 1022"
proof -
  show l: "pend_limit pend = ASCIILINESZ - length pend"
    using assms(1) by (simp add: pend_limit_def ASCIILINESZ_def)
  have "length chunk \<le> pend_limit pend - 1"
    by (rule c_fgets_length [OF assms(2)]) (simp add: pend_limit_def)
  with l assms(1) show b: "length (pend @ chunk) \<le> 1023"
    by (simp add: ASCIILINESZ_def)
  show "length (butlast (rstrip (cstr (pend @ chunk)))) \<le> 1022"
    using length_rstrip [of "cstr (pend @ chunk)"] length_cstr [of "pend @ chunk"] b by simp
qed

text \<open>The joined prefix of a continued line never exceeds 1022 characters: while that holds,
  the size passed to \<^verbatim>\<open>fgets\<close> is the room left in the line buffer and at least 2, the
  line with its zero byte fits into the buffer, and the next prefix is in bounds again.\<close>

theorem ini_line_buffer_bounds:
  assumes "length pend \<le> 1022" and "c_fgets (pend_limit pend) rest = (chunk, rest', eof)"
  shows "(pend_limit pend = ASCIILINESZ - length pend) \<and>
     (length (pend @ chunk) \<le> 1023) \<and>
     (length (butlast (rstrip (cstr (pend @ chunk)))) \<le> 1022)"
  using ini_line_buffer_bounds_parts [OF assms] by blast

theorem ini_line_buffer_bounds_witness:
  "length (''a = b'' @ fst (c_fgets (pend_limit ''a = b'') ''cd'')) \<le> 1023"
proof -
  obtain chunk rest eof where c: "c_fgets (pend_limit ''a = b'') ''cd'' = (chunk, rest, eof)" by (metis prod_cases3)
  have "length ''a = b'' \<le> 1022" by simp
  from ini_line_buffer_bounds [OF this c] have "length (''a = b'' @ chunk) \<le> 1023" by (elim conjE)
  with c show ?thesis by simp
qed


section \<open>Complete lines\<close>

definition ini_line_ok :: "string \<Rightarrow> bool" where
  "ini_line_ok l \<longleftrightarrow>
     NL \<notin> set l \<and> NUL \<notin> set l \<and> length l \<le> 1022 \<and> (rstrip l = [] \<or> last (rstrip l) \<noteq> CHR 0x5C)"

text \<open>The assignments a list of lines denotes when the section buffer holds \<open>sec\<close>.\<close>

fun ini_denote :: "string \<Rightarrow> string list \<Rightarrow> (string \<times> string option) list option" where
  "ini_denote sec [] = Some []"
| "ini_denote sec (l # ls) =
     (case iniparser_line sec l of
        LINE_ERROR \<Rightarrow> None
      | LINE_EMPTY \<Rightarrow> ini_denote sec ls
      | LINE_COMMENT \<Rightarrow> ini_denote sec ls
      | LINE_SECTION s \<Rightarrow> map_option ((#) (s, None)) (ini_denote s ls)
      | LINE_VALUE k v \<Rightarrow> map_option ((#) (sec @ '':'' @ k, Some v)) (ini_denote sec ls))"

lemma c_fgets_line:
  assumes "length l \<le> n - 2" "2 \<le> n" "NL \<notin> set l"
  shows "c_fgets n (l @ NL # rest) = (l @ [NL], rest, False)"
proof -
  obtain m where m: "n - 1 - length l = Suc m" using assms by (metis Suc_diff_le Suc_diff_Suc
        diff_diff_left le_trans less_eq_Suc_le numeral_2_eq_2 plus_1_eq_Suc diff_le_self le_add_diff_inverse2
        add_diff_cancel_left' Suc_le_D add.commute)
  have "take (n - 1) (l @ NL # rest) = l @ NL # take m rest"
    using assms m by simp
  moreover have "takeWhile (\<lambda>c. c \<noteq> NL) (l @ NL # take m rest) = l"
    using assms(3) by (subst takeWhile_append2) auto
  ultimately show ?thesis by (simp add: c_fgets_def Let_def)
qed

lemma cstr_id: "NUL \<notin> set l \<Longrightarrow> cstr l = l"
  by (auto simp: cstr_def takeWhile_eq_all_conv)

lemma c_isspace_NL [simp]: "c_isspace NL"
  by (simp add: c_isspace_def)

lemma rstrip_NL [simp]: "rstrip (l @ [NL]) = rstrip l"
  by (simp add: rstrip_def)

lemma rstrip_idem [simp]: "rstrip (rstrip s) = rstrip s"
  by (simp add: rstrip_def dropWhile_idem)

lemma dropWhile_all_conv: "dropWhile P s = [] \<longleftrightarrow> (\<forall>c \<in> set s. P c)"
  by (simp add: dropWhile_eq_Nil_conv)

lemma rstrip_append: "rstrip (a @ b) = (if rstrip b = [] then rstrip a else a @ rstrip b)"
  by (simp add: rstrip_def dropWhile_append dropWhile_eq_Nil_conv)

lemma rstrip_Nil_iff: "rstrip s = [] \<longleftrightarrow> (\<forall>c \<in> set s. c_isspace c)"
  by (simp add: rstrip_def)

lemma strstrip_rstrip [simp]: "strstrip (rstrip s) = strstrip s"
proof (induction s)
  case Nil
  then show ?case by (simp add: rstrip_def)
next
  case (Cons c s)
  have e: "rstrip (c # s) = (if rstrip s = [] then rstrip [c] else c # rstrip s)"
    using rstrip_append [of "[c]" s] by simp
  show ?case
  proof (cases "c_isspace c")
    case True
    then have c: "strstrip (c # t) = strstrip t" for t by (simp add: strstrip_def)
    show ?thesis
    proof (cases "rstrip s = []")
      case True
      then have "dropWhile c_isspace s = []" by (simp add: rstrip_Nil_iff dropWhile_eq_Nil_conv)
      then show ?thesis using e True \<open>c_isspace c\<close> by (simp add: c) (auto simp: strstrip_def rstrip_def dest: set_dropWhileD)
    next
      case False
      then show ?thesis using e Cons by (simp add: c)
    qed
  next
    case False
    then show ?thesis using e rstrip_idem [of "c # s"] by (auto simp: strstrip_def) (auto simp: rstrip_def)
  qed
qed

lemma iniparser_line_rstrip: "iniparser_line sec (rstrip l) = iniparser_line sec l"
  by (simp add: iniparser_line_def)

text \<open>One complete line of the loop, with no prefix pending.\<close>

lemma ini_loop_line:
  assumes "ini_line_ok l"
  shows "ini_loop mem ferr (l @ NL # rest) [] sec d n errs =
    (case iniparser_line sec l of
       LINE_EMPTY \<Rightarrow> ini_loop mem ferr rest [] sec d (Suc n) errs
     | LINE_COMMENT \<Rightarrow> ini_loop mem ferr rest [] sec d (Suc n) errs
     | LINE_ERROR \<Rightarrow> ini_loop mem ferr rest [] sec d (Suc n) True
     | LINE_SECTION s \<Rightarrow>
         (case dictionary_set (mem (Suc n)) (Some d) (Some s) None of
            Some (rc, Some d') \<Rightarrow>
              if rc < 0 then Some None else ini_loop mem ferr rest [] s d' (Suc n) errs
          | _ \<Rightarrow> None)
     | LINE_VALUE k v \<Rightarrow>
         (case dictionary_set (mem (Suc n)) (Some d) (Some (sec @ '':'' @ k)) (Some v) of
            Some (rc, Some d') \<Rightarrow>
              if rc < 0 then Some None else ini_loop mem ferr rest [] sec d' (Suc n) errs
          | _ \<Rightarrow> None))"
proof -
  have f: "c_fgets (pend_limit []) (l @ NL # rest) = (l @ [NL], rest, False)"
    using assms by (intro c_fgets_line) (auto simp: ini_line_ok_def pend_limit_def ASCIILINESZ_def)
  have c: "cstr (l @ [NL]) = l @ [NL]"
    using assms by (intro cstr_id) (auto simp: ini_line_ok_def)
  have bs: "\<not> (rstrip l \<noteq> [] \<and> last (rstrip l) = CHR 0x5C)"
    using assms by (auto simp: ini_line_ok_def)
  show ?thesis
  proof (cases "l = []")
    case True
    then show ?thesis
      using f c by (subst ini_loop.simps) (simp add: iniparser_line_def strstrip_def rstrip_def)
  next
    case False
    then show ?thesis
      using f c bs by (subst ini_loop.simps) (auto simp: Let_def iniparser_line_rstrip)
  qed
qed

abbreviation ini_text :: "string list \<Rightarrow> string" where
  "ini_text lines \<equiv> concat (map (\<lambda>l. l @ [NL]) lines)"

lemma ini_loop_errs:
  "\<forall>l \<in> set lines. ini_line_ok l \<Longrightarrow> dict_inv d \<Longrightarrow>
   ini_loop (\<lambda>_. alloc_ok) False (ini_text lines) [] sec d n True = Some None"
proof (induction lines arbitrary: sec d n)
  case Nil
  then show ?case by (simp add: ini_loop.simps)
next
  case (Cons l ls)
  then have ok: "ini_line_ok l" by simp
  note IH = Cons.IH [OF ballI [OF bspec [OF Cons.prems(1)]]]
  have put: "\<exists>e. dictionary_set alloc_ok (Some d) (Some k) v = Some (0, Some e) \<and> dict_inv e" for k v
    using dict_put_ok [OF Cons.prems(2), of k v] by auto
  show ?case
  proof (cases "iniparser_line sec l")
    case (LINE_SECTION s)
    with put [of s None] show ?thesis
      using IH by (auto simp: ini_loop_line [OF ok] simp del: dictionary_set.simps)
  next
    case (LINE_VALUE k v)
    with put [of "sec @ '':'' @ k" "Some v"] show ?thesis
      using IH by (auto simp: ini_loop_line [OF ok] simp del: dictionary_set.simps)
  qed (use IH Cons.prems(2) in \<open>simp_all add: ini_loop_line [OF ok]\<close>)
qed

lemma ini_loop_denote:
  "\<forall>l \<in> set lines. ini_line_ok l \<Longrightarrow> dict_inv d \<Longrightarrow>
   ini_loop (\<lambda>_. alloc_ok) False (ini_text lines) [] sec d n False =
     (case ini_denote sec lines of
        None \<Rightarrow> Some None
      | Some kvs \<Rightarrow> Some (put_all dict_put_ok_state d kvs))"
proof (induction lines arbitrary: sec d n)
  case Nil
  then show ?case by (simp add: ini_loop.simps)
next
  case (Cons l ls)
  then have ok: "ini_line_ok l" by simp
  note IH = Cons.IH [OF ballI [OF bspec [OF Cons.prems(1)]]]
  have put: "\<exists>e. dictionary_set alloc_ok (Some d) (Some k) v = Some (0, Some e) \<and> dict_inv e \<and>
               dict_put_ok_state d k v = Some e" for k v
    using dict_put_ok [OF Cons.prems(2), of k v] by (auto simp: dict_put_ok_state_def)
  show ?case
  proof (cases "iniparser_line sec l")
    case LINE_ERROR
    with Cons.prems show ?thesis by (simp add: ini_loop_line [OF ok] ini_loop_errs)
  next
    case (LINE_SECTION s)
    with put [of s None] show ?thesis
      using IH by (auto simp: ini_loop_line [OF ok] simp del: dictionary_set.simps split: option.split)
  next
    case (LINE_VALUE k v)
    with put [of "sec @ '':'' @ k" "Some v"] show ?thesis
      using IH by (auto simp: ini_loop_line [OF ok] simp del: dictionary_set.simps split: option.split)
  qed (use IH Cons.prems(2) in \<open>simp_all add: ini_loop_line [OF ok]\<close>)
qed


text \<open>C12. A file of complete lines (each within the line buffer, none continued) is loaded as the
  sequence of assignments its lines denote, in file order, and refused if a line has a
  syntax error.\<close>

theorem iniparser_load_denotes:
  assumes "\<forall>l \<in> set lines. ini_line_ok l"
  shows "iniparser_load (\<lambda>_. alloc_ok) True False (Some (ini_text lines)) =
     (case ini_denote [] lines of
        None \<Rightarrow> Some None
      | Some kvs \<Rightarrow> Some (put_all dict_put_ok_state fresh_dict kvs))"
  using ini_loop_denote [OF assms, of fresh_dict "[]" 0]
  by (simp add: iniparser_load_def fresh_dict)

theorem iniparser_load_denotes_witness:
  "iniparser_load (\<lambda>_. alloc_ok) True False (Some (ini_text [''[video.0]'', ''gop = 30 ; frames''])) =
     Some (put_all dict_put_ok_state fresh_dict [(''video.0'', None), (''video.0:gop'', Some ''30'')])"
proof -
  have "\<forall>l \<in> set [''[video.0]'', ''gop = 30 ; frames'']. ini_line_ok l"
    by (simp add: ini_line_ok_def rstrip_def c_isspace_def)
  from iniparser_load_denotes [OF this] show ?thesis
    by (simp add: iniparser_line_def strstrip_def rstrip_def c_isspace_def Let_def scan_set_def scan_quoted_def
        scan_key_def scan_lit_def scan_ws_def scan_plain_def lower_upto_def c_tolower_def)
qed

lemma load_denotes_map:
  assumes "\<forall>l \<in> set lines. ini_line_ok l" "ini_denote [] lines = Some kvs"
  shows "\<exists>e. iniparser_load (\<lambda>_. alloc_ok) True False (Some (ini_text lines)) = Some (Some e) \<and>
             dict_inv e \<and> dict_map e = map_of (rev kvs)"
  using ini_loop_denote [OF assms(1), of fresh_dict "[]" 0] assms(2) dict.put_all_spec [of fresh_dict kvs]
  by (auto simp: iniparser_load_def fresh_dict)

section \<open>Printed lines\<close>

definition trimmed :: "string \<Rightarrow> bool" where
  "trimmed s \<longleftrightarrow> s \<noteq> [] \<longrightarrow> \<not> c_isspace (hd s) \<and> \<not> c_isspace (last s)"

definition clean_sec :: "string \<Rightarrow> bool" where
  "clean_sec s \<longleftrightarrow>
     s \<noteq> [] \<and> trimmed s \<and> map c_tolower s = s \<and> CHR '']'' \<notin> set s \<and> NL \<notin> set s \<and> NUL \<notin> set s \<and>
     length s \<le> 1020"

definition clean_key :: "string \<Rightarrow> bool" where
  "clean_key k \<longleftrightarrow>
     k \<noteq> [] \<and> trimmed k \<and> map c_tolower k = k \<and> CHR ''='' \<notin> set k \<and> NL \<notin> set k \<and> NUL \<notin> set k \<and>
     hd k \<notin> {CHR ''#'', CHR '';'', CHR ''[''}"

definition clean_val :: "string \<Rightarrow> bool" where
  "clean_val v \<longleftrightarrow>
     trimmed v \<and> (\<forall>c \<in> set v. \<not> comment_char c \<and> c \<noteq> NL \<and> c \<noteq> NUL) \<and>
     (v \<noteq> [] \<longrightarrow> hd v \<notin> {CHR 0x22, CHR 0x27} \<and> last v \<noteq> CHR 0x5C)"

lemma rstrip_last: "s = [] \<or> \<not> c_isspace (last s) \<Longrightarrow> rstrip s = s"
  by (cases s rule: rev_cases) (auto simp: rstrip_def)

lemma strstrip_trimmed: "trimmed s \<Longrightarrow> strstrip s = s"
  by (cases s) (auto simp: strstrip_def trimmed_def rstrip_last)

lemma rstrip_blanks: "\<forall>c \<in> set sp. c_isspace c \<Longrightarrow> rstrip (s @ sp) = rstrip s"
  by (simp add: rstrip_append rstrip_Nil_iff)

lemma scan_set_all:
  "t \<noteq> [] \<Longrightarrow> \<forall>c \<in> set t. P c \<Longrightarrow> r = [] \<or> \<not> P (hd r) \<Longrightarrow> scan_set P (t @ r) = Some (t, r)"
proof -
  assume a: "t \<noteq> []" "\<forall>c \<in> set t. P c" "r = [] \<or> \<not> P (hd r)"
  then have "takeWhile P (t @ r) = t" "dropWhile P (t @ r) = r"
    by (cases r; simp add: takeWhile_append dropWhile_append takeWhile_eq_all_conv)+
  with a(1) show ?thesis by (cases t) (auto simp: scan_set_def)
qed

lemma not_space_printed [simp]:
  "\<not> c_isspace CHR ''=''" "\<not> c_isspace CHR ''[''" "\<not> c_isspace CHR '']''" "c_isspace CHR '' ''"
  by (simp_all add: c_isspace_def)

lemma value_line:
  assumes k: "clean_key k" and v: "clean_val v" and sp: "\<forall>c \<in> set sp. c_isspace c"
  shows "iniparser_line sec (k @ sp @ CHR ''='' # CHR '' '' # v) = LINE_VALUE k v"
proof -
  let ?w = "if v = [] then [] else CHR '' '' # v"
  let ?l = "k @ sp @ CHR ''='' # ?w"
  have k': "k \<noteq> []" "\<not> c_isspace (hd k)" "CHR ''='' \<notin> set (k @ sp)"
    using k sp by (auto simp: clean_key_def trimmed_def)
  have "rstrip (k @ sp @ CHR ''='' # CHR '' '' # v) = ?l"
  proof (cases "v = []")
    case True
    then show ?thesis
      using rstrip_blanks [of "'' ''" "k @ sp @ ''=''"] rstrip_last [of "k @ sp @ ''=''"] by simp
  next
    case False
    with v show ?thesis by (simp add: rstrip_last clean_val_def trimmed_def)
  qed
  moreover have "dropWhile c_isspace (k @ xs) = k @ xs" for xs
    using k'(1,2) by (cases k) auto
  ultimately have line: "strstrip (k @ sp @ CHR ''='' # CHR '' '' # v) = ?l"
    by (simp add: strstrip_def)
  have ws: "scan_ws ?w = v"
    using v by (cases v) (auto simp: scan_ws_def clean_val_def trimmed_def)
  have bare: "scan_set (\<lambda>c. c \<noteq> CHR ''='') ?l = Some (k @ sp, CHR ''='' # ?w)"
  proof -
    have "\<forall>c \<in> set (k @ sp). c \<noteq> CHR ''=''" using k'(3) by metis
    from scan_set_all [OF _ this, of "CHR ''='' # ?w"] k'(1) show ?thesis by simp
  qed
  then have key: "scan_key ?l = Some (k @ sp, v)"
    using ws by (cases "v = []") (simp_all add: scan_key_def scan_lit_def scan_ws_def)
  have q: "scan_quoted q ?l = None" if "q \<in> {CHR 0x22, CHR 0x27}" for q
    unfolding scan_quoted_def key using that v by (cases v) (auto simp: scan_lit_def clean_val_def)
  have "strstrip (k @ sp) = k"
    using k sp strstrip_trimmed [of k] by (metis clean_key_def rstrip_blanks strstrip_rstrip)
  then have low: "lower_upto (length ?l) (strstrip (k @ sp)) = k"
    using k by (simp add: lower_upto_def clean_key_def)
  have hd: "hd ?l = hd k" "hd k \<notin> {CHR ''#'', CHR '';'', CHR ''[''}"
    using k by (auto simp: clean_key_def)
  show ?thesis
  proof (cases "v = []")
    case True
    have "scan_plain ?l = None" "scan_empty_comment ?l = None"
      unfolding scan_plain_def scan_empty_comment_def key using True by (simp_all add: scan_set_def)
    moreover have "scan_bare ?l = Some (k @ sp, ''='')"
      using bare True by (simp add: scan_bare_def scan_ws_def) (simp add: scan_set_def)
    ultimately show ?thesis
      unfolding iniparser_line_def line Let_def using hd q low True by simp
  next
    case False
    then have "scan_plain ?l = Some (k @ sp, v)"
      using v scan_set_all [of v "\<lambda>c. \<not> comment_char c" "[]"]
      unfolding scan_plain_def key by (simp add: clean_val_def)
    moreover have "strstrip v = v"
      using v by (simp add: clean_val_def strstrip_trimmed)
    moreover have "v \<noteq> [CHR 0x22, CHR 0x22]" "v \<noteq> [CHR 0x27, CHR 0x27]"
      using v by (force simp: clean_val_def)+
    ultimately show ?thesis
      unfolding iniparser_line_def line Let_def using hd q low False by simp
  qed
qed

lemma section_line:
  assumes "clean_sec s"
  shows "iniparser_line sec (CHR ''['' # s @ '']'') = LINE_SECTION s"
proof -
  have "strstrip (CHR ''['' # s @ '']'') = CHR ''['' # s @ '']''"
    by (rule strstrip_trimmed) (simp add: trimmed_def)
  moreover have "scan_set (\<lambda>c. c \<noteq> CHR '']'') (s @ '']'') = Some (s, '']'')"
    using assms by (intro scan_set_all) (auto simp: clean_sec_def)
  moreover have "strstrip s = s" "take (Suc (length s)) s = s" "map c_tolower s = s"
    using assms by (auto simp: clean_sec_def strstrip_trimmed)
  ultimately show ?thesis
    by (simp add: iniparser_line_def Let_def lower_upto_def)
qed


section \<open>Writing and reading back\<close>

lemma secname_loop_nth:
  "m \<le> n \<Longrightarrow> secname_loop m n ks =
     (let secs = filter is_secname ks in if n - m < length secs then Some (secs ! (n - m)) else None)"
proof (induction m n ks rule: secname_loop.induct)
  case (1 m n)
  then show ?case by simp
next
  case (2 m n k ks)
  show ?case
  proof (cases "is_secname k \<and> \<not> n < Suc m")
    case True
    then have "n - m = Suc (n - Suc m)" by arith
    with True 2 show ?thesis by (simp add: Let_def)
  qed (use 2 in \<open>auto simp: Let_def\<close>)
qed

text \<open>The numbers below the section count enumerate the section names in slot order, each once;
  every other number gives NULL.\<close>

theorem iniparser_getsecname_enumerates:
  "map (\<lambda>i. iniparser_getsecname (Some d) (int i)) [0..<nat (iniparser_getnsec (Some d))] =
     map Some (filter is_secname (dict_keys d)) \<and>
   (dict_inv d \<longrightarrow> distinct (filter is_secname (dict_keys d))) \<and>
   (n < 0 \<or> iniparser_getnsec (Some d) \<le> n \<longrightarrow> iniparser_getsecname (Some d) n = None)"
proof (intro conjI impI)
  show "map (\<lambda>i. iniparser_getsecname (Some d) (int i)) [0..<nat (iniparser_getnsec (Some d))] =
          map Some (filter is_secname (dict_keys d))"
    by (rule nth_equalityI) (simp_all add: iniparser_getsecname_def iniparser_getnsec_def secname_loop_nth Let_def)
  show "distinct (filter is_secname (dict_keys d))" if "dict_inv d"
    using dict_entries_distinct [OF that] by simp
  show "iniparser_getsecname (Some d) n = None" if "n < 0 \<or> iniparser_getnsec (Some d) \<le> n"
    using that by (auto simp: iniparser_getsecname_def iniparser_getnsec_def secname_loop_nth Let_def)
qed

theorem iniparser_getsecname_enumerates_witness:
  "iniparser_getsecname (Some fresh_dict) 5 = None"
  using iniparser_getsecname_enumerates [of fresh_dict 5] dict_new_dense [OF fresh_dict]
  by (simp add: iniparser_getnsec_def)

text \<open>The dictionaries whose text form is unambiguous.\<close>

definition clean_entry :: "string list \<Rightarrow> string \<Rightarrow> string option \<Rightarrow> bool" where
  "clean_entry ks k v \<longleftrightarrow>
     (if is_secname k then clean_sec k \<and> v = None
      else (\<exists>s k' v'. k = s @ '':'' @ k' \<and> v = Some v' \<and> is_secname s \<and> s \<in> set ks \<and>
              clean_key k' \<and> clean_val v' \<and> max 30 (length k') + 3 + length v' \<le> 1022))"

definition ini_clean :: "dictionary \<Rightarrow> bool" where
  "ini_clean d \<longleftrightarrow> dict_inv d \<and> (\<forall>(k, v) \<in> set (dict_entries d). clean_entry (dict_keys d) k v)"

definition kv_line :: "string \<Rightarrow> string option \<Rightarrow> string" where
  "kv_line k v = pad_right 30 k @ '' = '' @ (case v of None \<Rightarrow> [] | Some s \<Rightarrow> s)"

definition sec_entries :: "dictionary \<Rightarrow> string \<Rightarrow> (string \<times> string option) list" where
  "sec_entries d s = filter (\<lambda>(k, v). str_starts k (s @ '':'')) (dict_entries d)"

definition sec_lines :: "dictionary \<Rightarrow> string \<Rightarrow> string list" where
  "sec_lines d s =
     [[], CHR ''['' # s @ '']''] @ map (\<lambda>(k, v). kv_line (drop (length s + 1) k) v) (sec_entries d s) @ [[]]"

abbreviation sections_of :: "dictionary \<Rightarrow> string list" where
  "sections_of d \<equiv> filter is_secname (dict_keys d)"

lemma dumpsection_lines:
  assumes "ini_clean d" "s \<in> set (sections_of d)"
  shows "iniparser_dumpsection_ini (Some d) (Some s) = ini_text (sec_lines d s)"
proof -
  from assms obtain v where v: "(s, v) \<in> set (dict_entries d)" "is_secname s" by auto
  with assms(1) have c: "clean_sec s" and inv: "dict_inv d" and "v = None"
    by (auto simp: ini_clean_def clean_entry_def)
  with v have m: "dict_map d s = Some None"
    using map_of_dict_entries [OF inv] dict_entries_distinct [OF inv] by (metis map_of_is_SomeI)
  have "strlwc (Some s) (ASCIILINESZ + 1) = Some s"
    using c by (simp add: strlwc_def clean_sec_def ASCIILINESZ_def)
  with m have "iniparser_find_entry (Some d) (Some s)"
    by (simp add: iniparser_find_entry_def iniparser_getstring_def dict_simps)
  then show ?thesis
    by (simp add: iniparser_dumpsection_ini_def sec_lines_def sec_entries_def dump_kv_def kv_line_def
        comp_def case_prod_unfold)
qed

lemma dump_lines:
  assumes "ini_clean d" "sections_of d \<noteq> []"
  shows "iniparser_dump_ini (Some d) = ini_text (concat (map (sec_lines d) (sections_of d)) @ [[]])"
proof -
  have "map (\<lambda>i. iniparser_dumpsection_ini (Some d) (iniparser_getsecname (Some d) (int i)))
          [0..<nat (iniparser_getnsec (Some d))] =
        map (iniparser_dumpsection_ini (Some d)) (map Some (sections_of d))"
    by (rule nth_equalityI)
      (simp_all add: iniparser_getsecname_def iniparser_getnsec_def secname_loop_nth Let_def)
  also have "\<dots> = map (\<lambda>s. ini_text (sec_lines d s)) (sections_of d)"
    using dumpsection_lines [OF assms(1)] by simp
  finally have "concat (map (\<lambda>i. iniparser_dumpsection_ini (Some d) (iniparser_getsecname (Some d) (int i)))
          [0..<nat (iniparser_getnsec (Some d))]) = concat (map (\<lambda>s. ini_text (sec_lines d s)) (sections_of d))"
    by simp
  moreover have "\<not> iniparser_getnsec (Some d) < 1"
    using assms(2) by (cases "sections_of d") (simp_all add: iniparser_getnsec_def)
  moreover have "concat (map (\<lambda>s. ini_text (sec_lines d s)) ss) = ini_text (concat (map (sec_lines d) ss))" for ss
    by (induction ss) simp_all
  ultimately show ?thesis by (simp add: iniparser_dump_ini_def Let_def)
qed


lemma kv_line_form:
  "kv_line k v = k @ (replicate (30 - length k) CHR '' '' @ '' '') @ CHR ''='' # CHR '' '' #
     (case v of None \<Rightarrow> [] | Some s \<Rightarrow> s)"
  by (simp add: kv_line_def pad_right_def)

lemma sec_entry_clean:
  assumes "ini_clean d" "is_secname s" "(k, v) \<in> set (sec_entries d s)"
  obtains k' v' where "k = s @ '':'' @ k'" "v = Some v'" "clean_key k'" "clean_val v'"
    "max 30 (length k') + 3 + length v' \<le> 1022"
proof -
  from assms(3) obtain r where e: "(k, v) \<in> set (dict_entries d)" "k = s @ '':'' @ r"
    by (auto simp: sec_entries_def str_starts_iff)
  with assms(1) have "clean_entry (dict_keys d) k v" by (auto simp: ini_clean_def)
  then obtain s' k' v' where c: "k = s' @ '':'' @ k'" "v = Some v'" "is_secname s'" "clean_key k'" "clean_val v'"
      "max 30 (length k') + 3 + length v' \<le> 1022"
    using e(2) unfolding clean_entry_def by (auto split: if_splits)
  have "takeWhile (\<lambda>c. c \<noteq> CHR '':'') (s @ '':'' @ r) = takeWhile (\<lambda>c. c \<noteq> CHR '':'') (s' @ '':'' @ k')"
    using c(1) e(2) by simp
  moreover have "takeWhile (\<lambda>c. c \<noteq> CHR '':'') (t @ '':'' @ u) = t" if "is_secname t" for t u
    using that by (subst takeWhile_append2) auto
  ultimately have "s = s'" using assms(2) c(3) by simp
  with c show thesis by (intro that) auto
qed

lemma denote_kv_lines:
  assumes "ini_clean d" "is_secname s" "set es \<subseteq> set (sec_entries d s)"
  shows "ini_denote s (map (\<lambda>(k, v). kv_line (drop (length s + 1) k) v) es @ rest) =
         map_option ((@) es) (ini_denote s rest)"
  using assms(3)
proof (induction es)
  case Nil
  then show ?case by (simp add: option.map_ident)
next
  case (Cons kv es)
  obtain k v where kv: "kv = (k, v)" by fastforce
  with Cons.prems have "(k, v) \<in> set (sec_entries d s)" by simp
  from sec_entry_clean [OF assms(1,2) this] obtain k' v' where
    c: "k = s @ '':'' @ k'" "v = Some v'" "clean_key k'" "clean_val v'" by metis
  have "iniparser_line s (kv_line k' (Some v')) = LINE_VALUE k' v'"
    unfolding kv_line_form using value_line [OF c(3,4), of "replicate (30 - length k') CHR '' '' @ '' ''"] by simp
  with Cons c show ?case by (simp add: kv option.map_comp comp_def)
qed

lemma empty_line [simp]: "iniparser_line s [] = LINE_EMPTY"
  by (simp add: iniparser_line_def strstrip_def rstrip_def)

lemma denote_sections:
  assumes "ini_clean d" "set ss \<subseteq> set (sections_of d)"
  shows "ini_denote sec (concat (map (sec_lines d) ss) @ [[]]) =
         Some (concat (map (\<lambda>s. (s, None) # sec_entries d s) ss))"
  using assms(2)
proof (induction ss arbitrary: sec)
  case Nil
  then show ?case by simp
next
  case (Cons s ss)
  then have s: "is_secname s" "clean_sec s"
    using assms(1) by (auto simp: ini_clean_def clean_entry_def split: if_splits)
  show ?case
    using Cons denote_kv_lines [OF assms(1) s(1) subset_refl] section_line [OF s(2)]
    by (simp add: sec_lines_def)
qed

lemma map_of_set_eq:
  assumes "set xs = set ys" "distinct (map fst ys)"
  shows "map_of xs = map_of ys"
proof (rule map_eqI)
  fix k v
  show "map_of xs k = Some v \<longleftrightarrow> map_of ys k = Some v"
    using assms by (metis eq_key_imp_eq_value map_of_SomeD map_of_is_SomeI weak_map_of_SomeI)
qed

lemma clean_lines_ok:
  assumes "ini_clean d" "l \<in> set (concat (map (sec_lines d) (sections_of d)) @ [[]])"
  shows "ini_line_ok l"
proof -
  have empty: "ini_line_ok []" by (simp add: ini_line_ok_def rstrip_def)
  from assms(2) consider "l = []"
    | s where "s \<in> set (sections_of d)" "l = CHR ''['' # s @ '']''"
    | s k v where "s \<in> set (sections_of d)" "(k, v) \<in> set (sec_entries d s)"
        "l = kv_line (drop (length s + 1) k) v"
  proof (cases "l = []")
    case False
    with assms(2) obtain s where s: "s \<in> set (sections_of d)" "l \<in> set (sec_lines d s)" by auto
    then have "l = CHR ''['' # s @ '']'' \<or>
               (\<exists>(k, v) \<in> set (sec_entries d s). l = kv_line (drop (length s + 1) k) v)"
      using False by (auto simp: sec_lines_def)
    with s(1) that(2,3) show ?thesis by blast
  qed
  then show ?thesis
  proof cases
    case 2
    then have "clean_sec s"
      using assms(1) by (auto simp: ini_clean_def clean_entry_def split: if_splits)
    then show ?thesis
      using 2 rstrip_last [of l] by (auto simp: ini_line_ok_def clean_sec_def)
  next
    case 3
    then have "is_secname s" by simp
    from sec_entry_clean [OF assms(1) this 3(2)] obtain k' v' where
      c: "k = s @ '':'' @ k'" "v = Some v'" "clean_key k'" "clean_val v'"
         "max 30 (length k') + 3 + length v' \<le> 1022" .
    then have l: "l = k' @ (replicate (30 - length k') CHR '' '' @ '' '') @ CHR ''='' # CHR '' '' # v'"
      using 3(3) kv_line_form [of k' v] by simp
    have "rstrip l = (if v' = [] then butlast l else l)"
    proof (cases "v' = []")
      case True
      then show ?thesis
        using rstrip_blanks [of "'' ''" "butlast l"] rstrip_last [of "butlast l"] by (simp add: l butlast_append)
    next
      case False
      with c(4) show ?thesis by (simp add: l rstrip_last clean_val_def trimmed_def)
    qed
    then have "last (rstrip l) \<noteq> CHR 0x5C"
      using c(4) by (auto simp: l clean_val_def butlast_append)
    moreover have "length l \<le> 1022" using c(5) by (simp add: l)
    moreover have "NL \<notin> set l \<and> NUL \<notin> set l"
      using c(3,4) by (auto simp: l clean_key_def clean_val_def)
    ultimately show ?thesis by (simp add: ini_line_ok_def)
  qed (simp add: empty)
qed

lemma clean_items:
  assumes "ini_clean d"
  shows "map_of (rev (concat (map (\<lambda>s. (s, None) # sec_entries d s) (sections_of d)))) = dict_map d"
proof -
  let ?items = "concat (map (\<lambda>s. (s, None) # sec_entries d s) (sections_of d))"
  have inv: "dict_inv d" using assms by (simp add: ini_clean_def)
  have "set ?items = set (dict_entries d)"
  proof (intro subset_antisym subrelI)
    fix k v assume "(k, v) \<in> set ?items"
    then show "(k, v) \<in> set (dict_entries d)"
      using assms by (force simp: sec_entries_def ini_clean_def clean_entry_def split: if_splits)
  next
    fix k v assume e: "(k, v) \<in> set (dict_entries d)"
    with assms have c: "clean_entry (dict_keys d) k v" by (auto simp: ini_clean_def)
    show "(k, v) \<in> set ?items"
    proof (cases "is_secname k")
      case True
      with c e show ?thesis by (force simp: clean_entry_def)
    next
      case False
      with c obtain s k' where "k = s @ '':'' @ k'" "is_secname s" "s \<in> set (dict_keys d)"
        by (auto simp: clean_entry_def)
      with e show ?thesis by (auto simp: sec_entries_def str_starts_iff intro!: bexI [of _ s])
    qed
  qed
  then have "map_of (rev ?items) = map_of (dict_entries d)"
    by (intro map_of_set_eq) (use dict_entries_distinct [OF inv] in simp_all)
  then show ?thesis using map_of_dict_entries [OF inv] by simp
qed

lemma dump_load_clean:
  assumes "ini_clean d"
  shows "\<exists>e. iniparser_load (\<lambda>_. alloc_ok) True False (Some (iniparser_dump_ini (Some d))) = Some (Some e) \<and>
             dict_inv e \<and> dict_map e = dict_map d"
proof (cases "sections_of d = []")
  case False
  have "ini_denote [] (concat (map (sec_lines d) (sections_of d)) @ [[]]) =
          Some (concat (map (\<lambda>s. (s, None) # sec_entries d s) (sections_of d)))"
    by (rule denote_sections [OF assms subset_refl])
  from load_denotes_map [OF ballI [OF clean_lines_ok [OF assms]] this]
  show ?thesis by (simp only: dump_lines [OF assms False] clean_items [OF assms])
next
  case True
  have "dict_entries d = []"
  proof (rule ccontr)
    assume "dict_entries d \<noteq> []"
    then obtain k v where "(k, v) \<in> set (dict_entries d)" by (cases "dict_entries d") auto
    then have kv: "k \<in> set (dict_keys d)" "clean_entry (dict_keys d) k v"
      using assms by (force, auto simp: ini_clean_def)
    have "\<exists>s \<in> set (dict_keys d). is_secname s"
      by (cases "is_secname k") (use kv in \<open>auto simp: clean_entry_def\<close>)
    with True show False by (auto simp: filter_empty_conv)
  qed
  then have "dict_map d = Map.empty" "iniparser_dump_ini (Some d) = ini_text []"
    using map_of_dict_entries [of d] assms
    by (simp_all add: ini_clean_def iniparser_dump_ini_def iniparser_getnsec_def)
  then show ?thesis using load_denotes_map [of "[]" "[]"] by simp
qed

text \<open>C13. Writing a dictionary of clean entries and loading the text gives a dictionary with the
  same contents, whatever the slot order and the gaps left by removed keys.\<close>

theorem dump_ini_load_roundtrip:
  assumes "ini_clean d"
  shows "\<exists>e. iniparser_load (\<lambda>_. alloc_ok) True False (Some (iniparser_dump_ini (Some d))) = Some (Some e) \<and>
             dict_inv e \<and> dict_map e = dict_map d"
  by (rule dump_load_clean [OF assms])


lemma dict_entries_map:
  assumes "dict_inv d"
  shows "(k, v) \<in> set (dict_entries d) \<longleftrightarrow> dict_map d k = Some v"
  using map_of_dict_entries [OF assms] dict_entries_distinct [OF assms]
  by (metis map_of_SomeD map_of_is_SomeI)

lemma dict_keys_map: "dict_inv d \<Longrightarrow> k \<in> set (dict_keys d) \<longleftrightarrow> dict_map d k \<noteq> None"
  using dict_entries_map [of d k] map_of_dict_entries [of d]
  by (metis dom_map_of_conv_image_fst domIff set_map)

theorem dump_ini_load_roundtrip_witness:
  "\<exists>d e. dict_map d = [''video.0'' \<mapsto> None, ''video.0:gop'' \<mapsto> Some ''30''] \<and>
     iniparser_load (\<lambda>_. alloc_ok) True False (Some (iniparser_dump_ini (Some d))) = Some (Some e) \<and>
     dict_map e = dict_map d"
proof -
  obtain d where d: "dict_inv d" "dict_map d = dict_map fresh_dict ++
      map_of (rev [(''video.0'', None), (''video.0:gop'', Some ''30'')])"
    using dict.put_all_spec [OF fresh_dict_props(1)] by metis
  then have m: "dict_map d = [''video.0'' \<mapsto> None, ''video.0:gop'' \<mapsto> Some ''30'']"
    by (simp add: fun_upd_twist)
  have "clean_entry (dict_keys d) ''video.0'' None"
    by (simp add: clean_entry_def clean_sec_def trimmed_def c_isspace_def c_tolower_def)
  moreover have "clean_key ''gop''" "clean_val ''30''"
    by (simp_all add: clean_key_def clean_val_def trimmed_def c_isspace_def c_tolower_def)
  then have "clean_entry (dict_keys d) ''video.0:gop'' (Some ''30'')"
    unfolding clean_entry_def using dict_keys_map [OF d(1), of "''video.0''"] m
    by (simp del: set_map) (rule exI [of _ "''video.0''"], rule exI [of _ "''gop''"], simp del: set_map)
  ultimately have "ini_clean d"
    using d(1) by (auto simp: ini_clean_def dict_entries_map m split: if_splits)
  from dump_ini_load_roundtrip [OF this] m show ?thesis by metis
qed

section \<open>Case-insensitive keys\<close>

lemma set_getstring_lookup:
  assumes "dict_inv d" and "length entry \<le> ASCIILINESZ" and "length other \<le> ASCIILINESZ"
  shows "\<exists>e. iniparser_set alloc_ok (Some d) (Some entry) (Some v) = Some (0, Some e) \<and> dict_inv e \<and>
     iniparser_getstring (Some e) (Some other) def =
       (if map c_tolower other = map c_tolower entry then Str v
        else iniparser_getstring (Some d) (Some other) def)"
proof -
  have l: "strlwc (Some s) (ASCIILINESZ + 1) = Some (map c_tolower s)" if "length s \<le> ASCIILINESZ" for s
    using that by (simp add: strlwc_def)
  obtain e where "dict_put alloc_ok d (map c_tolower entry) (Some v) = Some (0, e)" "dict_inv e"
      "dict_map e = (dict_map d)(map c_tolower entry \<mapsto> Some v)"
    using dict_put_ok [OF assms(1)] by blast
  then show ?thesis
    using l [OF assms(2)] l [OF assms(3)]
    by (simp add: iniparser_set_def iniparser_getstring_def dict_simps)
qed

text \<open>After a successful set through the INI layer, a lookup under the same name in any letter
  case yields the value, and every other entry is as it was.\<close>

theorem iniparser_set_getstring:
  assumes "dict_inv d" and "length entry \<le> ASCIILINESZ" and "length other \<le> ASCIILINESZ"
  shows "\<exists>e. iniparser_set alloc_ok (Some d) (Some entry) (Some v) = Some (0, Some e) \<and> dict_inv e \<and>
     iniparser_getstring (Some e) (Some other) def =
       (if map c_tolower other = map c_tolower entry then Str v
        else iniparser_getstring (Some d) (Some other) def)"
  by (rule set_getstring_lookup [OF assms])

theorem iniparser_set_getstring_witness:
  "\<exists>e. iniparser_set alloc_ok (Some fresh_dict) (Some ''Video.0:GOP'') (Some ''30'') = Some (0, Some e) \<and>
       iniparser_getstring (Some e) (Some ''video.0:gop'') Null = Str ''30''"
proof -
  have "map c_tolower ''video.0:gop'' = map c_tolower ''Video.0:GOP''"
    by code_simp
  then show ?thesis
    using iniparser_set_getstring [OF fresh_dict_props(1), of "''Video.0:GOP''" "''video.0:gop''" "''30''" Null]
    by (auto simp: ASCIILINESZ_def)
qed

section \<open>Where the text form is ambiguous\<close>

text \<open>A value with a comment sign is cut, an empty section header shortens the previous one.\<close>

lemma dump_loses_comment_tail:
  "iniparser_line s (kv_line ''key'' (Some ''a;b'')) = LINE_VALUE ''key'' ''a''"
proof -
  have r: "replicate 27 CHR '' '' = ''                           ''"
    by (simp add: numeral_eq_Suc)
  show ?thesis
    by (simp add: kv_line_def pad_right_def r iniparser_line_def strstrip_def rstrip_def c_isspace_def Let_def
        scan_set_def scan_quoted_def scan_key_def scan_lit_def scan_ws_def scan_plain_def lower_upto_def c_tolower_def)
qed

lemma empty_header_truncates:
  "iniparser_line ''video'' ''[]'' = LINE_SECTION ''v''"
  by (simp add: iniparser_line_def strstrip_def rstrip_def c_isspace_def Let_def scan_set_def lower_upto_def
      c_tolower_def)

end
