(* ===== verification/Param.thy ===== *)
theory Param
  imports IniFormat
begin

text \<open>
  The parameter store of \<^verbatim>\<open>common/param/param.c\<close>: the loaded dictionary and its path, the
  getters and setters, loading and reloading, and the atomic save. The files are a map from
  paths to contents; the outcome of every system call of the save is an argument. Each
  function runs entirely under \<^verbatim>\<open>g_param_mutex\<close>, so that it is one atomic step here.
\<close>

section \<open>State\<close>

record param_state =
  g_ini_path :: string
  g_ini_d :: "dictionary option"

type_synonym files = "string \<Rightarrow> string option"

text \<open>The environment of one load: allocations, the dictionary allocation, a read error.\<close>

record load_env =
  l_mem :: "nat \<Rightarrow> dict_alloc"
  l_new :: bool
  l_ferr :: bool

definition load_ok :: load_env where
  "load_ok = \<lparr>l_mem = \<lambda>_. alloc_ok, l_new = True, l_ferr = False\<rparr>"

definition load_file :: "load_env \<Rightarrow> files \<Rightarrow> string \<Rightarrow> dictionary option option" where
  "load_file env fs path = iniparser_load (l_mem env) (l_new env) (l_ferr env) (fs path)"

definition default_path :: string where
  "default_path = ''/userdata/rkipc.ini''"

section \<open>Lifecycle\<close>

definition rk_param_init ::
  "load_env \<Rightarrow> files \<Rightarrow> string option \<Rightarrow> param_state \<Rightarrow> (int \<times> param_state) option" where
  "rk_param_init env fs ini_path st =
     (let path = (case ini_path of None \<Rightarrow> default_path | Some p \<Rightarrow> p)
      in if path = [] \<or> length path \<ge> 256 then Some (-1, st)
         else if g_ini_d st \<noteq> None then Some (-1, st)
         else (case load_file env fs path of
                 None \<Rightarrow> None
               | Some None \<Rightarrow> Some (-1, st)
               | Some (Some loaded) \<Rightarrow> Some (0, st\<lparr>g_ini_path := take 255 path, g_ini_d := Some loaded\<rparr>)))"

definition rk_param_deinit :: "param_state \<Rightarrow> int \<times> param_state" where
  "rk_param_deinit st = (0, st\<lparr>g_ini_d := None\<rparr>)"

definition rk_param_reload :: "load_env \<Rightarrow> files \<Rightarrow> param_state \<Rightarrow> (int \<times> param_state) option" where
  "rk_param_reload env fs st =
     (case (case g_ini_d st of None \<Rightarrow> Some None | Some _ \<Rightarrow> load_file env fs (g_ini_path st)) of
        None \<Rightarrow> None
      | Some None \<Rightarrow> Some (-1, st)
      | Some (Some loaded) \<Rightarrow> Some (0, st\<lparr>g_ini_d := Some loaded\<rparr>))"

section \<open>Getters and setters\<close>

definition rk_param_get_int :: "param_state \<Rightarrow> string \<Rightarrow> int \<Rightarrow> int option" where
  "rk_param_get_int st entry default_val = iniparser_getint (g_ini_d st) (Some entry) default_val"

definition rk_param_get_string :: "param_state \<Rightarrow> string \<Rightarrow> cptr \<Rightarrow> cptr" where
  "rk_param_get_string st entry default_val = iniparser_getstring (g_ini_d st) (Some entry) default_val"

definition rk_param_set_string ::
  "dict_alloc \<Rightarrow> param_state \<Rightarrow> string \<Rightarrow> string option \<Rightarrow> (int \<times> param_state) option" where
  "rk_param_set_string mem st entry val =
     (case iniparser_set mem (g_ini_d st) (Some entry) val of
        None \<Rightarrow> None
      | Some (ret, d) \<Rightarrow> Some (ret, st\<lparr>g_ini_d := d\<rparr>))"

definition rk_param_set_int ::
  "dict_alloc \<Rightarrow> param_state \<Rightarrow> string \<Rightarrow> int \<Rightarrow> (int \<times> param_state) option" where
  "rk_param_set_int mem st entry val =
     (case iniparser_set mem (g_ini_d st) (Some entry) (Some (show_int val)) of
        None \<Rightarrow> None
      | Some (ret, d) \<Rightarrow> Some (ret, st\<lparr>g_ini_d := d\<rparr>))"

text \<open>The debug listing of all sections; \<open>-1\<close> stops at a section with too many keys.\<close>

definition MAX_SECTION_KEYS :: nat where
  "MAX_SECTION_KEYS = 1024"

definition dump_section_keys :: "dictionary option \<Rightarrow> string option \<Rightarrow> (string \<times> cptr) list" where
  "dump_section_keys d sec =
     map (\<lambda>k. (k, iniparser_getstring d (Some k) (Str [])))
       (case iniparser_getseckeys d sec of None \<Rightarrow> [] | Some ks \<Rightarrow> ks)"

fun rk_param_dump_from :: "dictionary option \<Rightarrow> nat list \<Rightarrow> int \<times> (string option \<times> (string \<times> cptr) list) list" where
  "rk_param_dump_from d [] = (0, [])"
| "rk_param_dump_from d (i # is) =
     (let sec = iniparser_getsecname d (int i)
      in if iniparser_getsecnkeys d sec > MAX_SECTION_KEYS then (-1, [])
         else (case rk_param_dump_from d is of
                 (rc, out) \<Rightarrow> (rc, (sec, dump_section_keys d sec) # out)))"

definition rk_param_dump :: "param_state \<Rightarrow> int \<times> (string option \<times> (string \<times> cptr) list) list" where
  "rk_param_dump st = rk_param_dump_from (g_ini_d st) [0..<nat (iniparser_getnsec (g_ini_d st))]"

section \<open>Saving\<close>

text \<open>
  The outcomes of the system calls. \<open>e_mode\<close> is the mode of the target when \<^verbatim>\<open>lstat\<close> finds
  it, \<open>e_written\<close> what of the text reached the temporary file when the writes failed.
\<close>

record save_env =
  e_mode :: "nat option"
  e_regular :: bool
  e_opendir :: "string \<Rightarrow> bool"
  e_mkstemp :: "string option"
  e_fchmod :: bool
  e_fdopen :: bool
  e_write :: bool
  e_written :: string
  e_fclose :: bool
  e_rename :: bool
  e_dirsync :: bool
  e_unlink :: bool

text \<open>
  The variables of the function and, for the claims, what the kernel holds: the files,
  the mode given to the temporary file, and how many descriptors are open.
\<close>

record save_st =
  s_fs :: files
  s_mode :: "nat option"
  s_open :: int
  s_temporary :: "string option"
  s_fd :: bool
  s_fp :: bool
  s_directory :: bool
  s_result :: int

definition parent_dir :: "string \<Rightarrow> string" where
  "parent_dir p =
     (if CHR ''/'' \<notin> set p then ''.''
      else (let up = rev (tl (dropWhile (\<lambda>c. c \<noteq> CHR ''/'') (rev p)))
            in if up = [] then ''/'' else up))"

text \<open>The label \<^verbatim>\<open>done\<close>.\<close>

definition save_done :: "save_env \<Rightarrow> save_st \<Rightarrow> save_st" where
  "save_done env st =
     (let st1 = (if s_fp st then st\<lparr>s_fp := False, s_open := s_open st - 1\<rparr> else st);
          st2 = (if s_fd st1 then st1\<lparr>s_fd := False, s_open := s_open st1 - 1\<rparr> else st1);
          st3 = (case s_temporary st2 of
                   None \<Rightarrow> st2
                 | Some t \<Rightarrow> if e_unlink env then st2\<lparr>s_fs := (s_fs st2)(t := None)\<rparr> else st2)
      in if s_directory st3 then st3\<lparr>s_directory := False, s_open := s_open st3 - 1\<rparr> else st3)"

definition save_publish :: "save_env \<Rightarrow> string \<Rightarrow> string \<Rightarrow> string \<Rightarrow> save_st \<Rightarrow> save_st" where
  "save_publish env path tmp content st =
     (if \<not> e_write env then save_done env (st\<lparr>s_fs := (s_fs st)(tmp := Some (e_written env))\<rparr>)
      else
        (let st4 = st\<lparr>s_fs := (s_fs st)(tmp := Some content), s_fp := False, s_open := s_open st - 1\<rparr>
         in if \<not> e_fclose env then save_done env st4
            else if \<not> e_rename env then save_done env st4
            else save_done env
                   (st4\<lparr>s_fs := (s_fs st4)(path := s_fs st4 tmp, tmp := None), s_temporary := None,
                        s_result := (if e_dirsync env then 0 else -1)\<rparr>)))"

definition save_start :: "files \<Rightarrow> save_st" where
  "save_start fs =
     \<lparr>s_fs = fs, s_mode = None, s_open = 0, s_temporary = None, s_fd = False, s_fp = False,
      s_directory = False, s_result = -1\<rparr>"

definition rk_param_save :: "save_env \<Rightarrow> param_state \<Rightarrow> files \<Rightarrow> save_st" where
  "rk_param_save env ps fs =
     (let st = save_start fs; path = g_ini_path ps
      in case (g_ini_d ps, e_mode env) of
           (Some d, Some mode) \<Rightarrow>
             if \<not> e_regular env then save_done env st
             else if \<not> e_opendir env (parent_dir path) then save_done env st
             else
               (let st1 = st\<lparr>s_directory := True, s_open := s_open st + 1\<rparr>
                in case e_mkstemp env of
                     None \<Rightarrow> save_done env st1
                   | Some tmp \<Rightarrow>
                       (let st2 = st1\<lparr>s_fs := (s_fs st1)(tmp := Some []), s_temporary := Some tmp,
                                      s_fd := True, s_open := s_open st1 + 1\<rparr>
                        in if \<not> e_fchmod env then save_done env st2
                           else
                             (let st3 = st2\<lparr>s_mode := Some (mode mod 512)\<rparr>
                              in if \<not> e_fdopen env then save_done env st3
                                 else save_publish env path tmp (iniparser_dump_ini (Some d))
                                        (st3\<lparr>s_fp := True, s_fd := False\<rparr>))))
         | _ \<Rightarrow> save_done env st)"


section \<open>Properties\<close>

definition param_inv :: "param_state \<Rightarrow> bool" where
  "param_inv st \<longleftrightarrow> (\<forall>d. g_ini_d st = Some d \<longrightarrow> dict_inv d \<and> g_ini_path st \<noteq> [] \<and> length (g_ini_path st) < 256)"

text \<open>The save as its outcome: whether it got as far as the rename, and what is left behind.\<close>

lemmas save_simps = rk_param_save_def save_publish_def save_done_def save_start_def Let_def

lemma save_atomic:
  assumes "\<forall>t. e_mkstemp env = Some t \<longrightarrow> t \<noteq> g_ini_path ps \<and> fs t = None"
  shows "let r = rk_param_save env ps fs; new = iniparser_dump_ini (g_ini_d ps); path = g_ini_path ps
         in s_fs r path \<in> {fs path, Some new} \<and>
            (\<forall>p. p \<noteq> path \<longrightarrow> Some p \<noteq> e_mkstemp env \<longrightarrow> s_fs r p = fs p) \<and>
            s_open r = 0 \<and>
            (e_unlink env \<longrightarrow> (\<forall>t. e_mkstemp env = Some t \<longrightarrow> s_fs r t = None)) \<and>
            s_result r \<in> {0, -1} \<and>
            (s_result r = 0 \<longrightarrow> s_fs r path = Some new \<and> g_ini_d ps \<noteq> None \<and>
               s_mode r = map_option (\<lambda>m. m mod 512) (e_mode env))"
proof (cases "g_ini_d ps")
  case None
  then show ?thesis using assms by (simp add: save_simps)
next
  case d: (Some d)
  let ?dir = "e_opendir env (parent_dir (g_ini_path ps))"
  consider "e_mode env = None"
    | m where "e_mode env = Some m" "\<not> e_regular env \<or> \<not> ?dir"
    | m where "e_mode env = Some m" "e_regular env" "?dir" "e_mkstemp env = None"
    | m t where "e_mode env = Some m" "e_regular env" "?dir" "e_mkstemp env = Some t" "\<not> e_fchmod env"
    | m t where "e_mode env = Some m" "e_regular env" "?dir" "e_mkstemp env = Some t" "e_fchmod env"
        "\<not> e_fdopen env"
    | m t where "e_mode env = Some m" "e_regular env" "?dir" "e_mkstemp env = Some t" "e_fchmod env"
        "e_fdopen env" "\<not> e_write env"
    | m t where "e_mode env = Some m" "e_regular env" "?dir" "e_mkstemp env = Some t" "e_fchmod env"
        "e_fdopen env" "e_write env" "\<not> e_fclose env \<or> \<not> e_rename env"
    | m t where "e_mode env = Some m" "e_regular env" "?dir" "e_mkstemp env = Some t" "e_fchmod env"
        "e_fdopen env" "e_write env" "e_fclose env" "e_rename env"
    by fastforce
  then show ?thesis
    by cases (use assms d in \<open>auto simp: save_simps\<close>)
qed

text \<open>C10. Whatever call fails, a save leaves the target either as it was or with the complete new
  text, touches no other file than its temporary one, closes every descriptor it opened
  exactly once and removes the temporary file; it reports success only after the complete
  text replaced the target with the permissions of the old file.\<close>

theorem rk_param_save_atomic:
  assumes "\<forall>t. e_mkstemp env = Some t \<longrightarrow> t \<noteq> g_ini_path ps \<and> fs t = None"
  shows "let r = rk_param_save env ps fs; new = iniparser_dump_ini (g_ini_d ps); path = g_ini_path ps
         in s_fs r path \<in> {fs path, Some new} \<and>
            (\<forall>p. p \<noteq> path \<longrightarrow> Some p \<noteq> e_mkstemp env \<longrightarrow> s_fs r p = fs p) \<and>
            s_open r = 0 \<and>
            (e_unlink env \<longrightarrow> (\<forall>t. e_mkstemp env = Some t \<longrightarrow> s_fs r t = None)) \<and>
            s_result r \<in> {0, -1} \<and>
            (s_result r = 0 \<longrightarrow> s_fs r path = Some new \<and> g_ini_d ps \<noteq> None \<and>
               s_mode r = map_option (\<lambda>m. m mod 512) (e_mode env))"
  by (rule save_atomic [OF assms])

definition save_env_ok :: save_env where
  "save_env_ok = \<lparr>e_mode = Some 420, e_regular = True, e_opendir = \<lambda>_. True, e_mkstemp = Some ''a.ini.tmp.x1'',
     e_fchmod = True, e_fdopen = True, e_write = True, e_written = [], e_fclose = True, e_rename = True,
     e_dirsync = True, e_unlink = True\<rparr>"

theorem rk_param_save_atomic_witness:
  "s_open (rk_param_save (save_env_ok\<lparr>e_rename := False\<rparr>)
     \<lparr>g_ini_path = ''a.ini'', g_ini_d = Some fresh_dict\<rparr> [''a.ini'' \<mapsto> ''old'']) = 0"
  using rk_param_save_atomic [of "save_env_ok\<lparr>e_rename := False\<rparr>"
      "\<lparr>g_ini_path = ''a.ini'', g_ini_d = Some fresh_dict\<rparr>" "[''a.ini'' \<mapsto> ''old'']"]
  by (simp add: save_env_ok_def Let_def)



lemma fresh_param_reload_ok: "ini_clean fresh_dict"
  using dict_entries_map [OF fresh_dict_props(1)] by (auto simp: ini_clean_def)


text \<open>An integer stored under a name is read back under that name in any letter case, and the
  other entries keep their values.\<close>

theorem rk_param_int_roundtrip:
  assumes "g_ini_d st = Some d" and "dict_inv d"
    and "length entry \<le> ASCIILINESZ" and "length other \<le> ASCIILINESZ"
    and "LONG_MIN \<le> val" and "val \<le> LONG_MAX"
  shows "\<exists>st'. rk_param_set_int alloc_ok st entry val = Some (0, st') \<and>
     rk_param_get_int st' other dflt =
       (if map c_tolower other = map c_tolower entry then Some val else rk_param_get_int st other dflt)"
proof -
  obtain e where e: "iniparser_set alloc_ok (Some d) (Some entry) (Some (show_int val)) = Some (0, Some e)"
      "iniparser_getstring (Some e) (Some other) Invalid_key =
        (if map c_tolower other = map c_tolower entry then Str (show_int val)
         else iniparser_getstring (Some d) (Some other) Invalid_key)"
    using set_getstring_lookup [OF assms(2-4), of "show_int val" Invalid_key] by metis
  have "c_strtol 0 (show_int val) = (val, [], False)"
    using strtol_show_int [of 0 val] assms(5,6) by simp
  with e assms(1) show ?thesis
    by (simp add: rk_param_set_int_def rk_param_get_int_def iniparser_getint_def iniparser_getlongint_def)
qed

theorem rk_param_int_roundtrip_witness:
  "\<exists>st'. rk_param_set_int alloc_ok \<lparr>g_ini_path = ''a'', g_ini_d = Some fresh_dict\<rparr> ''k:n'' (- 7) = Some (0, st') \<and>
     rk_param_get_int st' ''k:n'' 0 = Some (- 7)"
  using rk_param_int_roundtrip [of "\<lparr>g_ini_path = ''a'', g_ini_d = Some fresh_dict\<rparr>" fresh_dict "''k:n''" "''k:n''" "- 7" 0]
  by (simp add: ASCIILINESZ_def LONG_MIN_def LONG_MAX_def)

lemma load_file_cases:
  "load_file env fs p = Some None \<or> (\<exists>e. load_file env fs p = Some (Some e) \<and> dict_inv e)"
proof -
  obtain r where "load_file env fs p = Some r" "case r of None \<Rightarrow> True | Some d \<Rightarrow> dict_inv d"
    unfolding load_file_def using load_returns by blast
  then show ?thesis by (cases r) auto
qed

lemma rk_param_init_reload_safe_parts:
  assumes "param_inv st"
  shows "\<exists>rc st'. rk_param_init env fs p st = Some (rc, st') \<and> rc \<in> {0, -1} \<and> param_inv st' \<and>
           (rc = -1 \<longrightarrow> st' = st) \<and> (rc = 0 \<longrightarrow> g_ini_d st = None \<and> g_ini_d st' \<noteq> None)"
    and "\<exists>rc st'. rk_param_reload env fs st = Some (rc, st') \<and> rc \<in> {0, -1} \<and> param_inv st' \<and>
           (rc = -1 \<longrightarrow> st' = st) \<and> (rc = 0 \<longrightarrow> g_ini_path st' = g_ini_path st \<and> g_ini_d st \<noteq> None)"
proof -
  let ?p = "case p of None \<Rightarrow> default_path | Some p \<Rightarrow> p"
  show "\<exists>rc st'. rk_param_init env fs p st = Some (rc, st') \<and> rc \<in> {0, -1} \<and> param_inv st' \<and>
          (rc = -1 \<longrightarrow> st' = st) \<and> (rc = 0 \<longrightarrow> g_ini_d st = None \<and> g_ini_d st' \<noteq> None)"
    using load_file_cases [of env fs ?p] assms unfolding rk_param_init_def Let_def
    by (elim disjE exE conjE) (auto simp: param_inv_def)
  show "\<exists>rc st'. rk_param_reload env fs st = Some (rc, st') \<and> rc \<in> {0, -1} \<and> param_inv st' \<and>
          (rc = -1 \<longrightarrow> st' = st) \<and> (rc = 0 \<longrightarrow> g_ini_path st' = g_ini_path st \<and> g_ini_d st \<noteq> None)"
    using load_file_cases [of env fs "g_ini_path st"] assms
    by (elim disjE exE conjE; cases "g_ini_d st") (auto simp: rk_param_reload_def param_inv_def)
qed

text \<open>Loading and reloading return for every file and every allocation outcome; a call that
  fails leaves the store exactly as it was, a call that succeeds leaves a well-formed
  dictionary, and a second initialisation is refused.\<close>

theorem rk_param_init_reload_safe:
  assumes "param_inv st"
  shows "(\<exists>rc st'. rk_param_init env fs p st = Some (rc, st') \<and> rc \<in> {0, -1} \<and> param_inv st' \<and>
           (rc = -1 \<longrightarrow> st' = st) \<and> (rc = 0 \<longrightarrow> g_ini_d st = None \<and> g_ini_d st' \<noteq> None)) \<and>
     (\<exists>rc st'. rk_param_reload env fs st = Some (rc, st') \<and> rc \<in> {0, -1} \<and> param_inv st' \<and>
           (rc = -1 \<longrightarrow> st' = st) \<and> (rc = 0 \<longrightarrow> g_ini_path st' = g_ini_path st \<and> g_ini_d st \<noteq> None))"
  by (rule conjI [OF rk_param_init_reload_safe_parts [OF assms]])

theorem rk_param_init_reload_safe_witness:
  "\<exists>rc st'. rk_param_reload load_ok [''a.ini'' \<mapsto> ''[broken''] \<lparr>g_ini_path = ''a.ini'', g_ini_d = Some fresh_dict\<rparr> =
     Some (rc, st') \<and> param_inv st'"
proof -
  have "param_inv \<lparr>g_ini_path = ''a.ini'', g_ini_d = Some fresh_dict\<rparr>" by (simp add: param_inv_def)
  from conjunct2 [OF rk_param_init_reload_safe [OF this, of load_ok "[''a.ini'' \<mapsto> ''[broken'']"]] show ?thesis by blast
qed

end
