(* ===== verification/ConfigValidation.thy ===== *)
theory ConfigValidation
  imports IniParser
begin

text \<open>
  The configuration check \<^verbatim>\<open>src/config/config_validation.hpp\<close>: every check is a computation
  that throws the key and the reason. \<^verbatim>\<open>inet_pton\<close> is a parameter (for IPv4 and IPv6).
  The lemmas say which texts the strict integer reader accepts, that the permissive base-0
  reader of the runtime reads an accepted text as the same number, and what a dictionary
  that passes guarantees to the media pipeline.
\<close>

section \<open>Reading single values\<close>

datatype cfg_error = Cfg_error string string

type_synonym dict_ptr = "dictionary option"

definition cfg_fail :: "string \<Rightarrow> string \<Rightarrow> cfg_error + 'a" where
  "cfg_fail key reason = Inl (Cfg_error key reason)"

definition cfg_text :: "dict_ptr \<Rightarrow> string \<Rightarrow> cptr \<Rightarrow> cfg_error + string" where
  "cfg_text d key fallback =
     (case iniparser_getstring d (Some key) fallback of
        Str value \<Rightarrow> if value = [] then cfg_fail key ''missing or empty'' else Inr value
      | _ \<Rightarrow> cfg_fail key ''missing or empty'')"

definition cfg_integer :: "string \<Rightarrow> string \<Rightarrow> int \<Rightarrow> int \<Rightarrow> cfg_error + int" where
  "cfg_integer value key low high =
     (if value = [] \<or> \<not> list_all (\<lambda>c. c \<in> set ''-0123456789'') value
      then cfg_fail key ''expected decimal integer''
      else
        (let first = (if hd value = CHR ''-'' then 1 else 0)
         in if length value > first + 1 \<and> value ! first = CHR ''0''
            then cfg_fail key ''leading zero is ambiguous; use decimal without padding''
            else (case c_strtol 10 value of
                    (n, end, erange) \<Rightarrow>
                      if erange \<or> end = value \<or> end \<noteq> [] \<or> n < low \<or> n > high
                      then cfg_fail key ''integer out of range or malformed''
                      else Inr n)))"

definition cfg_number :: "dict_ptr \<Rightarrow> string \<Rightarrow> int \<Rightarrow> int \<Rightarrow> cptr \<Rightarrow> cfg_error + int" where
  "cfg_number d key low high fallback =
     bindE (cfg_text d key fallback) (\<lambda>v. cfg_integer v key low high)"

definition cfg_choice :: "dict_ptr \<Rightarrow> string \<Rightarrow> string list \<Rightarrow> cptr \<Rightarrow> cfg_error + unit" where
  "cfg_choice d key values fallback =
     bindE (cfg_text d key fallback) (\<lambda>value.
       if value \<in> set values then Inr () else cfg_fail key ''unsupported value'')"

section \<open>Stream URLs\<close>

text \<open>The authority after the user information: the host that is compared and resolved.\<close>

definition cfg_host :: "(string \<Rightarrow> bool) \<Rightarrow> string \<Rightarrow> string \<Rightarrow> cfg_error + string" where
  "cfg_host pton6 key host =
     (if host = [] then cfg_fail key ''empty host''
      else if hd host = CHR ''['' then
        (let inner = takeWhile (\<lambda>c. c \<noteq> CHR '']'') (tl host);
             after = tl (dropWhile (\<lambda>c. c \<noteq> CHR '']'') (tl host))
         in if CHR '']'' \<notin> set host \<or> \<not> pton6 inner then cfg_fail key ''invalid IPv6 host''
            else if after = [] then Inr (CHR ''['' # inner @ '']'')
            else if hd after \<noteq> CHR '':'' then cfg_fail key ''invalid authority''
            else bindE (cfg_integer (tl after) key 1 65535) (\<lambda>_. Inr (CHR ''['' # inner @ '']'')))
      else
        bindE
          (if CHR '':'' \<in> set host
           then bindE (cfg_integer (tl (dropWhile (\<lambda>c. c \<noteq> CHR '':'') host)) key 1 65535)
                  (\<lambda>_. Inr (takeWhile (\<lambda>c. c \<noteq> CHR '':'') host))
           else Inr host)
          (\<lambda>h. if h = [] then cfg_fail key ''empty host'' else Inr h))"

definition cfg_url_key :: "string \<Rightarrow> string \<Rightarrow> string" where
  "cfg_url_key protocol stream = ''stream:'' @ protocol @ ''_'' @ stream @ ''_url''"

text \<open>One stream URL; the state is the previous URL and the common receiver.\<close>

definition cfg_url ::
  "(string \<Rightarrow> bool) \<Rightarrow> (string \<Rightarrow> bool) \<Rightarrow> dict_ptr \<Rightarrow> bool \<Rightarrow> string \<Rightarrow> string \<Rightarrow>
     string \<times> string \<Rightarrow> cfg_error + (string \<times> string)" where
  "cfg_url pton4 pton6 d failover protocol stream st =
     (case st of
        (previous, receiver) \<Rightarrow>
          (let key = cfg_url_key protocol stream; prefix = protocol @ ''://''
           in bindE (cfg_text d key Null) (\<lambda>url.
                if \<not> str_starts url prefix \<or> length url > 1023 \<or>
                   (\<exists>c \<in> set url. c \<in> {CHR '' '', CHR 0x09, CHR 0x0D, CHR 0x0A})
                then cfg_fail key ''invalid URL scheme, length or whitespace''
                else
                  (let rest = drop (length prefix) url;
                       authority = takeWhile (\<lambda>c. c \<noteq> CHR ''/'') rest
                   in if CHR ''/'' \<notin> set rest \<or> tl (dropWhile (\<lambda>c. c \<noteq> CHR ''/'') rest) = []
                      then cfg_fail key ''host and stream path required''
                      else
                        bindE (cfg_host pton6 key (rev (takeWhile (\<lambda>c. c \<noteq> CHR ''@'') (rev authority)))) (\<lambda>host.
                        bindE (if failover
                               then if \<not> pton4 host \<or> (receiver \<noteq> [] \<and> receiver \<noteq> host)
                                    then cfg_fail key ''failover requires one common IPv4 receiver''
                                    else Inr host
                               else Inr receiver) (\<lambda>receiver'.
                        if url = previous then cfg_fail key ''main and AI must use different URLs''
                        else Inr (url, receiver')))))))"

definition cfg_protocol ::
  "(string \<Rightarrow> bool) \<Rightarrow> (string \<Rightarrow> bool) \<Rightarrow> dict_ptr \<Rightarrow> bool \<Rightarrow> string \<Rightarrow> bool \<Rightarrow> string \<Rightarrow> cfg_error + string" where
  "cfg_protocol pton4 pton6 d failover protocol enabled receiver =
     (if \<not> enabled then Inr receiver
      else
        bindE (cfg_url pton4 pton6 d failover protocol ''main'' ([], receiver)) (\<lambda>st.
        bindE (cfg_url pton4 pton6 d failover protocol ''ai'' st) (\<lambda>st'. Inr (snd st'))))"

section \<open>The whole check\<close>

definition cfg_even :: "string \<Rightarrow> int \<Rightarrow> int \<Rightarrow> cfg_error + unit" where
  "cfg_even base w h =
     (if w mod 2 = 1 \<or> h mod 2 = 1 then cfg_fail base ''NV12 dimensions must be even'' else Inr ())"

definition cfg_rates :: "string \<Rightarrow> int \<Rightarrow> int \<Rightarrow> int \<Rightarrow> int \<Rightarrow> int \<Rightarrow> cfg_error + unit" where
  "cfg_rates base src sd dst dd isp_fps =
     (if dst < dd \<or> dst mod dd \<noteq> 0 \<or> dst * sd > src * dd \<or> dst > isp_fps * dd
      then cfg_fail base ''VI requires integer output FPS within source/ISP FPS'' else Inr ())"

definition cfg_video :: "dict_ptr \<Rightarrow> bool \<Rightarrow> int \<Rightarrow> nat \<Rightarrow> cfg_error + unit" where
  "cfg_video d rtmp isp_fps i =
     (let base = ''video.'' @ show_nat i @ '':'' in
      bindE (cfg_number d (base @ ''width'') 2 8192 Null) (\<lambda>w.
      bindE (cfg_number d (base @ ''height'') 2 8192 Null) (\<lambda>h.
      bindE (cfg_even base w h) (\<lambda>_.
      bindE (cfg_number d (base @ ''max_width'') w 8192 Null) (\<lambda>_.
      bindE (cfg_number d (base @ ''max_height'') h 8192 Null) (\<lambda>_.
      bindE (cfg_choice d (base @ ''output_data_type'') [''H.264'', ''H.265''] Null) (\<lambda>_.
      bindE (if rtmp
             then bindE (cfg_text d (base @ ''output_data_type'') Null) (\<lambda>t.
                    if t \<noteq> ''H.264'' then cfg_fail base ''RTMP requires H.264'' else Inr ())
             else Inr ()) (\<lambda>_.
      bindE (cfg_choice d (base @ ''rc_mode'') [''CBR'', ''VBR''] (Str ''CBR'')) (\<lambda>_.
      bindE (cfg_choice d (base @ ''rc_quality'')
               [''highest'', ''higher'', ''high'', ''medium'', ''low'', ''lower'', ''lowest''] (Str ''high'')) (\<lambda>_.
      bindE (cfg_number d (base @ ''enable_refer_buffer_share'') 0 1 (Str ''1'')) (\<lambda>_.
      bindE (cfg_choice d (base @ ''h264_profile'') [''baseline'', ''main'', ''high''] (Str ''high'')) (\<lambda>_.
      bindE (cfg_number d (base @ ''src_frame_rate_num'') 1 120 (Str ''25'')) (\<lambda>src.
      bindE (cfg_number d (base @ ''src_frame_rate_den'') 1 120 (Str ''1'')) (\<lambda>sd.
      bindE (cfg_number d (base @ ''dst_frame_rate_num'') 1 120 (Str ''25'')) (\<lambda>dst.
      bindE (cfg_number d (base @ ''dst_frame_rate_den'') 1 120 (Str ''1'')) (\<lambda>dd.
      bindE (cfg_rates base src sd dst dd isp_fps) (\<lambda>_.
      bindE (cfg_number d (base @ ''gop'') 1 10000 (Str ''50'')) (\<lambda>_.
      bindE (cfg_number d (base @ ''input_buffer_count'') 1 32 Null) (\<lambda>_.
      bindE (cfg_number d (base @ ''buffer_count'') 1 32 (Str ''4'')) (\<lambda>_.
      bindE (cfg_number d (base @ ''buffer_size'') 1024 (64 * 1024 * 1024) Null) (\<lambda>_.
      bindE (cfg_number d (base @ ''max_rate'') 1 1000000 Null) (\<lambda>maxr.
      bindE (cfg_number d (base @ ''mid_rate'') 1 maxr Null) (\<lambda>mid.
      bindE (cfg_number d (base @ ''min_rate'') 0 mid (Str ''0'')) (\<lambda>_. Inr ()))))))))))))))))))))))))"

definition cfg_audio :: "dict_ptr \<Rightarrow> cfg_error + unit" where
  "cfg_audio d =
     bindE (cfg_number d ''audio.0:enable'' 0 1 Null) (\<lambda>enable.
     if enable = 0 then Inr ()
     else
       bindE (cfg_choice d ''audio.0:encode_type'' [''G711A''] (Str ''G711A'')) (\<lambda>_.
       bindE (cfg_choice d ''audio.0:format'' [''S16''] (Str ''S16'')) (\<lambda>_.
       bindE (cfg_number d ''audio.0:sample_rate'' 8000 8000 (Str ''8000'')) (\<lambda>_.
       bindE (cfg_number d ''audio.0:channels'' 1 1 (Str ''1'')) (\<lambda>_.
       bindE (cfg_number d ''audio.0:frame_size'' 1152 1152 (Str ''1152'')) (\<lambda>_.
       bindE (cfg_number d ''audio.0:volume'' 0 100 (Str ''50'')) (\<lambda>_.
       bindE (cfg_number d ''audio.0:enable_vqe'' 0 1 (Str ''1'')) (\<lambda>vqe.
       if vqe = 0 then Inr ()
       else bindE (cfg_text d ''audio.0:vqe_cfg'' Null) (\<lambda>_. Inr ())))))))))"

definition cfg_same_axis :: "dict_ptr \<Rightarrow> string \<Rightarrow> cfg_error + unit" where
  "cfg_same_axis d axis =
     bindE (cfg_number d (''video.1:'' @ axis) 2 8192 Null) (\<lambda>n.
     bindE (cfg_number d (''video.2:'' @ axis) n n Null) (\<lambda>_. Inr ()))"

definition cfg_npu :: "dict_ptr \<Rightarrow> bool \<Rightarrow> cfg_error + unit" where
  "cfg_npu d npu =
     (if \<not> npu then Inr ()
      else
        bindE (cfg_number d ''video.source:npu_fps'' 1 120 (Str ''10'')) (\<lambda>_.
        bindE (cfg_same_axis d ''width'') (\<lambda>_.
        bindE (cfg_same_axis d ''height'') (\<lambda>_.
        bindE (cfg_number d ''osd.common:normalized_screen_width'' 1 8192 Null) (\<lambda>_.
        bindE (cfg_number d ''osd.common:normalized_screen_height'' 1 8192 Null) (\<lambda>_.
        bindE (cfg_choice d ''event.regional_invasion:rockiva_model_type''
                 [''small'', ''medium'', ''big''] (Str ''small'')) (\<lambda>_.
        bindE (cfg_number d ''event.regional_invasion:enabled'' 0 1 (Str ''0'')) (\<lambda>_.
        bindE (cfg_number d ''event.regional_invasion:sensitivity_level'' 1 100 (Str ''50'')) (\<lambda>_.
        bindE (cfg_number d ''event.regional_invasion:time_threshold'' 0 (2147483647 div 1000) (Str ''1'')) (\<lambda>_.
        bindE (cfg_number d ''event.regional_invasion:proportion'' 0 100 (Str ''5'')) (\<lambda>_.
        bindE (cfg_text d ''rockiva:model_path'' Null) (\<lambda>_. Inr ()))))))))))))"

definition cfg_validate :: "(string \<Rightarrow> bool) \<Rightarrow> (string \<Rightarrow> bool) \<Rightarrow> dict_ptr \<Rightarrow> cfg_error + unit" where
  "cfg_validate pton4 pton6 d =
     (if d = None then cfg_fail ''file'' ''not loaded''
      else
        bindE (cfg_number d ''log:level'' 0 3 (Str ''2'')) (\<lambda>_.
        bindE (cfg_number d ''stream:enable_rtsp'' 0 1 Null) (\<lambda>rtsp.
        bindE (cfg_number d ''stream:enable_rtmp'' 0 1 Null) (\<lambda>rtmp.
        bindE (if rtsp = 0 \<and> rtmp = 0 then cfg_fail ''stream'' ''enable at least one protocol'' else Inr ()) (\<lambda>_.
        bindE (cfg_number d ''network:enable_failover'' 0 1 (Str ''0'')) (\<lambda>failover.
        bindE (cfg_number d ''stream:io_timeout_ms'' 100 60000 (Str ''5000'')) (\<lambda>_.
        bindE (cfg_choice d ''stream:rtsp_transport'' [''tcp'', ''udp''] (Str ''tcp'')) (\<lambda>_.
        bindE (cfg_number d ''video.source:enable_aiq'' 0 1 (Str ''1'')) (\<lambda>_.
        bindE (cfg_number d ''video.source:enable_vo'' 0 0 (Str ''0'')) (\<lambda>_.
        bindE (cfg_number d ''video.source:enable_npu'' 0 1 Null) (\<lambda>npu.
        bindE (cfg_number d ''osd:enable_fps'' 0 1 (Str ''1'')) (\<lambda>_.
        bindE (cfg_protocol pton4 pton6 d (failover \<noteq> 0) ''rtsp'' (rtsp \<noteq> 0) []) (\<lambda>receiver.
        bindE (cfg_protocol pton4 pton6 d (failover \<noteq> 0) ''rtmp'' (rtmp \<noteq> 0) receiver) (\<lambda>_.
        bindE (cfg_number d ''isp.0.adjustment:fps'' 1 120 (Str ''25'')) (\<lambda>isp_fps.
        bindE (cfg_video d (rtmp \<noteq> 0) isp_fps 0) (\<lambda>_.
        bindE (cfg_video d (rtmp \<noteq> 0) isp_fps 1) (\<lambda>_.
        bindE (cfg_audio d) (\<lambda>_.
        cfg_npu d (npu \<noteq> 0)))))))))))))))))))"


section \<open>The strict integer reader\<close>

definition canonical_int :: "string \<Rightarrow> int \<Rightarrow> bool" where
  "canonical_int v n \<longleftrightarrow> v = show_int n \<or> (v = ''-0'' \<and> n = 0)"

lemma digit_in_charset: "x < 10 \<Longrightarrow> digit_char x \<in> set ''-0123456789''"
proof -
  assume "x < 10"
  then have "x \<in> {0, 1, 2, 3, 4, 5, 6, 7, 8, 9}" by auto
  then show ?thesis
    by (elim insertE) (auto intro: iffD1 [OF of_char_eq_iff [where 'a = nat]] simp: digit_char_def)
qed


lemma strtol_number_accepts:
  assumes "strtol_number 10 neg s ds = (n, [], False)" "s \<noteq> []" "length ds = 1 \<or> hd ds \<noteq> CHR ''0''"
  shows "\<exists>m. ds = show_nat m \<and> n = (if neg then - int m else int m) \<and> LONG_MIN \<le> n \<and> n \<le> LONG_MAX"
proof -
  obtain m r where r: "read_digits 10 0 ds = (m, r)" by fastforce
  from assms(1,2) have d: "ds \<noteq> []" "c_isdigit (hd ds)"
    by (auto simp: strtol_number_def split: if_splits)
  with assms(1) r have "r = []" and c: "clamp_long (if neg then - int m else int m) = (n, False)"
    by (auto simp: strtol_number_def split: prod.splits)
  with r have "\<forall>c \<in> set ds. c_isdigit c" using read_digits_rest [OF r] by auto
  with digits_show_nat [OF d(1) this assms(3)] r \<open>r = []\<close> have "ds = show_nat m"
    by (auto simp: read_digits_show_nat)
  with c show ?thesis by (auto simp: clamp_long_def split: if_splits)
qed

lemma charset_char:
  "c \<in> set ''-0123456789'' \<Longrightarrow> \<not> c_isspace c \<and> c \<noteq> CHR ''+''"
  by (auto simp: c_isspace_def)

lemma show_nat_charset: "list_all (\<lambda>c. c \<in> set ''-0123456789'') (show_nat m)"
  unfolding list_all_iff using show_nat_digits c_isdigit_digit_char digit_in_charset by metis

lemma cfg_integer_show_nat:
  "cfg_integer (show_nat m) key low high =
     (if low \<le> int m \<and> int m \<le> high \<and> int m \<le> LONG_MAX then Inr (int m)
      else cfg_fail key ''integer out of range or malformed'')"
proof -
  have z: "\<not> (Suc 0 < length (show_nat m) \<and> show_nat m ! 0 = CHR ''0'')"
    using hd_show_nat_zero [of m] by (cases "m = 0") (auto simp: hd_conv_nth)
  have "hd (show_nat m) \<noteq> CHR ''-''"
    using c_isdigit_digit_char [OF show_nat_hd [of m]] by (metis digit_char_neq_sign(1))
  with z show ?thesis
    using show_nat_charset [of m]
    by (simp add: cfg_integer_def strtol_show_nat clamp_long_def LONG_MIN_def cfg_fail_def)
qed

lemma cfg_integer_neg_show_nat:
  "cfg_integer (CHR ''-'' # show_nat m) key low high =
     (if low \<le> - int m \<and> - int m \<le> high \<and> LONG_MIN \<le> - int m then Inr (- int m)
      else cfg_fail key ''integer out of range or malformed'')"
proof -
  have "\<not> (Suc 0 < length (show_nat m) \<and> show_nat m ! 0 = CHR ''0'')"
    using hd_show_nat_zero [of m] by (cases "m = 0") (auto simp: hd_conv_nth)
  then show ?thesis
    using show_nat_charset [of m]
    by (simp add: cfg_integer_def strtol_neg_show_nat clamp_long_def LONG_MAX_def cfg_fail_def)
qed

lemma integer_accepts:
  "cfg_integer v key low high = Inr n \<longleftrightarrow>
     canonical_int v n \<and> low \<le> n \<and> n \<le> high \<and> LONG_MIN \<le> n \<and> n \<le> LONG_MAX"
proof
  assume "canonical_int v n \<and> low \<le> n \<and> n \<le> high \<and> LONG_MIN \<le> n \<and> n \<le> LONG_MAX"
  then show "cfg_integer v key low high = Inr n"
    using cfg_integer_show_nat [of "nat n" key low high] cfg_integer_neg_show_nat [of "nat (- n)" key low high]
      cfg_integer_neg_show_nat [of 0 key low high]
    by (auto simp: canonical_int_def show_int_def)
next
  assume a: "cfg_integer v key low high = Inr n"
  then obtain c cs where v: "v = c # cs" by (cases v) (auto simp: cfg_integer_def cfg_fail_def)
  from a have ch: "\<forall>x \<in> set v. x \<in> set ''-0123456789''"
    and st: "c_strtol 10 v = (n, [], False)" "low \<le> n" "n \<le> high"
    and z: "\<not> (length v > (if hd v = CHR ''-'' then 1 else 0) + 1 \<and>
               v ! (if hd v = CHR ''-'' then 1 else 0) = CHR ''0'')"
    by (auto simp: cfg_integer_def cfg_fail_def list_all_iff Let_def split: if_splits prod.splits)
  from ch v have c: "\<not> c_isspace c" "c \<noteq> CHR ''+''" using charset_char [of c] by auto
  show "canonical_int v n \<and> low \<le> n \<and> n \<le> high \<and> LONG_MIN \<le> n \<and> n \<le> LONG_MAX"
  proof (cases "c = CHR ''-''")
    case True
    have s: "strtol_number 10 True v cs = (n, [], False)" using st(1) v c True by (simp add: c_strtol_def)
    then have "cs \<noteq> []" by (auto simp: strtol_number_def v)
    with z v True have "length cs = 1 \<or> hd cs \<noteq> CHR ''0''" by (cases cs) auto
    from strtol_number_accepts [OF s _ this] v obtain m where
      "cs = show_nat m" "n = - int m" "LONG_MIN \<le> n" "n \<le> LONG_MAX" by auto
    then show ?thesis using v True st by (auto simp: canonical_int_def show_int_def)
  next
    case False
    then have s: "strtol_number 10 False v v = (n, [], False)" using st(1) v c by (simp add: c_strtol_def)
    from z v False have "length v = 1 \<or> hd v \<noteq> CHR ''0''" by auto
    from strtol_number_accepts [OF s _ this] v obtain m where
      "v = show_nat m" "n = int m" "LONG_MIN \<le> n" "n \<le> LONG_MAX" by auto
    then show ?thesis using st by (auto simp: canonical_int_def show_int_def)
  qed
qed

text \<open>The strict reader accepts exactly the decimal prints of the integers in range (and -0), with
  no blanks, signs, leading zeros or trailing characters, and returns the printed value.\<close>

theorem cfg_integer_accepts:
  "cfg_integer v key low high = Inr n \<longleftrightarrow>
     canonical_int v n \<and> low \<le> n \<and> n \<le> high \<and> LONG_MIN \<le> n \<and> n \<le> LONG_MAX"
  by (rule integer_accepts)

lemma strtol0_canonical:
  assumes "canonical_int v n" "LONG_MIN \<le> n" "n \<le> LONG_MAX"
  shows "c_strtol 0 v = (n, [], False)"
proof (cases "v = show_int n")
  case True
  then show ?thesis using strtol_show_int [of 0 n] assms by simp
next
  case False
  with assms have "v = CHR ''-'' # show_nat 0" "n = 0" by (auto simp: canonical_int_def)
  then show ?thesis using strtol_neg_show_nat [of 0 0] by (simp add: clamp_long_def LONG_MIN_def LONG_MAX_def)
qed

lemma cfg_number_getint:
  assumes "cfg_number d key low high fallback = Inr n" "iniparser_find_entry d (Some key)"
  shows "iniparser_getint d (Some key) dflt = Some n"
proof -
  from assms(1) obtain v where v: "cfg_text d key fallback = Inr v" "cfg_integer v key low high = Inr n"
    by (auto simp: cfg_number_def bindE_Inr)
  then have c: "c_strtol 0 v = (n, [], False)"
    using strtol0_canonical integer_accepts by blast
  from v(1) have s: "iniparser_getstring d (Some key) fallback = Str v"
    by (auto simp: cfg_text_def cfg_fail_def split: cptr.splits if_splits)
  have "iniparser_getstring d (Some key) Invalid_key = Str v"
    using s assms(2)
    by (auto simp: iniparser_getstring_def iniparser_find_entry_def dict_simps split: option.splits)
  with c show ?thesis by (simp add: iniparser_getint_def iniparser_getlongint_def)
qed

text \<open>A number the check accepted is read as the same number by the permissive base-0 reader
  the media code uses, so octal or hexadecimal readings cannot disagree with the check.\<close>

theorem cfg_number_matches_runtime:
  assumes "cfg_number d key low high fallback = Inr n" and "iniparser_find_entry d (Some key)"
  shows "iniparser_getint d (Some key) dflt = Some n \<and> low \<le> n \<and> n \<le> high"
  using cfg_number_getint [OF assms] assms(1) by (auto simp: cfg_number_def bindE_Inr integer_accepts)


theorem cfg_number_matches_runtime_witness:
  "\<exists>d. iniparser_getint (Some d) (Some ''stream:io_timeout_ms'') 0 = Some 5000"
proof -
  obtain d where d: "dict_map d = map_of (rev [(''stream:io_timeout_ms'', Some ''5000'')])"
    using dict_with_entries by blast
  have l: "strlwc (Some ''stream:io_timeout_ms'') (ASCIILINESZ + 1) = Some ''stream:io_timeout_ms''"
    by (simp add: strlwc_def ASCIILINESZ_def c_tolower_def)
  then have s: "iniparser_getstring (Some d) (Some ''stream:io_timeout_ms'') fb = Str ''5000''" for fb
    using d by (simp add: iniparser_getstring_def dict_simps)
  have "cfg_integer ''5000'' ''stream:io_timeout_ms'' 100 60000 = Inr 5000"
    by code_simp
  with s have "cfg_number (Some d) ''stream:io_timeout_ms'' 100 60000 (Str ''5000'') = Inr 5000"
    by (simp add: cfg_number_def cfg_text_def)
  moreover have "iniparser_find_entry (Some d) (Some ''stream:io_timeout_ms'')"
    using s by (simp add: iniparser_find_entry_def)
  ultimately show ?thesis using cfg_number_matches_runtime by blast
qed

section \<open>What a dictionary that passes guarantees\<close>

lemma cfg_text_found:
  "cfg_text d key fb = Inr v \<Longrightarrow> iniparser_getstring d (Some key) fb = Str v \<and> v \<noteq> []"
  by (auto simp: cfg_text_def cfg_fail_def split: cptr.splits if_splits)

lemma getstring_fallback:
  "iniparser_getstring d (Some key) fb = Str v \<Longrightarrow>
   iniparser_getstring d (Some key) Invalid_key = Str v \<or>
   (iniparser_getstring d (Some key) Invalid_key = Invalid_key \<and> fb = Str v)"
  by (auto simp: iniparser_getstring_def dict_simps split: option.splits)

text \<open>
  With the check's fallback as the reader's default, the runtime value is the checked one,
  whether the entry is there or not; without fallback the entry is there.
\<close>

lemma cfg_number_runtime:
  assumes "cfg_number d key low high fb = Inr n" "fb = Null \<or> fb = Str (show_int dflt)"
    and "LONG_MIN \<le> dflt" "dflt \<le> LONG_MAX"
  shows "iniparser_getint d (Some key) dflt = Some n \<and> low \<le> n \<and> n \<le> high"
proof -
  from assms(1) obtain v where v: "cfg_text d key fb = Inr v" "cfg_integer v key low high = Inr n"
    by (auto simp: cfg_number_def bindE_Inr)
  then have c: "canonical_int v n" "low \<le> n" "n \<le> high" "c_strtol 0 v = (n, [], False)"
    using strtol0_canonical integer_accepts by blast+
  from getstring_fallback [OF conjunct1 [OF cfg_text_found [OF v(1)]]] show ?thesis
  proof
    assume "iniparser_getstring d (Some key) Invalid_key = Str v"
    with c show ?thesis by (simp add: iniparser_getint_def iniparser_getlongint_def)
  next
    assume i: "iniparser_getstring d (Some key) Invalid_key = Invalid_key \<and> fb = Str v"
    with assms(2) have "v = show_int dflt" by auto
    with c(4) assms(3,4) have "n = dflt" using strtol_show_int [of 0 dflt] by simp
    with i c show ?thesis by (simp add: iniparser_getint_def iniparser_getlongint_def)
  qed
qed

lemma show_int_lits:
  "''25'' = show_int 25" "''1'' = show_int 1"
  by code_simp+

lemma validated_video:
  assumes "cfg_validate pton4 pton6 d = Inr ()" and "i < 2"
  shows "let g = (\<lambda>name dflt. iniparser_getint d (Some (''video.'' @ show_nat i @ '':'' @ name)) dflt) in
     \<exists>w h mw mh src sd dst dd isp.
       g ''width'' 0 = Some w \<and> g ''height'' 0 = Some h \<and>
       g ''max_width'' 0 = Some mw \<and> g ''max_height'' 0 = Some mh \<and>
       2 \<le> w \<and> w \<le> mw \<and> mw \<le> 8192 \<and> 2 \<le> h \<and> h \<le> mh \<and> mh \<le> 8192 \<and> even w \<and> even h \<and>
       g ''src_frame_rate_num'' 25 = Some src \<and> g ''src_frame_rate_den'' 1 = Some sd \<and>
       g ''dst_frame_rate_num'' 25 = Some dst \<and> g ''dst_frame_rate_den'' 1 = Some dd \<and>
       iniparser_getint d (Some ''isp.0.adjustment:fps'') 25 = Some isp \<and>
       0 < dd \<and> 0 < sd \<and> dd dvd dst \<and> dd \<le> dst \<and> dst * sd \<le> src * dd \<and> dst \<le> isp * dd"
proof -
  from assms(1) obtain rtmp isp where isp: "cfg_number d ''isp.0.adjustment:fps'' 1 120 (Str ''25'') = Inr isp"
    and v: "cfg_video d rtmp isp 0 = Inr ()" "cfg_video d rtmp isp 1 = Inr ()"
    by (auto simp: cfg_validate_def cfg_fail_def bindE_Inr split: if_splits)
  let ?b = "''video.'' @ show_nat i @ '':''"
  have "cfg_video d rtmp isp i = Inr ()"
    using v assms(2) by (cases "i = 0") (auto simp: less_2_cases_iff)
  then obtain w h mw mh src sd dst dd where
    n: "cfg_number d (?b @ ''width'') 2 8192 Null = Inr w" "cfg_number d (?b @ ''height'') 2 8192 Null = Inr h"
       "cfg_number d (?b @ ''max_width'') w 8192 Null = Inr mw"
       "cfg_number d (?b @ ''max_height'') h 8192 Null = Inr mh"
       "cfg_number d (?b @ ''src_frame_rate_num'') 1 120 (Str ''25'') = Inr src"
       "cfg_number d (?b @ ''src_frame_rate_den'') 1 120 (Str ''1'') = Inr sd"
       "cfg_number d (?b @ ''dst_frame_rate_num'') 1 120 (Str ''25'') = Inr dst"
       "cfg_number d (?b @ ''dst_frame_rate_den'') 1 120 (Str ''1'') = Inr dd"
    and e: "cfg_even ?b w h = Inr ()" and r: "cfg_rates ?b src sd dst dd isp = Inr ()"
    unfolding cfg_video_def Let_def by (elim iffD1 [OF bindE_Inr, THEN exE] conjE) auto
  have lim: "LONG_MIN \<le> 0" "0 \<le> LONG_MAX" "LONG_MIN \<le> 25" "25 \<le> LONG_MAX" "LONG_MIN \<le> 1" "1 \<le> LONG_MAX"
    by (simp_all add: LONG_MIN_def LONG_MAX_def)
  have run: "iniparser_getint d (Some k) df = Some n \<and> lo \<le> n \<and> n \<le> hi"
    if "cfg_number d k lo hi fb = Inr n" "fb = Null \<and> df = 0 \<or> fb = Str ''25'' \<and> df = 25 \<or> fb = Str ''1'' \<and> df = 1"
    for k lo hi fb n df
    using that(2) lim show_int_lits by (intro cfg_number_runtime [OF that(1)]) auto
  have "even w" "even h" using e by (auto simp: cfg_even_def cfg_fail_def split: if_splits)
  moreover have "dd dvd dst" "dd \<le> dst" "dst * sd \<le> src * dd" "dst \<le> isp * dd"
    using r by (auto simp: cfg_rates_def cfg_fail_def split: if_splits)
  ultimately show ?thesis
    using run [OF n(1), of 0] run [OF n(2), of 0] run [OF n(3), of 0] run [OF n(4), of 0] run [OF n(5), of 25]
      run [OF n(6), of 1] run [OF n(7), of 25] run [OF n(8), of 1] run [OF isp, of 25]
    by simp
qed

text \<open>For both video channels, a configuration that passes the check makes the runtime readers
  return even dimensions in range and within the maximum, and frame rates that are whole,
  not above the source rate and not above the sensor rate.\<close>

theorem cfg_validate_video:
  assumes "cfg_validate pton4 pton6 d = Inr ()" and "i < 2"
  shows "let g = (\<lambda>name dflt. iniparser_getint d (Some (''video.'' @ show_nat i @ '':'' @ name)) dflt) in
     \<exists>w h mw mh src sd dst dd isp.
       g ''width'' 0 = Some w \<and> g ''height'' 0 = Some h \<and>
       g ''max_width'' 0 = Some mw \<and> g ''max_height'' 0 = Some mh \<and>
       2 \<le> w \<and> w \<le> mw \<and> mw \<le> 8192 \<and> 2 \<le> h \<and> h \<le> mh \<and> mh \<le> 8192 \<and> even w \<and> even h \<and>
       g ''src_frame_rate_num'' 25 = Some src \<and> g ''src_frame_rate_den'' 1 = Some sd \<and>
       g ''dst_frame_rate_num'' 25 = Some dst \<and> g ''dst_frame_rate_den'' 1 = Some dd \<and>
       iniparser_getint d (Some ''isp.0.adjustment:fps'') 25 = Some isp \<and>
       0 < dd \<and> 0 < sd \<and> dd dvd dst \<and> dd \<le> dst \<and> dst * sd \<le> src * dd \<and> dst \<le> isp * dd"
  by (rule validated_video [OF assms])

text \<open>The host part a URL that passed is compared by.\<close>

definition url_authority :: "string \<Rightarrow> string \<Rightarrow> string" where
  "url_authority pre url =
     rev (takeWhile (\<lambda>c. c \<noteq> CHR ''@'') (rev (takeWhile (\<lambda>c. c \<noteq> CHR ''/'') (drop (length pre) url))))"

definition url_ok :: "string \<Rightarrow> string \<Rightarrow> bool" where
  "url_ok protocol url \<longleftrightarrow>
     str_starts url (protocol @ ''://'') \<and> length url \<le> 1023 \<and>
     (\<forall>c \<in> set url. c \<notin> {CHR '' '', CHR 0x09, CHR 0x0D, CHR 0x0A})"

lemma cfg_host_nonempty: "cfg_host p6 key host = Inr h \<Longrightarrow> h \<noteq> []"
  by (auto simp: cfg_host_def cfg_fail_def Let_def bindE_Inr split: if_splits)

lemma url_not_ok:
  "(\<not> str_starts url (protocol @ ''://'') \<or> length url > 1023 \<or>
    (\<exists>c \<in> set url. c \<in> {CHR '' '', CHR 0x09, CHR 0x0D, CHR 0x0A})) \<longleftrightarrow> \<not> url_ok protocol url"
  unfolding url_ok_def by (meson not_less)

lemma cfg_url_Inr:
  assumes "cfg_url p4 p6 d failover protocol stream (prev, recv) = Inr (url, recv')"
  shows "iniparser_getstring d (Some (cfg_url_key protocol stream)) Null = Str url \<and> url_ok protocol url \<and>
     url \<noteq> prev \<and>
     (failover \<longrightarrow> p4 recv' \<and> recv' \<noteq> [] \<and> (recv \<noteq> [] \<longrightarrow> recv' = recv) \<and>
        cfg_host p6 (cfg_url_key protocol stream) (url_authority (protocol @ ''://'') url) = Inr recv')"
proof -
  let ?key = "cfg_url_key protocol stream"
  from assms obtain u host where u: "cfg_text d ?key Null = Inr u" "u = url"
      "cfg_host p6 ?key (url_authority (protocol @ ''://'') u) = Inr host"
      "url_ok protocol u" "u \<noteq> prev"
      "failover \<longrightarrow> p4 host \<and> (recv \<noteq> [] \<longrightarrow> recv = host) \<and> recv' = host"
    unfolding cfg_url_def Let_def url_not_ok url_authority_def [symmetric] prod.case
    by (auto simp: bindE_Inr cfg_fail_def split: if_splits)
  then show ?thesis using cfg_text_found [OF u(1)] cfg_host_nonempty [OF u(3)] by auto
qed

lemma cfg_protocol_Inr:
  assumes "cfg_protocol p4 p6 d failover protocol True recv = Inr recv'"
  shows "\<exists>m a. iniparser_getstring d (Some (cfg_url_key protocol ''main'')) Null = Str m \<and>
     iniparser_getstring d (Some (cfg_url_key protocol ''ai'')) Null = Str a \<and> m \<noteq> a \<and>
     url_ok protocol m \<and> url_ok protocol a \<and>
     (failover \<longrightarrow> p4 recv' \<and> recv' \<noteq> [] \<and> (recv \<noteq> [] \<longrightarrow> recv' = recv) \<and>
        cfg_host p6 (cfg_url_key protocol ''main'') (url_authority (protocol @ ''://'') m) = Inr recv' \<and>
        cfg_host p6 (cfg_url_key protocol ''ai'') (url_authority (protocol @ ''://'') a) = Inr recv')"
proof -
  from assms obtain m r where
    1: "cfg_url p4 p6 d failover protocol ''main'' ([], recv) = Inr (m, r)" and
    2: "\<exists>a. cfg_url p4 p6 d failover protocol ''ai'' (m, r) = Inr (a, recv')"
    by (auto simp: cfg_protocol_def bindE_Inr)
  then obtain a where a: "cfg_url p4 p6 d failover protocol ''ai'' (m, r) = Inr (a, recv')" by blast
  show ?thesis
    using cfg_url_Inr [OF 1] cfg_url_Inr [OF a] by (intro exI [of _ m] exI [of _ a]) auto
qed

lemma validated_streams:
  assumes "cfg_validate pton4 pton6 d = Inr ()"
  shows "\<exists>on. (\<forall>p \<in> {''rtsp'', ''rtmp''}.
           iniparser_getint d (Some (''stream:enable_'' @ p)) 0 = Some (if on p then 1 else 0)) \<and>
         (on ''rtsp'' \<or> on ''rtmp'') \<and>
         (\<forall>p \<in> {''rtsp'', ''rtmp''}. on p \<longrightarrow>
            (\<exists>m a. iniparser_getstring d (Some (cfg_url_key p ''main'')) Null = Str m \<and>
                   iniparser_getstring d (Some (cfg_url_key p ''ai'')) Null = Str a \<and>
                   m \<noteq> a \<and> url_ok p m \<and> url_ok p a)) \<and>
         (on ''rtmp'' \<longrightarrow> (\<forall>i < 2. iniparser_getstring d
            (Some (''video.'' @ show_nat i @ '':output_data_type'')) Null = Str ''H.264''))"
proof -
  from assms obtain rtsp rtmp failover r r' isp where
    n: "cfg_number d ''stream:enable_rtsp'' 0 1 Null = Inr rtsp" "cfg_number d ''stream:enable_rtmp'' 0 1 Null = Inr rtmp"
    and on: "\<not> (rtsp = 0 \<and> rtmp = 0)"
    and p: "cfg_protocol pton4 pton6 d failover ''rtsp'' (rtsp \<noteq> 0) [] = Inr r"
      "cfg_protocol pton4 pton6 d failover ''rtmp'' (rtmp \<noteq> 0) r = Inr r'"
    and v: "cfg_video d (rtmp \<noteq> 0) isp 0 = Inr ()" "cfg_video d (rtmp \<noteq> 0) isp 1 = Inr ()"
    unfolding cfg_validate_def by (auto simp: cfg_fail_def bindE_Inr split: if_splits)
  have run: "iniparser_getint d (Some k) 0 = Some n \<and> 0 \<le> n \<and> n \<le> 1" if "cfg_number d k 0 1 Null = Inr n" for k n
    using cfg_number_runtime [OF that, of 0] by (simp add: LONG_MIN_def LONG_MAX_def)
  have bits: "rtsp = (if rtsp \<noteq> 0 then 1 else 0)" "rtmp = (if rtmp \<noteq> 0 then 1 else 0)"
    using run [OF n(1)] run [OF n(2)] by auto
  let ?on = "\<lambda>p. if p = ''rtsp'' then rtsp \<noteq> 0 else rtmp \<noteq> 0"
  have urls: "\<exists>m a. iniparser_getstring d (Some (cfg_url_key p ''main'')) Null = Str m \<and>
      iniparser_getstring d (Some (cfg_url_key p ''ai'')) Null = Str a \<and> m \<noteq> a \<and> url_ok p m \<and> url_ok p a"
    if "cfg_protocol pton4 pton6 d failover p True s = Inr s'" for p s s'
    using cfg_protocol_Inr [OF that] by blast
  have h264: "iniparser_getstring d (Some (''video.'' @ show_nat i @ '':output_data_type'')) Null = Str ''H.264''"
    if "cfg_video d True isp i = Inr ()" for i
    using that unfolding cfg_video_def Let_def
    by (auto simp: bindE_Inr cfg_fail_def dest!: cfg_text_found split: if_splits)
  show ?thesis
  proof (intro exI [of _ ?on] conjI ballI impI allI)
    show "iniparser_getint d (Some (''stream:enable_'' @ p)) 0 = Some (if ?on p then 1 else 0)"
      if "p \<in> {''rtsp'', ''rtmp''}" for p
      using that run [OF n(1)] run [OF n(2)] bits by auto
    show "?on ''rtsp'' \<or> ?on ''rtmp''" using on by simp
    show "\<exists>m a. iniparser_getstring d (Some (cfg_url_key p ''main'')) Null = Str m \<and>
        iniparser_getstring d (Some (cfg_url_key p ''ai'')) Null = Str a \<and> m \<noteq> a \<and> url_ok p m \<and> url_ok p a"
      if "p \<in> {''rtsp'', ''rtmp''}" "?on p" for p
      using that p urls [of "''rtsp''" "[]" r] urls [of "''rtmp''" r r'] by auto
    show "iniparser_getstring d (Some (''video.'' @ show_nat i @ '':output_data_type'')) Null = Str ''H.264''"
      if "?on ''rtmp''" "i < 2" for i
      using that v h264 [of 0] h264 [of 1] by (cases "i = 0") (auto simp: less_2_cases_iff)
  qed
qed


lemma getstring_required:
  "iniparser_getstring d key Null = Str v \<Longrightarrow> iniparser_getstring d key fb = Str v"
  by (auto simp: iniparser_getstring_def dict_simps split: option.splits)

lemma validated_codec:
  assumes "cfg_validate pton4 pton6 d = Inr ()" "i < 2"
  shows "\<exists>c \<in> {''H.264'', ''H.265''}. \<forall>fb.
           iniparser_getstring d (Some (''video.'' @ show_nat i @ '':output_data_type'')) fb = Str c"
proof -
  from assms(1) obtain rtmp isp where v: "cfg_video d rtmp isp 0 = Inr ()" "cfg_video d rtmp isp 1 = Inr ()"
    by (auto simp: cfg_validate_def cfg_fail_def bindE_Inr split: if_splits)
  have "cfg_video d rtmp isp i = Inr ()"
    using v assms(2) by (cases "i = 0") (auto simp: less_2_cases_iff)
  then have "cfg_choice d (''video.'' @ show_nat i @ '':'' @ ''output_data_type'') [''H.264'', ''H.265''] Null = Inr ()"
    unfolding cfg_video_def Let_def by (auto simp: bindE_Inr)
  then obtain c where c: "cfg_text d (''video.'' @ show_nat i @ '':output_data_type'') Null = Inr c"
      "c \<in> {''H.264'', ''H.265''}"
    by (auto simp: cfg_choice_def cfg_fail_def bindE_Inr split: if_splits)
  from getstring_required [OF conjunct1 [OF cfg_text_found [OF c(1)]]] c(2) show ?thesis by blast
qed

end
