(* ===== verification/ConfigExample.thy ===== *)
theory ConfigExample
  imports ConfigValidation
begin

text \<open>
  A small complete configuration that passes the check: the concrete input at which the
  guarantees of a passing configuration are instantiated.
\<close>

definition example_config :: "(string \<times> string option) list" where
  "example_config =
    [(''stream:enable_rtsp'', Some ''1''), (''stream:enable_rtmp'', Some ''0''),
     (''stream:rtsp_main_url'', Some ''rtsp://10.0.0.2:8554/main''),
     (''stream:rtsp_ai_url'', Some ''rtsp://10.0.0.2:8554/ai''),
     (''video.source:enable_npu'', Some ''0''), (''audio.0:enable'', Some ''0''),
     (''video.0:width'', Some ''2304''), (''video.0:height'', Some ''1296''),
     (''video.0:max_width'', Some ''2304''), (''video.0:max_height'', Some ''1296''),
     (''video.0:output_data_type'', Some ''H.264''), (''video.0:input_buffer_count'', Some ''2''),
     (''video.0:buffer_size'', Some ''1048576''), (''video.0:max_rate'', Some ''2048''),
     (''video.0:mid_rate'', Some ''1024''),
     (''video.1:width'', Some ''704''), (''video.1:height'', Some ''576''),
     (''video.1:max_width'', Some ''704''), (''video.1:max_height'', Some ''576''),
     (''video.1:output_data_type'', Some ''H.265''), (''video.1:input_buffer_count'', Some ''2''),
     (''video.1:buffer_size'', Some ''202752''), (''video.1:max_rate'', Some ''512''),
     (''video.1:mid_rate'', Some ''256'')]"

definition cfg_lookup :: "(string \<times> string option) list \<Rightarrow> string \<Rightarrow> cptr \<Rightarrow> cptr" where
  "cfg_lookup kvs key def =
     (case map_of kvs (map c_tolower (take ASCIILINESZ key)) of None \<Rightarrow> def | Some v \<Rightarrow> ptr_of v)"

lemma getstring_entries:
  assumes "dict_map d = map_of kvs"
  shows "iniparser_getstring (Some d) (Some key) fb = cfg_lookup kvs key fb"
  using assms by (simp add: iniparser_getstring_def strlwc_def cfg_lookup_def dict_simps)

lemmas eval_integer = cfg_integer_def c_strtol_def c_isspace_def strtol_number_def is_digit_def digit_val_def
  clamp_long_def LONG_MIN_def LONG_MAX_def Let_def

lemma example_lookup_0:
  "cfg_lookup example_config ''log:level'' (Str ''2'') = Str ''2''"
  "cfg_lookup example_config ''stream:enable_rtsp'' Null = Str ''1''"
  "cfg_lookup example_config ''stream:enable_rtmp'' Null = Str ''0''"
  "cfg_lookup example_config ''network:enable_failover'' (Str ''0'') = Str ''0''"
  "cfg_lookup example_config ''stream:io_timeout_ms'' (Str ''5000'') = Str ''5000''"
  "cfg_lookup example_config ''video.source:enable_aiq'' (Str ''1'') = Str ''1''"
  "cfg_lookup example_config ''video.source:enable_vo'' (Str ''0'') = Str ''0''"
  "cfg_lookup example_config ''video.source:enable_npu'' Null = Str ''0''"
  "cfg_lookup example_config ''osd:enable_fps'' (Str ''1'') = Str ''1''"
  "cfg_lookup example_config ''isp.0.adjustment:fps'' (Str ''25'') = Str ''25''"
  "cfg_lookup example_config ''audio.0:enable'' Null = Str ''0''"
  "cfg_lookup example_config ''stream:rtsp_transport'' (Str ''tcp'') = Str ''tcp''"
  "cfg_lookup example_config ''stream:rtsp_main_url'' Null = Str ''rtsp://10.0.0.2:8554/main''"
  "cfg_lookup example_config ''stream:rtsp_ai_url'' Null = Str ''rtsp://10.0.0.2:8554/ai''"
  by code_simp+

lemma example_integer_0:
  "cfg_integer ''2'' ''log:level'' 0 3 = Inr 2"
  "cfg_integer ''1'' ''stream:enable_rtsp'' 0 1 = Inr 1"
  "cfg_integer ''0'' ''stream:enable_rtmp'' 0 1 = Inr 0"
  "cfg_integer ''0'' ''network:enable_failover'' 0 1 = Inr 0"
  "cfg_integer ''5000'' ''stream:io_timeout_ms'' 100 60000 = Inr 5000"
  "cfg_integer ''1'' ''video.source:enable_aiq'' 0 1 = Inr 1"
  "cfg_integer ''0'' ''video.source:enable_vo'' 0 0 = Inr 0"
  "cfg_integer ''0'' ''video.source:enable_npu'' 0 1 = Inr 0"
  "cfg_integer ''1'' ''osd:enable_fps'' 0 1 = Inr 1"
  "cfg_integer ''25'' ''isp.0.adjustment:fps'' 1 120 = Inr 25"
  "cfg_integer ''0'' ''audio.0:enable'' 0 1 = Inr 0"
  by (simp_all add: eval_integer)

lemma example_lookup_1:
  "cfg_lookup example_config ''video.0:width'' Null = Str ''2304''"
  "cfg_lookup example_config ''video.0:height'' Null = Str ''1296''"
  "cfg_lookup example_config ''video.0:max_width'' Null = Str ''2304''"
  "cfg_lookup example_config ''video.0:max_height'' Null = Str ''1296''"
  "cfg_lookup example_config ''video.0:enable_refer_buffer_share'' (Str ''1'') = Str ''1''"
  "cfg_lookup example_config ''video.0:src_frame_rate_num'' (Str ''25'') = Str ''25''"
  "cfg_lookup example_config ''video.0:src_frame_rate_den'' (Str ''1'') = Str ''1''"
  "cfg_lookup example_config ''video.0:dst_frame_rate_num'' (Str ''25'') = Str ''25''"
  "cfg_lookup example_config ''video.0:dst_frame_rate_den'' (Str ''1'') = Str ''1''"
  "cfg_lookup example_config ''video.0:output_data_type'' Null = Str ''H.264''"
  "cfg_lookup example_config ''video.0:rc_mode'' (Str ''CBR'') = Str ''CBR''"
  by code_simp+

lemma example_integer_1:
  "cfg_integer ''2304'' ''video.0:width'' 2 8192 = Inr 2304"
  "cfg_integer ''1296'' ''video.0:height'' 2 8192 = Inr 1296"
  "cfg_integer ''2304'' ''video.0:max_width'' 2304 8192 = Inr 2304"
  "cfg_integer ''1296'' ''video.0:max_height'' 1296 8192 = Inr 1296"
  "cfg_integer ''1'' ''video.0:enable_refer_buffer_share'' 0 1 = Inr 1"
  "cfg_integer ''25'' ''video.0:src_frame_rate_num'' 1 120 = Inr 25"
  "cfg_integer ''1'' ''video.0:src_frame_rate_den'' 1 120 = Inr 1"
  "cfg_integer ''25'' ''video.0:dst_frame_rate_num'' 1 120 = Inr 25"
  "cfg_integer ''1'' ''video.0:dst_frame_rate_den'' 1 120 = Inr 1"
  by (simp_all add: eval_integer)

lemma example_lookup_2:
  "cfg_lookup example_config ''video.0:gop'' (Str ''50'') = Str ''50''"
  "cfg_lookup example_config ''video.0:input_buffer_count'' Null = Str ''2''"
  "cfg_lookup example_config ''video.0:buffer_count'' (Str ''4'') = Str ''4''"
  "cfg_lookup example_config ''video.0:buffer_size'' Null = Str ''1048576''"
  "cfg_lookup example_config ''video.0:max_rate'' Null = Str ''2048''"
  "cfg_lookup example_config ''video.0:mid_rate'' Null = Str ''1024''"
  "cfg_lookup example_config ''video.0:min_rate'' (Str ''0'') = Str ''0''"
  "cfg_lookup example_config ''video.0:rc_quality'' (Str ''high'') = Str ''high''"
  "cfg_lookup example_config ''video.0:h264_profile'' (Str ''high'') = Str ''high''"
  by code_simp+

lemma example_integer_2:
  "cfg_integer ''50'' ''video.0:gop'' 1 10000 = Inr 50"
  "cfg_integer ''2'' ''video.0:input_buffer_count'' 1 32 = Inr 2"
  "cfg_integer ''4'' ''video.0:buffer_count'' 1 32 = Inr 4"
  "cfg_integer ''1048576'' ''video.0:buffer_size'' 1024 67108864 = Inr 1048576"
  "cfg_integer ''2048'' ''video.0:max_rate'' 1 1000000 = Inr 2048"
  "cfg_integer ''1024'' ''video.0:mid_rate'' 1 2048 = Inr 1024"
  "cfg_integer ''0'' ''video.0:min_rate'' 0 1024 = Inr 0"
  by (simp_all add: eval_integer)

lemma example_lookup_3:
  "cfg_lookup example_config ''video.1:width'' Null = Str ''704''"
  "cfg_lookup example_config ''video.1:height'' Null = Str ''576''"
  "cfg_lookup example_config ''video.1:max_width'' Null = Str ''704''"
  "cfg_lookup example_config ''video.1:max_height'' Null = Str ''576''"
  "cfg_lookup example_config ''video.1:enable_refer_buffer_share'' (Str ''1'') = Str ''1''"
  "cfg_lookup example_config ''video.1:src_frame_rate_num'' (Str ''25'') = Str ''25''"
  "cfg_lookup example_config ''video.1:src_frame_rate_den'' (Str ''1'') = Str ''1''"
  "cfg_lookup example_config ''video.1:dst_frame_rate_num'' (Str ''25'') = Str ''25''"
  "cfg_lookup example_config ''video.1:dst_frame_rate_den'' (Str ''1'') = Str ''1''"
  "cfg_lookup example_config ''video.1:output_data_type'' Null = Str ''H.265''"
  "cfg_lookup example_config ''video.1:rc_mode'' (Str ''CBR'') = Str ''CBR''"
  by code_simp+

lemma example_integer_3:
  "cfg_integer ''704'' ''video.1:width'' 2 8192 = Inr 704"
  "cfg_integer ''576'' ''video.1:height'' 2 8192 = Inr 576"
  "cfg_integer ''704'' ''video.1:max_width'' 704 8192 = Inr 704"
  "cfg_integer ''576'' ''video.1:max_height'' 576 8192 = Inr 576"
  "cfg_integer ''1'' ''video.1:enable_refer_buffer_share'' 0 1 = Inr 1"
  "cfg_integer ''25'' ''video.1:src_frame_rate_num'' 1 120 = Inr 25"
  "cfg_integer ''1'' ''video.1:src_frame_rate_den'' 1 120 = Inr 1"
  "cfg_integer ''25'' ''video.1:dst_frame_rate_num'' 1 120 = Inr 25"
  "cfg_integer ''1'' ''video.1:dst_frame_rate_den'' 1 120 = Inr 1"
  by (simp_all add: eval_integer)

lemma example_lookup_4:
  "cfg_lookup example_config ''video.1:gop'' (Str ''50'') = Str ''50''"
  "cfg_lookup example_config ''video.1:input_buffer_count'' Null = Str ''2''"
  "cfg_lookup example_config ''video.1:buffer_count'' (Str ''4'') = Str ''4''"
  "cfg_lookup example_config ''video.1:buffer_size'' Null = Str ''202752''"
  "cfg_lookup example_config ''video.1:max_rate'' Null = Str ''512''"
  "cfg_lookup example_config ''video.1:mid_rate'' Null = Str ''256''"
  "cfg_lookup example_config ''video.1:min_rate'' (Str ''0'') = Str ''0''"
  "cfg_lookup example_config ''video.1:rc_quality'' (Str ''high'') = Str ''high''"
  "cfg_lookup example_config ''video.1:h264_profile'' (Str ''high'') = Str ''high''"
  by code_simp+

lemma example_integer_4:
  "cfg_integer ''50'' ''video.1:gop'' 1 10000 = Inr 50"
  "cfg_integer ''2'' ''video.1:input_buffer_count'' 1 32 = Inr 2"
  "cfg_integer ''4'' ''video.1:buffer_count'' 1 32 = Inr 4"
  "cfg_integer ''202752'' ''video.1:buffer_size'' 1024 67108864 = Inr 202752"
  "cfg_integer ''512'' ''video.1:max_rate'' 1 1000000 = Inr 512"
  "cfg_integer ''256'' ''video.1:mid_rate'' 1 512 = Inr 256"
  "cfg_integer ''0'' ''video.1:min_rate'' 0 256 = Inr 0"
  by (simp_all add: eval_integer)

lemmas example_reads = example_lookup_0 example_lookup_1 example_lookup_2 example_lookup_3 example_lookup_4
  example_integer_0 example_integer_1 example_integer_2 example_integer_3 example_integer_4

lemma example_port:
  "cfg_integer ''8554'' ''stream:rtsp_main_url'' 1 65535 = Inr 8554"
  "cfg_integer ''8554'' ''stream:rtsp_ai_url'' 1 65535 = Inr 8554"
  by (simp_all add: eval_integer)

lemma show_nat_one: "show_nat (Suc 0) = ''1''"
  by code_simp

text \<open>Apart from the audio part, a configuration passes as soon as it reads as the example does.\<close>

lemma example_but_audio_validates:
  assumes g: "\<And>c ks fb. c_tolower c \<noteq> CHR ''a'' \<Longrightarrow> iniparser_getstring (Some d) (Some (c # ks)) fb = cfg_lookup example_config (c # ks) fb"
    and audio: "cfg_audio (Some d) = Inr ()"
  shows "cfg_validate (\<lambda>_. False) (\<lambda>_. False) (Some d) = Inr ()"
proof -
  have low: "c_tolower CHR ''l'' \<noteq> CHR ''a''" "c_tolower CHR ''s'' \<noteq> CHR ''a''" "c_tolower CHR ''n'' \<noteq> CHR ''a''"
    "c_tolower CHR ''v'' \<noteq> CHR ''a''" "c_tolower CHR ''o'' \<noteq> CHR ''a''" "c_tolower CHR ''i'' \<noteq> CHR ''a''"
    by code_simp+
  note g = g [OF low(1)] g [OF low(2)] g [OF low(3)] g [OF low(4)] g [OF low(5)] g [OF low(6)]
  have v: "cfg_video (Some d) False 25 0 = Inr ()" "cfg_video (Some d) False 25 (Suc 0) = Inr ()"
    by (simp_all add: cfg_video_def cfg_number_def cfg_choice_def cfg_text_def g example_reads show_nat_one
        cfg_even_def cfg_rates_def)
  have u: "cfg_protocol (\<lambda>_. False) (\<lambda>_. False) (Some d) False ''rtsp'' True [] = Inr []"
    by (simp add: cfg_protocol_def cfg_url_def cfg_url_key_def cfg_host_def cfg_text_def g example_reads
        example_port str_starts_def Let_def)
  have off: "cfg_protocol (\<lambda>_. False) (\<lambda>_. False) (Some d) False ''rtmp'' False [] = Inr []"
    by (simp add: cfg_protocol_def)
  show ?thesis
    by (simp add: cfg_validate_def cfg_number_def cfg_choice_def cfg_text_def g u v off example_reads audio cfg_npu_def)
qed

lemma example_validates:
  assumes "dict_map d = map_of example_config"
  shows "cfg_validate (\<lambda>_. False) (\<lambda>_. False) (Some d) = Inr ()"
  by (rule example_but_audio_validates)
    (simp_all add: cfg_audio_def cfg_number_def cfg_text_def getstring_entries [OF assms] example_reads)

text \<open>The same configuration with sound.\<close>

definition audio_config :: "(string \<times> string option) list" where
  "audio_config = [(''audio.0:enable'', Some ''1''), (''audio.0:enable_vqe'', Some ''0'')] @ example_config"

lemma audio_lookup:
  "cfg_lookup audio_config ''audio.0:enable'' Null = Str ''1''"
  "cfg_lookup audio_config ''audio.0:enable'' Invalid_key = Str ''1''"
  "cfg_lookup audio_config ''audio.0:encode_type'' (Str ''G711A'') = Str ''G711A''"
  "cfg_lookup audio_config ''audio.0:format'' (Str ''S16'') = Str ''S16''"
  "cfg_lookup audio_config ''audio.0:sample_rate'' (Str ''8000'') = Str ''8000''"
  "cfg_lookup audio_config ''audio.0:channels'' (Str ''1'') = Str ''1''"
  "cfg_lookup audio_config ''audio.0:frame_size'' (Str ''1152'') = Str ''1152''"
  "cfg_lookup audio_config ''audio.0:volume'' (Str ''50'') = Str ''50''"
  "cfg_lookup audio_config ''audio.0:enable_vqe'' (Str ''1'') = Str ''0''"
  by code_simp+

lemma audio_integer:
  "cfg_integer ''1'' ''audio.0:enable'' 0 1 = Inr 1" "cfg_integer ''8000'' ''audio.0:sample_rate'' 8000 8000 = Inr 8000"
  "cfg_integer ''1'' ''audio.0:channels'' 1 1 = Inr 1" "cfg_integer ''1152'' ''audio.0:frame_size'' 1152 1152 = Inr 1152"
  "cfg_integer ''50'' ''audio.0:volume'' 0 100 = Inr 50" "cfg_integer ''0'' ''audio.0:enable_vqe'' 0 1 = Inr 0"
  by (simp_all add: eval_integer)

lemma audio_lookup_other:
  assumes "c_tolower c \<noteq> CHR ''a''"
  shows "cfg_lookup audio_config (c # ks) fb = cfg_lookup example_config (c # ks) fb"
  using assms by (simp add: cfg_lookup_def audio_config_def ASCIILINESZ_def)

lemma audio_validates:
  assumes "dict_map d = map_of audio_config"
  shows "cfg_validate (\<lambda>_. False) (\<lambda>_. False) (Some d) = Inr ()"
  by (rule example_but_audio_validates)
    (simp_all add: cfg_audio_def cfg_number_def cfg_text_def cfg_choice_def getstring_entries [OF assms] audio_lookup
      audio_integer audio_lookup_other)

lemma example_dict: "\<exists>d. dict_inv d \<and> dict_map d = map_of example_config"
  using dict_with_entries [of "rev example_config"] by simp

theorem cfg_validate_video_witness:
  "\<exists>d w. iniparser_getint (Some d) (Some (''video.'' @ show_nat 1 @ '':'' @ ''width'')) 0 = Some w \<and> even w"
proof -
  obtain d where d: "dict_map d = map_of example_config" using example_dict by blast
  have "1 < (2::nat)" by simp
  from cfg_validate_video [OF example_validates [OF d] this] show ?thesis
    unfolding Let_def by blast
qed


end
