(* ===== verification/LinkPolicy.thy ===== *)
theory LinkPolicy
  imports IpcPrelude
begin

text \<open>
  The failover decision of \<^verbatim>\<open>src/network/network_route.hpp\<close> (class \<^verbatim>\<open>LinkPolicy\<close>): link
  \<open>-1\<close> is none, \<open>0\<close> the wired one, \<open>1\<close> the wireless one, times are milliseconds of the
  steady clock. The lemmas relate its three counters to the whole observation history and
  bound when it switches.
\<close>

record link_policy =
  lp_wifi_failures :: int
  lp_failures :: int
  lp_recovered_at :: int

definition lp_new :: link_policy where
  "lp_new = \<lparr>lp_wifi_failures = 0, lp_failures = 0, lp_recovered_at = -1\<rparr>"

definition lp_observe :: "bool \<Rightarrow> bool \<Rightarrow> int \<Rightarrow> link_policy \<Rightarrow> link_policy" where
  "lp_observe wired wifi now lp =
     (let lp1 = lp\<lparr>lp_wifi_failures :=
                   (if wifi then 0 else if lp_wifi_failures lp < 3 then lp_wifi_failures lp + 1 else 3)\<rparr>
      in if wired then
           lp1\<lparr>lp_failures := 0,
               lp_recovered_at := (if lp_recovered_at lp1 < 0 then now else lp_recovered_at lp1)\<rparr>
         else
           lp1\<lparr>lp_failures := (if lp_failures lp1 < 3 then lp_failures lp1 + 1 else lp_failures lp1),
               lp_recovered_at := -1\<rparr>)"

definition lp_choose :: "int \<Rightarrow> bool \<Rightarrow> bool \<Rightarrow> int \<Rightarrow> link_policy \<Rightarrow> int \<times> link_policy" where
  "lp_choose current wired wifi now lp =
     (let lp' = lp_observe wired wifi now lp
      in (if current < 0 then (if wired then 0 else if wifi then 1 else -1)
          else if current = 0 then (if \<not> wired \<and> wifi \<and> lp_failures lp' \<ge> 3 then 1 else 0)
          else (if wired \<and> (lp_wifi_failures lp' \<ge> 3 \<or> now - lp_recovered_at lp' \<ge> 10000) then 0 else 1),
          lp'))"

definition lp_usable :: "int \<Rightarrow> link_policy \<Rightarrow> bool" where
  "lp_usable current lp \<longleftrightarrow>
     (if current = 0 then lp_failures lp < 3 else current = 1 \<and> lp_wifi_failures lp < 3)"

section \<open>The counters summarise the history\<close>

text \<open>Observations, newest first: wired reachable, wireless reachable, time.\<close>

type_synonym observation = "bool \<times> bool \<times> int"

fun lp_state :: "observation list \<Rightarrow> link_policy" where
  "lp_state [] = lp_new"
| "lp_state ((wired, wifi, now) # older) = lp_observe wired wifi now (lp_state older)"

abbreviation obs_wired :: "observation \<Rightarrow> bool" where "obs_wired ob \<equiv> fst ob"
abbreviation obs_wifi :: "observation \<Rightarrow> bool" where "obs_wifi ob \<equiv> fst (snd ob)"
abbreviation obs_time :: "observation \<Rightarrow> int" where "obs_time ob \<equiv> snd (snd ob)"

definition failed_run :: "(observation \<Rightarrow> bool) \<Rightarrow> observation list \<Rightarrow> nat" where
  "failed_run up obs = length (takeWhile (\<lambda>ob. \<not> up ob) obs)"

lemma failed_run_simps [simp]:
  "failed_run up [] = 0"
  "failed_run up (ob # obs) = (if up ob then 0 else Suc (failed_run up obs))"
  by (simp_all add: failed_run_def)

lemma lp_state_summary:
  assumes "\<forall>ob \<in> set obs. 0 \<le> obs_time ob"
  shows "lp_failures (lp_state obs) = int (min 3 (failed_run obs_wired obs))"
    and "lp_wifi_failures (lp_state obs) = int (min 3 (failed_run obs_wifi obs))"
    and "lp_recovered_at (lp_state obs) =
           (case takeWhile obs_wired obs of [] \<Rightarrow> -1 | up \<Rightarrow> obs_time (last up))"
  using assms
proof (induction obs)
  case Nil
  {
    case 1 show ?case by (simp add: lp_new_def)
  next
    case 2 show ?case by (simp add: lp_new_def)
  next
    case 3 show ?case by (simp add: lp_new_def)
  }
next
  case (Cons ob obs)
  obtain w f t where ob: "ob = (w, f, t)" by (metis prod_cases3)
  {
    case 1
    with Cons.IH(1) show ?case by (auto simp: ob lp_observe_def Let_def)
  next
    case 2
    with Cons.IH(2) show ?case by (auto simp: ob lp_observe_def Let_def)
  next
    case 3
    then have nn: "\<forall>ob \<in> set (takeWhile obs_wired obs). 0 \<le> obs_time ob"
      by (auto dest: set_takeWhileD)
    show ?case
    proof (cases "takeWhile obs_wired obs")
      case Nil
      with Cons.IH(3) 3 show ?thesis by (auto simp: ob lp_observe_def Let_def)
    next
      case (Cons x xs)
      with nn have "0 \<le> obs_time (last (x # xs))" by (metis last_in_set list.distinct(1))
      with Cons Cons.IH(3) 3 show ?thesis by (auto simp: ob lp_observe_def Let_def)
    qed
  }
qed


lemma lp_choose_hysteresis_parts:
  fixes obs :: "observation list" and wired wifi :: bool and now :: int
  defines "h \<equiv> (wired, wifi, now) # obs"
  assumes "\<forall>ob \<in> set h. 0 \<le> obs_time ob"
    and "lp_choose current wired wifi now (lp_state obs) = (link, lp)"
  shows "lp = lp_state h"
    and "current < 0 \<longrightarrow> link = (if wired then 0 else if wifi then 1 else -1)"
    and "current = 0 \<longrightarrow> link = (if \<not> wired \<and> wifi \<and> failed_run obs_wired h \<ge> 3 then 1 else 0)"
    and "current > 0 \<longrightarrow> link = (if wired \<and> (failed_run obs_wifi h \<ge> 3 \<or>
           now - obs_time (last (takeWhile obs_wired h)) \<ge> 10000) then 0 else 1)"
    and "lp_usable i lp \<longleftrightarrow>
           (i = 0 \<and> failed_run obs_wired h < 3) \<or> (i = 1 \<and> failed_run obs_wifi h < 3)"
proof -
  show lp: "lp = lp_state h"
    using assms(3) by (simp add: lp_choose_def Let_def h_def)
  note s = lp_state_summary [OF assms(2)]
  have ch: "lp_observe wired wifi now (lp_state obs) = lp_state h" by (simp add: h_def)
  show "current < 0 \<longrightarrow> link = (if wired then 0 else if wifi then 1 else -1)"
    using assms(3) by (auto simp: lp_choose_def Let_def)
  show "current = 0 \<longrightarrow> link = (if \<not> wired \<and> wifi \<and> failed_run obs_wired h \<ge> 3 then 1 else 0)"
    using assms(3) by (auto simp: lp_choose_def Let_def ch s split: if_splits)
  have "lp_recovered_at (lp_state h) = obs_time (last (takeWhile obs_wired h))" if wired
    using s(3) that by (simp add: h_def)
  then show "current > 0 \<longrightarrow> link = (if wired \<and> (failed_run obs_wifi h \<ge> 3 \<or>
           now - obs_time (last (takeWhile obs_wired h)) \<ge> 10000) then 0 else 1)"
    using assms(3) by (auto simp: lp_choose_def Let_def ch s(1,2) split: if_splits)
  show "lp_usable i lp \<longleftrightarrow> (i = 0 \<and> failed_run obs_wired h < 3) \<or> (i = 1 \<and> failed_run obs_wifi h < 3)"
    using s(1,2) by (auto simp: lp lp_usable_def min_def split: if_splits)
qed

text \<open>C25. After any history of probes, the policy leaves the wired link exactly when at least three
  probes of it in a row, including the current one, failed and the wireless one answers;
  it returns to the wired link exactly when that answers and either the wireless link failed
  three times in a row or the wired one answered without a break for ten seconds; a link
  counts as usable exactly while fewer than three probes of it in a row failed.\<close>

theorem lp_choose_hysteresis:
  fixes obs :: "observation list" and wired wifi :: bool and now :: int
  defines "h \<equiv> (wired, wifi, now) # obs"
  assumes "\<forall>ob \<in> set h. 0 \<le> obs_time ob"
    and "lp_choose current wired wifi now (lp_state obs) = (link, lp)"
  shows "(lp = lp_state h) \<and>
     (current < 0 \<longrightarrow> link = (if wired then 0 else if wifi then 1 else -1)) \<and>
     (current = 0 \<longrightarrow> link = (if \<not> wired \<and> wifi \<and> failed_run obs_wired h \<ge> 3 then 1 else 0)) \<and>
     (current > 0 \<longrightarrow> link = (if wired \<and> (failed_run obs_wifi h \<ge> 3 \<or>
           now - obs_time (last (takeWhile obs_wired h)) \<ge> 10000) then 0 else 1)) \<and>
     (lp_usable i lp \<longleftrightarrow>
           (i = 0 \<and> failed_run obs_wired h < 3) \<or> (i = 1 \<and> failed_run obs_wifi h < 3))"
  using lp_choose_hysteresis_parts [OF assms(2,3) [unfolded h_def]] unfolding h_def by blast

theorem lp_choose_hysteresis_witness:
  "fst (lp_choose 0 False True 3000 (lp_state [(False, True, 2000), (False, True, 1000), (True, True, 0)])) = 1"
proof -
  obtain link lp where r:
    "lp_choose 0 False True 3000 (lp_state [(False, True, 2000), (False, True, 1000), (True, True, 0)]) = (link, lp)"
    by fastforce
  have "\<forall>ob \<in> set [(False, True, 3000), (False, True, 2000), (False, True, 1000), (True, True, 0)]. (0::int) \<le> obs_time ob"
    by simp
  from lp_choose_hysteresis [OF this r] r show ?thesis by simp
qed

end
