(* ===== verification/RouteIdentity.thy ===== *)
theory RouteIdentity
  imports CNumbers
begin

unbundle bit_operations_syntax

text \<open>
  The ownership test of kernel routes, \<^verbatim>\<open>src/network/route_identity.hpp\<close>, on the lines
  \<^verbatim>\<open>std::getline\<close> reads from \<^verbatim>\<open>/proc/net/route\<close>. The formatted stream extractions are
  modelled for the 32-bit \<^verbatim>\<open>unsigned long\<close> of the target.
\<close>

section \<open>Formatted extraction\<close>

definition is_word :: "string \<Rightarrow> string \<times> string" where
  "is_word s = (let t = dropWhile c_isspace s in (takeWhile (\<lambda>c. \<not> c_isspace c) t, dropWhile (\<lambda>c. \<not> c_isspace c) t))"

text \<open>\<^verbatim>\<open>row >> dev\<close>: fails on an empty rest.\<close>

definition extract_word :: "string \<Rightarrow> (string \<times> string) option" where
  "extract_word s = (case is_word s of ([], r) \<Rightarrow> None | (w, r) \<Rightarrow> Some (w, r))"

text \<open>\<^verbatim>\<open>row >> number\<close> in base 10 or 16, with the sign and the hexadecimal prefix it accepts.\<close>

definition extract_ulong :: "nat \<Rightarrow> string \<Rightarrow> (nat \<times> string) option" where
  "extract_ulong base s =
     (let s1 = dropWhile c_isspace s;
          neg = (s1 \<noteq> [] \<and> hd s1 = CHR ''-'');
          s2 = (if s1 \<noteq> [] \<and> (hd s1 = CHR ''-'' \<or> hd s1 = CHR ''+'') then tl s1 else s1);
          s3 = (if base = 16 \<and> (str_starts s2 ''0x'' \<or> str_starts s2 ''0X'') then drop 2 s2 else s2)
      in if s3 = [] \<or> \<not> is_digit base (hd s3) then None
         else (case read_digits base 0 s3 of
                 (n, r) \<Rightarrow> if n \<ge> 2 ^ 32 then None
                           else Some ((if neg then (2 ^ 32 - n) mod 2 ^ 32 else n), r)))"

record route_row =
  rr_dev :: string
  rr_dst :: nat
  rr_gateway :: nat
  rr_flags :: nat
  rr_metric :: nat
  rr_mask :: nat

definition parse_row :: "string \<Rightarrow> route_row option" where
  "parse_row line =
     (case extract_word line of None \<Rightarrow> None | Some (dev, r1) \<Rightarrow>
     (case extract_ulong 16 r1 of None \<Rightarrow> None | Some (dst, r2) \<Rightarrow>
     (case extract_ulong 16 r2 of None \<Rightarrow> None | Some (gateway, r3) \<Rightarrow>
     (case extract_ulong 16 r3 of None \<Rightarrow> None | Some (flags, r4) \<Rightarrow>
     (case extract_ulong 10 r4 of None \<Rightarrow> None | Some (refs, r5) \<Rightarrow>
     (case extract_ulong 10 r5 of None \<Rightarrow> None | Some (usecount, r6) \<Rightarrow>
     (case extract_ulong 10 r6 of None \<Rightarrow> None | Some (metric, r7) \<Rightarrow>
     (case extract_ulong 16 r7 of None \<Rightarrow> None | Some (netmask, r8) \<Rightarrow>
        Some \<lparr>rr_dev = dev, rr_dst = dst, rr_gateway = gateway, rr_flags = flags, rr_metric = metric,
              rr_mask = netmask\<rparr>))))))))"

section \<open>Ownership\<close>

definition iface :: "int \<Rightarrow> string" where
  "iface i = (if i = 0 then ''eth0'' else ''wlan0'')"

definition owned_stream_route ::
  "string \<Rightarrow> string \<Rightarrow> string \<Rightarrow> string \<Rightarrow> nat \<Rightarrow> nat \<Rightarrow> nat \<Rightarrow> bool" where
  "owned_stream_route target device saved_target saved_device metric gateway flags \<longleftrightarrow>
     target = saved_target \<and> device = saved_device \<and> (device = ''eth0'' \<or> device = ''wlan0'') \<and>
     metric = 4270 \<and> gateway = 0 \<and> flags = 5"

definition host_route :: "u32 \<Rightarrow> route_row \<Rightarrow> bool" where
  "host_route address row \<longleftrightarrow> rr_dst row = unat address \<and> rr_mask row = 0xffffffff"

text \<open>The loop over the rows after the header; \<open>bad\<close> is a read error of the stream.\<close>

fun route_scan :: "u32 \<Rightarrow> string \<Rightarrow> int \<Rightarrow> bool \<Rightarrow> int \<Rightarrow> string list \<Rightarrow> int" where
  "route_scan address target active bad found [] = (if bad then -2 else found)"
| "route_scan address target active bad found (line # lines) =
     (case parse_row line of
        None \<Rightarrow> -2
      | Some row \<Rightarrow>
          if \<not> host_route address row then route_scan address target active bad found lines
          else if active < 0 \<or> found \<ge> 0 \<or>
                  \<not> owned_stream_route target (rr_dev row) target (iface active)
                      (rr_metric row) (rr_gateway row) (rr_flags row)
               then -2
               else route_scan address target active bad active lines)"

definition stream_route_state :: "bool \<Rightarrow> string list \<Rightarrow> u32 \<Rightarrow> string \<Rightarrow> int \<Rightarrow> int" where
  "stream_route_state bad table address target active =
     (case table of [] \<Rightarrow> -2 | _ # rows \<Rightarrow> route_scan address target active bad (-1) rows)"


section \<open>The scan as a specification\<close>

definition row_owned :: "string \<Rightarrow> int \<Rightarrow> route_row \<Rightarrow> bool" where
  "row_owned target active row \<longleftrightarrow>
     rr_dev row = iface active \<and> rr_metric row = 4270 \<and> rr_gateway row = 0 \<and> rr_flags row = 5"

definition route_state_spec :: "bool \<Rightarrow> string list \<Rightarrow> u32 \<Rightarrow> string \<Rightarrow> int \<Rightarrow> int" where
  "route_state_spec bad rows address target active =
     (if bad \<or> None \<in> set (map parse_row rows) then -2
      else (case filter (host_route address) (map (the \<circ> parse_row) rows) of
              [] \<Rightarrow> -1
            | [row] \<Rightarrow> if active \<ge> 0 \<and> row_owned target active row then active else -2
            | _ \<Rightarrow> -2))"

lemma owned_is_row_owned:
  "owned_stream_route target (rr_dev row) target (iface active) (rr_metric row) (rr_gateway row) (rr_flags row) \<longleftrightarrow>
   row_owned target active row"
  by (auto simp: owned_stream_route_def row_owned_def iface_def)

lemma route_scan_found:
  "0 \<le> active \<Longrightarrow>
   route_scan address target active bad active rows =
     (if bad \<or> None \<in> set (map parse_row rows) \<or>
         filter (host_route address) (map (the \<circ> parse_row) rows) \<noteq> [] then -2 else active)"
  by (induction rows) (auto split: option.split)

lemma route_scan_spec:
  "route_scan address target active bad (-1) rows = route_state_spec bad rows address target active"
proof (induction rows)
  case Nil
  then show ?case by (simp add: route_state_spec_def)
next
  case (Cons line rows)
  show ?case
  proof (cases "parse_row line")
    case None
    then show ?thesis by (simp add: route_state_spec_def)
  next
    case (Some row)
    show ?thesis
    proof (cases "host_route address row")
      case False
      with Some Cons show ?thesis by (simp add: route_state_spec_def)
    next
      case True
      have "route_scan address target active bad (-1) (line # rows) =
          (if active < 0 \<or> \<not> row_owned target active row then -2
           else route_scan address target active bad active rows)"
        using Some True by (simp add: owned_is_row_owned)
      then show ?thesis
        using Some True route_scan_found [of active address target bad rows]
        by (auto simp: route_state_spec_def split: list.split)
    qed
  qed
qed

lemma stream_route_state_spec_parts:
  "stream_route_state bad [] address target active = -2"
  "stream_route_state bad (header # rows) address target active = route_state_spec bad rows address target active"
  by (simp_all add: stream_route_state_def route_scan_spec)

text \<open>C39. The route check reports an interface exactly when the whole table was readable and
  well-formed and holds a single host route to the receiver, on the interface the program
  installed it, with the program's metric, no gateway and the host flags; it reports none
  exactly when there is no such route, and a conflict in every other case.\<close>

theorem stream_route_state_spec:
  "(stream_route_state bad [] address target active = -2) \<and>
   (stream_route_state bad (header # rows) address target active = route_state_spec bad rows address target active)"
  using stream_route_state_spec_parts by blast

lemma example_row:
  "parse_row ''eth0 0A00000A 00000000 0005 0 0 4270 FFFFFFFF 0 0 0'' =
     Some \<lparr>rr_dev = ''eth0'', rr_dst = 0x0A00000A, rr_gateway = 0, rr_flags = 5, rr_metric = 4270,
           rr_mask = 0xFFFFFFFF\<rparr>"
  by (simp add: parse_row_def extract_word_def is_word_def extract_ulong_def c_isspace_def is_digit_def
      digit_val_def str_starts_def Let_def)

lemma example_route_state:
  "stream_route_state False [''Iface'', ''eth0 0A00000A 00000000 0005 0 0 4270 FFFFFFFF 0 0 0''] 0x0A00000A ''10.0.0.10'' 0 = 0"
  by (simp add: stream_route_state_def route_scan_spec route_state_spec_def example_row host_route_def
      row_owned_def owned_stream_route_def iface_def)

end
