(* ===== verification/NetworkRoute.thy ===== *)
theory NetworkRoute
  imports LinkPolicy RouteIdentity
begin

text \<open>
  The failover component \<^verbatim>\<open>src/network/network_route.cpp\<close>: start-up and take-over of a route
  left by an earlier run, the probe of one interface, the route change, and one iteration of
  the monitor thread. What the kernel answers (tables, addresses, ioctl results) are
  arguments; the calls that change the system are collected as a list.
\<close>

section \<open>Start-up\<close>

record owner_file =
  of_target :: string
  of_device :: string

fun take_over :: "u32 \<Rightarrow> string \<Rightarrow> owner_file \<Rightarrow> int \<Rightarrow> string list \<Rightarrow> string + int" where
  "take_over address host saved active [] = Inr active"
| "take_over address host saved active (line # lines) =
     (case parse_row line of
        None \<Rightarrow> take_over address host saved active lines
      | Some row \<Rightarrow>
          if \<not> host_route address row then take_over address host saved active lines
          else if active \<ge> 0 \<or>
                  \<not> owned_stream_route host (rr_dev row) (of_target saved) (of_device saved)
                      (rr_metric row) (rr_gateway row) (rr_flags row)
               then Inl (''unowned host route to '' @ host)
               else take_over address host saved (if rr_dev row = ''eth0'' then 0 else 1) lines)"

definition net_start ::
  "(string \<Rightarrow> u32 option) \<Rightarrow> bool \<Rightarrow> string list option \<Rightarrow> owner_file \<Rightarrow> string \<Rightarrow> int list \<Rightarrow> string + int" where
  "net_start pton is_root table saved host ports =
     (case pton host of
        None \<Rightarrow> Inl ''network failover requires one IPv4 receiver and valid TCP port''
      | Some address \<Rightarrow>
          if ports = [] \<or> length ports > 4
          then Inl ''network failover requires one IPv4 receiver and valid TCP port''
          else if list_ex (\<lambda>port. port \<le> 0 \<or> port > 65535) ports then Inl ''invalid probe port''
          else if \<not> is_root then Inl ''network failover requires root for device binding and routing''
          else (case table of
                  None \<Rightarrow> Inl ''cannot inspect /proc/net/route''
                | Some lines \<Rightarrow> take_over address host saved (-1) (drop 1 lines)))"

section \<open>Probing one interface\<close>

record iface_env =
  if_socket :: bool
  if_flags :: "(bool \<times> bool) option"
  if_addr :: "u32 option"
  if_mask :: "u32 option"

datatype connect_result = Conn_ok | Conn_refused | Conn_inprogress | Conn_other

record probe_env =
  pr_socket :: bool
  pr_bound :: bool
  pr_connect :: connect_result
  pr_writable :: bool
  pr_so_error :: "connect_result option"

definition probe_port :: "probe_env \<Rightarrow> bool" where
  "probe_port p \<longleftrightarrow>
     pr_socket p \<and> pr_bound p \<and>
     (case pr_connect p of
        Conn_ok \<Rightarrow> True
      | Conn_refused \<Rightarrow> True
      | Conn_inprogress \<Rightarrow> pr_writable p \<and> (pr_so_error p = Some Conn_ok \<or> pr_so_error p = Some Conn_refused)
      | Conn_other \<Rightarrow> False)"

text \<open>The result and the source address the probe used (zero when it got none).\<close>

definition net_reachable :: "u32 \<Rightarrow> iface_env \<Rightarrow> probe_env list \<Rightarrow> bool \<times> u32" where
  "net_reachable address env probes =
     (if \<not> if_socket env then (False, 0)
      else (case if_flags env of
              None \<Rightarrow> (False, 0)
            | Some (up, running) \<Rightarrow>
                if \<not> up \<or> \<not> running then (False, 0)
                else (case if_addr env of
                        None \<Rightarrow> (False, 0)
                      | Some local \<Rightarrow>
                          (case if_mask env of
                             None \<Rightarrow> (False, local)
                           | Some netmask \<Rightarrow>
                               if local AND netmask \<noteq> address AND netmask then (False, local)
                               else (list_ex probe_port probes, local)))))"

section \<open>Changing the route\<close>

datatype ioctl_result = Ioctl_ok | Ioctl_esrch | Ioctl_error

text \<open>The calls that change the system, each with its outcome: the ownership record is written, a route is added or deleted.\<close>

datatype net_op = Op_record int bool | Op_add int ioctl_result | Op_delete int ioctl_result

record route_env =
  re_owner :: bool
  re_socket :: bool
  re_ioctl :: ioctl_result

definition net_route :: "int \<Rightarrow> bool \<Rightarrow> route_env \<Rightarrow> bool \<times> net_op list" where
  "net_route i add env =
     (if add \<and> \<not> re_owner env then (False, [Op_record i False])
      else
        (let ops = (if add then [Op_record i True] else []) @
                   (if re_socket env then [if add then Op_add i (re_ioctl env) else Op_delete i (re_ioctl env)] else [])
         in if re_socket env \<and> re_ioctl env = Ioctl_ok then (True, ops)
            else if re_socket env \<and> \<not> add \<and> re_ioctl env = Ioctl_esrch then (True, ops)
            else (False, ops)))"

section \<open>The monitor loop\<close>

record net_state =
  n_active :: int
  n_active_address :: u32
  n_policy :: link_policy
  n_generation :: u32
  n_ready :: bool
  n_retry_at :: int

definition net_initial :: "int \<Rightarrow> net_state" where
  "net_initial active =
     \<lparr>n_active = active, n_active_address = 0, n_policy = lp_new, n_generation = 0, n_ready = False, n_retry_at = 0\<rparr>"

text \<open>
  What one iteration sees: the probes and the source addresses, the time, the route table
  before and after a change (lines and read error), the outcomes of the route calls.
\<close>

record net_env =
  ne_wired :: bool
  ne_wifi :: bool
  ne_addr0 :: u32
  ne_addr1 :: u32
  ne_now :: int
  ne_table :: "bool \<times> string list"
  ne_table' :: "bool \<times> string list"
  ne_del :: route_env
  ne_add :: route_env
  ne_restore :: route_env

text \<open>Deleting the old and adding the new route: the active link afterwards and the calls made.\<close>

definition net_switch :: "net_env \<Rightarrow> int \<Rightarrow> int \<Rightarrow> int \<Rightarrow> int \<times> net_op list" where
  "net_switch env old installed link =
     (let (deleted, ops1) = (if installed < 0 then (True, []) else net_route installed False (ne_del env))
      in if \<not> deleted then (old, ops1)
         else
           (let (added, ops2) = net_route link True (ne_add env)
            in if added then (link, ops1 @ ops2)
               else if old < 0 then (-1, ops1 @ ops2)
               else (let (restored, ops3) = net_route old True (ne_restore env)
                     in (if restored then old else -1, ops1 @ ops2 @ ops3))))"

text \<open>Whether this iteration changes the route.\<close>

definition net_wants_change :: "net_env \<Rightarrow> net_state \<Rightarrow> int \<Rightarrow> int \<Rightarrow> bool" where
  "net_wants_change env st link installed \<longleftrightarrow>
     link \<ge> 0 \<and> (if link = 0 then ne_wired env else ne_wifi env) \<and> installed \<noteq> -2 \<and>
     (link \<noteq> n_active st \<or> installed \<noteq> n_active st) \<and> ne_now env \<ge> n_retry_at st"

text \<open>The change: the state after it, what the table then shows, and the calls made.\<close>

definition net_change :: "u32 \<Rightarrow> string \<Rightarrow> net_env \<Rightarrow> net_state \<Rightarrow> int \<Rightarrow> int \<Rightarrow> net_state \<times> int \<times> net_op list" where
  "net_change address host env st link installed =
     (case net_switch env (n_active st) installed link of
        (active, ops) \<Rightarrow>
          (st\<lparr>n_active := active, n_ready := False, n_generation := n_generation st + 1,
              n_retry_at := ne_now env + 3000\<rparr>,
           stream_route_state (fst (ne_table' env)) (snd (ne_table' env)) address host active, ops))"

text \<open>The second half: whether publishing is possible, and the signal to the connections.\<close>

definition net_publish :: "net_env \<Rightarrow> int \<Rightarrow> net_state \<Rightarrow> net_state" where
  "net_publish env installed st =
     (let active = n_active st;
          available = (active \<ge> 0 \<and> installed = active \<and> lp_usable active (n_policy st));
          source = (if active < 0 then 0 else if active = 0 then ne_addr0 env else ne_addr1 env);
          ip_changed = (available \<and> source \<noteq> 0 \<and> n_active_address st \<noteq> 0 \<and> source \<noteq> n_active_address st)
      in st\<lparr>n_generation := (if available \<noteq> n_ready st \<or> ip_changed then n_generation st + 1 else n_generation st),
            n_active_address := (if available \<and> source \<noteq> 0 then source else n_active_address st),
            n_ready := available\<rparr>)"

definition net_iterate :: "u32 \<Rightarrow> string \<Rightarrow> net_env \<Rightarrow> net_state \<Rightarrow> net_state \<times> net_op list" where
  "net_iterate address host env st =
     (case lp_choose (n_active st) (ne_wired env) (ne_wifi env) (ne_now env) (n_policy st) of
        (link, policy) \<Rightarrow>
          (let st0 = st\<lparr>n_policy := policy\<rparr>;
               installed = stream_route_state (fst (ne_table env)) (snd (ne_table env)) address host (n_active st)
           in case (if net_wants_change env st0 link installed
                    then net_change address host env st0 link installed else (st0, installed, [])) of
                (st1, installed1, ops) \<Rightarrow>
                  (let st2 = net_publish env installed1 st1
                   in (if installed = -2 \<and> ne_now env \<ge> n_retry_at st2
                       then st2\<lparr>n_retry_at := ne_now env + 30000\<rparr> else st2, ops))))"

text \<open>The destructor: the route is removed only if the table still shows it as ours.\<close>

definition net_stop :: "u32 \<Rightarrow> string \<Rightarrow> bool \<times> string list \<Rightarrow> route_env \<Rightarrow> net_state \<Rightarrow> net_op list" where
  "net_stop address host table env st =
     (if n_active st \<ge> 0 \<and> stream_route_state (fst table) (snd table) address host (n_active st) = n_active st
      then snd (net_route (n_active st) False env) else [])"


section \<open>Properties\<close>

text \<open>Within one generation the monitor changes neither its readiness nor the routes.\<close>

lemma net_generation_ready:
  assumes "net_iterate address host env st = (st', ops)" "n_generation st' = n_generation st"
  shows "n_ready st' = n_ready st \<and> ops = []"
proof -
  have two: "g + 1 + 1 \<noteq> g" "g + 1 \<noteq> g" for g :: u32
  proof -
    show "g + 1 + 1 \<noteq> g"
    proof
      assume "g + 1 + 1 = g"
      then have "(2 :: u32) = 0" by (simp add: add.assoc add_cancel_left_right)
      then show False by simp
    qed
  qed simp
  with assms show ?thesis
    by (auto simp: net_iterate_def net_change_def net_publish_def Let_def split: prod.splits if_splits)
qed

lemma take_over_spec:
  "take_over address host saved active lines = Inr a \<Longrightarrow>
   (let rows = filter (host_route address) (List.map_filter parse_row lines)
    in (rows = [] \<and> a = active) \<or>
       (active < 0 \<and> (\<exists>row. rows = [row] \<and> owned_stream_route host (rr_dev row) (of_target saved) (of_device saved)
           (rr_metric row) (rr_gateway row) (rr_flags row) \<and> a = (if rr_dev row = ''eth0'' then 0 else 1))))"
proof (induction lines arbitrary: active)
  case Nil
  then show ?case by (simp add: List.map_filter_def)
next
  case (Cons line lines)
  show ?case
  proof (cases "parse_row line")
    case None
    with Cons show ?thesis by (simp add: List.map_filter_def)
  next
    case (Some row)
    show ?thesis
    proof (cases "host_route address row")
      case False
      with Some Cons show ?thesis by (simp add: List.map_filter_def)
    next
      case True
      with Some Cons.prems have o: "active < 0" "owned_stream_route host (rr_dev row) (of_target saved)
          (of_device saved) (rr_metric row) (rr_gateway row) (rr_flags row)"
        and t: "take_over address host saved (if rr_dev row = ''eth0'' then 0 else 1) lines = Inr a"
        by (auto split: if_splits)
      from Cons.IH [OF t] o True Some show ?thesis
        by (auto simp: List.map_filter_def Let_def split: if_splits)
    qed
  qed
qed

lemma owned_take_over:
  "owned_stream_route host (rr_dev row) t d (rr_metric row) (rr_gateway row) (rr_flags row) \<Longrightarrow>
   t = host \<and> d = rr_dev row \<and> rr_dev row \<in> {''eth0'', ''wlan0''} \<and>
   row_owned host (if rr_dev row = ''eth0'' then 0 else 1) row"
  by (auto simp: owned_stream_route_def row_owned_def iface_def)

text \<open>C19. The component starts only with a usable receiver address, one to four valid ports and root
  rights; an existing host route to the receiver is taken over only if it is the single one and
  matches the ownership record, device, metric, gateway and flags; any other one aborts the start.\<close>

theorem net_start_ownership:
  assumes "net_start pton is_root table saved host ports = Inr a"
  shows "is_root \<and> (\<exists>address lines. pton host = Some address \<and> table = Some lines \<and>
     ports \<noteq> [] \<and> length ports \<le> 4 \<and> (\<forall>p \<in> set ports. 0 < p \<and> p \<le> 65535) \<and>
     (let rows = filter (host_route address) (List.map_filter parse_row (drop 1 lines))
      in (rows = [] \<and> a = -1) \<or>
         (\<exists>row. rows = [row] \<and> of_target saved = host \<and> of_device saved = rr_dev row \<and>
            rr_dev row \<in> {''eth0'', ''wlan0''} \<and> row_owned host a row \<and> a \<in> {0, 1})))"
proof -
  from assms obtain address lines where
    a: "is_root" "pton host = Some address" "table = Some lines" "ports \<noteq> []" "length ports \<le> 4"
       "\<forall>p \<in> set ports. 0 < p \<and> p \<le> 65535"
    and t: "take_over address host saved (-1) (drop 1 lines) = Inr a"
    by (cases "pton host"; cases table) (auto simp: net_start_def list_ex_iff not_le not_less split: if_splits)
  let ?rows = "filter (host_route address) (List.map_filter parse_row (drop 1 lines))"
  from take_over_spec [OF t] have "(?rows = [] \<and> a = -1) \<or>
         (\<exists>row. ?rows = [row] \<and> of_target saved = host \<and> of_device saved = rr_dev row \<and>
            rr_dev row \<in> {''eth0'', ''wlan0''} \<and> row_owned host a row \<and> a \<in> {0, 1})"
    unfolding Let_def
  proof (elim disjE conjE exE)
    fix row
    assume r: "?rows = [row]" "owned_stream_route host (rr_dev row) (of_target saved) (of_device saved)
        (rr_metric row) (rr_gateway row) (rr_flags row)" "a = (if rr_dev row = ''eth0'' then 0 else 1)"
    from owned_take_over [OF r(2)] r(1,3) show ?thesis by (cases "rr_dev row = ''eth0''") auto
  qed simp
  with a show ?thesis unfolding Let_def by blast
qed

theorem net_start_ownership_witness:
  "net_start (\<lambda>_. Some 0x0A00000A) True
       (Some [''Iface'', ''eth0 0A00000A 00000000 0005 0 0 4270 FFFFFFFF 0 0 0''])
       \<lparr>of_target = ''10.0.0.10'', of_device = ''eth0''\<rparr> ''10.0.0.10'' [554] = Inr 0 \<and>
     row_owned ''10.0.0.10'' 0 \<lparr>rr_dev = ''eth0'', rr_dst = 0x0A00000A, rr_gateway = 0, rr_flags = 5,
        rr_metric = 4270, rr_mask = 0xFFFFFFFF\<rparr>"
proof -
  have s: "net_start (\<lambda>_. Some 0x0A00000A) True
       (Some [''Iface'', ''eth0 0A00000A 00000000 0005 0 0 4270 FFFFFFFF 0 0 0''])
       \<lparr>of_target = ''10.0.0.10'', of_device = ''eth0''\<rparr> ''10.0.0.10'' [554] = Inr 0"
    by (simp add: net_start_def example_row host_route_def owned_stream_route_def)
  from net_start_ownership [OF s] s show ?thesis
    by (simp add: List.map_filter_def example_row host_route_def)
qed

lemma generation_twice [simp]: "g + 1 \<noteq> (g :: u32)" "g + 1 + 1 \<noteq> g" "g + 2 \<noteq> g"
  by (auto simp: add_cancel_right_right add.assoc)

lemma net_publish_simps [simp]:
  "n_active (net_publish env i st) = n_active st"
  "n_retry_at (net_publish env i st) = n_retry_at st"
  "n_policy (net_publish env i st) = n_policy st"
  "n_ready (net_publish env i st) \<longleftrightarrow> n_active st \<ge> 0 \<and> i = n_active st \<and> lp_usable (n_active st) (n_policy st)"
  by (simp_all add: net_publish_def Let_def)

text \<open>Every route that is added has been recorded as owned in the step before.\<close>

fun adds_recorded :: "net_op list \<Rightarrow> bool" where
  "adds_recorded [] = True"
| "adds_recorded (Op_record i written # ops) =
     (case ops of Op_add j r # ops' \<Rightarrow> written \<and> i = j \<and> adds_recorded ops' | _ \<Rightarrow> adds_recorded ops)"
| "adds_recorded (Op_add i r # ops) = False"
| "adds_recorded (Op_delete i r # ops) = adds_recorded ops"

text \<open>Before a route is added, the installed one has been deleted, or was gone already.\<close>

definition deletes_first :: "int \<Rightarrow> net_op list \<Rightarrow> bool" where
  "deletes_first installed ops \<longleftrightarrow>
     (installed \<ge> 0 \<and> (\<exists>i r. Op_add i r \<in> set ops) \<longrightarrow>
        (\<exists>r rest. ops = Op_delete installed r # rest \<and> r \<noteq> Ioctl_error))"

lemma net_switch_order:
  assumes "net_switch env old installed link = (active, ops)"
  shows "adds_recorded ops \<and> deletes_first installed ops"
  using assms by (auto simp: net_switch_def net_route_def deletes_first_def Let_def split: if_splits)

lemma net_iterate_order:
  assumes "net_iterate address host env st = (st', ops)"
  shows "adds_recorded ops \<and>
     deletes_first (stream_route_state (fst (ne_table env)) (snd (ne_table env)) address host (n_active st)) ops"
proof -
  obtain link policy where ch: "lp_choose (n_active st) (ne_wired env) (ne_wifi env) (ne_now env) (n_policy st) = (link, policy)"
    by fastforce
  let ?inst = "stream_route_state (fst (ne_table env)) (snd (ne_table env)) address host (n_active st)"
  obtain active ops1 where sw: "net_switch env (n_active st) ?inst link = (active, ops1)" by fastforce
  from assms have "ops = ops1 \<or> ops = []"
    by (auto simp: net_iterate_def ch Let_def net_change_def sw split: if_splits prod.splits)
  with net_switch_order [OF sw] show ?thesis by (auto simp: deletes_first_def)
qed

lemma net_iterate_safe_parts:
  assumes "net_iterate address host env st = (st', ops)"
  shows "stream_route_state (fst (ne_table env)) (snd (ne_table env)) address host (n_active st) = -2 \<longrightarrow>
           ops = [] \<and> \<not> n_ready st' \<and> n_active st' = n_active st"
    and "ops \<noteq> [] \<longrightarrow> (ne_wired env \<or> ne_wifi env) \<and> n_retry_at st \<le> ne_now env \<and> n_retry_at st' = ne_now env + 3000"
    and "n_ready st' \<longrightarrow> n_active st' \<ge> 0 \<and> lp_usable (n_active st') (n_policy st') \<and>
           (\<exists>t \<in> {ne_table env, ne_table' env}.
              stream_route_state (fst t) (snd t) address host (n_active st') = n_active st')"
proof -
  obtain link policy where ch: "lp_choose (n_active st) (ne_wired env) (ne_wifi env) (ne_now env) (n_policy st) = (link, policy)"
    by fastforce
  let ?st0 = "st\<lparr>n_policy := policy\<rparr>"
  let ?inst = "stream_route_state (fst (ne_table env)) (snd (ne_table env)) address host (n_active st)"
  have step: "net_iterate address host env st =
     (case (if net_wants_change env ?st0 link ?inst then net_change address host env ?st0 link ?inst
            else (?st0, ?inst, [])) of
        (st1, installed1, ops) \<Rightarrow>
          (let st2 = net_publish env installed1 st1
           in (if ?inst = -2 \<and> ne_now env \<ge> n_retry_at st2 then st2\<lparr>n_retry_at := ne_now env + 30000\<rparr> else st2, ops)))"
    by (simp add: net_iterate_def ch Let_def)
  have all: "(?inst = -2 \<longrightarrow> ops = [] \<and> \<not> n_ready st' \<and> n_active st' = n_active st) \<and>
    (ops \<noteq> [] \<longrightarrow> (ne_wired env \<or> ne_wifi env) \<and> n_retry_at st \<le> ne_now env \<and> n_retry_at st' = ne_now env + 3000) \<and>
    (n_ready st' \<longrightarrow> n_active st' \<ge> 0 \<and> lp_usable (n_active st') (n_policy st') \<and>
       (\<exists>t \<in> {ne_table env, ne_table' env}.
          stream_route_state (fst t) (snd t) address host (n_active st') = n_active st'))"
  proof (cases "net_wants_change env ?st0 link ?inst")
    case False
    with assms step show ?thesis by (auto simp: Let_def split: if_splits)
  next
    case True
    obtain active ops1 where sw: "net_switch env (n_active ?st0) ?inst link = (active, ops1)" by fastforce
    from True have w: "ne_wired env \<or> ne_wifi env" "n_retry_at st \<le> ne_now env" "?inst \<noteq> -2"
      by (auto simp: net_wants_change_def split: if_splits)
    from True sw assms step w show ?thesis
      by (auto simp: net_change_def Let_def)
  qed
  then show "?inst = -2 \<longrightarrow> ops = [] \<and> \<not> n_ready st' \<and> n_active st' = n_active st"
    "ops \<noteq> [] \<longrightarrow> (ne_wired env \<or> ne_wifi env) \<and> n_retry_at st \<le> ne_now env \<and> n_retry_at st' = ne_now env + 3000"
    "n_ready st' \<longrightarrow> n_active st' \<ge> 0 \<and> lp_usable (n_active st') (n_policy st') \<and>
       (\<exists>t \<in> {ne_table env, ne_table' env}.
          stream_route_state (fst t) (snd t) address host (n_active st') = n_active st')"
    by blast+
qed


text \<open>C7. One iteration of the monitor never touches the kernel's routes while the table shows a
  foreign or unreadable state, and publishing is paused then; it changes routes only for an
  interface that answered, and then not again for three seconds. Every route it adds has been
  recorded as owned just before, and is added only after the installed one was deleted or found gone.\<close>

theorem net_iterate_safe:
  assumes "net_iterate address host env st = (st', ops)"
  shows "(stream_route_state (fst (ne_table env)) (snd (ne_table env)) address host (n_active st) = -2 \<longrightarrow>
           ops = [] \<and> \<not> n_ready st' \<and> n_active st' = n_active st) \<and>
     (ops \<noteq> [] \<longrightarrow> (ne_wired env \<or> ne_wifi env) \<and> n_retry_at st \<le> ne_now env \<and> n_retry_at st' = ne_now env + 3000) \<and>
     (n_ready st' \<longrightarrow> n_active st' \<ge> 0 \<and> lp_usable (n_active st') (n_policy st') \<and>
           (\<exists>t \<in> {ne_table env, ne_table' env}.
              stream_route_state (fst t) (snd t) address host (n_active st') = n_active st')) \<and>
     adds_recorded ops \<and>
     deletes_first (stream_route_state (fst (ne_table env)) (snd (ne_table env)) address host (n_active st)) ops"
  using net_iterate_safe_parts [OF assms] net_iterate_order [OF assms] by blast

definition route_env_ok :: route_env where
  "route_env_ok = \<lparr>re_owner = True, re_socket = True, re_ioctl = Ioctl_ok\<rparr>"

theorem net_iterate_safe_witness:
  "snd (net_iterate 0x0A00000A ''10.0.0.10''
     \<lparr>ne_wired = True, ne_wifi = True, ne_addr0 = 1, ne_addr1 = 2, ne_now = 5000, ne_table = (False, []),
      ne_table' = (False, []), ne_del = route_env_ok, ne_add = route_env_ok, ne_restore = route_env_ok\<rparr> (net_initial (-1))) = []"
proof -
  let ?env = "\<lparr>ne_wired = True, ne_wifi = True, ne_addr0 = 1, ne_addr1 = 2, ne_now = 5000, ne_table = (False, []),
      ne_table' = (False, []), ne_del = route_env_ok, ne_add = route_env_ok, ne_restore = route_env_ok\<rparr>"
  obtain st' ops where r: "net_iterate 0x0A00000A ''10.0.0.10'' ?env (net_initial (-1)) = (st', ops)" by fastforce
  have "stream_route_state (fst (ne_table ?env)) (snd (ne_table ?env)) 0x0A00000A ''10.0.0.10'' (n_active (net_initial (-1))) = -2"
    by (simp add: stream_route_state_def)
  with net_iterate_safe [OF r] r show ?thesis by simp
qed

text \<open>Every change the connections depend on is announced: if the generation is the same after an
  iteration, the interface and the permission to publish are the same, no route was changed,
  and a known source address has not changed while publishing.\<close>

theorem net_iterate_announces:
  assumes "net_iterate address host env st = (st', ops)" and "n_generation st' = n_generation st"
  shows "n_active st' = n_active st \<and> n_ready st' = n_ready st \<and> ops = [] \<and>
     (n_ready st' \<longrightarrow>
        (let source = (if n_active st' = 0 then ne_addr0 env else ne_addr1 env)
         in source = 0 \<or> n_active_address st = 0 \<or> source = n_active_address st))"
proof -
  obtain link policy where ch: "lp_choose (n_active st) (ne_wired env) (ne_wifi env) (ne_now env) (n_policy st) = (link, policy)"
    by fastforce
  let ?st0 = "st\<lparr>n_policy := policy\<rparr>"
  let ?inst = "stream_route_state (fst (ne_table env)) (snd (ne_table env)) address host (n_active st)"
  have pub: "n_generation (net_publish env i s) \<in> {n_generation s, n_generation s + 1}" for i s
    by (simp add: net_publish_def Let_def)
  have no: "\<not> net_wants_change env ?st0 link ?inst"
  proof
    assume w: "net_wants_change env ?st0 link ?inst"
    obtain st1 i ops1 where c: "net_change address host env ?st0 link ?inst = (st1, i, ops1)"
      by (metis prod_cases3)
    then have g: "n_generation st1 = n_generation st + 1" by (auto simp: net_change_def split: prod.splits)
    from assms(1) w c have "n_generation st' = n_generation (net_publish env i st1)"
      by (auto simp: net_iterate_def ch Let_def split: if_splits)
    with pub [of i st1] g assms(2) show False by (auto simp: add.assoc)
  qed
  then have s: "st' = (let st2 = net_publish env ?inst ?st0 in
       if ?inst = -2 \<and> ne_now env \<ge> n_retry_at st2 then st2\<lparr>n_retry_at := ne_now env + 30000\<rparr> else st2)" "ops = []"
    using assms(1) by (auto simp: net_iterate_def ch Let_def)
  then have g: "n_generation (net_publish env ?inst ?st0) = n_generation st" using assms(2) by (auto simp: Let_def split: if_splits)
  have eqs: "n_active st' = n_active st" "n_ready st' = n_ready (net_publish env ?inst ?st0)"
    using s by (auto simp: Let_def split: if_splits)
  from g have "n_ready (net_publish env ?inst ?st0) = n_ready st \<and>
      (n_ready (net_publish env ?inst ?st0) \<longrightarrow>
        (let source = (if n_active st = 0 then ne_addr0 env else ne_addr1 env)
         in source = 0 \<or> n_active_address st = 0 \<or> source = n_active_address st))"
    by (auto simp: net_publish_def Let_def split: if_splits)
  with eqs s(2) show ?thesis by (simp add: Let_def)
qed

theorem net_iterate_announces_witness:
  "n_ready (fst (net_iterate 0x0A00000A ''10.0.0.10''
     \<lparr>ne_wired = False, ne_wifi = False, ne_addr0 = 1, ne_addr1 = 2, ne_now = 5000, ne_table = (False, []),
      ne_table' = (False, []), ne_del = route_env_ok, ne_add = route_env_ok, ne_restore = route_env_ok\<rparr> (net_initial (-1)))) = False"
proof -
  let ?env = "\<lparr>ne_wired = False, ne_wifi = False, ne_addr0 = 1, ne_addr1 = 2, ne_now = 5000, ne_table = (False, []),
      ne_table' = (False, []), ne_del = route_env_ok, ne_add = route_env_ok, ne_restore = route_env_ok\<rparr>"
  obtain st' ops where r: "net_iterate 0x0A00000A ''10.0.0.10'' ?env (net_initial (-1)) = (st', ops)" by fastforce
  then have "n_generation st' = n_generation (net_initial (-1))"
    by (auto simp: net_iterate_def lp_choose_def lp_observe_def net_initial_def net_wants_change_def net_publish_def
        Let_def stream_route_state_def)
  from net_iterate_announces [OF r this] r show ?thesis by (simp add: net_initial_def)
qed

end
