(* ===== verification/NetworkRecovery.thy ===== *)
theory NetworkRecovery
  imports NetworkRoute "HOL-Library.Multiset"
begin

text \<open>
  The monitor of \<^verbatim>\<open>src/network/network_route.cpp\<close> together with the kernel's route table and the
  ownership record \<^verbatim>\<open>/run/gzh_ipc.route\<close>, as a step relation: turns of the monitor's loop, each of whose
  system calls may be interleaved with changes other processes make, and an end of the process between any
  two calls. The property is that of the comment in \<^verbatim>\<open>route\<close>: a route left behind is recovered by the next start.
\<close>

section \<open>The ownership record\<close>

text \<open>\<^verbatim>\<open>owner << host_ << ' ' << interfaces[id] << '\n'\<close>, and the two extractions of the constructor.\<close>

definition owner_text :: "string \<Rightarrow> int \<Rightarrow> string" where
  "owner_text host i = host @ '' '' @ iface i @ [NL]"

definition read_owner :: "string \<Rightarrow> owner_file" where
  "read_owner content =
     (case is_word content of (target, rest) \<Rightarrow> \<lparr>of_target = target, of_device = fst (is_word rest)\<rparr>)"

text \<open>An address \<^verbatim>\<open>inet_pton\<close> accepts is not empty and has no blank.\<close>

definition plain_word :: "string \<Rightarrow> bool" where
  "plain_word s \<longleftrightarrow> s \<noteq> [] \<and> list_all (\<lambda>c. \<not> c_isspace c) s"

lemma is_word_plain:
  "plain_word w \<Longrightarrow> r = [] \<or> c_isspace (hd r) \<Longrightarrow> is_word (w @ r) = (w, r)"
  by (cases w; cases r) (auto simp: plain_word_def is_word_def list_all_iff Let_def)

lemma is_word_blank: "is_word (CHR '' '' # r) = is_word r"
  by (simp add: is_word_def c_isspace_def)

lemma plain_iface: "plain_word (iface i)"
  by (simp add: plain_word_def iface_def c_isspace_def)

lemma read_owner_text: "plain_word host \<Longrightarrow> read_owner (owner_text host i) = \<lparr>of_target = host, of_device = iface i\<rparr>"
  using is_word_plain [OF plain_iface, of "[NL]" i]
  by (simp add: read_owner_def owner_text_def is_word_plain is_word_blank c_isspace_def)

section \<open>The kernel\<close>

text \<open>Its host routes to the receiver, and the content of the record.\<close>

record kernel =
  k_rows :: "route_row multiset"
  k_owner :: string

definition own_row :: "u32 \<Rightarrow> int \<Rightarrow> route_row" where
  "own_row address i =
     \<lparr>rr_dev = iface i, rr_dst = unat address, rr_gateway = 0, rr_flags = 5, rr_metric = 4270, rr_mask = 0xffffffff\<rparr>"

definition own_rows :: "u32 \<Rightarrow> kernel \<Rightarrow> route_row multiset" where
  "own_rows address k = filter_mset (\<lambda>r. r = own_row address 0 \<or> r = own_row address 1) (k_rows k)"

text \<open>Other processes, and a link that goes down: routes that are not of this program come and go, its own may vanish.\<close>

definition outside_change :: "u32 \<Rightarrow> kernel \<Rightarrow> kernel \<Rightarrow> bool" where
  "outside_change address k k' \<longleftrightarrow> own_rows address k' \<subseteq># own_rows address k \<and> k_owner k' = k_owner k"

text \<open>What a call does, given its outcome: \<^verbatim>\<open>SIOCADDRT\<close>, \<^verbatim>\<open>SIOCDELRT\<close>, and the rewriting of the record.\<close>

inductive kernel_op :: "u32 \<Rightarrow> string \<Rightarrow> kernel \<Rightarrow> net_op \<Rightarrow> kernel \<Rightarrow> bool" for address host where
  recorded: "kernel_op address host k (Op_record i True) (k\<lparr>k_owner := owner_text host i\<rparr>)"
| not_recorded: "kernel_op address host k (Op_record i False) (k\<lparr>k_owner := any\<rparr>)"
| added: "kernel_op address host k (Op_add i Ioctl_ok) (k\<lparr>k_rows := add_mset (own_row address i) (k_rows k)\<rparr>)"
| not_added: "r \<noteq> Ioctl_ok \<Longrightarrow> kernel_op address host k (Op_add i r) k"
| deleted: "own_row address i \<in># k_rows k \<Longrightarrow>
    kernel_op address host k (Op_delete i Ioctl_ok) (k\<lparr>k_rows := k_rows k - {#own_row address i#}\<rparr>)"
| gone: "own_row address i \<notin># k_rows k \<Longrightarrow> kernel_op address host k (Op_delete i Ioctl_esrch) k"
| not_deleted: "kernel_op address host k (Op_delete i Ioctl_error) k"

inductive_cases kernel_op_cases:
  "kernel_op address host k (Op_record i w) k'" "kernel_op address host k (Op_add i r) k'"
  "kernel_op address host k (Op_delete i r) k'"

inductive kernel_run :: "u32 \<Rightarrow> string \<Rightarrow> kernel \<Rightarrow> net_op list \<Rightarrow> kernel \<Rightarrow> bool" for address host where
  finished: "kernel_run address host k [] k"
| outside: "outside_change address k k1 \<Longrightarrow> kernel_run address host k1 ops k2 \<Longrightarrow> kernel_run address host k ops k2"
| call: "kernel_op address host k oper k1 \<Longrightarrow> kernel_run address host k1 ops k2 \<Longrightarrow> kernel_run address host k (oper # ops) k2"

text \<open>A readable table lists the host routes to the receiver among others; lines that cannot be parsed are none of them.\<close>

definition shows_rows :: "u32 \<Rightarrow> string list \<Rightarrow> kernel \<Rightarrow> bool" where
  "shows_rows address table k \<longleftrightarrow> mset (filter (host_route address) (List.map_filter parse_row (drop 1 table))) = k_rows k"

section \<open>The system\<close>

text \<open>
  A start, and turns of the loop of \<^verbatim>\<open>run\<close>; the table a turn reads first, when its reading does not
  fail, is the kernel's. An interrupted turn has made only some of its calls.
\<close>

inductive net_system ::
  "(string \<Rightarrow> u32 option) \<Rightarrow> u32 \<Rightarrow> string \<Rightarrow> int list \<Rightarrow> net_state \<Rightarrow> kernel \<Rightarrow> bool"
  for pton address host ports where
  start: "pton host = Some address \<Longrightarrow> shows_rows address table k \<Longrightarrow>
    net_start pton True (Some table) (read_owner (k_owner k)) host ports = Inr a \<Longrightarrow>
    net_system pton address host ports (net_initial a) k"
| iteration: "net_system pton address host ports st k \<Longrightarrow> outside_change address k k1 \<Longrightarrow>
    fst (ne_table env) \<or> shows_rows address (snd (ne_table env)) k1 \<Longrightarrow>
    net_iterate address host env st = (st', ops) \<Longrightarrow> kernel_run address host k1 ops k2 \<Longrightarrow>
    net_system pton address host ports st' k2"

inductive net_interrupted ::
  "(string \<Rightarrow> u32 option) \<Rightarrow> u32 \<Rightarrow> string \<Rightarrow> int list \<Rightarrow> kernel \<Rightarrow> bool"
  for pton address host ports where
  interrupt: "net_system pton address host ports st k \<Longrightarrow> outside_change address k k1 \<Longrightarrow>
    fst (ne_table env) \<or> shows_rows address (snd (ne_table env)) k1 \<Longrightarrow>
    net_iterate address host env st = (st', ops) \<Longrightarrow> kernel_run address host k1 (take n ops) k2 \<Longrightarrow>
    net_interrupted pton address host ports k2"

section \<open>What is known of the kernel\<close>

text \<open>
  Either the program has no route, and the record holds a known or unknown interface, or it has at most
  the one on a known interface, which the record then names.
\<close>

datatype route_phase = No_route "int option" | At_most int

definition phase_holds :: "u32 \<Rightarrow> string \<Rightarrow> route_phase \<Rightarrow> kernel \<Rightarrow> bool" where
  "phase_holds address host p k \<longleftrightarrow>
     (case p of
        No_route rec \<Rightarrow> own_rows address k = {#} \<and> (\<forall>i. rec = Some i \<longrightarrow> k_owner k = owner_text host i)
      | At_most i \<Rightarrow> own_rows address k \<subseteq># {#own_row address i#} \<and>
          (own_rows address k \<noteq> {#} \<longrightarrow> read_owner (k_owner k) = \<lparr>of_target = host, of_device = iface i\<rparr>))"

fun phase_after :: "route_phase \<Rightarrow> net_op \<Rightarrow> route_phase option" where
  "phase_after (At_most i) (Op_delete j r) = (if i = j then Some (if r = Ioctl_error then At_most i else No_route None) else None)"
| "phase_after (No_route rec) (Op_record j written) = Some (No_route (if written then Some j else None))"
| "phase_after (No_route (Some i)) (Op_add j r) = (if i = j then Some (if r = Ioctl_ok then At_most i else No_route (Some i)) else None)"
| "phase_after _ _ = None"

fun phase_run :: "route_phase \<Rightarrow> net_op list \<Rightarrow> route_phase option" where
  "phase_run p [] = Some p"
| "phase_run p (oper # ops) = Option.bind (phase_after p oper) (\<lambda>p'. phase_run p' ops)"

lemma own_row_iface: "i \<in> {0, 1} \<Longrightarrow> j \<in> {0, 1} \<Longrightarrow> own_row address i = own_row address j \<longleftrightarrow> i = j"
  by (auto simp: own_row_def iface_def)

lemma iface_cases: "own_row address i = own_row address 0 \<or> own_row address i = own_row address 1"
  by (simp add: own_row_def iface_def)

lemma own_rows_simps [simp]:
  "own_rows address (k\<lparr>k_owner := c\<rparr>) = own_rows address k"
  "own_rows address (k\<lparr>k_rows := add_mset (own_row address i) (k_rows k)\<rparr>) = add_mset (own_row address i) (own_rows address k)"
  "own_rows address (k\<lparr>k_rows := k_rows k - {#own_row address i#}\<rparr>) = own_rows address k - {#own_row address i#}"
  "own_row address i \<in># own_rows address k \<longleftrightarrow> own_row address i \<in># k_rows k"
  using iface_cases [of address i] by (auto simp: own_rows_def)

lemma phase_outside: "outside_change address k k' \<Longrightarrow> phase_holds address host p k \<Longrightarrow> phase_holds address host p k'"
  by (auto simp: outside_change_def phase_holds_def split: route_phase.splits dest: subset_mset.order_trans)

lemma subset_single: "m \<subseteq># {#x#} \<longleftrightarrow> m = {#} \<or> m = {#x#}"
  by (cases m) (auto simp: insert_subset_eq_iff split: if_splits)

lemma own_row_missing: "own_row address i \<notin># k_rows k \<Longrightarrow> own_rows address k \<noteq> {#own_row address i#}"
  by (metis own_rows_simps(4) multi_member_last)

lemma phase_call:
  assumes "phase_holds address host p k" "kernel_op address host k oper k'" "phase_after p oper = Some p'" "plain_word host"
  shows "phase_holds address host p' k'"
proof (cases oper)
  case (Op_record j w)
  with assms show ?thesis
    by (cases p) (auto simp: phase_holds_def elim!: kernel_op_cases split: if_splits)
next
  case (Op_add j r)
  with assms(3) obtain p0 where p: "p = No_route (Some j)" "p' = (if r = Ioctl_ok then At_most j else p)"
    by (cases p) (auto elim: phase_after.elims split: if_splits)
  with Op_add assms show ?thesis
    by (auto simp: phase_holds_def read_owner_text elim!: kernel_op_cases split: if_splits)
next
  case (Op_delete j r)
  with assms(3) have p: "p = At_most j" "p' = (if r = Ioctl_error then p else No_route None)"
    by (cases p; auto split: if_splits)+
  with Op_delete assms show ?thesis
    by (cases r) (auto simp: phase_holds_def subset_single own_row_missing elim!: kernel_op_cases)
qed

lemma phase_run_holds:
  assumes "kernel_run address host k ops k'" "phase_holds address host p k" "phase_run p ops = Some p'" "plain_word host"
  shows "phase_holds address host p' k'"
  using assms
proof (induction arbitrary: p rule: kernel_run.induct)
  case (outside k k1 ops k2)
  then show ?case using phase_outside by blast
next
  case (call k oper k1 ops k2)
  then obtain p1 where "phase_after p oper = Some p1" "phase_run p1 ops = Some p'" by (auto split: bind_splits)
  with call phase_call show ?case by blast
qed simp

lemma phase_run_prefix: "phase_run p ops = Some p' \<Longrightarrow> \<exists>p'. phase_run p (take n ops) = Some p'"
proof (induction ops arbitrary: p n)
  case (Cons oper ops)
  then obtain p1 where 1: "phase_after p oper = Some p1" "phase_run p1 ops = Some p'" by (auto split: bind_splits)
  from Cons.IH [OF 1(2)] 1(1) show ?case by (cases n) auto
qed simp

section \<open>A turn of the loop\<close>

definition settled :: "int \<Rightarrow> route_phase \<Rightarrow> bool" where
  "settled active p \<longleftrightarrow> (case p of No_route _ \<Rightarrow> True | At_most i \<Rightarrow> 0 \<le> i \<and> i = active)"

lemma net_switch_phases:
  assumes "net_switch env old installed link = (active, ops)" "installed < 0 \<or> installed = old" "0 \<le> link"
  shows "\<exists>p'. phase_run (if installed < 0 then No_route None else At_most installed) ops = Some p' \<and> settled active p'"
  using assms by (auto simp: net_switch_def net_route_def settled_def Let_def split: if_splits)

definition net_knows :: "u32 \<Rightarrow> string \<Rightarrow> net_state \<Rightarrow> kernel \<Rightarrow> bool" where
  "net_knows address host st k \<longleftrightarrow>
     n_active st \<in> {-1, 0, 1} \<and> phase_holds address host (if n_active st < 0 then No_route None else At_most (n_active st)) k"

lemma settled_knows:
  assumes "phase_holds address host p k" "settled (n_active st) p" "n_active st \<in> {-1, 0, 1}"
  shows "net_knows address host st k"
  using assms by (cases p) (auto simp: net_knows_def settled_def phase_holds_def)

lemma route_state_values:
  "stream_route_state bad table address target active \<in> {-2, -1} \<or>
   0 \<le> active \<and> stream_route_state bad table address target active = active"
  by (cases table) (auto simp: stream_route_state_spec_parts route_state_spec_def split: list.splits)

lemma shown_empty:
  assumes "stream_route_state bad table address target active = -1" "bad \<or> shows_rows address table k"
  shows "k_rows k = {#}"
proof (cases table)
  case (Cons header rows)
  with assms(1) have r: "route_state_spec bad rows address target active = -1" by (simp add: stream_route_state_spec_parts)
  then have p: "\<not> bad" "None \<notin> set (map parse_row rows)" by (auto simp: route_state_spec_def split: if_splits)
  from p(2) have "List.map_filter parse_row rows = map (the \<circ> parse_row) rows"
    by (induction rows) (auto simp: List.map_filter_def)
  moreover from r p have "filter (host_route address) (map (the \<circ> parse_row) rows) = []"
    by (auto simp: route_state_spec_def split: list.splits if_splits)
  ultimately show ?thesis using assms(2) p(1) Cons by (simp add: shows_rows_def)
qed (use assms in \<open>simp add: stream_route_state_def\<close>)

lemma lp_choose_link: "lp_choose c wired wifi now lp = (link, lp') \<Longrightarrow> link \<in> {-1, 0, 1}"
  by (auto simp: lp_choose_def Let_def split: if_splits)

lemma net_switch_active: "net_switch env old installed link = (active, ops) \<Longrightarrow> active \<in> {old, link, -1}"
  by (auto simp: net_switch_def net_route_def Let_def split: if_splits)

text \<open>The calls of a turn, seen from what is known before it.\<close>

lemma net_iterate_phases:
  assumes k: "net_knows address host st k"
    and shown: "fst (ne_table env) \<or> shows_rows address (snd (ne_table env)) k"
    and it: "net_iterate address host env st = (st', ops)"
  shows "\<exists>p p'. phase_holds address host p k \<and> phase_run p ops = Some p' \<and> settled (n_active st') p' \<and>
     n_active st' \<in> {-1, 0, 1}"
proof -
  obtain link policy where ch: "lp_choose (n_active st) (ne_wired env) (ne_wifi env) (ne_now env) (n_policy st) = (link, policy)"
    by fastforce
  let ?inst = "stream_route_state (fst (ne_table env)) (snd (ne_table env)) address host (n_active st)"
  obtain active ops1 where sw: "net_switch env (n_active st) ?inst link = (active, ops1)" by fastforce
  let ?before = "if n_active st < 0 then No_route None else At_most (n_active st)"
  have known: "phase_holds address host ?before k" "n_active st \<in> {-1, 0, 1}"
    using k by (auto simp: net_knows_def)
  from it have "(ops = [] \<and> n_active st' = n_active st) \<or> (?inst \<noteq> -2 \<and> 0 \<le> link \<and> ops = ops1 \<and> n_active st' = active)"
    by (auto simp: net_iterate_def ch Let_def net_change_def sw net_wants_change_def split: if_splits prod.splits)
  then show ?thesis
  proof (elim disjE conjE)
    assume "ops = []" "n_active st' = n_active st"
    with known show ?thesis by (intro exI [of _ ?before]) (auto simp: settled_def)
  next
    assume i: "?inst \<noteq> -2" and l: "0 \<le> link" and o: "ops = ops1" "n_active st' = active"
    from i have inst: "?inst = -1 \<or> 0 \<le> n_active st \<and> ?inst = n_active st"
      using route_state_values by blast
    then have p: "?inst < 0 \<or> ?inst = n_active st" by auto
    have "phase_holds address host (if ?inst < 0 then No_route None else At_most ?inst) k"
    proof (cases "?inst = -1")
      case True
      from shown_empty [OF this shown] show ?thesis using True by (simp add: phase_holds_def own_rows_def)
    next
      case False
      with inst known(1) show ?thesis by auto
    qed
    with net_switch_phases [OF sw p l] net_switch_active [OF sw] lp_choose_link [OF ch] known(2) o show ?thesis by auto
  qed
qed

lemma net_knows_outside: "outside_change address k k' \<Longrightarrow> net_knows address host st k \<Longrightarrow> net_knows address host st k'"
  unfolding net_knows_def using phase_outside by blast

section \<open>Starts\<close>

lemma owner_file_eqI: "of_target f = t \<Longrightarrow> of_device f = d \<Longrightarrow> f = \<lparr>of_target = t, of_device = d\<rparr>"
  by (cases f) simp

lemma take_over_none:
  "filter (host_route address) (List.map_filter parse_row lines) = [] \<Longrightarrow> take_over address host saved active lines = Inr active"
  by (induction lines) (auto simp: List.map_filter_def split: option.splits if_splits)

lemma take_over_own:
  assumes "filter (host_route address) (List.map_filter parse_row lines) = [own_row address i]"
    and "i \<in> {0, 1}" "active < 0" "plain_word host"
  shows "take_over address host \<lparr>of_target = host, of_device = iface i\<rparr> active lines = Inr i"
  using assms
proof (induction lines)
  case (Cons line lines)
  show ?case
  proof (cases "parse_row line")
    case None
    with Cons show ?thesis by (simp add: List.map_filter_def)
  next
    case (Some row)
    show ?thesis
    proof (cases "host_route address row")
      case False
      with Some Cons show ?thesis by (simp add: List.map_filter_def)
    next
      case True
      with Some Cons.prems(1) have "row = own_row address i"
        "filter (host_route address) (List.map_filter parse_row lines) = []"
        by (simp_all add: List.map_filter_def)
      with Some True Cons.prems take_over_none show ?thesis
        by (auto simp: owned_stream_route_def own_row_def iface_def)
    qed
  qed
qed (simp add: List.map_filter_def)

lemma started_knows:
  assumes "pton host = Some address" "shows_rows address table k"
    and "net_start pton True (Some table) (read_owner (k_owner k)) host ports = Inr a"
  shows "net_knows address host (net_initial a) k"
proof -
  let ?rows = "filter (host_route address) (List.map_filter parse_row (drop 1 table))"
  have rows: "k_rows k = mset ?rows" using assms(2) by (simp only: shows_rows_def)
  from assms(1,3) have "take_over address host (read_owner (k_owner k)) (-1) (drop 1 table) = Inr a"
    by (auto simp: net_start_def split: if_splits)
  from take_over_spec [OF this] have "?rows = [] \<and> a = -1 \<or>
     (\<exists>row. ?rows = [row] \<and> owned_stream_route host (rr_dev row) (of_target (read_owner (k_owner k)))
        (of_device (read_owner (k_owner k))) (rr_metric row) (rr_gateway row) (rr_flags row) \<and>
        a = (if rr_dev row = ''eth0'' then 0 else 1))"
    by (simp add: Let_def)
  then show ?thesis
  proof (elim disjE conjE exE)
    assume "?rows = []" "a = -1"
    then have "k_rows k = {#}" using rows by (simp only: mset.simps)
    with \<open>a = -1\<close> show ?thesis by (simp add: net_knows_def net_initial_def phase_holds_def own_rows_def)
  next
    fix row
    assume r: "?rows = [row]" and o: "owned_stream_route host (rr_dev row) (of_target (read_owner (k_owner k)))
        (of_device (read_owner (k_owner k))) (rr_metric row) (rr_gateway row) (rr_flags row)"
      and a: "a = (if rr_dev row = ''eth0'' then 0 else 1)"
    from r have "host_route address row" by (metis filter_eq_ConsD)
    with o a have row: "row = own_row address a" and dev: "rr_dev row = iface a"
      by (auto simp: owned_stream_route_def own_row_def host_route_def iface_def)
    from rows r row have "k_rows k = {#own_row address a#}" by (simp only: mset.simps)
    moreover from a have "a \<in> {0, 1}" by simp
    ultimately have "own_rows address k = {#own_row address a#}" by (auto simp: own_rows_def)
    moreover have "of_target (read_owner (k_owner k)) = host" "of_device (read_owner (k_owner k)) = iface a"
      using o dev by (simp_all add: owned_stream_route_def)
    then have "read_owner (k_owner k) = \<lparr>of_target = host, of_device = iface a\<rparr>" by (rule owner_file_eqI)
    ultimately show ?thesis using \<open>a \<in> {0, 1}\<close> by (auto simp: net_knows_def net_initial_def phase_holds_def)
  qed
qed

section \<open>The system\<close>

lemma system_knows:
  assumes "net_system pton address host ports st k" "plain_word host"
  shows "net_knows address host st k"
  using assms
proof (induction rule: net_system.induct)
  case (start table k a)
  show ?case by (rule started_knows [OF start.hyps])
next
  case (iteration st k k1 env st' ops k2)
  then have "net_knows address host st k1" using net_knows_outside by blast
  from net_iterate_phases [OF this iteration(3,4)] obtain p p' where
    "phase_holds address host p k1" "phase_run p ops = Some p'" "settled (n_active st') p'" "n_active st' \<in> {-1, 0, 1}" by blast
  with phase_run_holds [OF iteration(5)] iteration.prems settled_knows show ?case by blast
qed

lemma system_started:
  "net_system pton address host ports st k \<Longrightarrow>
   pton host = Some address \<and> ports \<noteq> [] \<and> length ports \<le> 4 \<and> \<not> list_ex (\<lambda>port. port \<le> 0 \<or> port > 65535) ports"
  by (induction rule: net_system.induct) (auto simp: net_start_def split: if_splits)

text \<open>The destructor: when it can read the table and its deletion does not fail, no route of the program is left, unless the
  table holds a foreign route to the receiver.\<close>

lemma net_stop_removes:
  assumes "net_knows address host st k" "plain_word host" "shows_rows address table k" "\<forall>r \<in> set (drop 1 table). parse_row r \<noteq> None"
    and "\<forall>r \<in># k_rows k. r = own_row address 0 \<or> r = own_row address 1" "table \<noteq> []"
    and "re_socket env" "re_ioctl env \<noteq> Ioctl_error"
    and "kernel_run address host k (net_stop address host (False, table) env st) k'"
  shows "own_rows address k' = {#}"
proof -
  from assms(6) obtain header rows where t: "table = header # rows" by (cases table) auto
  let ?inst = "stream_route_state False table address host (n_active st)"
  have own: "own_rows address k = k_rows k" using assms(5) by (simp add: own_rows_def filter_mset_eq_conv)
  from assms(4) t have "List.map_filter parse_row rows = map (the \<circ> parse_row) rows" "None \<notin> set (map parse_row rows)"
    by (auto simp: List.map_filter_def filter_id_conv)
  then have spec: "mset (filter (host_route address) (map (the \<circ> parse_row) rows)) = k_rows k"
    "?inst = (case filter (host_route address) (map (the \<circ> parse_row) rows) of
         [] \<Rightarrow> -1 | [row] \<Rightarrow> if n_active st \<ge> 0 \<and> row_owned host (n_active st) row then n_active st else -2 | _ \<Rightarrow> -2)"
    using assms(3) by (simp_all only: shows_rows_def t stream_route_state_spec_parts route_state_spec_def) simp_all
  show ?thesis
  proof (cases "k_rows k = {#}")
    case True
    then have "phase_holds address host (No_route None) k" by (simp add: phase_holds_def own_rows_def)
    moreover from True spec have "net_stop address host (False, table) env st = []" by (auto simp: net_stop_def)
    ultimately have "phase_holds address host (No_route None) k'"
      using phase_run_holds [OF assms(9), of "No_route None"] assms(2) by simp
    then show ?thesis by (simp add: phase_holds_def)
  next
    case False
    with assms(1) own have act: "n_active st \<in> {0, 1}" "k_rows k = {#own_row address (n_active st)#}"
      "phase_holds address host (At_most (n_active st)) k"
      by (auto simp: net_knows_def phase_holds_def subset_single split: if_splits)
    with spec(1) have "filter (host_route address) (map (the \<circ> parse_row) rows) = [own_row address (n_active st)]"
      by (metis mset_single_iff)
    with spec(2) act(1) have "?inst = n_active st" by (auto simp: row_owned_def own_row_def)
    with act(1) assms(7) have ops: "net_stop address host (False, table) env st = [Op_delete (n_active st) (re_ioctl env)]"
      by (auto simp: net_stop_def net_route_def Let_def)
    have "phase_run (At_most (n_active st)) [Op_delete (n_active st) (re_ioctl env)] = Some (No_route None)"
      using assms(8) by simp
    from phase_run_holds [OF assms(9) [unfolded ops] act(3) this assms(2)] show ?thesis by (simp add: phase_holds_def)
  qed
qed

text \<open>C18. A route of the program is never orphaned: wherever the process is interrupted, between any two of its system calls
  and whatever their outcomes and the changes of other processes, the kernel holds at most one route of its own, and a next
  start that finds no foreign route to the receiver is never refused but takes exactly this one over.\<close>

theorem net_recovers_route:
  assumes "net_interrupted pton address host ports k" and "\<forall>h a. pton h = Some a \<longrightarrow> plain_word h"
    and "\<forall>r \<in># k_rows k. r = own_row address 0 \<or> r = own_row address 1" and "shows_rows address table k"
  shows "\<exists>a \<in> {-1, 0, 1}. net_start pton True (Some table) (read_owner (k_owner k)) host ports = Inr a \<and>
     k_rows k = (if a = -1 then {#} else {#own_row address a#})"
  using assms(1)
proof cases
  case (interrupt st k0 k1 env st' ops n)
  have start: "pton host = Some address" "ports \<noteq> []" "length ports \<le> 4" "\<not> list_ex (\<lambda>port. port \<le> 0 \<or> port > 65535) ports"
    using system_started [OF interrupt(1)] by blast+
  with assms(2) have host: "plain_word host" by blast
  from net_knows_outside [OF interrupt(2) system_knows [OF interrupt(1) host]]
  obtain p p' where p: "phase_holds address host p k1" "phase_run p ops = Some p'"
    using net_iterate_phases [OF _ interrupt(3,4)] by blast
  from phase_run_prefix [OF p(2)] obtain q where "phase_run p (take n ops) = Some q" ..
  from phase_run_holds [OF interrupt(5) p(1) this host] have q: "phase_holds address host q k" .
  let ?rows = "filter (host_route address) (List.map_filter parse_row (drop 1 table))"
  have rows: "mset ?rows = k_rows k" using assms(4) by (simp only: shows_rows_def)
  have own: "own_rows address k = k_rows k" using assms(3) by (simp add: own_rows_def filter_mset_eq_conv)
  have net: "net_start pton True (Some table) saved host ports = take_over address host saved (-1) (drop 1 table)" for saved
    using start by (simp add: net_start_def)
  show ?thesis
  proof (cases "k_rows k = {#}")
    case True
    with rows have "?rows = []" by (simp only: mset_zero_iff)
    with take_over_none [of address "drop 1 table"] net True show ?thesis by (intro bexI [of _ "-1"]) auto
  next
    case False
    with q own obtain i where i: "q = At_most i" "k_rows k = {#own_row address i#}"
      "read_owner (k_owner k) = \<lparr>of_target = host, of_device = iface i\<rparr>"
      by (auto simp: phase_holds_def subset_single split: route_phase.splits)
    define j :: int where "j = (if i = 0 then 0 else 1)"
    then have j: "j \<in> {0, 1}" "own_row address i = own_row address j" "iface i = iface j"
      by (simp_all add: own_row_def iface_def)
    from rows i(2) have "?rows = [own_row address i]" by (metis mset_single_iff)
    with take_over_own [of address "drop 1 table" j "-1" host] j host net i show ?thesis
      by (intro bexI [of _ j]) auto
  qed
qed

definition wired_row :: string where
  "wired_row = ''eth0 0A00000A 00000000 0005 0 0 4270 FFFFFFFF 0 0 0''"

definition example_pton :: "string \<Rightarrow> u32 option" where
  "example_pton h = (if h = ''10.0.0.10'' then Some 0x0A00000A else None)"

definition example_env :: net_env where
  "example_env = \<lparr>ne_wired = True, ne_wifi = False, ne_addr0 = 1, ne_addr1 = 2, ne_now = 5000, ne_table = (False, [''Iface'']),
     ne_table' = (False, [''Iface'', wired_row]), ne_del = route_env_ok, ne_add = route_env_ok, ne_restore = route_env_ok\<rparr>"

lemma example_turn:
  "snd (net_iterate 0x0A00000A ''10.0.0.10'' example_env (net_initial (-1))) = [Op_record 0 True, Op_add 0 Ioctl_ok]"
  by (simp add: net_iterate_def example_env_def net_initial_def lp_choose_def lp_observe_def lp_new_def Let_def
      stream_route_state_def net_wants_change_def net_change_def net_switch_def net_route_def route_env_ok_def)

theorem net_recovers_route_witness:
  "\<exists>a \<in> {-1, 0, 1}.
     net_start example_pton True (Some [''Iface'', wired_row]) (read_owner (owner_text ''10.0.0.10'' 0)) ''10.0.0.10'' [554] = Inr a \<and>
     {#own_row 0x0A00000A 0#} = (if a = -1 then {#} else {#own_row 0x0A00000A a#})"
proof -
  let ?host = "''10.0.0.10''" and ?empty = "\<lparr>k_rows = {#}, k_owner = []\<rparr>"
  let ?recorded = "\<lparr>k_rows = {#}, k_owner = owner_text ?host 0\<rparr>"
  let ?installed = "\<lparr>k_rows = {#own_row 0x0A00000A 0#}, k_owner = owner_text ?host 0\<rparr>"
  have row: "parse_row wired_row = Some (own_row 0x0A00000A 0)"
    unfolding wired_row_def example_row by (simp add: own_row_def iface_def)
  have "host_route 0x0A00000A (own_row 0x0A00000A 0)" by (simp add: host_route_def own_row_def)
  with row have shown: "shows_rows 0x0A00000A [''Iface''] ?empty" "shows_rows 0x0A00000A [''Iface'', wired_row] ?installed"
    by (simp_all add: shows_rows_def)
  have "net_start example_pton True (Some [''Iface'']) (read_owner (k_owner ?empty)) ?host [554] = Inr (-1)"
    by (simp add: net_start_def example_pton_def)
  from net_system.start [OF _ shown(1) this] have s: "net_system example_pton 0x0A00000A ?host [554] (net_initial (-1)) ?empty"
    by (simp add: example_pton_def)
  obtain st' ops where it: "net_iterate 0x0A00000A ?host example_env (net_initial (-1)) = (st', ops)" by fastforce
  with example_turn have ops: "take 2 ops = [Op_record 0 True, Op_add 0 Ioctl_ok]" by simp
  have "kernel_run 0x0A00000A ?host ?empty (take 2 ops) ?installed" unfolding ops
    using kernel_op.recorded [of "0x0A00000A" ?host ?empty 0] kernel_op.added [of "0x0A00000A" ?host ?recorded 0]
    by (intro kernel_run.call [of _ _ _ _ ?recorded] kernel_run.call [of _ _ _ _ ?installed] kernel_run.finished) simp_all
  from net_interrupted.interrupt [OF s _ _ it this]
  have "net_interrupted example_pton 0x0A00000A ?host [554] ?installed"
    using shown(1) by (simp add: outside_change_def example_env_def)
  from net_recovers_route [OF this _ _ shown(2)] show ?thesis
    by (simp add: example_pton_def plain_word_def c_isspace_def)
qed

end
