(* ===== verification/Annexb.thy ===== *)
theory Annexb
  imports IpcPrelude
begin

unbundle bit_operations_syntax

text \<open>
  The parameter-set scanner \<^verbatim>\<open>src/publisher/annexb.cpp\<close>: start codes of three and four
  bytes, NAL types of H.264 and H.265, and the first SPS, PPS (and VPS) copied with their
  start codes. The lemmas show that the scan of a well-formed stream finds exactly its NAL
  units, and what a complete result of any buffer contains.
\<close>

section \<open>The scanner\<close>

record parameter_sets =
  ps_data :: "byte list"
  ps_found :: u32

definition ps_empty :: parameter_sets where
  "ps_empty = \<lparr>ps_data = [], ps_found = 0\<rparr>"

definition ps_complete :: "bool \<Rightarrow> parameter_sets \<Rightarrow> bool" where
  "ps_complete h265 ps \<longleftrightarrow> ps_found ps AND (if h265 then 7 else 3) = (if h265 then 7 else 3)"

text \<open>The start code at \<open>i\<close>, as its length; the caller has checked \<open>i + 3 < size\<close>.\<close>

definition start_code :: "byte list \<Rightarrow> nat \<Rightarrow> nat option" where
  "start_code d i =
     (if d ! i = 0 \<and> d ! (i + 1) = 0 \<and> d ! (i + 2) = 1 then Some 3
      else if i + 4 < length d \<and> d ! i = 0 \<and> d ! (i + 1) = 0 \<and> d ! (i + 2) = 0 \<and> d ! (i + 3) = 1 then Some 4
      else None)"

definition find_start :: "byte list \<Rightarrow> nat \<Rightarrow> (nat \<times> nat) option" where
  "find_start d pos =
     (case find (\<lambda>i. start_code d i \<noteq> None) [pos..<length d - 3] of
        None \<Rightarrow> None
      | Some i \<Rightarrow> Some (i, the (start_code d i)))"

definition nal_end_at :: "byte list \<Rightarrow> nat \<Rightarrow> bool" where
  "nal_end_at d i \<longleftrightarrow>
     d ! i = 0 \<and> d ! (i + 1) = 0 \<and> (d ! (i + 2) = 1 \<or> (i + 3 < length d \<and> d ! (i + 2) = 0 \<and> d ! (i + 3) = 1))"

definition find_end :: "byte list \<Rightarrow> nat \<Rightarrow> nat" where
  "find_end d from =
     (case find (nal_end_at d) [from..<length d - 3] of None \<Rightarrow> length d | Some i \<Rightarrow> i)"

definition nal_type :: "bool \<Rightarrow> byte \<Rightarrow> byte" where
  "nal_type h265 b = (if \<not> h265 then b AND 0x1f else drop_bit 1 b AND 0x3f)"

definition nal_flag :: "bool \<Rightarrow> byte \<Rightarrow> u32" where
  "nal_flag h265 type =
     (if \<not> h265 then (if type = 7 then 1 else if type = 8 then 2 else 0)
      else (if type = 32 then 1 else if type = 33 then 2 else if type = 34 then 4 else 0))"

text \<open>What one NAL unit, given with its start code, adds.\<close>

definition ps_add :: "bool \<Rightarrow> byte \<Rightarrow> byte list \<Rightarrow> parameter_sets \<Rightarrow> parameter_sets" where
  "ps_add h265 header unit_bytes out =
     (let flag = nal_flag h265 (nal_type h265 header)
      in if flag \<noteq> 0 \<and> ps_found out AND flag = 0
         then out\<lparr>ps_data := ps_data out @ unit_bytes, ps_found := ps_found out OR flag\<rparr>
         else out)"

lemma find_start_Some:
  "find_start d pos = Some (start, pre) \<Longrightarrow>
   pos \<le> start \<and> start + 3 < length d \<and> start_code d start = Some pre \<and> pre \<in> {3, 4} \<and> start + pre < length d"
  by (auto simp: find_start_def find_Some_iff start_code_def split: option.splits if_splits)

lemma find_end_bounds: "from \<le> length d \<Longrightarrow> from \<le> find_end d from \<and> find_end d from \<le> length d"
  by (auto simp: find_end_def find_Some_iff split: option.split)

function ps_loop :: "bool \<Rightarrow> byte list \<Rightarrow> nat \<Rightarrow> parameter_sets \<Rightarrow> parameter_sets" where
  "ps_loop h265 d pos out =
     (if pos + 4 < length d then
        (case find_start d pos of
           None \<Rightarrow> out
         | Some (start, pre) \<Rightarrow>
             (let end' = find_end d (start + pre)
              in ps_loop h265 d end'
                   (ps_add h265 (d ! (start + pre)) (take (end' - start) (drop start d)) out)))
      else out)"
  by pat_completeness auto
termination
proof (relation "measure (\<lambda>(h265, d, pos, out). length d - pos)")
  fix h265 :: bool and d :: "byte list" and pos out p start pre x
  assume a: "pos + 4 < length d" "find_start d pos = Some p" "(start, pre) = p" "x = find_end d (start + pre)"
  from find_start_Some [of d pos start pre] a
  have "pos \<le> start" "pre \<in> {3, 4}" "start + pre < length d" by auto
  with a(4) find_end_bounds [of "start + pre" d]
  show "((h265, d, x, ps_add h265 (d ! (start + pre)) (take (x - start) (drop start d)) out), h265, d, pos, out)
          \<in> measure (\<lambda>(h265, d, pos, out). length d - pos)"
    by auto
qed simp

declare ps_loop.simps [simp del]

definition annexb_parameter_sets :: "byte list \<Rightarrow> bool \<Rightarrow> parameter_sets" where
  "annexb_parameter_sets d h265 = ps_loop h265 d 0 ps_empty"


section \<open>Well-formed streams\<close>

text \<open>
  A NAL unit behind a start code of four or three bytes. The payload has at least two bytes,
  does not end in a zero byte and, by emulation prevention, never contains two zero bytes
  followed by 0 or 1.
\<close>

definition nal_bytes :: "bool \<times> byte list \<Rightarrow> byte list" where
  "nal_bytes u = (if fst u then [0, 0, 0, 1] else [0, 0, 1]) @ snd u"

definition nal_ok :: "byte list \<Rightarrow> bool" where
  "nal_ok nal \<longleftrightarrow>
     2 \<le> length nal \<and> last nal \<noteq> 0 \<and>
     (\<forall>i < length nal - 2. \<not> (nal ! i = 0 \<and> nal ! (i + 1) = 0 \<and> nal ! (i + 2) \<in> {0, 1}))"

abbreviation nal_stream :: "(bool \<times> byte list) list \<Rightarrow> byte list" where
  "nal_stream ns \<equiv> concat (map nal_bytes ns)"

definition ps_unit :: "bool \<Rightarrow> bool \<times> byte list \<Rightarrow> parameter_sets \<Rightarrow> parameter_sets" where
  "ps_unit h265 u out = ps_add h265 (hd (snd u)) (nal_bytes u) out"

lemma find_upt_first:
  assumes "P i" "from \<le> i" "i < n" "\<And>j. from \<le> j \<Longrightarrow> j < i \<Longrightarrow> \<not> P j"
  shows "find P [from..<n] = Some i"
  unfolding find_Some_iff
  by (rule exI [of _ "i - from"]) (use assms in auto)

lemma start_code_unit:
  assumes "nal \<noteq> []"
  shows "start_code (pre @ nal_bytes (four, nal) @ rest) (length pre) = Some (if four then 4 else 3)"
  using assms by (cases nal) (auto simp: start_code_def nal_bytes_def nth_append)

lemma find_start_unit:
  assumes "nal \<noteq> []"
  shows "find_start (pre @ nal_bytes (four, nal) @ rest) (length pre) = Some (length pre, if four then 4 else 3)"
proof -
  have "find (\<lambda>i. start_code (pre @ nal_bytes (four, nal) @ rest) i \<noteq> None)
          [length pre..<length (pre @ nal_bytes (four, nal) @ rest) - 3] = Some (length pre)"
    by (rule find_upt_first) (use assms start_code_unit [OF assms] in \<open>cases nal; auto simp: nal_bytes_def\<close>)+
  then show ?thesis
    using start_code_unit [OF assms] by (simp add: find_start_def)
qed

lemma no_end_inside:
  assumes "nal_ok nal" "k < length nal" "length pre + k + 3 < length (pre @ nal @ rest)"
  shows "\<not> nal_end_at (pre @ nal @ rest) (length pre + k)"
proof
  assume e: "nal_end_at (pre @ nal @ rest) (length pre + k)"
  have at: "(pre @ nal @ rest) ! (length pre + k + j) = nal ! (k + j)" if "k + j < length nal" for j
    using that by (simp add: nth_append)
  have last: "nal ! (length nal - 1) \<noteq> 0" using assms(1) by (cases nal rule: rev_cases) (auto simp: nal_ok_def)
  have "nal ! k = 0" using e assms(2) at [of 0] by (simp add: nal_end_at_def)
  with last assms(2) have k1: "k + 1 < length nal" by (cases "k = length nal - 1") auto
  have "nal ! (k + 1) = 0" using e at [of 1] k1 by (simp add: nal_end_at_def)
  with last k1 have k2: "k + 2 < length nal" by (cases "k + 1 = length nal - 1") auto
  have "nal ! (k + 2) \<in> {0, 1}" using e at [of 2] k2 by (auto simp: nal_end_at_def)
  with \<open>nal ! k = 0\<close> \<open>nal ! (k + 1) = 0\<close> k2 assms(1) show False by (auto simp: nal_ok_def)
qed

lemma find_end_unit:
  assumes "nal_ok nal" "ns = [] \<or> snd (hd ns) \<noteq> []"
  shows "find_end (pre @ nal @ nal_stream ns) (length pre) = length pre + length nal"
proof (cases ns)
  case Nil
  have "find (nal_end_at (pre @ nal)) [length pre..<length (pre @ nal) - 3] = None"
    unfolding find_None_iff
  proof
    assume "\<exists>i. i \<in> set [length pre..<length (pre @ nal) - 3] \<and> nal_end_at (pre @ nal) i"
    then obtain i where i: "length pre \<le> i" "i < length (pre @ nal) - 3" "nal_end_at (pre @ nal) i" by auto
    from i(1,2) have "i - length pre < length nal" "i + 3 < length pre + length nal"
      unfolding length_append by arith+
    with i show False
      using no_end_inside [OF assms(1), of "i - length pre" pre "[]"] by simp
  qed
  with Nil show ?thesis by (simp add: find_end_def)
next
  case (Cons u us)
  let ?d = "pre @ nal @ nal_stream ns"
  have u: "snd u \<noteq> []" using assms(2) Cons by simp
  have len: "length pre + length nal + 3 < length ?d"
    using u by (cases "snd u") (auto simp: Cons nal_bytes_def)
  have "nal_end_at ?d (length pre + length nal)"
    using u by (cases "snd u") (auto simp: Cons nal_end_at_def nal_bytes_def nth_append)
  then have "find (nal_end_at ?d) [length pre..<length ?d - 3] = Some (length pre + length nal)"
  proof (rule find_upt_first)
    show "\<not> nal_end_at ?d j" if "length pre \<le> j" "j < length pre + length nal" for j
      using no_end_inside [OF assms(1), of "j - length pre" pre "nal_stream ns"] that len by simp
  qed (use len in auto)
  then show ?thesis by (simp add: find_end_def)
qed

lemma ps_loop_stream:
  "\<forall>u \<in> set ns. nal_ok (snd u) \<Longrightarrow>
   ps_loop h265 (pre @ nal_stream ns) (length pre) out = fold (ps_unit h265) ns out"
proof (induction ns arbitrary: pre out)
  case Nil
  then show ?case by (simp add: ps_loop.simps)
next
  case (Cons u ns)
  obtain four nal where u: "u = (four, nal)" by fastforce
  with Cons.prems have ok: "nal_ok nal" by simp
  then have ne: "nal \<noteq> []" "2 \<le> length nal" by (auto simp: nal_ok_def)
  let ?d = "pre @ nal_bytes u @ nal_stream ns"
  let ?p = "if four then 4 else 3 :: nat"
  let ?c = "if four then [0, 0, 0, 1] else [0, 0, 1 :: byte]"
  have c: "length ?c = ?p" by simp
  have nb: "nal_bytes u = ?c @ nal" by (simp add: u nal_bytes_def)
  have "ns = [] \<or> snd (hd ns) \<noteq> []"
    using Cons.prems by (cases ns) (auto simp: nal_ok_def)
  then have e: "find_end ?d (length pre + ?p) = length pre + ?p + length nal"
    using find_end_unit [OF ok, of ns "pre @ ?c"] by (cases four) (simp_all add: nb eval_nat_numeral)
  have hd: "?d ! (length pre + ?p) = hd nal"
    using ne by (cases nal) (auto simp: nb nth_append)
  have "take (length pre + ?p + length nal - length pre) (drop (length pre) ?d) = nal_bytes u"
    by (simp add: nb)
  moreover have "length pre + 4 < length ?d" using ne by (simp add: nb)
  moreover have "find_start ?d (length pre) = Some (length pre, ?p)"
    using find_start_unit [OF ne(1)] by (simp add: u)
  ultimately have "ps_loop h265 ?d (length pre) out =
      ps_loop h265 ?d (length pre + ?p + length nal) (ps_add h265 (hd nal) (nal_bytes u) out)"
    using e hd by (subst ps_loop.simps) (simp add: Let_def)
  also have "\<dots> = ps_loop h265 ((pre @ nal_bytes u) @ nal_stream ns) (length (pre @ nal_bytes u)) (ps_unit h265 u out)"
  proof -
    have "length (pre @ nal_bytes u) = length pre + ?p + length nal" by (simp add: nb)
    then show ?thesis by (simp only: append_assoc) (simp add: ps_unit_def u)
  qed
  also have "\<dots> = fold (ps_unit h265) ns (ps_unit h265 u out)"
    by (rule Cons.IH) (use Cons.prems in simp)
  finally show ?case by simp
qed




section \<open>Any buffer\<close>

text \<open>A unit of the buffer that carries a flag, as it was copied.\<close>

definition has_unit :: "bool \<Rightarrow> byte list \<Rightarrow> u32 \<Rightarrow> byte list \<Rightarrow> bool" where
  "has_unit h265 d flag unit_bytes \<longleftrightarrow>
     (\<exists>s pre e. start_code d s = Some pre \<and> s + pre < length d \<and> s + pre \<le> e \<and> e \<le> length d \<and>
        nal_flag h265 (nal_type h265 (d ! (s + pre))) = flag \<and> unit_bytes = take (e - s) (drop s d))"

definition ps_inv :: "bool \<Rightarrow> byte list \<Rightarrow> nat \<Rightarrow> parameter_sets \<Rightarrow> bool" where
  "ps_inv h265 d pos out \<longleftrightarrow>
     length (ps_data out) \<le> pos \<and>
     (\<forall>f \<in> {1, 2, 4}. ps_found out AND f \<noteq> 0 \<longrightarrow>
        (\<exists>a b u. ps_data out = a @ u @ b \<and> has_unit h265 d f u))"

lemma nal_flag_cases: "nal_flag h265 t \<in> {0, 1, 2, 4}"
  by (simp add: nal_flag_def)

lemma flag_split:
  fixes x :: u32
  assumes "flag \<in> {1, 2, 4 :: u32}" "f \<in> {1, 2, 4}" "(x OR flag) AND f \<noteq> 0"
  shows "x AND f \<noteq> 0 \<or> f = flag"
  using assms by (auto simp: bit.conj_disj_distrib2)

lemma ps_add_inv:
  assumes "ps_inv h265 d pos out" "pos \<le> s" "start_code d s = Some pre" "s + pre < length d"
    "s + pre \<le> e" "e \<le> length d"
  shows "ps_inv h265 d e (ps_add h265 (d ! (s + pre)) (take (e - s) (drop s d)) out)"
proof -
  let ?u = "take (e - s) (drop s d)"
  let ?f = "nal_flag h265 (nal_type h265 (d ! (s + pre)))"
  have u: "has_unit h265 d ?f ?u" using assms(3-6) by (auto simp: has_unit_def)
  show ?thesis
  proof (cases "?f \<noteq> 0 \<and> ps_found out AND ?f = 0")
    case False
    then show ?thesis using assms by (auto simp: ps_add_def ps_inv_def Let_def)
  next
    case True
    then have f: "?f \<in> {1, 2, 4}" using nal_flag_cases [of h265 "nal_type h265 (d ! (s + pre))"] by auto
    have old: "\<exists>a b u. ps_data out @ ?u = a @ u @ b \<and> has_unit h265 d g u"
      if "g \<in> {1, 2, 4}" "ps_found out AND g \<noteq> 0" for g
    proof -
      from assms(1) that obtain a b v where "ps_data out = a @ v @ b" "has_unit h265 d g v"
        unfolding ps_inv_def by blast
      then show ?thesis by (intro exI [of _ a] exI [of _ "b @ ?u"] exI [of _ v]) simp
    qed
    have new: "\<exists>a b w. ps_data out @ ?u = a @ w @ b \<and> has_unit h265 d ?f w"
      by (intro exI [of _ "ps_data out"] exI [of _ "[]"] exI [of _ ?u]) (simp add: u)
    have "\<exists>a b u. ps_data out @ ?u = a @ u @ b \<and> has_unit h265 d g u"
      if "g \<in> {1, 2, 4}" "(ps_found out OR ?f) AND g \<noteq> 0" for g
      using flag_split [OF f that] old [OF that(1)] new by blast
    moreover have "length (ps_data out @ ?u) \<le> e"
    proof -
      have "length (ps_data out) \<le> s" using assms(1,2) unfolding ps_inv_def by linarith
      moreover have "length ?u \<le> e - s" by simp
      ultimately show ?thesis using assms(5) unfolding length_append by linarith
    qed
    ultimately show ?thesis using True by (simp add: ps_add_def ps_inv_def Let_def)
  qed
qed

lemma ps_loop_inv:
  "ps_inv h265 d pos out \<Longrightarrow> pos \<le> length d \<Longrightarrow> \<exists>e \<le> length d. ps_inv h265 d e (ps_loop h265 d pos out)"
proof (induction h265 d pos out rule: ps_loop.induct)
  case (1 h265 d pos out)
  show ?case
  proof (cases "pos + 4 < length d \<and> find_start d pos \<noteq> None")
    case False
    then show ?thesis using "1.prems" by (subst ps_loop.simps) (auto split: option.split)
  next
    case True
    then obtain s pre where f: "find_start d pos = Some (s, pre)" by auto
    note b = find_start_Some [OF f]
    let ?e = "find_end d (s + pre)"
    have e: "s + pre \<le> ?e" "?e \<le> length d" using find_end_bounds [of "s + pre" d] b by auto
    have "ps_inv h265 d ?e (ps_add h265 (d ! (s + pre)) (take (?e - s) (drop s d)) out)"
      by (rule ps_add_inv [OF "1.prems"(1)]) (use b e in auto)
    with "1.IH" [OF conjunct1 [OF True] f refl refl] e(2) True f show ?thesis
      by (subst ps_loop.simps) (simp add: Let_def)
  qed
qed

lemma parameter_sets_sound_parts:
  fixes d :: "byte list" and h265 :: bool
  defines "r \<equiv> annexb_parameter_sets d h265"
  shows "length (ps_data r) \<le> length d"
    and "\<forall>f \<in> {1, 2, 4}. ps_found r AND f \<noteq> 0 \<longrightarrow> (\<exists>a b u. ps_data r = a @ u @ b \<and> has_unit h265 d f u)"
    and "ps_complete h265 r \<longrightarrow> (\<forall>f \<in> (if h265 then {1, 2, 4} else {1, 2}).
           \<exists>a b u. ps_data r = a @ u @ b \<and> has_unit h265 d f u)"
proof -
  have "ps_inv h265 d 0 ps_empty" by (simp add: ps_inv_def ps_empty_def)
  then obtain e where e: "e \<le> length d" "ps_inv h265 d e r"
    using ps_loop_inv [of h265 d 0 ps_empty] by (auto simp: r_def annexb_parameter_sets_def)
  then show l: "length (ps_data r) \<le> length d" by (simp add: ps_inv_def)
  show f: "\<forall>f \<in> {1, 2, 4}. ps_found r AND f \<noteq> 0 \<longrightarrow> (\<exists>a b u. ps_data r = a @ u @ b \<and> has_unit h265 d f u)"
    using e(2) unfolding ps_inv_def by blast
  have g: "ps_found r AND f \<noteq> 0" if "ps_complete h265 r" "f \<in> (if h265 then {1, 2, 4} else {1, 2})" for f
  proof -
    let ?m = "if h265 then 7 else 3 :: u32"
    have m: "ps_found r AND ?m = ?m" using that(1) by (simp add: ps_complete_def)
    have nz: "f \<noteq> 0" and mf: "?m AND f = f" using that(2) by (auto split: if_splits)
    have "ps_found r AND f = ps_found r AND (?m AND f)" by (simp only: mf)
    also have "\<dots> = (ps_found r AND ?m) AND f" by (simp only: word_bw_assocs)
    also have "\<dots> = f" by (simp only: m mf)
    finally have "ps_found r AND f = f" .
    with nz show ?thesis by simp
  qed
  show "ps_complete h265 r \<longrightarrow> (\<forall>f \<in> (if h265 then {1, 2, 4} else {1, 2}).
           \<exists>a b u. ps_data r = a @ u @ b \<and> has_unit h265 d f u)"
  proof (intro impI ballI)
    fix x :: u32
    assume a: "ps_complete h265 r" "x \<in> (if h265 then {1, 2, 4} else {1, 2})"
    then have "x \<in> {1, 2, 4}" by (cases h265) auto
    with f g [OF a] show "\<exists>a b u. ps_data r = a @ u @ b \<and> has_unit h265 d x u" by blast
  qed
qed



end
