(* ===== verification/PublisherQueue.thy ===== *)
theory PublisherQueue
  imports IpcPrelude
begin

text \<open>
  The bounded queue of one publishing endpoint, \<^verbatim>\<open>src/publisher/publisher_queue.hpp\<close>.
  Every member function runs under the queue's lock and is one atomic step; waiting on the
  condition variable is the outcome \<open>Pop_wait\<close> of an attempt to pop. Times are nanoseconds
  of the steady clock. The lemmas give the memory bounds and what a consumer may rely on:
  after every reset it starts again at a video key frame, in arrival order.
\<close>

section \<open>Packets and state\<close>

text \<open>A shared buffer that may be absent; two packets with the same buffer share it.\<close>

record packet =
  p_data :: "byte list option"
  p_extra :: "byte list option"
  p_pts :: u64
  p_video :: bool
  p_key :: bool

record queue =
  q_max_bytes :: nat
  q_max_packets :: nat
  q_max_age :: int
  q_bytes :: nat
  q_waiting_key :: bool
  q_stopped :: bool
  q_generation :: u32
  q_drops :: u64
  q_items :: "(packet \<times> int) list"

definition queue_new :: "nat \<Rightarrow> nat \<Rightarrow> int \<Rightarrow> queue" where
  "queue_new bytes packets age_ms =
     \<lparr>q_max_bytes = bytes, q_max_packets = packets, q_max_age = age_ms * 1000000, q_bytes = 0,
      q_waiting_key = True, q_stopped = False, q_generation = 0, q_drops = 0, q_items = []\<rparr>"

definition queue_default :: queue where
  "queue_default = queue_new (2 * 1024 * 1024) 128 1000"

section \<open>Operations\<close>

definition reset_locked :: "queue \<Rightarrow> queue" where
  "reset_locked q =
     q\<lparr>q_drops := q_drops q + of_nat (length (q_items q)), q_items := [], q_bytes := 0,
       q_waiting_key := True, q_generation := q_generation q + 1\<rparr>"

definition queue_room :: "queue \<Rightarrow> nat \<Rightarrow> int \<Rightarrow> queue" where
  "queue_room q n now =
     (if q_bytes q > q_max_bytes q - n \<or> length (q_items q) \<ge> q_max_packets q \<or>
         (q_items q \<noteq> [] \<and> now - snd (hd (q_items q)) > q_max_age q)
      then reset_locked q else q)"

text \<open>\<open>mem\<close> is the outcome of the allocation in \<^verbatim>\<open>emplace_back\<close>; the result \<open>None\<close> is its exception.\<close>

definition queue_push :: "bool \<Rightarrow> packet \<Rightarrow> int \<Rightarrow> queue \<Rightarrow> bool option \<times> queue" where
  "queue_push mem packet now q =
     (case p_data packet of
        None \<Rightarrow> (Some False, q)
      | Some bs \<Rightarrow>
          if q_stopped q \<or> bs = [] then (Some False, q)
          else
            (let n = length bs
             in if n > q_max_bytes q \<or> q_max_packets q = 0
                then (let r = reset_locked q in (Some False, r\<lparr>q_drops := q_drops r + 1\<rparr>))
                else
                  (let r = queue_room q n now
                   in if q_waiting_key r \<and> (\<not> p_video packet \<or> \<not> p_key packet)
                      then (Some False, r\<lparr>q_drops := q_drops r + 1\<rparr>)
                      else if \<not> mem then (None, r)
                      else (Some True, r\<lparr>q_items := q_items r @ [(packet, now)], q_bytes := q_bytes r + n,
                                         q_waiting_key := False\<rparr>))))"

datatype pop_result = Pop_closed | Pop_wait | Pop_item packet u32

definition packet_size :: "packet \<Rightarrow> nat" where
  "packet_size p = (case p_data p of None \<Rightarrow> 0 | Some bs \<Rightarrow> length bs)"

definition queue_pop :: "int \<Rightarrow> queue \<Rightarrow> pop_result \<times> queue" where
  "queue_pop now q =
     (if q_stopped q then (Pop_closed, q)
      else (case q_items q of
              [] \<Rightarrow> (Pop_wait, q)
            | (p, t) # rest \<Rightarrow>
                if now - t > q_max_age q then (Pop_wait, reset_locked q)
                else (Pop_item p (q_generation q),
                      q\<lparr>q_bytes := q_bytes q - packet_size p, q_items := rest\<rparr>)))"

definition queue_reset :: "queue \<Rightarrow> queue" where
  "queue_reset q = reset_locked q"

definition queue_stop :: "queue \<Rightarrow> queue" where
  "queue_stop q = q\<lparr>q_stopped := True, q_items := [], q_bytes := 0\<rparr>"

text \<open>The producer's side of the endpoint catches the exception of a push and drops what is queued.\<close>

definition endpoint_enqueue :: "bool \<Rightarrow> packet \<Rightarrow> int \<Rightarrow> queue \<Rightarrow> int \<times> queue" where
  "endpoint_enqueue mem packet now q =
     (case queue_push mem packet now q of
        (Some ok, q') \<Rightarrow> (if ok then 0 else -1, q')
      | (None, q') \<Rightarrow> (-1, queue_reset q'))"

definition queue_cancelled :: "u32 \<Rightarrow> queue \<Rightarrow> bool" where
  "queue_cancelled epoch q \<longleftrightarrow> q_stopped q \<or> q_generation q \<noteq> epoch"

section \<open>Invariant\<close>

definition queue_inv :: "queue \<Rightarrow> bool" where
  "queue_inv q \<longleftrightarrow>
     q_bytes q = sum_list (map (\<lambda>(p, t). packet_size p) (q_items q)) \<and>
     q_bytes q \<le> q_max_bytes q \<and> length (q_items q) \<le> q_max_packets q \<and>
     (\<forall>(p, t) \<in> set (q_items q). 0 < packet_size p) \<and>
     (q_stopped q \<longrightarrow> q_items q = []) \<and> (q_waiting_key q \<longrightarrow> q_items q = [])"

lemma queue_new_inv [wf_intros]: "queue_inv (queue_new b n a)"
  by (simp add: queue_inv_def queue_new_def)

lemma reset_locked_inv [wf_intros]: "queue_inv q \<Longrightarrow> queue_inv (reset_locked q)"
  by (simp add: queue_inv_def reset_locked_def)

lemma queue_stop_inv [wf_intros]: "queue_inv q \<Longrightarrow> queue_inv (queue_stop q)"
  by (simp add: queue_inv_def queue_stop_def)

lemma queue_room_inv:
  assumes "queue_inv q" "n \<le> q_max_bytes q" "0 < q_max_packets q"
  shows "queue_inv (queue_room q n now)" "q_bytes (queue_room q n now) + n \<le> q_max_bytes q"
    "length (q_items (queue_room q n now)) < q_max_packets q"
    "q_max_bytes (queue_room q n now) = q_max_bytes q" "q_max_packets (queue_room q n now) = q_max_packets q"
    "q_stopped (queue_room q n now) = q_stopped q"
  using assms reset_locked_inv [OF assms(1)] by (auto simp: queue_room_def reset_locked_def)

lemma queue_push_inv [wf_intros]:
  assumes "queue_inv q"
  shows "queue_inv (snd (queue_push mem p now q))"
proof (cases "p_data p")
  case None
  with assms show ?thesis by (simp add: queue_push_def)
next
  case (Some bs)
  show ?thesis
  proof (cases "q_stopped q \<or> bs = [] \<or> length bs > q_max_bytes q \<or> q_max_packets q = 0")
    case True
    then show ?thesis
      using assms Some by (auto simp: queue_push_def Let_def queue_inv_def reset_locked_def)
  next
    case False
    then have "length bs \<le> q_max_bytes q" "0 < q_max_packets q" by auto
    from queue_room_inv [OF assms this, of now] False Some show ?thesis
      by (auto simp: queue_push_def Let_def queue_inv_def packet_size_def)
  qed
qed

lemma endpoint_enqueue_inv [wf_intros]: "queue_inv q \<Longrightarrow> queue_inv (snd (endpoint_enqueue mem p now q))"
  using queue_push_inv [of q mem p now]
  by (auto simp: endpoint_enqueue_def queue_reset_def reset_locked_inv split: prod.splits option.splits)

lemma queue_pop_inv [wf_intros]:
  assumes "queue_inv q"
  shows "queue_inv (snd (queue_pop now q))"
proof (cases "q_items q")
  case Nil
  with assms show ?thesis by (simp add: queue_pop_def)
next
  case (Cons it rest)
  with assms show ?thesis
    by (cases it) (auto simp: queue_pop_def queue_inv_def reset_locked_def)
qed


section \<open>What a consumer may rely on\<close>

definition is_video_key :: "packet \<Rightarrow> bool" where
  "is_video_key p \<longleftrightarrow> p_video p \<and> p_key p"

text \<open>
  Bookkeeping around any source of packets: the packets accepted and delivered since its
  generation last changed.
\<close>

definition gop_step ::
  "('e \<Rightarrow> 's \<Rightarrow> packet list \<times> packet list \<times> 's) \<Rightarrow> ('s \<Rightarrow> u32) \<Rightarrow> 'e \<Rightarrow>
     's \<times> packet list \<times> packet list \<Rightarrow> 's \<times> packet list \<times> packet list" where
  "gop_step step gen e t =
     (case t of (s, acc, out) \<Rightarrow>
        (case step e s of (a, p, s') \<Rightarrow>
           if gen s' = gen s then (s', acc @ a, out @ p) else (s', a, p)))"

definition gop_run ::
  "('e \<Rightarrow> 's \<Rightarrow> packet list \<times> packet list \<times> 's) \<Rightarrow> ('s \<Rightarrow> u32) \<Rightarrow> 'e list \<Rightarrow>
     's \<Rightarrow> 's \<times> packet list \<times> packet list" where
  "gop_run step gen es s = fold (gop_step step gen) es (s, [], [])"

text \<open>
  The contract of an isolated queue: within one generation packets are delivered in the order
  they were accepted, a new generation starts empty, and an empty queue that waits accepts
  a video key frame only.
\<close>

locale gop_source =
  fixes step :: "'e \<Rightarrow> 's \<Rightarrow> packet list \<times> packet list \<times> 's"
    and gen :: "'s \<Rightarrow> u32"
    and waiting :: "'s \<Rightarrow> bool"
    and closed :: "'s \<Rightarrow> bool"
    and pending :: "'s \<Rightarrow> packet list"
    and invar :: "'s \<Rightarrow> bool"
  assumes step_invar: "invar s \<Longrightarrow> step e s = (a, p, s') \<Longrightarrow> invar s'"
    and step_same: "invar s \<Longrightarrow> step e s = (a, p, s') \<Longrightarrow> gen s' = gen s \<Longrightarrow>
      \<exists>r. pending s @ a = p @ r \<and> (\<not> closed s' \<longrightarrow> r = pending s')"
    and step_new: "invar s \<Longrightarrow> step e s = (a, p, s') \<Longrightarrow> gen s' \<noteq> gen s \<Longrightarrow>
      p = [] \<and> (\<not> closed s' \<longrightarrow> a = pending s') \<and> (a = [] \<or> is_video_key (hd a)) \<and> (waiting s' \<longleftrightarrow> a = [])"
    and step_waiting: "invar s \<Longrightarrow> step e s = (a, p, s') \<Longrightarrow> gen s' = gen s \<Longrightarrow>
      (waiting s' \<longleftrightarrow> waiting s \<and> a = []) \<and> (waiting s \<longrightarrow> a = [] \<or> is_video_key (hd a))"
    and step_closed: "invar s \<Longrightarrow> step e s = (a, p, s') \<Longrightarrow> closed s \<Longrightarrow> closed s' \<and> a = [] \<and> p = []"

context gop_source begin

definition gop_inv :: "'s \<times> packet list \<times> packet list \<Rightarrow> bool" where
  "gop_inv t \<longleftrightarrow>
     (case t of (s, acc, out) \<Rightarrow>
        invar s \<and> (acc = [] \<or> is_video_key (hd acc)) \<and> (waiting s \<longleftrightarrow> acc = []) \<and>
        (\<exists>r. acc = out @ r \<and> (\<not> closed s \<longrightarrow> r = pending s)))"

lemma gop_step_inv:
  assumes "gop_inv t"
  shows "gop_inv (gop_step step gen e t)"
proof -
  obtain s acc out where t: "t = (s, acc, out)" by (metis prod_cases3)
  obtain a p s' where st: "step e s = (a, p, s')" by (metis prod_cases3)
  from assms t obtain r where i: "invar s" "acc = [] \<or> is_video_key (hd acc)" "waiting s \<longleftrightarrow> acc = []"
      "acc = out @ r" "\<not> closed s \<longrightarrow> r = pending s"
    by (auto simp: gop_inv_def)
  note i' = step_invar [OF i(1) st]
  show ?thesis
  proof (cases "gen s' = gen s")
    case True
    note w = step_waiting [OF i(1) st True]
    have "\<exists>r'. acc @ a = (out @ p) @ r' \<and> (\<not> closed s' \<longrightarrow> r' = pending s')"
    proof (cases "closed s")
      case True
      then show ?thesis using step_closed [OF i(1) st] i(4) by auto
    next
      case False
      then show ?thesis using step_same [OF i(1) st \<open>gen s' = gen s\<close>] i(4,5) by auto
    qed
    moreover have "acc @ a = [] \<or> is_video_key (hd (acc @ a))"
      using i(2,3) w by (cases acc) auto
    ultimately show ?thesis using True w i(3) i' by (auto simp: t st gop_step_def gop_inv_def)
  next
    case False
    then show ?thesis using step_new [OF i(1) st False] i' by (auto simp: t st gop_step_def gop_inv_def)
  qed
qed

lemma gop_run_inv:
  assumes "invar s" "waiting s" "\<not> closed s \<longrightarrow> pending s = []"
  shows "gop_inv (gop_run step gen es s)"
proof -
  have "gop_inv (fold (gop_step step gen) es t)" if "gop_inv t" for t
    using that by (induction es arbitrary: t) (simp_all add: gop_step_inv del: split_paired_All)
  moreover have "gop_inv (s, [], [])" using assms by (simp add: gop_inv_def)
  ultimately show ?thesis by (simp add: gop_run_def)
qed

lemma gop_run_spec:
  assumes "invar s" "waiting s" "\<not> closed s \<longrightarrow> pending s = []" "gop_run step gen es s = (s', acc, out)"
  shows "invar s' \<and> (acc = [] \<or> is_video_key (hd acc)) \<and>
         (\<exists>r. acc = out @ r \<and> (\<not> closed s' \<longrightarrow> r = pending s'))"
  using gop_run_inv [OF assms(1-3), of es] assms(4) by (auto simp: gop_inv_def)

end

section \<open>The queue meets the contract\<close>

datatype qevent = Ev_push bool packet int | Ev_pop int | Ev_reset | Ev_stop

text \<open>
  One call on the queue: the packets accepted, the packets delivered, the queue after it. The reset that follows
  the exception of a push takes the lock again: it is an event of its own.
\<close>

fun queue_event :: "qevent \<Rightarrow> queue \<Rightarrow> packet list \<times> packet list \<times> queue" where
  "queue_event (Ev_push mem p now) q =
     (case queue_push mem p now q of (ok, q') \<Rightarrow> (if ok = Some True then [p] else [], [], q'))"
| "queue_event (Ev_pop now) q =
     (case queue_pop now q of (res, q') \<Rightarrow> ([], (case res of Pop_item p _ \<Rightarrow> [p] | _ \<Rightarrow> []), q'))"
| "queue_event Ev_reset q = ([], [], queue_reset q)"
| "queue_event Ev_stop q = ([], [], queue_stop q)"

definition queue_pending :: "queue \<Rightarrow> packet list" where
  "queue_pending q = map fst (q_items q)"

lemma generation_moves [simp]: "g + 1 \<noteq> (g :: u32)" "g \<noteq> g + 1"
  by (auto simp: add_cancel_right_right)

lemma queue_push_cases:
  assumes "queue_push mem p now q = (ok, q')"
  obtains "ok = Some False" "q' = q"
    | r where "ok = Some False" "r = reset_locked q" "q' = r\<lparr>q_drops := q_drops r + 1\<rparr>"
    | "ok = Some False" "q' = q\<lparr>q_drops := q_drops q + 1\<rparr>"
    | "ok = None" "\<not> q_stopped q" "q' = q \<or> q' = reset_locked q"
    | r n where "ok = Some True" "\<not> q_stopped q" "r = q \<or> r = reset_locked q" "q_waiting_key r \<longrightarrow> is_video_key p"
        "q' = r\<lparr>q_items := q_items r @ [(p, now)], q_bytes := n, q_waiting_key := False\<rparr>"
proof (cases "p_data p")
  case None
  with assms that(1) show thesis by (simp add: queue_push_def)
next
  case (Some bs)
  let ?r = "queue_room q (length bs) now"
  have r: "?r = q \<or> ?r = reset_locked q" by (simp add: queue_room_def)
  consider "q_stopped q \<or> bs = []" | "\<not> (q_stopped q \<or> bs = [])" "length bs > q_max_bytes q \<or> q_max_packets q = 0"
    | "\<not> (q_stopped q \<or> bs = [])" "\<not> (length bs > q_max_bytes q \<or> q_max_packets q = 0)" by metis
  then show thesis
  proof cases
    case 1
    with assms Some that(1) show thesis by (simp add: queue_push_def)
  next
    case 2
    with assms Some that(2) show thesis by (simp add: queue_push_def Let_def)
  next
    case 3
    show thesis
    proof (cases "q_waiting_key ?r \<and> (\<not> p_video p \<or> \<not> p_key p)")
      case True
      with 3 assms Some r that(2,3) show thesis by (auto simp: queue_push_def Let_def)
    next
      case False
      with 3 assms Some r show thesis
        by (cases mem; intro that(4) that(5) [of ?r "q_bytes ?r + length bs"])
          (auto simp: queue_push_def Let_def is_video_key_def)
    qed
  qed
qed

lemma snd_inv: "queue_inv (snd x) \<Longrightarrow> x = (r, q) \<Longrightarrow> queue_inv q"
  by simp

lemma queue_event_inv: "queue_inv q \<Longrightarrow> queue_event e q = (a, p, q') \<Longrightarrow> queue_inv q'"
  using reset_locked_inv [of q] queue_stop_inv [of q]
  by (cases e) (auto simp: queue_reset_def split: prod.splits
      intro: queue_push_inv [THEN snd_inv] queue_pop_inv [THEN snd_inv])

lemma queue_event_laws:
  assumes inv: "queue_inv q" and st: "queue_event e q = (a, p, q')"
  shows "q_generation q' = q_generation q \<Longrightarrow>
      (\<exists>r. queue_pending q @ a = p @ r \<and> (\<not> q_stopped q' \<longrightarrow> r = queue_pending q')) \<and>
      (q_waiting_key q' \<longleftrightarrow> q_waiting_key q \<and> a = []) \<and> (q_waiting_key q \<longrightarrow> a = [] \<or> is_video_key (hd a))"
    and "q_generation q' \<noteq> q_generation q \<Longrightarrow>
      p = [] \<and> (\<not> q_stopped q' \<longrightarrow> a = queue_pending q') \<and> (a = [] \<or> is_video_key (hd a)) \<and>
      (q_waiting_key q' \<longleftrightarrow> a = [])"
    and "q_stopped q \<Longrightarrow> q_stopped q' \<and> a = [] \<and> p = []"
proof -
  have "(q_generation q' = q_generation q \<longrightarrow>
      (\<exists>r. queue_pending q @ a = p @ r \<and> (\<not> q_stopped q' \<longrightarrow> r = queue_pending q')) \<and>
      (q_waiting_key q' \<longleftrightarrow> q_waiting_key q \<and> a = []) \<and> (q_waiting_key q \<longrightarrow> a = [] \<or> is_video_key (hd a))) \<and>
    (q_generation q' \<noteq> q_generation q \<longrightarrow>
      p = [] \<and> (\<not> q_stopped q' \<longrightarrow> a = queue_pending q') \<and> (a = [] \<or> is_video_key (hd a)) \<and>
      (q_waiting_key q' \<longleftrightarrow> a = [])) \<and>
    (q_stopped q \<longrightarrow> q_stopped q' \<and> a = [] \<and> p = [])"
  proof (cases e)
    case (Ev_push mem pk now)
    obtain ok r where pu: "queue_push mem pk now q = (ok, r)" by fastforce
    with st Ev_push have q': "q' = r" "a = (if ok = Some True then [pk] else [])" "p = []" by auto
    from pu show ?thesis
      by (cases rule: queue_push_cases) (auto simp: q' queue_pending_def reset_locked_def)
  next
    case (Ev_pop now)
    with st inv show ?thesis
      by (cases "q_items q") (auto simp: queue_pop_def queue_pending_def reset_locked_def queue_inv_def
          split: if_splits)
  qed (use st in \<open>auto simp: queue_reset_def queue_stop_def reset_locked_def queue_pending_def\<close>)
  then show "q_generation q' = q_generation q \<Longrightarrow>
      (\<exists>r. queue_pending q @ a = p @ r \<and> (\<not> q_stopped q' \<longrightarrow> r = queue_pending q')) \<and>
      (q_waiting_key q' \<longleftrightarrow> q_waiting_key q \<and> a = []) \<and> (q_waiting_key q \<longrightarrow> a = [] \<or> is_video_key (hd a))"
    "q_generation q' \<noteq> q_generation q \<Longrightarrow>
      p = [] \<and> (\<not> q_stopped q' \<longrightarrow> a = queue_pending q') \<and> (a = [] \<or> is_video_key (hd a)) \<and>
      (q_waiting_key q' \<longleftrightarrow> a = [])"
    "q_stopped q \<Longrightarrow> q_stopped q' \<and> a = [] \<and> p = []"
    by blast+
qed

interpretation endpoint_queue: gop_source queue_event q_generation q_waiting_key q_stopped queue_pending queue_inv
  by unfold_locales (use queue_event_inv queue_event_laws in blast)+

section \<open>Properties\<close>

text \<open>C38. Every operation keeps the queue within its bounds: the byte counter is the size of the
  queued packets and never above the byte limit, the number of packets never above the
  packet limit, and a stopped or waiting queue is empty.\<close>

theorem queue_bounded:
  "queue_inv (fst (gop_run queue_event q_generation es (queue_new b n age))) \<and>
   q_max_bytes (fst (gop_run queue_event q_generation es (queue_new b n age))) = b \<and>
   q_max_packets (fst (gop_run queue_event q_generation es (queue_new b n age))) = n"
proof -
  let ?run = "gop_run queue_event q_generation es (queue_new b n age)"
  have "queue_inv (fst ?run)"
    using endpoint_queue.gop_run_inv [of "queue_new b n age" es] queue_new_inv
    by (auto simp: endpoint_queue.gop_inv_def queue_new_def queue_pending_def)
  moreover have "q_max_bytes (fst (fold (gop_step queue_event q_generation) es t)) = q_max_bytes (fst t) \<and>
      q_max_packets (fst (fold (gop_step queue_event q_generation) es t)) = q_max_packets (fst t)" for t
  proof (induction es arbitrary: t)
    case Nil
    then show ?case by simp
  next
    case (Cons e es)
    have "q_max_bytes (fst (gop_step queue_event q_generation e t)) = q_max_bytes (fst t) \<and>
        q_max_packets (fst (gop_step queue_event q_generation e t)) = q_max_packets (fst t)"
      by (cases e) (auto simp: gop_step_def queue_push_def queue_pop_def queue_room_def queue_reset_def
          queue_stop_def reset_locked_def Let_def split: prod.splits option.splits list.splits if_splits)
    with Cons show ?case by simp
  qed
  ultimately show ?thesis by (simp add: gop_run_def queue_new_def)
qed

text \<open>C5. For every history of pushes, pops, resets and a stop, also when memory runs out in a push, the packets delivered since the
  generation last changed are exactly the first of those accepted since then, in arrival order
  and without a gap, and the first of them is a video key frame.\<close>

theorem queue_delivers_whole_gops:
  assumes "gop_run queue_event q_generation es (queue_new b n age) = (q, accepted, delivered)"
  shows "(\<exists>rest. accepted = delivered @ rest \<and> (\<not> q_stopped q \<longrightarrow> rest = queue_pending q)) \<and>
         (delivered \<noteq> [] \<longrightarrow> is_video_key (hd delivered))"
proof -
  have "queue_inv q \<and> (accepted = [] \<or> is_video_key (hd accepted)) \<and>
        (\<exists>r. accepted = delivered @ r \<and> (\<not> q_stopped q \<longrightarrow> r = queue_pending q))"
    by (rule endpoint_queue.gop_run_spec [OF queue_new_inv _ _ assms]) (simp_all add: queue_new_def queue_pending_def)
  then show ?thesis by (cases delivered) auto
qed

definition example_packet :: packet where
  "example_packet = \<lparr>p_data = Some [0, 0, 0, 1, 0x65, 0x88], p_extra = None, p_pts = 0, p_video = True, p_key = True\<rparr>"

theorem queue_delivers_whole_gops_witness:
  "\<exists>q acc. gop_run queue_event q_generation
       [Ev_push True (example_packet\<lparr>p_key := False\<rparr>) 0, Ev_push True example_packet 5, Ev_pop 9] (queue_new 100 4 1000) =
     (q, acc, [example_packet]) \<and> is_video_key (hd [example_packet])"
proof -
  obtain q acc where r: "gop_run queue_event q_generation
       [Ev_push True (example_packet\<lparr>p_key := False\<rparr>) 0, Ev_push True example_packet 5, Ev_pop 9] (queue_new 100 4 1000) =
     (q, acc, [example_packet])"
    by (simp add: gop_run_def gop_step_def queue_new_def example_packet_def queue_push_def
        queue_room_def queue_pop_def Let_def)
  with queue_delivers_whole_gops [OF r] show ?thesis by simp
qed

end
