(* ===== verification/FfmpegSettings.thy ===== *)
theory FfmpegSettings
  imports Param "HOL-Library.Monad_Syntax"
begin

text \<open>
  What a connection of \<^verbatim>\<open>src/publisher/ffmpeg_publisher.cpp\<close> reads from the configuration and
  tells FFmpeg: the codec parameters of its streams, the muxer's options and the I/O timeout.
  A read through a NULL value and a signed overflow are \<open>None\<close>. A time that
  \<^verbatim>\<open>av_rescale_q\<close> converts is kept as the arguments of that call.
\<close>

section \<open>Configuration reads\<close>

definition video_key :: "nat \<Rightarrow> string \<Rightarrow> string" where
  "video_key i field = take 63 (''video.'' @ show_nat i @ '':'' @ field)"

definition video_text :: "param_state \<Rightarrow> nat \<Rightarrow> string \<Rightarrow> string \<Rightarrow> cptr" where
  "video_text st i field fallback = rk_param_get_string st (video_key i field) (Str fallback)"

definition video_value :: "param_state \<Rightarrow> nat \<Rightarrow> string \<Rightarrow> int \<Rightarrow> int option" where
  "video_value st i field fallback = rk_param_get_int st (video_key i field) fallback"

text \<open>Whether the codec is HEVC.\<close>

definition video_codec :: "param_state \<Rightarrow> nat \<Rightarrow> bool option" where
  "video_codec st i =
     (case video_text st i ''output_data_type'' ''H.264'' of
        Str name \<Rightarrow> Some (name = ''H.265'')
      | _ \<Rightarrow> None)"

text \<open>The timeout of one connection attempt or write, in milliseconds.\<close>

definition io_timeout_ms :: "param_state \<Rightarrow> int option" where
  "io_timeout_ms st = map_option (\<lambda>ms. max 100 (min 60000 ms)) (rk_param_get_int st ''stream:io_timeout_ms'' 5000)"

section \<open>Codec parameters\<close>

type_synonym av_rational = "int \<times> int"

record video_par =
  vp_hevc :: bool
  vp_width :: int
  vp_height :: int
  vp_bit_rate :: int
  vp_time_base :: av_rational
  vp_frame_rate :: av_rational
  vp_extradata :: "byte list"

record audio_par =
  ap_sample_rate :: int
  ap_channels :: int
  ap_stereo :: bool
  ap_bits_per_coded_sample :: int
  ap_block_align :: int
  ap_frame_size :: int
  ap_bit_rate :: int
  ap_time_base :: av_rational

definition int64_ok :: "int \<Rightarrow> bool" where
  "int64_ok n \<longleftrightarrow> - (2 ^ 63) \<le> n \<and> n < 2 ^ 63"

definition video_parameters :: "param_state \<Rightarrow> nat \<Rightarrow> video_par option" where
  "video_parameters st i =
     do {
       hevc \<leftarrow> video_codec st i;
       width \<leftarrow> video_value st i ''width'' (if i \<noteq> 0 then 640 else 1920);
       height \<leftarrow> video_value st i ''height'' (if i \<noteq> 0 then 360 else 1080);
       max_rate \<leftarrow> video_value st i ''max_rate'' 2048;
       num \<leftarrow> video_value st i ''dst_frame_rate_num'' 25;
       den \<leftarrow> video_value st i ''dst_frame_rate_den'' 1;
       Some \<lparr>vp_hevc = hevc, vp_width = width, vp_height = height, vp_bit_rate = max_rate * 1000,
             vp_time_base = (1, 90000), vp_frame_rate = (num, den), vp_extradata = []\<rparr>
     }"

definition audio_parameters :: "param_state \<Rightarrow> audio_par option" where
  "audio_parameters st =
     do {
       sample_rate \<leftarrow> rk_param_get_int st ''audio.0:sample_rate'' 8000;
       channels \<leftarrow> rk_param_get_int st ''audio.0:channels'' 1;
       frame_size \<leftarrow> rk_param_get_int st ''audio.0:frame_size'' 1152;
       if int64_ok (sample_rate * channels * 8)
       then Some \<lparr>ap_sample_rate = sample_rate, ap_channels = channels, ap_stereo = (channels \<noteq> 1),
                  ap_bits_per_coded_sample = 8, ap_block_align = channels, ap_frame_size = frame_size,
                  ap_bit_rate = sample_rate * channels * 8, ap_time_base = (1, sample_rate)\<rparr>
       else None
     }"

section \<open>Options\<close>

datatype av_value = Av_text cptr | Av_int int

type_synonym av_options = "(string \<times> av_value) list"

definition muxer_options :: "string \<Rightarrow> cptr \<Rightarrow> int \<Rightarrow> av_options" where
  "muxer_options format transport timeout_ms =
     (if format = ''rtsp'' then [(''rtsp_transport'', Av_text transport)] else []) @
     [(''rw_timeout'', Av_int (timeout_ms * 1000))] @
     (if format = ''rtsp'' then [(''stimeout'', Av_int (timeout_ms * 1000))] else [])"

section \<open>One connection's configuration\<close>

record endpoint_config =
  ec_name :: string
  ec_url :: string
  ec_format :: string
  ec_stream_id :: nat
  ec_audio :: bool

text \<open>What the configuration holds while one packet is handled; a video endpoint reads no audio values.\<close>

record stream_settings =
  ss_video :: video_par
  ss_audio :: "audio_par option"
  ss_transport :: cptr

definition stream_settings_of :: "param_state \<Rightarrow> endpoint_config \<Rightarrow> stream_settings option" where
  "stream_settings_of st cfg =
     do {
       video \<leftarrow> video_parameters st (ec_stream_id cfg);
       audio \<leftarrow> (if ec_audio cfg then map_option Some (audio_parameters st) else Some None);
       Some \<lparr>ss_video = video, ss_audio = audio,
             ss_transport = rk_param_get_string st ''stream:rtsp_transport'' (Str ''tcp'')\<rparr>
     }"

section \<open>Times of a packet\<close>

text \<open>\<open>Rescale a b c\<close> is \<open>a\<close> units of \<open>b\<close> seconds in units of \<open>c\<close>: \<^verbatim>\<open>av_rescale_q(a, b, c)\<close>.\<close>

datatype av_time = Rescale int av_rational av_rational

definition packet_time :: "u64 \<Rightarrow> u64 \<Rightarrow> av_rational \<Rightarrow> av_time" where
  "packet_time pts_us origin_us base = Rescale (sint (pts_us - origin_us)) (1, 1000000) base"

datatype av_track = Video_track av_rational | Audio_track audio_par

fun track_base :: "av_track \<Rightarrow> av_rational" where
  "track_base (Video_track base) = base"
| "track_base (Audio_track ap) = ap_time_base ap"

fun packet_duration :: "stream_settings \<Rightarrow> av_track \<Rightarrow> int \<Rightarrow> av_time" where
  "packet_duration s (Video_track base) hint =
     Rescale 1 (snd (vp_frame_rate (ss_video s)), fst (vp_frame_rate (ss_video s))) base"
| "packet_duration s (Audio_track ap) hint = Rescale hint (1, ap_sample_rate ap) (ap_time_base ap)"

end
