(* ===== verification/FfmpegConnection.thy ===== *)
theory FfmpegConnection
  imports Annexb PublisherQueue FfmpegSettings
begin

text \<open>
  The connection of one URL, class \<^verbatim>\<open>FfmpegConnection\<close> of
  \<^verbatim>\<open>src/publisher/ffmpeg_publisher.cpp\<close>, and the send loop of \<^verbatim>\<open>PublisherEndpoint\<close> around
  it. FFmpeg is not part of the repository: the outcome of each of its calls is an argument,
  and the calls are collected in order with what they are given. Times are nanoseconds of the steady
  clock, and every reading of it is a value of its own. The automaton \<open>ff_next\<close> is FFmpeg's usage protocol together with what a player
  needs; the endpoint keeps to it on every interleaving of the producer and the send thread.
\<close>

section \<open>State\<close>

text \<open>
  \<open>c_context\<close>, \<open>c_pb\<close> and \<open>c_audio\<close> are the pointers that may be NULL; \<open>c_nofile\<close> is the format's
  flag and \<open>c_video_base\<close> the time base of the video stream, both meaningful while there is a context.
\<close>

record connection =
  c_queue_epoch :: u32
  c_timeout_ms :: int
  c_network_generation :: u32
  c_deadline :: int
  c_context :: bool
  c_nofile :: bool
  c_pb :: bool
  c_video_base :: av_rational
  c_audio :: "audio_par option"
  c_origin_us :: u64
  c_codec_extra :: "byte list"
  c_ready :: bool
  c_incomplete_logs :: u32
  c_video_debug :: u32
  c_audio_debug :: u32
  c_retry_after :: int

definition connection_new :: "int \<Rightarrow> connection" where
  "connection_new timeout_ms =
     \<lparr>c_queue_epoch = 0, c_timeout_ms = timeout_ms, c_network_generation = 0, c_deadline = 0, c_context = False,
      c_nofile = False, c_pb = False, c_video_base = (0, 1), c_audio = None, c_origin_us = 0, c_codec_extra = [],
      c_ready = False, c_incomplete_logs = 0, c_video_debug = 0, c_audio_debug = 0, c_retry_after = 0\<rparr>"

text \<open>
  The calls to FFmpeg with the results that matter, and the arming of the deadline that its
  interrupt callback watches. A packet has its track (video or not), time, duration and key flag.
\<close>

datatype ff_op =
    Ff_alloc string string bool
  | Ff_arm int
  | Ff_connect string av_options bool
  | Ff_header video_par "audio_par option" av_options bool
  | Ff_packet bool av_time av_time bool "byte list" bool
  | Ff_trailer
  | Ff_disconnect
  | Ff_free

text \<open>
  The environment of one packet: the stop flag as the loop and as the connection reads it, the network
  state seen (\<open>None\<close> without failover), the clock at each of its readings, the configuration, and every FFmpeg
  result. The muxer takes the options it knows from the connection attempt and may choose other time bases.
\<close>

datatype clock_read = At_route | At_retry | At_close | At_open | At_open_failed | At_write | At_write_failed

text \<open>
  Where a string or a buffer of the C++ library may throw \<^verbatim>\<open>bad_alloc\<close>: the copy of a snapshot of parameter sets, the scan
  of a key frame, its caching, and the texts built for log lines.
\<close>

datatype throw_point =
    Throw_snapshot | Throw_scan | Throw_cache | Throw_head_log | Throw_fail_text | Throw_packet_text | Throw_packet_log |
    Throw_write_text

record ff_env =
  fe_stopping :: bool
  fe_stopping_route :: bool
  fe_network :: "(u32 \<times> bool) option"
  fe_clock :: "clock_read \<Rightarrow> int"
  fe_settings :: stream_settings
  fe_alloc :: bool
  fe_nofile :: bool
  fe_video_stream :: bool
  fe_extradata :: bool
  fe_audio_stream :: bool
  fe_avio :: bool
  fe_unused_options :: "av_options \<Rightarrow> av_options"
  fe_header :: bool
  fe_video_base :: av_rational
  fe_audio_base :: av_rational
  fe_new_packet :: bool
  fe_write :: bool
  fe_throws :: "throw_point \<Rightarrow> bool"

text \<open>What a step returned: a value, or \<open>None\<close> for an exception. The send loop resets its queue for both failures.\<close>

definition send_failed :: "int option \<Rightarrow> bool" where
  "send_failed r = (case r of None \<Rightarrow> True | Some ret \<Rightarrow> ret < 0)"

lemma send_failed_simps [simp]: "send_failed None" "send_failed (Some ret) \<longleftrightarrow> ret < 0"
  by (simp_all add: send_failed_def)

section \<open>Deadlines and the interrupt callback\<close>

definition arm_deadline :: "int \<Rightarrow> connection \<Rightarrow> connection \<times> ff_op list" where
  "arm_deadline now c =
     (let deadline = now + c_timeout_ms c * 1000000 in (c\<lparr>c_deadline := deadline\<rparr>, [Ff_arm deadline]))"

lemma arm_deadline_eq:
  "arm_deadline now c =
     (c\<lparr>c_deadline := now + c_timeout_ms c * 1000000\<rparr>, [Ff_arm (now + c_timeout_ms c * 1000000)])"
  by (simp add: arm_deadline_def Let_def)

text \<open>What the callback answers while a call is blocked: whether to give up.\<close>

definition ff_interrupt :: "bool \<Rightarrow> (u32 \<times> bool) option \<Rightarrow> int \<Rightarrow> queue \<Rightarrow> connection \<Rightarrow> bool" where
  "ff_interrupt stopping network now q c \<longleftrightarrow>
     stopping \<or> queue_cancelled (c_queue_epoch c) q \<or> now \<ge> c_deadline c \<or>
     (case network of
        None \<Rightarrow> False
      | Some (generation, ready) \<Rightarrow> \<not> ready \<or> generation \<noteq> c_network_generation c)"

section \<open>Closing and opening\<close>

definition conn_close ::
  "endpoint_config \<Rightarrow> int \<Rightarrow> bool \<Rightarrow> connection \<Rightarrow> connection \<times> ff_op list" where
  "conn_close cfg now write_trailer c =
     (if \<not> c_context c then (c, [])
      else
        (let trailer = (c_ready c \<and> (write_trailer \<or> ec_format cfg = ''rtsp''))
         in case (if trailer \<and> write_trailer then arm_deadline now c else (c, [])) of
              (c1, ops) \<Rightarrow>
                (c1\<lparr>c_context := False, c_pb := False, c_audio := None, c_ready := False\<rparr>,
                 ops @ (if trailer then [Ff_trailer] else []) @
                 (if \<not> c_nofile c \<and> c_pb c then [Ff_disconnect] else []) @ [Ff_free])))"

definition retry_delay :: int where
  "retry_delay = 3000000000"

text \<open>\<open>False\<close> is the exception of the copy; the old connection is closed by then.\<close>

definition sync_queue_epoch ::
  "endpoint_config \<Rightarrow> ff_env \<Rightarrow> u32 \<Rightarrow> byte list option \<Rightarrow> connection \<Rightarrow> bool \<times> connection \<times> ff_op list" where
  "sync_queue_epoch cfg env epoch extra c =
     (case (if c_queue_epoch c \<noteq> epoch
            then (case conn_close cfg 0 False c of (c1, ops) \<Rightarrow> (c1\<lparr>c_queue_epoch := epoch\<rparr>, ops))
            else (c, [])) of
        (c1, ops) \<Rightarrow>
          (case extra of
             None \<Rightarrow> (True, c1, ops)
           | Some e \<Rightarrow>
               if e = [] \<or> c_codec_extra c1 = e then (True, c1, ops)
               else if fe_throws env Throw_snapshot then (False, c1, ops)
               else (True, c1\<lparr>c_codec_extra := e\<rparr>, ops)))"

definition sync_network_route ::
  "endpoint_config \<Rightarrow> ff_env \<Rightarrow> connection \<Rightarrow> bool \<times> connection \<times> ff_op list" where
  "sync_network_route cfg env c =
     (if fe_stopping_route env then (False, c, [])
      else (case fe_network env of
              None \<Rightarrow> (True, c, [])
            | Some (generation, ready) \<Rightarrow>
                if generation \<noteq> c_network_generation c
                then (case conn_close cfg 0 False c of
                        (c1, ops) \<Rightarrow>
                          (ready,
                           c1\<lparr>c_network_generation := generation,
                              c_retry_after := (if c_context c then fe_clock env At_route + retry_delay else c_retry_after c1)\<rparr>,
                           ops))
                else (ready, c, [])))"

text \<open>\<^verbatim>\<open>fail\<close> builds the text of the error before it closes: an exception there leaves the context open.\<close>

definition conn_fail ::
  "endpoint_config \<Rightarrow> ff_env \<Rightarrow> connection \<Rightarrow> ff_op list \<Rightarrow> int option \<times> connection \<times> ff_op list" where
  "conn_fail cfg env c ops =
     (if fe_throws env Throw_fail_text then (None, c, ops)
      else (case conn_close cfg (fe_clock env At_close) True c of (c1, ops1) \<Rightarrow> (Some (-1), c1, ops @ ops1)))"

text \<open>Connecting, for a format that needs it, and the header: the streams are set up by now.\<close>

definition conn_header ::
  "endpoint_config \<Rightarrow> ff_env \<Rightarrow> u64 \<Rightarrow> video_par \<Rightarrow> audio_par option \<Rightarrow> connection \<Rightarrow> ff_op list \<Rightarrow>
   int option \<times> connection \<times> ff_op list" where
  "conn_header cfg env pts_us vp ap c ops =
     (let options = muxer_options (ec_format cfg) (ss_transport (fe_settings env)) (c_timeout_ms c);
          need = \<not> c_nofile c;
          ops1 = (if need then ops @ [Ff_connect (ec_url cfg) options (fe_avio env)] else ops);
          left = (if need then fe_unused_options env options else options)
      in if need \<and> \<not> fe_avio env then conn_fail cfg env c ops1
         else
           (let c1 = c\<lparr>c_pb := need\<rparr>; ops2 = ops1 @ [Ff_header vp ap left (fe_header env)]
            in if \<not> fe_header env then conn_fail cfg env c1 ops2
               else (Some 0, c1\<lparr>c_video_base := fe_video_base env,
                           c_audio := map_option (\<lambda>a. a\<lparr>ap_time_base := fe_audio_base env\<rparr>) ap,
                           c_origin_us := pts_us, c_ready := True\<rparr>, ops2)))"

definition conn_open ::
  "endpoint_config \<Rightarrow> ff_env \<Rightarrow> u64 \<Rightarrow> connection \<Rightarrow> int option \<times> connection \<times> ff_op list" where
  "conn_open cfg env pts_us c0 =
     (case conn_close cfg (fe_clock env At_close) True c0 of
        (c, ops0) \<Rightarrow>
          if \<not> fe_alloc env then (Some (-1), c, ops0)
          else
            (case arm_deadline (fe_clock env At_open) (c\<lparr>c_context := True, c_nofile := fe_nofile env, c_pb := False\<rparr>) of
               (c1, arm) \<Rightarrow>
                 (let ops = ops0 @ [Ff_alloc (ec_format cfg) (ec_url cfg) (fe_nofile env)] @ arm;
                      vp = (ss_video (fe_settings env))\<lparr>vp_extradata := c_codec_extra c\<rparr>;
                      ap = (if ec_audio cfg then ss_audio (fe_settings env) else None)
                  in if \<not> fe_video_stream env then conn_fail cfg env c1 ops
                     else if \<not> fe_extradata env then conn_fail cfg env c1 ops
                     else if ec_audio cfg \<and> \<not> fe_audio_stream env then conn_fail cfg env c1 ops
                     else conn_header cfg env pts_us vp ap (c1\<lparr>c_audio := ap\<rparr>) ops)))"

section \<open>Writing\<close>

text \<open>The first six packets of each kind of an RTMP connection are logged with their first bytes as text.\<close>

fun count_packet :: "endpoint_config \<Rightarrow> av_track \<Rightarrow> connection \<Rightarrow> connection" where
  "count_packet cfg (Video_track base) c =
     (if ec_format cfg = ''flv'' then c\<lparr>c_video_debug := c_video_debug c + 1\<rparr> else c)"
| "count_packet cfg (Audio_track ap) c =
     (if ec_format cfg = ''flv'' then c\<lparr>c_audio_debug := c_audio_debug c + 1\<rparr> else c)"

fun packet_logged :: "endpoint_config \<Rightarrow> av_track \<Rightarrow> connection \<Rightarrow> bool" where
  "packet_logged cfg (Video_track base) c = (ec_format cfg = ''flv'' \<and> c_video_debug c < 6)"
| "packet_logged cfg (Audio_track ap) c = (ec_format cfg = ''flv'' \<and> c_audio_debug c < 6)"

fun is_video :: "av_track \<Rightarrow> bool" where
  "is_video (Video_track base) = True"
| "is_video (Audio_track ap) = False"

definition write_packet ::
  "endpoint_config \<Rightarrow> ff_env \<Rightarrow> av_track \<Rightarrow> byte list \<Rightarrow> u64 \<Rightarrow> bool \<Rightarrow> int \<Rightarrow> connection \<Rightarrow>
     int option \<times> connection \<times> ff_op list" where
  "write_packet cfg env track data pts_us key hint c =
     (if \<not> fe_new_packet env then (if fe_throws env Throw_packet_text then None else Some (-1), c, [])
      else if packet_logged cfg track c \<and> fe_throws env Throw_packet_log then (None, count_packet cfg track c, [])
      else
        (case arm_deadline (fe_clock env At_write) (count_packet cfg track c) of
           (c1, arm) \<Rightarrow>
             (let ops = arm @ [Ff_packet (is_video track) (packet_time pts_us (c_origin_us c) (track_base track))
                                 (packet_duration (fe_settings env) track hint) key data (fe_write env)]
              in if fe_write env then (Some 0, c1, ops)
                 else if fe_throws env Throw_write_text then (None, c1, ops)
                 else (case conn_close cfg 0 False c1 of
                         (c2, ops1) \<Rightarrow>
                           (Some (-1), c2\<lparr>c_retry_after := fe_clock env At_write_failed + retry_delay\<rparr>, ops @ ops1)))))"

text \<open>Parameter sets of a key frame are kept even while nothing can be sent. \<open>False\<close> is an exception.\<close>

definition cache_extra :: "ff_env \<Rightarrow> byte list \<Rightarrow> bool \<Rightarrow> connection \<Rightarrow> bool \<times> connection" where
  "cache_extra env data key c =
     (if \<not> key then (True, c)
      else if fe_throws env Throw_scan then (False, c)
      else
        (let hevc = vp_hevc (ss_video (fe_settings env)); current = annexb_parameter_sets data hevc
         in if ps_complete hevc current \<and> ps_data current \<noteq> c_codec_extra c
            then (if fe_throws env Throw_cache then (False, c) else (True, c\<lparr>c_codec_extra := ps_data current\<rparr>))
            else if c_codec_extra c = []
            then (\<not> (c_incomplete_logs c < 3 \<and> fe_throws env Throw_head_log),
                  c\<lparr>c_incomplete_logs := c_incomplete_logs c + 1\<rparr>)
            else (True, c)))"

text \<open>An exception passes through the callers: only the calls made before it remain.\<close>

definition write_video ::
  "endpoint_config \<Rightarrow> ff_env \<Rightarrow> byte list \<Rightarrow> u64 \<Rightarrow> bool \<Rightarrow> connection \<Rightarrow> int option \<times> connection \<times> ff_op list" where
  "write_video cfg env data pts_us key c0 =
     (let hint = snd (vp_frame_rate (ss_video (fe_settings env)))
      in case cache_extra env data key c0 of
        (cached, cc) \<Rightarrow>
          if \<not> cached then (None, cc, [])
          else
            (case sync_network_route cfg env cc of
               (go, c, ops0) \<Rightarrow>
                 if \<not> go then (Some 0, c, ops0)
                 else if c_ready c then
                   (case write_packet cfg env (Video_track (c_video_base c)) data pts_us key hint c of
                      (ret, c1, ops1) \<Rightarrow> (ret, c1, ops0 @ ops1))
                 else if \<not> key \<or> c_codec_extra c = [] \<or> fe_clock env At_retry < c_retry_after c then (Some 0, c, ops0)
                 else
                   (case conn_open cfg env pts_us c of
                      (None, c1, ops1) \<Rightarrow> (None, c1, ops0 @ ops1)
                    | (Some ret, c1, ops1) \<Rightarrow>
                        if ret \<noteq> 0
                        then (Some (-1), c1\<lparr>c_retry_after := fe_clock env At_open_failed + retry_delay\<rparr>, ops0 @ ops1)
                        else (case write_packet cfg env (Video_track (c_video_base c1)) data pts_us key hint c1 of
                                (ret2, c2, ops2) \<Rightarrow> (ret2, c2, ops0 @ ops1 @ ops2)))))"

definition write_audio ::
  "endpoint_config \<Rightarrow> ff_env \<Rightarrow> byte list \<Rightarrow> u64 \<Rightarrow> connection \<Rightarrow> int option \<times> connection \<times> ff_op list" where
  "write_audio cfg env data pts_us c0 =
     (case sync_network_route cfg env c0 of
        (go, c, ops0) \<Rightarrow>
          (case c_audio c of
             None \<Rightarrow> (Some 0, c, ops0)
           | Some ap \<Rightarrow>
               if \<not> go \<or> \<not> c_ready c \<or> pts_us < c_origin_us c then (Some 0, c, ops0)
               else (case write_packet cfg env (Audio_track ap) data pts_us False
                            (int (length data) div max 1 (ap_channels ap)) c of
                       (ret, c1, ops1) \<Rightarrow> (ret, c1, ops0 @ ops1))))"

section \<open>The send loop\<close>

text \<open>
  The endpoint with the packet its thread has taken from the queue but not yet handled.
\<close>

record endpoint =
  e_queue :: queue
  e_conn :: connection
  e_hold :: "(packet \<times> u32) option"

datatype ep_event = Ep_call qevent | Ep_take int | Ep_send ff_env

definition send_packet ::
  "endpoint_config \<Rightarrow> ff_env \<Rightarrow> packet \<Rightarrow> u32 \<Rightarrow> connection \<Rightarrow> int option \<times> connection \<times> ff_op list" where
  "send_packet cfg env p epoch c =
     (case sync_queue_epoch cfg env epoch (p_extra p) c of
        (copied, c1, ops0) \<Rightarrow>
          if \<not> copied then (None, c1, ops0)
          else (let data = (case p_data p of None \<Rightarrow> [] | Some d \<Rightarrow> d)
           in case (if p_video p then write_video cfg env data (p_pts p) (p_key p) c1
                    else write_audio cfg env data (p_pts p) c1) of
                (ret, c2, ops1) \<Rightarrow> (ret, c2, ops0 @ ops1)))"

fun endpoint_step :: "endpoint_config \<Rightarrow> ep_event \<Rightarrow> endpoint \<Rightarrow> endpoint \<times> ff_op list" where
  "endpoint_step cfg (Ep_call e) ep = (ep\<lparr>e_queue := snd (snd (queue_event e (e_queue ep)))\<rparr>, [])"
| "endpoint_step cfg (Ep_take now) ep =
     (case e_hold ep of
        Some _ \<Rightarrow> (ep, [])
      | None \<Rightarrow>
          (case queue_pop now (e_queue ep) of
             (Pop_item p g, q) \<Rightarrow> (ep\<lparr>e_queue := q, e_hold := Some (p, g)\<rparr>, [])
           | (_, q) \<Rightarrow> (ep\<lparr>e_queue := q\<rparr>, [])))"
| "endpoint_step cfg (Ep_send env) ep =
     (case e_hold ep of
        None \<Rightarrow> (ep, [])
      | Some (p, epoch) \<Rightarrow>
          if fe_stopping env \<or> queue_cancelled epoch (e_queue ep) then (ep\<lparr>e_hold := None\<rparr>, [])
          else (case send_packet cfg env p epoch (e_conn ep) of
                  (ret, c, ops) \<Rightarrow>
                    (ep\<lparr>e_conn := c, e_hold := None,
                        e_queue := (if send_failed ret then queue_reset (e_queue ep) else e_queue ep)\<rparr>, ops)))"

text \<open>The constructor: the connection reads its timeout, limited to a tenth of a second and a minute.\<close>

definition endpoint_new :: "int \<Rightarrow> endpoint" where
  "endpoint_new timeout_ms = \<lparr>e_queue = queue_default, e_conn = connection_new timeout_ms, e_hold = None\<rparr>"

fun endpoint_run :: "endpoint_config \<Rightarrow> ep_event list \<Rightarrow> endpoint \<Rightarrow> endpoint \<times> ff_op list" where
  "endpoint_run cfg [] ep = (ep, [])"
| "endpoint_run cfg (e # es) ep =
     (case endpoint_step cfg e ep of
        (ep1, ops) \<Rightarrow> (case endpoint_run cfg es ep1 of (ep2, ops') \<Rightarrow> (ep2, ops @ ops')))"

text \<open>The destructor after the thread has ended.\<close>

definition endpoint_destroy :: "endpoint_config \<Rightarrow> int \<Rightarrow> endpoint \<Rightarrow> ff_op list" where
  "endpoint_destroy cfg now ep = snd (conn_close cfg now True (e_conn ep))"


section \<open>The usage protocol\<close>

datatype ff_stage = St_new | St_failed | St_header | St_live | St_trailer

text \<open>
  A context of FFmpeg: whether its format needs a connection of its own and has one, whether a deadline was armed
  for the next call, whether its header declares an audio stream, and how far it got.
\<close>

record ff_ctx =
  fx_need :: bool
  fx_pb :: bool
  fx_armed :: bool
  fx_audio :: bool
  fx_stage :: ff_stage

datatype ff_phase = Ph_idle | Ph_ctx ff_ctx

text \<open>
  A context is allocated, connected once if its format needs it, gets one header with parameter sets, then packets of
  declared streams of which the first is a video key frame at time zero, an optional trailer, and is freed after its
  connection is closed. Setting a connection up and every write are under a deadline of their own.
\<close>

fun ff_ctx_next :: "ff_ctx \<Rightarrow> ff_op \<Rightarrow> ff_phase option" where
  "ff_ctx_next x (Ff_arm deadline) = Some (Ph_ctx (x\<lparr>fx_armed := True\<rparr>))"
| "ff_ctx_next x (Ff_connect url options ok) =
     (if fx_armed x \<and> fx_need x \<and> \<not> fx_pb x \<and> fx_stage x = St_new
      then Some (Ph_ctx (if ok then x\<lparr>fx_pb := True\<rparr> else x\<lparr>fx_stage := St_failed\<rparr>)) else None)"
| "ff_ctx_next x (Ff_header vp ap options ok) =
     (if fx_armed x \<and> fx_pb x = fx_need x \<and> fx_stage x = St_new \<and> vp_extradata vp \<noteq> []
      then Some (Ph_ctx (x\<lparr>fx_armed := False, fx_audio := (ap \<noteq> None),
                           fx_stage := (if ok then St_header else St_failed)\<rparr>)) else None)"
| "ff_ctx_next x (Ff_packet video (Rescale t a b) duration key data ok) =
     (if fx_armed x \<and> (video \<or> fx_audio x) \<and>
         (fx_stage x = St_live \<or> (fx_stage x = St_header \<and> video \<and> key \<and> t = 0))
      then Some (Ph_ctx (x\<lparr>fx_armed := False, fx_stage := St_live\<rparr>)) else None)"
| "ff_ctx_next x Ff_trailer =
     (if fx_stage x \<in> {St_header, St_live} then Some (Ph_ctx (x\<lparr>fx_stage := St_trailer\<rparr>)) else None)"
| "ff_ctx_next x Ff_disconnect = (if fx_pb x then Some (Ph_ctx (x\<lparr>fx_pb := False\<rparr>)) else None)"
| "ff_ctx_next x Ff_free = (if fx_pb x then None else Some Ph_idle)"
| "ff_ctx_next x (Ff_alloc format url nofile) = None"

fun ff_next :: "ff_phase \<Rightarrow> ff_op \<Rightarrow> ff_phase option" where
  "ff_next Ph_idle (Ff_alloc format url nofile) =
     Some (Ph_ctx \<lparr>fx_need = \<not> nofile, fx_pb = False, fx_armed = False, fx_audio = False, fx_stage = St_new\<rparr>)"
| "ff_next Ph_idle _ = None"
| "ff_next (Ph_ctx x) e = ff_ctx_next x e"

fun ff_run :: "ff_phase \<Rightarrow> ff_op list \<Rightarrow> ff_phase option" where
  "ff_run ph [] = Some ph"
| "ff_run ph (x # xs) = (case ff_next ph x of None \<Rightarrow> None | Some ph' \<Rightarrow> ff_run ph' xs)"

lemma ff_run_append:
  "ff_run ph (xs @ ys) = (case ff_run ph xs of None \<Rightarrow> None | Some ph' \<Rightarrow> ff_run ph' ys)"
  by (induction ph xs rule: ff_run.induct) (auto split: option.split)

text \<open>
  The phase of a connection between two packets: none, a context whose header was written, or one that an exception
  left without.
\<close>

definition conn_phase :: "connection \<Rightarrow> ff_stage \<Rightarrow> ff_phase" where
  "conn_phase c stage =
     Ph_ctx \<lparr>fx_need = \<not> c_nofile c, fx_pb = c_pb c, fx_armed = False, fx_audio = (c_audio c \<noteq> None), fx_stage = stage\<rparr>"

definition conn_ok :: "connection \<Rightarrow> ff_phase \<Rightarrow> bool" where
  "conn_ok c ph \<longleftrightarrow>
     (if \<not> c_context c then \<not> c_ready c \<and> ph = Ph_idle
      else if c_ready c then c_pb c = (\<not> c_nofile c) \<and> ph \<in> {conn_phase c St_header, conn_phase c St_live}
      else \<exists>x. ph = Ph_ctx x \<and> fx_pb x = (\<not> c_nofile c \<and> c_pb c) \<and> fx_stage x \<in> {St_new, St_failed})"

text \<open>A header without a packet.\<close>

fun headed :: "ff_phase \<Rightarrow> bool" where
  "headed Ph_idle = False"
| "headed (Ph_ctx x) = (fx_stage x = St_header)"

lemma headed_conn_phase [simp]: "headed (conn_phase c stage) \<longleftrightarrow> stage = St_header"
  by (simp add: conn_phase_def)

lemma conn_ok_idle: "conn_ok c Ph_idle \<longleftrightarrow> \<not> c_context c \<and> \<not> c_ready c"
  by (auto simp: conn_ok_def conn_phase_def)

lemma conn_ok_ready: "conn_ok c ph \<Longrightarrow> c_ready c \<Longrightarrow> \<not> headed ph \<Longrightarrow> ph = conn_phase c St_live"
  by (auto simp: conn_ok_def split: if_splits)

lemma conn_close_ok:
  assumes "conn_ok c ph" "conn_close cfg now t c = (c', ops)"
  shows "ff_run ph ops = Some Ph_idle \<and> conn_ok c' Ph_idle \<and> c_queue_epoch c' = c_queue_epoch c \<and>
         c_codec_extra c' = c_codec_extra c \<and> c_timeout_ms c' = c_timeout_ms c"
  using assms
  by (auto simp: conn_close_def conn_ok_def conn_phase_def arm_deadline_eq Let_def split: if_splits prod.splits)

text \<open>What \<open>fail\<close> does to a context that has no header yet.\<close>

lemma conn_fail_unready:
  assumes "c_context c" "\<not> c_ready c" "conn_fail cfg env c ops = (ret, c', ops')"
    and "ff_run ph ops = Some (Ph_ctx x)" "fx_pb x = (\<not> c_nofile c \<and> c_pb c)"
    and "fx_stage x \<in> {St_new, St_failed}"
  shows "ret \<noteq> Some 0 \<and> c_queue_epoch c' = c_queue_epoch c \<and>
     (\<exists>ph'. ff_run ph ops' = Some ph' \<and> conn_ok c' ph' \<and> \<not> headed ph')"
  using assms
  by (auto simp: conn_fail_def conn_close_def conn_ok_def ff_run_append Let_def split: if_splits)

lemma conn_header_ok:
  assumes "c_context c" "\<not> c_ready c" "\<not> c_pb c" "vp_extradata vp \<noteq> []"
    and run: "ff_run ph ops = Some (Ph_ctx \<lparr>fx_need = \<not> c_nofile c, fx_pb = False, fx_armed = True,
                fx_audio = a, fx_stage = St_new\<rparr>)"
    and h: "conn_header cfg env pts vp ap c ops = (ret, c', ops')"
  shows "c_queue_epoch c' = c_queue_epoch c \<and>
     (if ret = Some 0 then ff_run ph ops' = Some (conn_phase c' St_header) \<and> conn_ok c' (conn_phase c' St_header) \<and>
        c_ready c' \<and> c_origin_us c' = pts
      else \<exists>ph'. ff_run ph ops' = Some ph' \<and> conn_ok c' ph' \<and> \<not> headed ph')"
proof -
  let ?need = "\<not> c_nofile c"
  let ?options = "muxer_options (ec_format cfg) (ss_transport (fe_settings env)) (c_timeout_ms c)"
  let ?ops1 = "if ?need then ops @ [Ff_connect (ec_url cfg) ?options (fe_avio env)] else ops"
  let ?left = "if ?need then fe_unused_options env ?options else ?options"
  let ?c1 = "c\<lparr>c_pb := ?need\<rparr>"
  let ?ops2 = "?ops1 @ [Ff_header vp ap ?left (fe_header env)]"
  show ?thesis
  proof (cases "?need \<and> \<not> fe_avio env")
    case True
    then have f: "conn_fail cfg env c ?ops1 = (ret, c', ops')" using h by (simp add: conn_header_def)
    from True run have "ff_run ph ?ops1 = Some (Ph_ctx \<lparr>fx_need = \<not> c_nofile c, fx_pb = False, fx_armed = True,
        fx_audio = a, fx_stage = St_failed\<rparr>)" by (simp add: ff_run_append)
    from conn_fail_unready [OF assms(1,2) f this] assms(3) show ?thesis by simp
  next
    case False
    have run2: "ff_run ph ?ops2 = Some (Ph_ctx \<lparr>fx_need = \<not> c_nofile c, fx_pb = ?need, fx_armed = False,
        fx_audio = (ap \<noteq> None), fx_stage = (if fe_header env then St_header else St_failed)\<rparr>)"
      using False run assms(4) by (auto simp: ff_run_append)
    show ?thesis
    proof (cases "fe_header env")
      case fails: False
      then have f: "conn_fail cfg env ?c1 ?ops2 = (ret, c', ops')" using h False by (auto simp: conn_header_def Let_def)
      from conn_fail_unready [OF _ _ f run2] assms(1,2) fails show ?thesis by simp
    next
      case True
      with h False have "ret = Some 0" "ops' = ?ops2"
        "c' = ?c1\<lparr>c_video_base := fe_video_base env,
                 c_audio := map_option (\<lambda>a. a\<lparr>ap_time_base := fe_audio_base env\<rparr>) ap,
                 c_origin_us := pts, c_ready := True\<rparr>"
        by (auto simp: conn_header_def Let_def)
      with run2 True assms(1) show ?thesis by (simp add: conn_ok_def conn_phase_def)
    qed
  qed
qed

lemma conn_open_ok:
  assumes "conn_ok c ph" "c_codec_extra c \<noteq> []" "conn_open cfg env pts c = (ret, c', ops)"
  shows "c_queue_epoch c' = c_queue_epoch c \<and>
     (if ret = Some 0 then ff_run ph ops = Some (conn_phase c' St_header) \<and> conn_ok c' (conn_phase c' St_header) \<and>
        c_ready c' \<and> c_origin_us c' = pts
      else \<exists>ph'. ff_run ph ops = Some ph' \<and> conn_ok c' ph' \<and> \<not> headed ph')"
proof -
  obtain c0 ops0 where cl: "conn_close cfg (fe_clock env At_close) True c = (c0, ops0)" by fastforce
  note k = conn_close_ok [OF assms(1) cl]
  then have n: "\<not> c_context c0" "\<not> c_ready c0" by (auto simp: conn_ok_idle)
  obtain c1 arm where ar: "arm_deadline (fe_clock env At_open) (c0\<lparr>c_context := True, c_nofile := fe_nofile env, c_pb := False\<rparr>) = (c1, arm)"
    by fastforce
  then have c1: "c_context c1" "\<not> c_ready c1" "\<not> c_pb c1" "c_nofile c1 = fe_nofile env" "c_queue_epoch c1 = c_queue_epoch c"
    using k n by (auto simp: arm_deadline_eq)
  let ?ops = "ops0 @ [Ff_alloc (ec_format cfg) (ec_url cfg) (fe_nofile env)] @ arm"
  let ?vp = "(ss_video (fe_settings env))\<lparr>vp_extradata := c_codec_extra c0\<rparr>"
  let ?ap = "if ec_audio cfg then ss_audio (fe_settings env) else None"
  let ?bad = "\<not> fe_video_stream env \<or> \<not> fe_extradata env \<or> (ec_audio cfg \<and> \<not> fe_audio_stream env)"
  have run: "ff_run ph ?ops = Some (Ph_ctx \<lparr>fx_need = \<not> c_nofile c1, fx_pb = False, fx_armed = True,
      fx_audio = False, fx_stage = St_new\<rparr>)"
    using k ar c1(4) by (auto simp: ff_run_append arm_deadline_eq)
  consider "\<not> fe_alloc env" | "fe_alloc env" "?bad" | "fe_alloc env" "\<not> ?bad" by argo
  then show ?thesis
  proof cases
    case 1
    with assms(3) cl k n show ?thesis by (auto simp: conn_open_def)
  next
    case 2
    then have f: "conn_fail cfg env c1 ?ops = (ret, c', ops)"
      using assms(3) cl ar by (auto simp: conn_open_def Let_def split: if_splits)
    from conn_fail_unready [OF c1(1,2) f run] c1 show ?thesis by simp
  next
    case 3
    then have h: "conn_header cfg env pts ?vp ?ap (c1\<lparr>c_audio := ?ap\<rparr>) ?ops = (ret, c', ops)"
      using assms(3) cl ar by (auto simp: conn_open_def Let_def)
    from conn_header_ok [OF _ _ _ _ _ h] run c1 k assms(2) show ?thesis by simp
  qed
qed


lemma count_packet_fields:
  "conn_phase (count_packet cfg track c) st = conn_phase c st" "c_queue_epoch (count_packet cfg track c) = c_queue_epoch c"
  "conn_ok (count_packet cfg track c) ph = conn_ok c ph" "c_origin_us (count_packet cfg track c) = c_origin_us c"
  "c_timeout_ms (count_packet cfg track c) = c_timeout_ms c"
  by (cases track; simp add: conn_phase_def conn_ok_def)+

lemma write_packet_ok:
  assumes "conn_ok c ph" "c_ready c" "\<not> headed ph \<or> (is_video track \<and> key \<and> pts = c_origin_us c)"
    and "is_video track \<or> c_audio c \<noteq> None"
    and "write_packet cfg env track data pts key hint c = (ret, c', ops)"
  shows "c_queue_epoch c' = c_queue_epoch c \<and>
     (\<exists>ph'. ff_run ph ops = Some ph' \<and> conn_ok c' ph' \<and> (headed ph' \<longrightarrow> headed ph \<and> send_failed ret))"
proof (cases "fe_new_packet env \<and> \<not> (packet_logged cfg track c \<and> fe_throws env Throw_packet_log)")
  case False
  with assms show ?thesis by (auto simp: write_packet_def count_packet_fields split: if_splits)
next
  case True
  let ?deadline = "fe_clock env At_write + c_timeout_ms c * 1000000"
  let ?c1 = "(count_packet cfg track c)\<lparr>c_deadline := ?deadline\<rparr>"
  let ?op = "Ff_packet (is_video track) (packet_time pts (c_origin_us c) (track_base track))
      (packet_duration (fe_settings env) track hint) key data (fe_write env)"
  let ?ops = "[Ff_arm ?deadline, ?op]"
  have arm: "arm_deadline (fe_clock env At_write) (count_packet cfg track c) = (?c1, [Ff_arm ?deadline])"
    by (simp add: arm_deadline_eq count_packet_fields)
  have c1: "conn_phase ?c1 st = conn_phase c st" "c_queue_epoch ?c1 = c_queue_epoch c" "conn_ok ?c1 ph' = conn_ok c ph'"
      "c_origin_us ?c1 = c_origin_us c" for st ph'
    by (cases track; simp add: conn_phase_def conn_ok_def)+
  have "conn_ok c (conn_phase c St_live)" using assms(1,2) by (auto simp: conn_ok_def split: if_splits)
  then have live: "conn_ok ?c1 (conn_phase c St_live)" by (simp only: c1)
  have "ph = conn_phase c St_live \<or> (ph = conn_phase c St_header \<and> is_video track \<and> key \<and> pts = c_origin_us c)"
    using assms(1-3) by (auto simp: conn_ok_def split: if_splits)
  then have run: "ff_run ph ?ops = Some (conn_phase c St_live)"
    using assms(4) by (elim disjE) (simp_all add: conn_phase_def packet_time_def)
  have w: "write_packet cfg env track data pts key hint c =
     (if fe_write env then (Some 0, ?c1, ?ops)
      else if fe_throws env Throw_write_text then (None, ?c1, ?ops)
      else (case conn_close cfg 0 False ?c1 of
              (c2, ops1) \<Rightarrow> (Some (-1), c2\<lparr>c_retry_after := fe_clock env At_write_failed + retry_delay\<rparr>, ?ops @ ops1)))"
    unfolding write_packet_def Let_def arm prod.case c1(4) using True by auto
  obtain c2 ops1 where cl: "conn_close cfg 0 False ?c1 = (c2, ops1)" by fastforce
  show ?thesis
  proof (cases "fe_write env \<or> fe_throws env Throw_write_text")
    case kept: True
    with w assms(5) have "c' = ?c1" "ops = ?ops" by (auto split: if_splits)
    with run live c1(2) show ?thesis by auto
  next
    case False
    with w assms(5) cl have e: "c' = c2\<lparr>c_retry_after := fe_clock env At_write_failed + retry_delay\<rparr>" "ops = ?ops @ ops1"
      by simp_all
    from conn_close_ok [OF live cl] have "ff_run ph ops = Some Ph_idle" "conn_ok c' Ph_idle"
      "c_queue_epoch c' = c_queue_epoch c"
      using run c1(2) unfolding e by (simp_all only: ff_run_append) (simp_all add: conn_ok_idle)
    then show ?thesis by auto
  qed
qed

lemma conn_ok_same:
  "conn_ok c ph \<Longrightarrow> c_context c' = c_context c \<Longrightarrow> c_ready c' = c_ready c \<Longrightarrow> c_pb c' = c_pb c \<Longrightarrow>
   c_nofile c' = c_nofile c \<Longrightarrow> c_audio c' = c_audio c \<Longrightarrow> conn_ok c' ph"
  by (auto simp: conn_ok_def conn_phase_def split: if_splits)

lemma sync_network_ok:
  assumes "conn_ok c ph" "sync_network_route cfg env c = (go, c', ops)"
  shows "\<exists>ph' \<in> {ph, Ph_idle}. ff_run ph ops = Some ph' \<and> conn_ok c' ph' \<and>
     c_queue_epoch c' = c_queue_epoch c \<and> c_codec_extra c' = c_codec_extra c"
proof -
  obtain c1 ops1 where cl: "conn_close cfg 0 False c = (c1, ops1)" by fastforce
  from conn_close_ok [OF assms(1) cl] assms cl show ?thesis
    by (auto simp: sync_network_route_def conn_ok_idle split: if_splits option.splits)
qed

lemma sync_epoch_ok:
  assumes "conn_ok c ph" "sync_queue_epoch cfg env epoch extra c = (copied, c', ops)"
  shows "\<exists>ph'. ff_run ph ops = Some ph' \<and> conn_ok c' ph' \<and> c_queue_epoch c' = epoch \<and>
     (if c_queue_epoch c = epoch then ph' = ph else ph' = Ph_idle)"
proof -
  obtain c1 ops1 where cl: "conn_close cfg 0 False c = (c1, ops1)" by fastforce
  from conn_close_ok [OF assms(1) cl] assms cl show ?thesis
    by (auto simp: sync_queue_epoch_def conn_ok_idle intro: conn_ok_same split: if_splits option.splits)
qed

lemma cache_extra_ok:
  "conn_ok c ph \<Longrightarrow> conn_ok (snd (cache_extra env data key c)) ph"
  "c_queue_epoch (snd (cache_extra env data key c)) = c_queue_epoch c"
  "c_timeout_ms (snd (cache_extra env data key c)) = c_timeout_ms c"
  by (auto simp: cache_extra_def Let_def intro: conn_ok_same)

lemma write_video_ok:
  assumes "conn_ok c ph" "\<not> headed ph" "write_video cfg env data pts key c = (ret, c', ops)"
  shows "c_queue_epoch c' = c_queue_epoch c \<and>
     (\<exists>ph'. ff_run ph ops = Some ph' \<and> conn_ok c' ph' \<and> (headed ph' \<longrightarrow> send_failed ret))"
proof -
  let ?hint = "snd (vp_frame_rate (ss_video (fe_settings env)))"
  obtain cached cc where ca: "cache_extra env data key c = (cached, cc)" by fastforce
  with cache_extra_ok(1) [OF assms(1), of env data key] cache_extra_ok(2) [of env data key c] have cc: "conn_ok cc ph" "c_queue_epoch cc = c_queue_epoch c" by simp_all
  obtain go c1 ops0 where sn: "sync_network_route cfg env cc = (go, c1, ops0)" by (metis prod_cases3)
  from sync_network_ok [OF cc(1) sn] cc(2) obtain ph1 where
    p1: "ph1 \<in> {ph, Ph_idle}" "ff_run ph ops0 = Some ph1" "conn_ok c1 ph1" "c_queue_epoch c1 = c_queue_epoch c"
    by auto
  have nh: "\<not> headed ph1" using p1(1) assms(2) by auto
  consider "\<not> cached" | "cached" "\<not> go" | "cached" "go" "c_ready c1"
    | "cached" "go" "\<not> c_ready c1" "\<not> key \<or> c_codec_extra c1 = [] \<or> fe_clock env At_retry < c_retry_after c1"
    | "cached" "go" "\<not> c_ready c1" "key" "c_codec_extra c1 \<noteq> []" "\<not> fe_clock env At_retry < c_retry_after c1" by blast
  then show ?thesis
  proof cases
    case 1
    with assms(2,3) ca cc show ?thesis by (auto simp: write_video_def)
  next
    case 3
    obtain r c2 ops1 where w: "write_packet cfg env (Video_track (c_video_base c1)) data pts key ?hint c1 = (r, c2, ops1)"
      by (metis prod_cases3)
    from write_packet_ok [OF p1(3) 3(3) disjI1 [OF nh] _ w] obtain ph' where
      "c_queue_epoch c2 = c_queue_epoch c1" "ff_run ph1 ops1 = Some ph'" "conn_ok c2 ph'" "\<not> headed ph'"
      using nh by auto
    with 3 assms(3) ca sn w p1 show ?thesis by (auto simp: write_video_def ff_run_append)
  next
    case 5
    obtain r c2 ops1 where o: "conn_open cfg env pts c1 = (r, c2, ops1)" by (metis prod_cases3)
    note ok = conn_open_ok [OF p1(3) 5(5) o]
    show ?thesis
    proof (cases "r = Some 0")
      case False
      with ok obtain ph2 where "ff_run ph1 ops1 = Some ph2" "conn_ok c2 ph2" "\<not> headed ph2" "c_queue_epoch c2 = c_queue_epoch c1"
        by auto
      with False 5 assms(3) ca sn o p1 show ?thesis
        by (auto simp: write_video_def ff_run_append conn_ok_same split: option.splits)
    next
      case True
      obtain r2 c3 ops2 where
        w: "write_packet cfg env (Video_track (c_video_base c2)) data pts key ?hint c2 = (r2, c3, ops2)"
        by (metis prod_cases3)
      from True ok have h: "conn_ok c2 (conn_phase c2 St_header)" "c_ready c2" "pts = c_origin_us c2"
        "ff_run ph1 ops1 = Some (conn_phase c2 St_header)" "c_queue_epoch c2 = c_queue_epoch c1" by auto
      from write_packet_ok [OF h(1,2) _ _ w] h(3) 5(4) obtain ph' where
        "ff_run (conn_phase c2 St_header) ops2 = Some ph'" "conn_ok c3 ph'" "headed ph' \<longrightarrow> send_failed r2"
        "c_queue_epoch c3 = c_queue_epoch c2"
        by auto
      with True 5 assms(3) ca sn o w p1 h show ?thesis
        by (auto simp: write_video_def ff_run_append)
    qed
  qed (use assms(3) ca sn p1 nh in \<open>auto simp: write_video_def\<close>)
qed

lemma write_audio_ok:
  assumes "conn_ok c ph" "\<not> headed ph" "write_audio cfg env data pts c = (ret, c', ops)"
  shows "c_queue_epoch c' = c_queue_epoch c \<and>
     (\<exists>ph'. ff_run ph ops = Some ph' \<and> conn_ok c' ph' \<and> (headed ph' \<longrightarrow> send_failed ret))"
proof -
  obtain go c1 ops0 where sn: "sync_network_route cfg env c = (go, c1, ops0)"
    by (metis prod_cases3)
  from sync_network_ok [OF assms(1) sn] obtain ph1 where
    p1: "ph1 \<in> {ph, Ph_idle}" "ff_run ph ops0 = Some ph1" "conn_ok c1 ph1" "c_queue_epoch c1 = c_queue_epoch c"
    by auto
  have nh: "\<not> headed ph1" using p1(1) assms(2) by auto
  show ?thesis
  proof (cases "\<exists>ap. c_audio c1 = Some ap \<and> go \<and> c_ready c1 \<and> \<not> pts < c_origin_us c1")
    case False
    then have "ret = Some 0" "c' = c1" "ops = ops0"
      using assms(3) sn by (auto simp: write_audio_def split: option.splits if_splits prod.splits)
    with p1 nh show ?thesis by auto
  next
    case True
    then obtain ap where a: "c_audio c1 = Some ap" "go" "c_ready c1" "\<not> pts < c_origin_us c1" by blast
    let ?hint = "int (length data) div max 1 (ap_channels ap)"
    obtain r c2 ops1 where w: "write_packet cfg env (Audio_track ap) data pts False ?hint c1 = (r, c2, ops1)"
      by (metis prod_cases3)
    from write_packet_ok [OF p1(3) a(3) disjI1 [OF nh] _ w] a(1) obtain ph' where
      "c_queue_epoch c2 = c_queue_epoch c1" "ff_run ph1 ops1 = Some ph'" "conn_ok c2 ph'" "\<not> headed ph'"
      using nh by auto
    with a assms(3) sn w p1 show ?thesis by (auto simp: write_audio_def ff_run_append)
  qed
qed

lemma send_packet_ok:
  assumes "conn_ok c ph" "headed ph \<longrightarrow> c_queue_epoch c \<noteq> epoch" "send_packet cfg env p epoch c = (ret, c', ops)"
  shows "c_queue_epoch c' = epoch \<and>
     (\<exists>ph'. ff_run ph ops = Some ph' \<and> conn_ok c' ph' \<and> (headed ph' \<longrightarrow> send_failed ret))"
proof -
  obtain copied c1 ops0 where s: "sync_queue_epoch cfg env epoch (p_extra p) c = (copied, c1, ops0)" by (metis prod_cases3)
  from sync_epoch_ok [OF assms(1) s] assms(2) obtain ph1 where
    p1: "ff_run ph ops0 = Some ph1" "conn_ok c1 ph1" "c_queue_epoch c1 = epoch" "\<not> headed ph1"
    by (metis headed.simps(1))
  let ?d = "case p_data p of None \<Rightarrow> [] | Some d \<Rightarrow> d"
  obtain r c2 ops1 where w: "(if p_video p then write_video cfg env ?d (p_pts p) (p_key p) c1
      else write_audio cfg env ?d (p_pts p) c1) = (r, c2, ops1)" by (metis prod_cases3)
  then have "c_queue_epoch c2 = c_queue_epoch c1 \<and>
     (\<exists>ph'. ff_run ph1 ops1 = Some ph' \<and> conn_ok c2 ph' \<and> (headed ph' \<longrightarrow> send_failed r))"
    using write_video_ok [OF p1(2,4)] write_audio_ok [OF p1(2,4)] by (cases "p_video p") auto
  with assms(3) s w p1 show ?thesis by (cases copied) (auto simp: send_packet_def Let_def ff_run_append)
qed


section \<open>Every interleaving keeps to the protocol\<close>

lemma queue_event_generation:
  "q_generation (snd (snd (queue_event e q))) \<in> {q_generation q, q_generation q + 1}"
proof (cases e)
  case (Ev_push mem p now)
  obtain ok q' where pu: "queue_push mem p now q = (ok, q')" by fastforce
  then show ?thesis
    by (cases rule: queue_push_cases) (auto simp: Ev_push pu reset_locked_def)
qed (auto simp: queue_pop_def queue_reset_def queue_stop_def reset_locked_def split: list.split)

lemma queue_pop_generation:
  "queue_pop now q = (r, q') \<Longrightarrow>
   q_generation q' \<in> {q_generation q, q_generation q + 1} \<and>
   (\<forall>p g. r = Pop_item p g \<longrightarrow> g = q_generation q \<and> q_generation q' = q_generation q)"
  by (auto simp: queue_pop_def reset_locked_def split: list.splits if_splits)

fun hold_after :: "nat \<Rightarrow> nat \<Rightarrow> (packet \<times> u32) option \<Rightarrow> bool" where
  "hold_after lo cnt None = True"
| "hold_after lo cnt (Some (p, g)) = (\<exists>h. g = of_nat h \<and> lo \<le> h \<and> h \<le> cnt)"

text \<open>
  The generation as the number of resets so far, the connection's epoch as an earlier value of
  it, and when a header was written without a packet, a packet of a later epoch comes next.
\<close>

definition ep_inv :: "nat \<Rightarrow> endpoint \<Rightarrow> ff_phase \<Rightarrow> bool" where
  "ep_inv n ep ph \<longleftrightarrow>
     (\<exists>cnt e. cnt \<le> n \<and> e \<le> cnt \<and> q_generation (e_queue ep) = of_nat cnt \<and>
        c_queue_epoch (e_conn ep) = of_nat e \<and> conn_ok (e_conn ep) ph \<and>
        (if headed ph then e < cnt \<and> hold_after (Suc e) cnt (e_hold ep) else hold_after e cnt (e_hold ep)))"

lemma hold_after_mono: "hold_after lo cnt h \<Longrightarrow> cnt \<le> cnt' \<Longrightarrow> hold_after lo cnt' h"
  by (cases "(lo, cnt, h)" rule: hold_after.cases) auto

text \<open>The queue moves on: its generation stays or grows by one.\<close>

lemma ep_inv_queue:
  assumes "ep_inv n ep ph" "q_generation q \<in> {q_generation (e_queue ep), q_generation (e_queue ep) + 1}"
  shows "ep_inv (Suc n) (ep\<lparr>e_queue := q\<rparr>) ph"
proof -
  from assms(1) obtain cnt e where i: "cnt \<le> n" "e \<le> cnt" "q_generation (e_queue ep) = of_nat cnt"
      "c_queue_epoch (e_conn ep) = of_nat e" "conn_ok (e_conn ep) ph"
      "if headed ph then e < cnt \<and> hold_after (Suc e) cnt (e_hold ep) else hold_after e cnt (e_hold ep)"
    unfolding ep_inv_def by blast
  from assms(2) i(3) obtain cnt' where c: "q_generation q = of_nat cnt'" "cnt' \<in> {cnt, Suc cnt}"
    by (auto simp: add.commute intro: that [of cnt] that [of "Suc cnt"])
  show ?thesis
    unfolding ep_inv_def
    by (rule exI [of _ cnt'], rule exI [of _ e])
      (use i c hold_after_mono [of _ cnt _ cnt'] in \<open>auto split: if_splits\<close>)
qed

lemma of_nat_u32_inj: "a < 2 ^ 32 \<Longrightarrow> b < 2 ^ 32 \<Longrightarrow> (of_nat a :: u32) = of_nat b \<longleftrightarrow> a = b"
  by (simp add: word_of_nat_eq_iff take_bit_nat_eq_self)

lemma endpoint_step_inv:
  assumes "ep_inv n ep ph" "n < 2 ^ 32" "endpoint_step cfg ev ep = (ep', ops)"
  shows "\<exists>ph'. ff_run ph ops = Some ph' \<and> ep_inv (Suc n) ep' ph'"
proof (cases ev)
  case (Ep_call e)
  with assms ep_inv_queue [OF assms(1) queue_event_generation] show ?thesis by auto
next
  case (Ep_take now)
  show ?thesis
  proof (cases "e_hold ep")
    case (Some h)
    with assms ep_inv_queue [OF assms(1), of "e_queue ep"] Ep_take show ?thesis by auto
  next
    case None
    obtain r q where pop: "queue_pop now (e_queue ep) = (r, q)" by fastforce
    note g = queue_pop_generation [OF pop]
    note i = ep_inv_queue [OF assms(1) conjunct1 [OF g]]
    show ?thesis
    proof (cases r)
      case (Pop_item p gen)
      from i obtain cnt e where j: "cnt \<le> Suc n" "e \<le> cnt" "q_generation q = of_nat cnt"
          "c_queue_epoch (e_conn ep) = of_nat e" "conn_ok (e_conn ep) ph" "headed ph \<longrightarrow> e < cnt"
        by (auto simp: ep_inv_def split: if_splits)
      have gen: "gen = of_nat cnt" using g j(3) Pop_item by simp
      have "ep_inv (Suc n) (ep\<lparr>e_queue := q, e_hold := Some (p, gen)\<rparr>) ph"
        unfolding ep_inv_def
        by (rule exI [of _ cnt], rule exI [of _ e]) (use j gen in \<open>auto intro!: exI [of _ cnt]\<close>)
      with assms(3) Ep_take None pop Pop_item show ?thesis by auto
    qed (use assms(3) Ep_take None pop i in auto)
  qed
next
  case (Ep_send env)
  show ?thesis
  proof (cases "e_hold ep")
    case None
    with assms ep_inv_queue [OF assms(1), of "e_queue ep"] Ep_send show ?thesis by auto
  next
    case (Some pg)
    obtain p epoch where pg: "pg = (p, epoch)" by fastforce
    from assms(1) obtain cnt e where i: "cnt \<le> n" "e \<le> cnt" "q_generation (e_queue ep) = of_nat cnt"
        "c_queue_epoch (e_conn ep) = of_nat e" "conn_ok (e_conn ep) ph"
        "if headed ph then e < cnt \<and> hold_after (Suc e) cnt (e_hold ep) else hold_after e cnt (e_hold ep)"
      unfolding ep_inv_def by blast
    from i(6) Some pg obtain h where h: "epoch = of_nat h" "e \<le> h" "h \<le> cnt" "headed ph \<longrightarrow> e < h"
      by (auto split: if_splits)
    show ?thesis
    proof (cases "fe_stopping env \<or> queue_cancelled epoch (e_queue ep)")
      case True
      have "ep_inv (Suc n) (ep\<lparr>e_hold := None\<rparr>) ph"
        unfolding ep_inv_def
        by (rule exI [of _ cnt], rule exI [of _ e]) (use i in \<open>auto split: if_splits\<close>)
      with True assms(3) Ep_send Some pg show ?thesis by auto
    next
      case False
      obtain ret c ops1 where s: "send_packet cfg env p epoch (e_conn ep) = (ret, c, ops1)" by (metis prod_cases3)
      have "headed ph \<longrightarrow> c_queue_epoch (e_conn ep) \<noteq> epoch"
        using i(1,4) h assms(2) of_nat_u32_inj [of e h] by auto
      from send_packet_ok [OF i(5) this s] obtain ph' where
        ok: "c_queue_epoch c = epoch" "ff_run ph ops1 = Some ph'" "conn_ok c ph'" "headed ph' \<longrightarrow> send_failed ret"
        by blast
      let ?q = "if send_failed ret then queue_reset (e_queue ep) else e_queue ep"
      let ?cnt = "if send_failed ret then Suc cnt else cnt"
      have "q_generation ?q = of_nat ?cnt"
        using i(3) by (simp add: queue_reset_def reset_locked_def add.commute)
      then have "ep_inv (Suc n) (ep\<lparr>e_conn := c, e_hold := None, e_queue := ?q\<rparr>) ph'"
        unfolding ep_inv_def
        by (intro exI [of _ ?cnt] exI [of _ h]) (use i(1) h ok in auto)
      with False assms(3) Ep_send Some pg s ok(2) show ?thesis by auto
    qed
  qed
qed

lemma endpoint_run_inv:
  "ep_inv n ep ph \<Longrightarrow> n + length es \<le> 2 ^ 32 \<Longrightarrow> endpoint_run cfg es ep = (ep', ops) \<Longrightarrow>
   \<exists>ph'. ff_run ph ops = Some ph' \<and> ep_inv (n + length es) ep' ph'"
proof (induction es arbitrary: n ep ep' ph ops)
  case Nil
  then show ?case by simp
next
  case (Cons ev es)
  obtain ep1 ops1 where s: "endpoint_step cfg ev ep = (ep1, ops1)" by fastforce
  obtain ep2 ops2 where r: "endpoint_run cfg es ep1 = (ep2, ops2)" by fastforce
  from Cons.prems(2) have "n < 2 ^ 32" by simp
  from endpoint_step_inv [OF Cons.prems(1) this s] obtain ph1 where
    p1: "ff_run ph ops1 = Some ph1" "ep_inv (Suc n) ep1 ph1" by blast
  from Cons.IH [OF p1(2) _ r] Cons.prems(2) obtain ph2 where
    "ff_run ph1 ops2 = Some ph2" "ep_inv (Suc n + length es) ep2 ph2" by auto
  with p1(1) Cons.prems(3) s r show ?case by (auto simp: ff_run_append)
qed

lemma ep_inv_new: "ep_inv 0 (endpoint_new timeout_ms) Ph_idle"
  by (auto simp: ep_inv_def endpoint_new_def queue_default_def queue_new_def connection_new_def conn_ok_idle)

text \<open>C3. On every interleaving of producer calls with the send thread, whatever FFmpeg and the
  network answer and wherever memory runs out, an endpoint uses FFmpeg correctly: each context gets one header with
  parameter sets, the first packet after it is a video key frame at time zero, nothing is
  written without a header, and the destructor leaves every context freed exactly once.\<close>

theorem endpoint_usage_protocol:
  assumes "endpoint_run cfg es (endpoint_new timeout_ms) = (ep, ops)" and "length es < 2 ^ 32"
  shows "ff_run Ph_idle (ops @ endpoint_destroy cfg now ep) = Some Ph_idle"
proof -
  from endpoint_run_inv [OF ep_inv_new _ assms(1)] assms(2) obtain ph n where
    ph: "ff_run Ph_idle ops = Some ph" "ep_inv n ep ph" by auto
  obtain c' ops' where cl: "conn_close cfg now True (e_conn ep) = (c', ops')" by fastforce
  from ph(2) have "conn_ok (e_conn ep) ph" by (auto simp: ep_inv_def)
  from conn_close_ok [OF this cl] ph(1) cl show ?thesis
    by (simp add: ff_run_append endpoint_destroy_def)
qed

definition ff_env_ok :: ff_env where
  "ff_env_ok =
     \<lparr>fe_stopping = False, fe_stopping_route = False, fe_network = None, fe_clock = (\<lambda>_. 5000000000),
      fe_settings = \<lparr>ss_video = \<lparr>vp_hevc = False, vp_width = 1920, vp_height = 1080, vp_bit_rate = 2048000,
                        vp_time_base = (1, 90000), vp_frame_rate = (25, 1), vp_extradata = []\<rparr>,
                     ss_audio = None, ss_transport = Str ''tcp''\<rparr>,
      fe_alloc = True, fe_nofile = False, fe_video_stream = True, fe_extradata = True, fe_audio_stream = True,
      fe_avio = True, fe_unused_options = id, fe_header = True, fe_video_base = (1, 1000), fe_audio_base = (1, 1000),
      fe_new_packet = True, fe_write = True, fe_throws = (\<lambda>_. False)\<rparr>"

definition example_endpoint :: endpoint_config where
  "example_endpoint =
     \<lparr>ec_name = ''rtmp-ai'', ec_url = ''rtmp://h/a'', ec_format = ''flv'', ec_stream_id = 1, ec_audio = False\<rparr>"

definition example_events :: "ep_event list" where
  "example_events = [Ep_call (Ev_push True (example_packet\<lparr>p_extra := Some [1]\<rparr>) 0), Ep_take 1, Ep_send ff_env_ok]"

lemma example_endpoint_run:
  assumes "endpoint_run example_endpoint example_events (endpoint_new 5000) = (ep, ops)"
  shows "Ff_arm 10000000000 \<in> set ops"
    "endpoint_destroy example_endpoint 7 ep = [Ff_arm 5000000007, Ff_trailer, Ff_disconnect, Ff_free]"
proof -
  have ps: "annexb_parameter_sets [0, 0, 0, 1, 0x65, 0x88] False = ps_empty"
    using ps_loop_stream [of "[(True, [0x65, 0x88])]" False "[]" ps_empty]
    by (simp add: annexb_parameter_sets_def nal_ok_def nal_bytes_def ps_unit_def ps_add_def nal_flag_def
        nal_type_def Let_def)
  show "Ff_arm 10000000000 \<in> set ops"
    "endpoint_destroy example_endpoint 7 ep = [Ff_arm 5000000007, Ff_trailer, Ff_disconnect, Ff_free]"
    using assms by (auto simp: example_events_def endpoint_new_def queue_default_def queue_new_def example_packet_def
        queue_push_def queue_room_def queue_pop_def queue_cancelled_def send_packet_def sync_queue_epoch_def
        write_video_def sync_network_route_def cache_extra_def ps ps_complete_def ps_empty_def ff_env_ok_def
        connection_new_def conn_open_def conn_header_def conn_close_def write_packet_def arm_deadline_def Let_def
        endpoint_destroy_def example_endpoint_def)
qed

theorem endpoint_usage_protocol_witness:
  "ff_run Ph_idle (snd (endpoint_run example_endpoint example_events (endpoint_new 5000)) @
     [Ff_arm 5000000007, Ff_trailer, Ff_disconnect, Ff_free]) = Some Ph_idle"
proof -
  obtain ep ops where r: "endpoint_run example_endpoint example_events (endpoint_new 5000) = (ep, ops)" by fastforce
  with endpoint_usage_protocol [OF r, of 7] example_endpoint_run [OF r] show ?thesis by (simp add: example_events_def)
qed

section \<open>Stopping\<close>

lemma endpoint_run_append:
  "endpoint_run cfg (xs @ ys) ep =
     (case endpoint_run cfg xs ep of
        (ep1, ops1) \<Rightarrow> (case endpoint_run cfg ys ep1 of (ep2, ops2) \<Rightarrow> (ep2, ops1 @ ops2)))"
  by (induction xs arbitrary: ep) (auto split: prod.splits)

lemma queue_stays_stopped:
  "q_stopped q \<Longrightarrow> q_stopped (snd (snd (queue_event e q)))"
  "q_stopped q \<Longrightarrow> queue_pop now q = (Pop_closed, q)"
  by (cases e) (auto simp: queue_push_def queue_pop_def queue_reset_def queue_stop_def reset_locked_def split: option.split)

lemma stopped_endpoint:
  "q_stopped (e_queue ep) \<Longrightarrow> endpoint_run cfg es ep = (ep', ops) \<Longrightarrow> q_stopped (e_queue ep') \<and> ops = []"
proof (induction es arbitrary: ep ops)
  case Nil
  then show ?case by simp
next
  case (Cons ev es)
  obtain ep1 ops1 where s: "endpoint_step cfg ev ep = (ep1, ops1)" by fastforce
  have "q_stopped (e_queue ep1) \<and> ops1 = []"
    using s Cons.prems(1)
    by (cases ev) (auto simp: queue_stays_stopped queue_cancelled_def split: option.splits)
  with Cons s show ?case by (auto split: prod.splits)
qed



section \<open>Deadlines\<close>

definition arms_within :: "ff_env \<Rightarrow> connection \<Rightarrow> connection \<Rightarrow> ff_op list \<Rightarrow> bool" where
  "arms_within env c c' ops \<longleftrightarrow>
     c_timeout_ms c' = c_timeout_ms c \<and>
     (\<forall>d. Ff_arm d \<in> set ops \<longrightarrow> (\<exists>k. d = fe_clock env k + c_timeout_ms c * 1000000))"

lemma arms_timeout: "arms_within env c c1 ops \<Longrightarrow> c_timeout_ms c2 = c_timeout_ms c1 \<Longrightarrow> arms_within env c c2 ops"
  by (simp add: arms_within_def)

lemma arms_append: "arms_within env c c1 ops \<Longrightarrow> arms_within env c1 c2 ops1 \<Longrightarrow> arms_within env c c2 (ops @ ops1)"
  by (auto simp: arms_within_def)

lemma arms_close:
  "conn_close cfg now t c = (c', ops) \<Longrightarrow> now = fe_clock env k \<or> \<not> t \<Longrightarrow> arms_within env c c' ops"
  by (auto simp: arms_within_def conn_close_def arm_deadline_eq Let_def split: if_splits)

lemma arms_fail:
  assumes "conn_fail cfg env c ops = (ret, c', ops')" "arms_within env c0 c ops"
  shows "arms_within env c0 c' ops'"
proof -
  obtain c1 ops1 where cl: "conn_close cfg (fe_clock env At_close) True c = (c1, ops1)" by fastforce
  from arms_append [OF assms(2) arms_close [OF cl]] assms cl show ?thesis by (auto simp: conn_fail_def split: if_splits)
qed

lemma arms_header:
  assumes "conn_header cfg env pts vp ap c ops = (ret, c', ops')" "arms_within env c0 c ops"
  shows "arms_within env c0 c' ops'"
proof -
  let ?need = "\<not> c_nofile c"
  let ?options = "muxer_options (ec_format cfg) (ss_transport (fe_settings env)) (c_timeout_ms c)"
  let ?ops1 = "if ?need then ops @ [Ff_connect (ec_url cfg) ?options (fe_avio env)] else ops"
  let ?left = "if ?need then fe_unused_options env ?options else ?options"
  let ?c1 = "c\<lparr>c_pb := ?need\<rparr>"
  let ?ops2 = "?ops1 @ [Ff_header vp ap ?left (fe_header env)]"
  have m: "arms_within env c0 c ?ops1" "arms_within env c0 ?c1 ?ops2"
    using assms(2) by (auto simp: arms_within_def)
  show ?thesis
  proof (cases "?need \<and> \<not> fe_avio env")
    case True
    then have "conn_fail cfg env c ?ops1 = (ret, c', ops')" using assms(1) by (simp add: conn_header_def)
    from arms_fail [OF this m(1)] show ?thesis .
  next
    case connected: False
    show ?thesis
    proof (cases "fe_header env")
      case False
      then have "conn_fail cfg env ?c1 ?ops2 = (ret, c', ops')"
        using assms(1) connected by (auto simp: conn_header_def Let_def)
      from arms_fail [OF this m(2)] show ?thesis .
    next
      case True
      with assms(1) connected have e: "ops' = ?ops2" "c_timeout_ms c' = c_timeout_ms ?c1"
        by (auto simp: conn_header_def Let_def)
      from arms_timeout [OF m(2) e(2)] show ?thesis by (simp only: e(1))
    qed
  qed
qed

lemma arms_open:
  assumes "conn_open cfg env pts c = (ret, c', ops)"
  shows "arms_within env c c' ops"
proof -
  obtain c0 ops0 where cl: "conn_close cfg (fe_clock env At_close) True c = (c0, ops0)" by fastforce
  let ?c1 = "c0\<lparr>c_context := True, c_nofile := fe_nofile env, c_pb := False,
               c_deadline := fe_clock env At_open + c_timeout_ms c0 * 1000000\<rparr>"
  let ?ops = "ops0 @ [Ff_alloc (ec_format cfg) (ec_url cfg) (fe_nofile env),
                      Ff_arm (fe_clock env At_open + c_timeout_ms c0 * 1000000)]"
  let ?ap = "if ec_audio cfg then ss_audio (fe_settings env) else None"
  have a0: "arms_within env c c0 ops0" using arms_close [OF cl] by blast
  then have a1: "arms_within env c ?c1 ?ops" "arms_within env c (?c1\<lparr>c_audio := ?ap\<rparr>) ?ops"
    by (auto simp: arms_within_def)
  note o = assms [unfolded conn_open_def cl prod.case arm_deadline_eq Let_def, simplified]
  consider "\<not> fe_alloc env" | "fe_alloc env" "\<not> fe_video_stream env \<or> \<not> fe_extradata env \<or> ec_audio cfg \<and> \<not> fe_audio_stream env"
    | "fe_alloc env" "fe_video_stream env" "fe_extradata env" "ec_audio cfg \<longrightarrow> fe_audio_stream env" by blast
  then show ?thesis
  proof cases
    case 1
    with o a0 show ?thesis by simp
  next
    case 2
    with o have "conn_fail cfg env ?c1 ?ops = (ret, c', ops)" by (auto split: if_splits)
    from arms_fail [OF this a1(1)] show ?thesis .
  next
    case 3
    with o have "conn_header cfg env pts ((ss_video (fe_settings env))\<lparr>vp_extradata := c_codec_extra c0\<rparr>) ?ap
        (?c1\<lparr>c_audio := ?ap\<rparr>) ?ops = (ret, c', ops)" by (simp split: if_splits)
    from arms_header [OF this a1(2)] show ?thesis .
  qed
qed

lemma arms_packet:
  assumes "write_packet cfg env track data pts key hint c = (ret, c', ops)"
  shows "arms_within env c c' ops"
proof -
  let ?c1 = "(count_packet cfg track c)\<lparr>c_deadline := fe_clock env At_write + c_timeout_ms c * 1000000\<rparr>"
  obtain c2 ops1 where cl: "conn_close cfg 0 False ?c1 = (c2, ops1)" by fastforce
  from arms_close [OF cl] assms cl show ?thesis
    by (auto simp: count_packet_fields write_packet_def arm_deadline_eq Let_def arms_within_def split: if_splits)
qed

lemma arms_network:
  assumes "sync_network_route cfg env c = (go, c', ops)"
  shows "arms_within env c c' ops"
proof -
  obtain c1 ops1 where cl: "conn_close cfg 0 False c = (c1, ops1)" by fastforce
  from arms_close [OF cl] assms cl show ?thesis
    by (auto simp: sync_network_route_def arms_within_def split: if_splits option.splits)
qed

lemma arms_epoch:
  assumes "sync_queue_epoch cfg env epoch extra c = (copied, c', ops)"
  shows "arms_within env c c' ops"
proof -
  obtain c1 ops1 where cl: "conn_close cfg 0 False c = (c1, ops1)" by fastforce
  from arms_close [OF cl, of env] assms cl show ?thesis
    by (auto simp: sync_queue_epoch_def arms_within_def split: if_splits option.splits)
qed

lemma arms_video:
  assumes "write_video cfg env data pts key c = (ret, c', ops)"
  shows "arms_within env c c' ops"
proof -
  let ?hint = "snd (vp_frame_rate (ss_video (fe_settings env)))"
  obtain cached cc where ca: "cache_extra env data key c = (cached, cc)" by fastforce
  then have t: "c_timeout_ms cc = c_timeout_ms c" using cache_extra_ok(3) [of env data key c] by simp
  obtain go c1 ops0 where sn: "sync_network_route cfg env cc = (go, c1, ops0)" by (metis prod_cases3)
  from t arms_network [OF sn] have a0: "arms_within env c c1 ops0" "arms_within env c cc []" by (simp_all add: arms_within_def)
  obtain r c2 ops1 where w: "write_packet cfg env (Video_track (c_video_base c1)) data pts key ?hint c1 = (r, c2, ops1)"
    by (metis prod_cases3)
  obtain r2 c3 ops2 where o: "conn_open cfg env pts c1 = (r2, c3, ops2)" by (metis prod_cases3)
  obtain r3 c4 ops3 where w2: "write_packet cfg env (Video_track (c_video_base c3)) data pts key ?hint c3 = (r3, c4, ops3)"
    by (metis prod_cases3)
  note a = arms_append [OF a0(1) arms_packet [OF w]] arms_append [OF a0(1) arms_open [OF o]]
    arms_append [OF a0(1) arms_append [OF arms_open [OF o] arms_packet [OF w2]]] a0
  have later: "arms_within env c (c3\<lparr>c_retry_after := t\<rparr>) (ops0 @ ops2)" for t
    using a(2) by (simp add: arms_within_def)
  from a later assms ca sn w o w2 show ?thesis
    by (auto simp: write_video_def Let_def split: if_splits option.splits)
qed

lemma arms_audio:
  assumes "write_audio cfg env data pts c = (ret, c', ops)"
  shows "arms_within env c c' ops"
proof -
  obtain go c1 ops0 where sn: "sync_network_route cfg env c = (go, c1, ops0)"
    by (metis prod_cases3)
  note a0 = arms_network [OF sn]
  show ?thesis
    using assms sn a0 arms_append [OF a0 arms_packet]
    by (auto simp: write_audio_def split: if_splits option.splits prod.splits)
qed

lemma arms_send:
  assumes "send_packet cfg env p epoch c = (ret, c', ops)"
  shows "arms_within env c c' ops"
proof -
  obtain copied c1 ops0 where s: "sync_queue_epoch cfg env epoch (p_extra p) c = (copied, c1, ops0)" by (metis prod_cases3)
  let ?d = "case p_data p of None \<Rightarrow> [] | Some d \<Rightarrow> d"
  obtain r c2 ops1 where w: "(if p_video p then write_video cfg env ?d (p_pts p) (p_key p) c1
      else write_audio cfg env ?d (p_pts p) c1) = (r, c2, ops1)" by (metis prod_cases3)
  then have "arms_within env c1 c2 ops1" using arms_video arms_audio by (metis (full_types))
  from arms_append [OF arms_epoch [OF s] this] arms_epoch [OF s] assms s w show ?thesis
    by (cases copied) (simp_all add: send_packet_def Let_def)
qed

lemma endpoint_run_arms:
  "endpoint_run cfg es ep = (ep', ops) \<Longrightarrow>
   \<forall>d. Ff_arm d \<in> set ops \<longrightarrow>
      (\<exists>env k. Ep_send env \<in> set es \<and> d = fe_clock env k + c_timeout_ms (e_conn ep) * 1000000)"
proof (induction es arbitrary: ep ops)
  case Nil
  then show ?case by simp
next
  case (Cons ev es)
  obtain ep1 ops1 where s: "endpoint_step cfg ev ep = (ep1, ops1)" by fastforce
  obtain ops2 where r: "endpoint_run cfg es ep1 = (ep', ops2)" "ops = ops1 @ ops2"
    using Cons.prems s by (auto split: prod.splits)
  have "c_timeout_ms (e_conn ep1) = c_timeout_ms (e_conn ep) \<and>
      (\<forall>d. Ff_arm d \<in> set ops1 \<longrightarrow>
         (\<exists>env k. ev = Ep_send env \<and> d = fe_clock env k + c_timeout_ms (e_conn ep) * 1000000))"
  proof (cases ev)
    case (Ep_send env)
    show ?thesis
    proof (cases "e_hold ep")
      case (Some pg)
      obtain p epoch where pg: "pg = (p, epoch)" by fastforce
      obtain ret c o1 where t: "send_packet cfg env p epoch (e_conn ep) = (ret, c, o1)" by (metis prod_cases3)
      from arms_send [OF t] s Ep_send Some pg t show ?thesis by (auto simp: arms_within_def split: if_splits)
    qed (use s Ep_send in auto)
  qed (use s in \<open>auto split: option.splits prod.splits pop_result.splits\<close>)
  with Cons.IH [OF r(1)] r(2) show ?case by fastforce
qed

text \<open>C30. Every deadline under which an endpoint lets FFmpeg block lies between a tenth of a second and a minute after
  a reading of the clock, whatever the configured timeout, and from that deadline on the interrupt callback
  cancels: no receiver can hold the send thread for longer.\<close>

theorem ffmpeg_calls_bounded:
  assumes "io_timeout_ms st = Some timeout_ms"
    and "endpoint_run cfg es (endpoint_new timeout_ms) = (ep, ops)" and "Ff_arm deadline \<in> set ops"
  shows "\<exists>env k. Ep_send env \<in> set es \<and>
     fe_clock env k + 100 * 1000000 \<le> deadline \<and> deadline \<le> fe_clock env k + 60000 * 1000000 \<and>
     (\<forall>c stopping network q t. c_deadline c = deadline \<and> deadline \<le> t \<longrightarrow> ff_interrupt stopping network t q c)"
proof -
  have "100 \<le> timeout_ms" "timeout_ms \<le> 60000" using assms(1) by (auto simp: io_timeout_ms_def)
  moreover obtain env k where "Ep_send env \<in> set es" "deadline = fe_clock env k + timeout_ms * 1000000"
    using endpoint_run_arms [OF assms(2)] assms(3) by (auto simp: endpoint_new_def connection_new_def)
  ultimately show ?thesis by (intro exI [of _ env] exI [of _ k]) (auto simp: ff_interrupt_def)
qed

theorem ffmpeg_calls_bounded_witness:
  "\<exists>env k. Ep_send env \<in> set example_events \<and>
     fe_clock env k + 100 * 1000000 \<le> 10000000000 \<and> 10000000000 \<le> fe_clock env k + 60000 * 1000000"
proof -
  have "io_timeout_ms \<lparr>g_ini_path = [], g_ini_d = None\<rparr> = Some 5000"
    by (simp add: io_timeout_ms_def rk_param_get_int_def iniparser_getint_def iniparser_getlongint_def
        iniparser_getstring_def)
  moreover obtain ep ops where r: "endpoint_run example_endpoint example_events (endpoint_new 5000) = (ep, ops)"
    by fastforce
  ultimately show ?thesis using ffmpeg_calls_bounded [OF _ r example_endpoint_run(1) [OF r]] by blast
qed

end
