(* ===== verification/EndpointStream.thy ===== *)
theory EndpointStream
  imports FfmpegConnection "HOL-Library.Sublist"
begin

text \<open>
  What a receiver gets: the queue of \<^verbatim>\<open>publisher_queue.hpp\<close> and the send thread and connection of
  \<^verbatim>\<open>ffmpeg_publisher.cpp\<close> taken together. The packets accepted by the queue are compared with those written on
  one connection of FFmpeg.
\<close>

section \<open>The endpoint as a source of packets\<close>

text \<open>One event of an endpoint: the packets its queue accepts, the packets it gives to the send thread.\<close>

definition endpoint_event :: "endpoint_config \<Rightarrow> ep_event \<Rightarrow> endpoint \<Rightarrow> packet list \<times> packet list \<times> endpoint" where
  "endpoint_event cfg e ep =
     (let moves = (\<lambda>ev. case queue_event ev (e_queue ep) of (a, p, q) \<Rightarrow> (a, p))
      in case (case e of
                 Ep_call ev \<Rightarrow> moves ev
               | Ep_take now \<Rightarrow> if e_hold ep = None then moves (Ev_pop now) else ([], [])
               | Ep_send env \<Rightarrow> ([], [])) of
           (a, p) \<Rightarrow> (a, p, fst (endpoint_step cfg e ep)))"

text \<open>Every event is one call on the queue, or none.\<close>

lemma endpoint_event_queue:
  assumes "endpoint_event cfg e ep = (a, p, ep')"
  shows "(\<exists>ev. queue_event ev (e_queue ep) = (a, p, e_queue ep')) \<or> (a = [] \<and> p = [] \<and> e_queue ep' = e_queue ep)"
proof (cases e)
  case (Ep_call ev)
  with assms show ?thesis by (auto simp: endpoint_event_def Let_def split: prod.splits)
next
  case (Ep_take now)
  show ?thesis
  proof (cases "e_hold ep")
    case None
    with Ep_take assms have "queue_event (Ev_pop now) (e_queue ep) = (a, p, e_queue ep')"
      by (auto simp: endpoint_event_def Let_def split: prod.splits pop_result.splits)
    then show ?thesis by blast
  qed (use Ep_take assms in \<open>auto simp: endpoint_event_def\<close>)
next
  case (Ep_send env)
  with assms have "a = []" "p = []" "e_queue ep' \<in> {e_queue ep, queue_reset (e_queue ep)}"
    by (auto simp: endpoint_event_def split: option.splits prod.splits)
  then show ?thesis by (auto intro: exI [of _ Ev_reset])
qed

lemma endpoint_event_laws:
  assumes inv: "queue_inv (e_queue ep)" and st: "endpoint_event cfg e ep = (a, p, ep')"
  shows "queue_inv (e_queue ep')"
    and "q_generation (e_queue ep') = q_generation (e_queue ep) \<Longrightarrow>
      (\<exists>r. queue_pending (e_queue ep) @ a = p @ r \<and> (\<not> q_stopped (e_queue ep') \<longrightarrow> r = queue_pending (e_queue ep'))) \<and>
      (q_waiting_key (e_queue ep') \<longleftrightarrow> q_waiting_key (e_queue ep) \<and> a = []) \<and>
      (q_waiting_key (e_queue ep) \<longrightarrow> a = [] \<or> is_video_key (hd a))"
    and "q_generation (e_queue ep') \<noteq> q_generation (e_queue ep) \<Longrightarrow>
      p = [] \<and> (\<not> q_stopped (e_queue ep') \<longrightarrow> a = queue_pending (e_queue ep')) \<and> (a = [] \<or> is_video_key (hd a)) \<and>
      (q_waiting_key (e_queue ep') \<longleftrightarrow> a = [])"
    and "q_stopped (e_queue ep) \<Longrightarrow> q_stopped (e_queue ep') \<and> a = [] \<and> p = []"
proof -
  let ?q = "e_queue ep" and ?q' = "e_queue ep'"
  have "queue_inv ?q' \<and>
    (q_generation ?q' = q_generation ?q \<longrightarrow>
      (\<exists>r. queue_pending ?q @ a = p @ r \<and> (\<not> q_stopped ?q' \<longrightarrow> r = queue_pending ?q')) \<and>
      (q_waiting_key ?q' \<longleftrightarrow> q_waiting_key ?q \<and> a = []) \<and> (q_waiting_key ?q \<longrightarrow> a = [] \<or> is_video_key (hd a))) \<and>
    (q_generation ?q' \<noteq> q_generation ?q \<longrightarrow>
      p = [] \<and> (\<not> q_stopped ?q' \<longrightarrow> a = queue_pending ?q') \<and> (a = [] \<or> is_video_key (hd a)) \<and>
      (q_waiting_key ?q' \<longleftrightarrow> a = [])) \<and>
    (q_stopped ?q \<longrightarrow> q_stopped ?q' \<and> a = [] \<and> p = [])"
    using endpoint_event_queue [OF st]
  proof
    assume "\<exists>ev. queue_event ev ?q = (a, p, ?q')"
    then obtain ev where ev: "queue_event ev ?q = (a, p, ?q')" ..
    show ?thesis using queue_event_inv [OF inv ev] queue_event_laws [OF inv ev] by blast
  qed (use inv in simp)
  then show "queue_inv ?q'"
    "q_generation ?q' = q_generation ?q \<Longrightarrow>
      (\<exists>r. queue_pending ?q @ a = p @ r \<and> (\<not> q_stopped ?q' \<longrightarrow> r = queue_pending ?q')) \<and>
      (q_waiting_key ?q' \<longleftrightarrow> q_waiting_key ?q \<and> a = []) \<and> (q_waiting_key ?q \<longrightarrow> a = [] \<or> is_video_key (hd a))"
    "q_generation ?q' \<noteq> q_generation ?q \<Longrightarrow>
      p = [] \<and> (\<not> q_stopped ?q' \<longrightarrow> a = queue_pending ?q') \<and> (a = [] \<or> is_video_key (hd a)) \<and>
      (q_waiting_key ?q' \<longleftrightarrow> a = [])"
    "q_stopped ?q \<Longrightarrow> q_stopped ?q' \<and> a = [] \<and> p = []"
    by blast+
qed

interpretation endpoint_gop:
  gop_source "endpoint_event cfg" "\<lambda>ep. q_generation (e_queue ep)" "\<lambda>ep. q_waiting_key (e_queue ep)"
    "\<lambda>ep. q_stopped (e_queue ep)" "\<lambda>ep. queue_pending (e_queue ep)" "\<lambda>ep. queue_inv (e_queue ep)"
  for cfg
proof (unfold_locales, goal_cases)
  case (1 s e a p s')
  then show ?case by (rule endpoint_event_laws(1))
next
  case (2 s e a p s')
  from endpoint_event_laws(2) [OF 2] show ?case by (rule conjunct1)
next
  case (3 s e a p s')
  then show ?case by (rule endpoint_event_laws(3))
next
  case (4 s e a p s')
  from endpoint_event_laws(2) [OF 4] show ?case by (rule conjunct2)
next
  case (5 s e a p s')
  then show ?case by (rule endpoint_event_laws(4))
qed

definition endpoint_history ::
  "endpoint_config \<Rightarrow> int \<Rightarrow> ep_event list \<Rightarrow> endpoint \<times> packet list \<times> packet list" where
  "endpoint_history cfg timeout_ms es =
     gop_run (endpoint_event cfg) (\<lambda>ep. q_generation (e_queue ep)) es (endpoint_new timeout_ms)"

text \<open>The packets the queue has accepted since its generation last changed.\<close>

definition accepted_since :: "endpoint_config \<Rightarrow> int \<Rightarrow> ep_event list \<Rightarrow> packet list" where
  "accepted_since cfg timeout_ms es = fst (snd (endpoint_history cfg timeout_ms es))"

section \<open>What is written\<close>

definition packet_bytes :: "packet \<Rightarrow> byte list" where
  "packet_bytes p = (case p_data p of None \<Rightarrow> [] | Some d \<Rightarrow> d)"

definition videos :: "packet list \<Rightarrow> (byte list \<times> bool) list" where
  "videos ps = map (\<lambda>p. (packet_bytes p, p_key p)) (filter p_video ps)"

lemma videos_simps [simp]:
  "videos [] = []" "videos (xs @ ys) = videos xs @ videos ys"
  "videos [p] = (if p_video p then [(packet_bytes p, p_key p)] else [])"
  by (simp_all add: videos_def)

text \<open>The video packets written on the context allocated last, with their key flags.\<close>

fun written :: "(byte list \<times> bool) list \<Rightarrow> ff_op list \<Rightarrow> (byte list \<times> bool) list" where
  "written w [] = w"
| "written w (Ff_alloc format url nofile # ops) = written [] ops"
| "written w (Ff_packet video t duration key data ok # ops) = written (if video then w @ [(data, key)] else w) ops"
| "written w (_ # ops) = written w ops"

lemma written_append [simp]: "written w (xs @ ys) = written (written w xs) ys"
  by (induction w xs rule: written.induct) auto

section \<open>One packet through the connection\<close>

text \<open>Publishing is possible as far as the connection can see.\<close>

definition way_open :: "ff_env \<Rightarrow> connection \<Rightarrow> bool" where
  "way_open env c \<longleftrightarrow>
     \<not> fe_stopping_route env \<and> (fe_network env = None \<or> fe_network env = Some (c_network_generation c, True))"

lemma close_written:
  assumes "conn_close cfg now t c = (c', ops)"
  shows "written w ops = w" "c_network_generation c' = c_network_generation c"
    "c_context c \<or> \<not> c_ready c \<Longrightarrow> \<not> c_ready c'"
  using assms by (auto simp: conn_close_def arm_deadline_eq Let_def split: if_splits)

lemma epoch_written:
  assumes "sync_queue_epoch cfg env epoch extra c = (copied, c', ops)" "c_context c \<or> \<not> c_ready c"
  shows "written w ops = w" "c_network_generation c' = c_network_generation c"
    "c_ready c' \<Longrightarrow> c_ready c \<and> c_queue_epoch c = epoch"
proof -
  obtain c1 ops1 where cl: "conn_close cfg 0 False c = (c1, ops1)" by fastforce
  from close_written [OF cl] assms cl show "written w ops = w" "c_network_generation c' = c_network_generation c"
    "c_ready c' \<Longrightarrow> c_ready c \<and> c_queue_epoch c = epoch"
    by (auto simp: sync_queue_epoch_def split: if_splits option.splits)
qed

lemma network_written:
  assumes "sync_network_route cfg env c = (go, c', ops)" "c_context c \<or> \<not> c_ready c"
  shows "written w ops = w" "c_ready c' \<Longrightarrow> c_ready c \<and> c_network_generation c' = c_network_generation c"
    "go \<Longrightarrow> way_open env c'"
    "\<not> go \<Longrightarrow> c_ready c' \<Longrightarrow> fe_stopping_route env \<or> fe_network env = Some (c_network_generation c, False)"
proof -
  obtain c1 ops1 where cl: "conn_close cfg 0 False c = (c1, ops1)" by fastforce
  from close_written [OF cl] assms cl show "written w ops = w"
    "c_ready c' \<Longrightarrow> c_ready c \<and> c_network_generation c' = c_network_generation c" "go \<Longrightarrow> way_open env c'"
    "\<not> go \<Longrightarrow> c_ready c' \<Longrightarrow> fe_stopping_route env \<or> fe_network env = Some (c_network_generation c, False)"
    by (auto simp: sync_network_route_def way_open_def split: if_splits option.splits)
qed

lemma packet_written:
  assumes "write_packet cfg env track data pts key hint c = (ret, c', ops)" "c_context c"
  shows "c_network_generation c' = c_network_generation c"
    "if is_video track then written w ops = w @ [(data, key)] \<or> (written w ops = w \<and> send_failed ret)
     else written w ops = w"
proof -
  let ?c1 = "(count_packet cfg track c)\<lparr>c_deadline := fe_clock env At_write + c_timeout_ms c * 1000000\<rparr>"
  obtain c2 ops1 where cl: "conn_close cfg 0 False ?c1 = (c2, ops1)" by fastforce
  have "c_network_generation (count_packet cfg track c) = c_network_generation c" by (cases track) auto
  with close_written [OF cl] assms cl show "c_network_generation c' = c_network_generation c"
    "if is_video track then written w ops = w @ [(data, key)] \<or> (written w ops = w \<and> send_failed ret)
     else written w ops = w"
    by (auto simp: write_packet_def arm_deadline_eq Let_def count_packet_fields split: if_splits)
qed

lemma fail_written:
  assumes "conn_fail cfg env c ops = (ret, c', ops')" "c_context c" "\<not> c_ready c"
  shows "c_network_generation c' = c_network_generation c \<and> ret \<noteq> Some 0 \<and> \<not> c_ready c' \<and> written w ops' = written w ops"
proof -
  obtain c1 ops1 where cl: "conn_close cfg (fe_clock env At_close) True c = (c1, ops1)" by fastforce
  from close_written [OF cl] assms cl show ?thesis by (auto simp: conn_fail_def split: if_splits)
qed

lemma header_written:
  assumes "conn_header cfg env pts vp ap c ops = (ret, c', ops')" "c_context c" "\<not> c_ready c"
  shows "c_network_generation c' = c_network_generation c \<and> (ret \<noteq> Some 0 \<longrightarrow> \<not> c_ready c') \<and>
     written w ops' = written w ops"
proof -
  let ?need = "\<not> c_nofile c"
  let ?options = "muxer_options (ec_format cfg) (ss_transport (fe_settings env)) (c_timeout_ms c)"
  let ?ops1 = "if ?need then ops @ [Ff_connect (ec_url cfg) ?options (fe_avio env)] else ops"
  let ?left = "if ?need then fe_unused_options env ?options else ?options"
  let ?c1 = "c\<lparr>c_pb := ?need\<rparr>"
  let ?ops2 = "?ops1 @ [Ff_header vp ap ?left (fe_header env)]"
  have w: "written w ?ops1 = written w ops" "written w ?ops2 = written w ops" by auto
  consider "?need \<and> \<not> fe_avio env" | "\<not> (?need \<and> \<not> fe_avio env)" "\<not> fe_header env"
    | "\<not> (?need \<and> \<not> fe_avio env)" "fe_header env" by blast
  then show ?thesis
  proof cases
    case 1
    then have "conn_fail cfg env c ?ops1 = (ret, c', ops')" using assms(1) by (simp add: conn_header_def)
    from fail_written [OF this assms(2,3), of w] w show ?thesis by simp
  next
    case 2
    then have "conn_fail cfg env ?c1 ?ops2 = (ret, c', ops')" using assms(1) by (auto simp: conn_header_def Let_def)
    from fail_written [OF this, of w] assms(2,3) w show ?thesis by simp
  next
    case 3
    with assms(1) w show ?thesis by (auto simp: conn_header_def Let_def)
  qed
qed

lemma open_written:
  assumes "conn_open cfg env pts c = (ret, c', ops)" "c_context c \<or> \<not> c_ready c"
  shows "c_network_generation c' = c_network_generation c"
    "ret \<noteq> Some 0 \<Longrightarrow> \<not> c_ready c' \<and> written w ops \<in> {w, []}" "ret = Some 0 \<Longrightarrow> written w ops = []"
proof -
  obtain c0 ops0 where cl: "conn_close cfg (fe_clock env At_close) True c = (c0, ops0)" by fastforce
  note k = close_written [OF cl]
  let ?c1 = "c0\<lparr>c_context := True, c_nofile := fe_nofile env, c_pb := False,
               c_deadline := fe_clock env At_open + c_timeout_ms c0 * 1000000\<rparr>"
  let ?ops = "ops0 @ [Ff_alloc (ec_format cfg) (ec_url cfg) (fe_nofile env),
                      Ff_arm (fe_clock env At_open + c_timeout_ms c0 * 1000000)]"
  let ?ap = "if ec_audio cfg then ss_audio (fe_settings env) else None"
  have n: "\<not> c_ready c0" using k(3) assms(2) by blast
  have w: "written w ?ops = []" by simp
  note o = assms(1) [unfolded conn_open_def cl prod.case arm_deadline_eq Let_def, simplified]
  consider "\<not> fe_alloc env" | "fe_alloc env" "\<not> fe_video_stream env \<or> \<not> fe_extradata env \<or> ec_audio cfg \<and> \<not> fe_audio_stream env"
    | "fe_alloc env" "fe_video_stream env" "fe_extradata env" "ec_audio cfg \<longrightarrow> fe_audio_stream env" by blast
  then have "c_network_generation c' = c_network_generation c \<and>
    (ret \<noteq> Some 0 \<longrightarrow> \<not> c_ready c' \<and> written w ops \<in> {w, []}) \<and> (ret = Some 0 \<longrightarrow> written w ops = [])"
  proof cases
    case 1
    with o k n show ?thesis by auto
  next
    case 2
    with o have "conn_fail cfg env ?c1 ?ops = (ret, c', ops)" by (auto split: if_splits)
    from fail_written [OF this, of w] n k w show ?thesis by simp
  next
    case 3
    with o have "conn_header cfg env pts ((ss_video (fe_settings env))\<lparr>vp_extradata := c_codec_extra c0\<rparr>) ?ap
        (?c1\<lparr>c_audio := ?ap\<rparr>) ?ops = (ret, c', ops)" by (simp split: if_splits)
    from header_written [OF this, of w] n k w show ?thesis by auto
  qed
  then show "c_network_generation c' = c_network_generation c"
    "ret \<noteq> Some 0 \<Longrightarrow> \<not> c_ready c' \<and> written w ops \<in> {w, []}" "ret = Some 0 \<Longrightarrow> written w ops = []" by blast+
qed

text \<open>
  Four things can happen to a packet: nothing is written; it is written on the open context; a context is opened but the packet does
  not reach it; it is the first one on a new context.
\<close>

definition kept :: "ff_env \<Rightarrow> u32 \<Rightarrow> packet \<Rightarrow> connection \<Rightarrow> connection \<Rightarrow> int option \<Rightarrow> bool" where
  "kept env epoch p c c' ret \<longleftrightarrow>
     (c_ready c' \<longrightarrow> c_ready c \<and> c_network_generation c' = c_network_generation c \<and> c_queue_epoch c = epoch \<and>
        (p_video p \<longrightarrow> send_failed ret \<or> fe_stopping_route env \<or> fe_network env = Some (c_network_generation c, False)))"

definition send_effect ::
  "ff_env \<Rightarrow> u32 \<Rightarrow> packet \<Rightarrow> (byte list \<times> bool) list \<Rightarrow> connection \<Rightarrow> connection \<Rightarrow> int option \<Rightarrow> (byte list \<times> bool) list \<Rightarrow> bool" where
  "send_effect env epoch p w c c' ret w' \<longleftrightarrow>
     w' = w \<and> kept env epoch p c c' ret \<or>
     w' = w @ videos [p] \<and> p_video p \<and> c_ready c \<and> c_queue_epoch c = epoch \<and> way_open env c' \<and>
       c_network_generation c' = c_network_generation c \<or>
     w' = [] \<and> send_failed ret \<and> (c_ready c' \<longrightarrow> way_open env c') \<or>
     w' = videos [p] \<and> p_video p \<and> p_key p \<and> way_open env c'"

lemma video_effect:
  assumes "write_video cfg env (packet_bytes p) pts (p_key p) c = (ret, c', ops)" "p_video p"
    and "conn_ok c ph" "c_queue_epoch c = epoch"
  shows "send_effect env epoch p w c c' ret (written w ops)"
proof -
  let ?hint = "snd (vp_frame_rate (ss_video (fe_settings env)))"
  let ?d = "packet_bytes p"
  have ctx: "c_context a \<or> \<not> c_ready a" if "conn_ok a ph'" for a ph'
    using that by (auto simp: conn_ok_def split: if_splits)
  obtain cached cc where ca: "cache_extra env ?d (p_key p) c = (cached, cc)" by fastforce
  then have cc: "c_ready cc = c_ready c" "c_network_generation cc = c_network_generation c"
    by (auto simp: cache_extra_def Let_def split: if_splits)
  from ca cache_extra_ok(1) [OF assms(3), of env ?d "p_key p"] have okc: "conn_ok cc ph" by simp
  obtain go c1 ops0 where sn: "sync_network_route cfg env cc = (go, c1, ops0)" by (metis prod_cases3)
  note n = network_written [OF sn ctx [OF okc]]
  from sync_network_ok [OF okc sn] obtain ph1 where ok1: "conn_ok c1 ph1" by auto
  consider "\<not> cached" | "cached" "\<not> go" | "cached" "go" "c_ready c1"
    | "cached" "go" "\<not> c_ready c1" "\<not> p_key p \<or> c_codec_extra c1 = [] \<or> fe_clock env At_retry < c_retry_after c1"
    | "cached" "go" "\<not> c_ready c1" "p_key p" "\<not> (c_codec_extra c1 = [] \<or> fe_clock env At_retry < c_retry_after c1)" by blast
  then show ?thesis
  proof cases
    case 1
    with assms ca cc show ?thesis by (auto simp: write_video_def send_effect_def kept_def)
  next
    case 2
    with assms ca sn have e: "ret = Some 0" "c' = c1" "ops = ops0" by (auto simp: write_video_def)
    have "kept env epoch p c c' ret" using n(2) n(4) [OF 2(2)] cc assms(4) unfolding kept_def e by auto
    then show ?thesis unfolding send_effect_def e n(1) by blast
  next
    case 3
    obtain r c2 ops1 where wr: "write_packet cfg env (Video_track (c_video_base c1)) ?d pts (p_key p) ?hint c1 = (r, c2, ops1)"
      by (metis prod_cases3)
    with 3 assms(1) ca sn have e: "ret = r" "c' = c2" "ops = ops0 @ ops1" by (auto simp: write_video_def)
    have c1: "c_context c1" using ctx [OF ok1] 3(3) by blast
    note pw = packet_written(1) [OF wr c1] packet_written(2) [OF wr c1, of w]
    have g: "c_network_generation c2 = c_network_generation c" "c_ready c" "way_open env c2"
      using pw(1) n(2,3) 3 cc by (auto simp: way_open_def)
    from pw(2) have "written w ops = w @ videos [p] \<or> written w ops = w \<and> send_failed ret"
      unfolding e using n(1) assms(2) by simp
    then show ?thesis unfolding send_effect_def kept_def e(2) using g assms(2,4) by blast
  next
    case 4
    with assms ca sn have e: "c' = c1" "ops = ops0" by (auto simp: write_video_def)
    with 4 n(1) show ?thesis by (auto simp: send_effect_def kept_def)
  next
    case 5
    obtain r c2 ops1 where o: "conn_open cfg env pts c1 = (r, c2, ops1)" by (metis prod_cases3)
    note ow = open_written(1) [OF o ctx [OF ok1]] open_written(2,3) [OF o ctx [OF ok1], of w]
    show ?thesis
    proof (cases "r = Some 0")
      case False
      with o 5 assms(1) ca sn have e: "send_failed ret" "ops = ops0 @ ops1" "c_ready c' = c_ready c2"
        by (auto simp: write_video_def split: option.splits)
      with ow(2) [OF False] n(1) show ?thesis by (auto simp: send_effect_def kept_def)
    next
      case True
      obtain r2 c3 ops2 where
        wr: "write_packet cfg env (Video_track (c_video_base c2)) ?d pts (p_key p) ?hint c2 = (r2, c3, ops2)"
        by (metis prod_cases3)
      with True o 5 assms(1) ca sn have e: "ret = r2" "c' = c3" "ops = ops0 @ ops1 @ ops2" by (auto simp: write_video_def)
      from conn_open_ok [OF ok1 _ o] 5 True have "c_ready c2" "conn_ok c2 (conn_phase c2 St_header)" by auto
      then have "c_context c2" using ctx by blast
      note pw = packet_written(1) [OF wr this] packet_written(2) [OF wr this, of "[]"]
      have "way_open env c3" using n(3) [OF 5(2)] ow(1) pw(1) by (simp add: way_open_def)
      moreover have "written w ops = videos [p] \<or> written w ops = [] \<and> send_failed ret"
        using pw(2) ow(3) [OF True] n(1) assms(2) unfolding e by simp
      ultimately show ?thesis unfolding send_effect_def e(2) using assms(2) 5(4) by blast
    qed
  qed
qed

lemma audio_effect:
  assumes "write_audio cfg env data pts c = (ret, c', ops)" "\<not> p_video p" "conn_ok c ph" "c_queue_epoch c = epoch"
  shows "send_effect env epoch p w c c' ret (written w ops)"
proof -
  have ctx: "c_context a \<or> \<not> c_ready a" if "conn_ok a ph'" for a ph'
    using that by (auto simp: conn_ok_def split: if_splits)
  obtain go c1 ops0 where sn: "sync_network_route cfg env c = (go, c1, ops0)" by (metis prod_cases3)
  note n = network_written [OF sn ctx [OF assms(3)]]
  from sync_network_ok [OF assms(3) sn] obtain ph1 where ok1: "conn_ok c1 ph1" by auto
  have "written w ops = w \<and> (c_ready c' \<longrightarrow> c_ready c1 \<and> c_network_generation c' = c_network_generation c1)"
  proof (cases "\<exists>ap. c_audio c1 = Some ap \<and> go \<and> c_ready c1 \<and> \<not> pts < c_origin_us c1")
    case False
    then have "c' = c1" "ops = ops0"
      using assms(1) sn by (auto simp: write_audio_def split: option.splits if_splits prod.splits)
    with n(1) show ?thesis by simp
  next
    case True
    then obtain ap where a: "c_audio c1 = Some ap" "go" "c_ready c1" "\<not> pts < c_origin_us c1" by blast
    let ?hint = "int (length data) div max 1 (ap_channels ap)"
    obtain r c2 ops1 where wr: "write_packet cfg env (Audio_track ap) data pts False ?hint c1 = (r, c2, ops1)"
      by (metis prod_cases3)
    have "c_context c1" using ctx [OF ok1] a(3) by blast
    from packet_written(1) [OF wr this] packet_written(2) [OF wr this, of w] a assms(1) sn wr n(1) show ?thesis by (auto simp: write_audio_def)
  qed
  with n(2) assms(2,4) show ?thesis by (auto simp: send_effect_def kept_def)
qed

lemma packet_effect:
  assumes "send_packet cfg env p epoch c = (ret, c', ops)" "conn_ok c ph"
  shows "send_effect env epoch p w c c' ret (written w ops)"
proof -
  obtain copied c1 ops0 where s: "sync_queue_epoch cfg env epoch (p_extra p) c = (copied, c1, ops0)" by (metis prod_cases3)
  have "c_context c \<or> \<not> c_ready c" using assms(2) by (auto simp: conn_ok_def split: if_splits)
  note ew = epoch_written [OF s this]
  from sync_epoch_ok [OF assms(2) s] obtain ph1 where ok1: "conn_ok c1 ph1" "c_queue_epoch c1 = epoch" by auto
  show ?thesis
  proof (cases copied)
    case False
    with assms(1) s have "ret = None" "c' = c1" "ops = ops0" by (auto simp: send_packet_def)
    with ew show ?thesis by (auto simp: send_effect_def kept_def)
  next
    case True
    obtain r c2 ops1 where w: "(if p_video p then write_video cfg env (packet_bytes p) (p_pts p) (p_key p) c1
        else write_audio cfg env (packet_bytes p) (p_pts p) c1) = (r, c2, ops1)" by (metis prod_cases3)
    with True assms(1) s have e: "ret = r" "c' = c2" "ops = ops0 @ ops1"
      by (auto simp: send_packet_def packet_bytes_def [symmetric] Let_def)
    from w video_effect [OF _ _ ok1] audio_effect [OF _ _ ok1]
    have "send_effect env epoch p w c1 c' ret (written w ops)"
      unfolding e using ew(1) by (cases "p_video p") auto
    with ew show ?thesis unfolding send_effect_def kept_def by auto
  qed
qed

section \<open>The environment over a run\<close>

fun sends :: "ep_event list \<Rightarrow> ff_env list" where
  "sends [] = []"
| "sends (Ep_send env # es) = env # sends es"
| "sends (_ # es) = sends es"

lemma sends_append [simp]: "sends (xs @ ys) = sends xs @ sends ys"
  by (induction xs rule: sends.induct) auto

definition halted :: "ff_env \<Rightarrow> bool" where
  "halted env \<longleftrightarrow> fe_stopping env \<or> fe_stopping_route env"

text \<open>
  The stop flag stays set; there is a monitor or there is none; and on one generation of the monitor the link does
  not come back after it was seen up and then down: it gets a new generation (lemma \<open>net_generation_ready\<close>
  of \<open>NetworkRoute\<close>).
\<close>

definition route_coherent :: "ff_env list \<Rightarrow> bool" where
  "route_coherent rs \<longleftrightarrow>
     (\<forall>i j. i < j \<and> j < length rs \<and> halted (rs ! i) \<longrightarrow> halted (rs ! j)) \<and>
     ((\<forall>r \<in> set rs. fe_network r = None) \<or> (\<forall>r \<in> set rs. fe_network r \<noteq> None)) \<and>
     (\<forall>i j k g. i < j \<and> j < k \<and> k < length rs \<and> fe_network (rs ! i) = Some (g, True) \<and>
        fe_network (rs ! j) = Some (g, False) \<longrightarrow> fe_network (rs ! k) \<noteq> Some (g, True))"

text \<open>A connection that was opened on a generation of the monitor, and one that cannot be written any more.\<close>

definition opened :: "ff_env list \<Rightarrow> connection \<Rightarrow> bool" where
  "opened rs c \<longleftrightarrow>
     (rs \<noteq> [] \<and> (\<forall>r \<in> set rs. fe_network r = None)) \<or> (\<exists>r \<in> set rs. fe_network r = Some (c_network_generation c, True))"

definition lost :: "ff_env list \<Rightarrow> connection \<Rightarrow> bool" where
  "lost rs c \<longleftrightarrow>
     (\<exists>r \<in> set rs. halted r) \<or>
     (\<exists>i j. i < j \<and> j < length rs \<and> fe_network (rs ! i) = Some (c_network_generation c, True) \<and>
        fe_network (rs ! j) = Some (c_network_generation c, False))"

lemma route_coherentD:
  assumes "route_coherent rs"
  shows "i < j \<Longrightarrow> j < length rs \<Longrightarrow> halted (rs ! i) \<Longrightarrow> halted (rs ! j)"
    and "(\<forall>r \<in> set rs. fe_network r = None) \<or> (\<forall>r \<in> set rs. fe_network r \<noteq> None)"
    and "i < j \<Longrightarrow> j < k \<Longrightarrow> k < length rs \<Longrightarrow> fe_network (rs ! i) = Some (g, True) \<Longrightarrow>
      fe_network (rs ! j) = Some (g, False) \<Longrightarrow> fe_network (rs ! k) \<noteq> Some (g, True)"
  using assms unfolding route_coherent_def by blast+

lemma coherent_append:
  assumes "route_coherent (xs @ ys)"
  shows "route_coherent xs"
proof -
  have n: "(xs @ ys) ! i = xs ! i" if "i < length xs" for i using that by (simp add: nth_append)
  note c = route_coherentD [OF assms]
  show ?thesis
    unfolding route_coherent_def
  proof (intro conjI allI impI)
    fix i j
    assume "i < j \<and> j < length xs \<and> halted (xs ! i)"
    then show "halted (xs ! j)" using c(1) [of i j] n by simp
  next
    show "(\<forall>r \<in> set xs. fe_network r = None) \<or> (\<forall>r \<in> set xs. fe_network r \<noteq> None)" using c(2) by auto
  next
    fix i j k g
    assume "i < j \<and> j < k \<and> k < length xs \<and> fe_network (xs ! i) = Some (g, True) \<and> fe_network (xs ! j) = Some (g, False)"
    then show "fe_network (xs ! k) \<noteq> Some (g, True)" using c(3) [of i j k g] n by simp
  qed
qed

lemma lost_append:
  assumes "lost xs c"
  shows "lost (xs @ ys) c"
  using assms unfolding lost_def
proof (elim disjE exE)
  fix i j
  assume "i < j \<and> j < length xs \<and> fe_network (xs ! i) = Some (c_network_generation c, True) \<and>
      fe_network (xs ! j) = Some (c_network_generation c, False)"
  then show "(\<exists>r \<in> set (xs @ ys). halted r) \<or>
     (\<exists>i j. i < j \<and> j < length (xs @ ys) \<and> fe_network ((xs @ ys) ! i) = Some (c_network_generation c, True) \<and>
        fe_network ((xs @ ys) ! j) = Some (c_network_generation c, False))"
    by (intro disjI2 exI [of _ i] exI [of _ j]) (simp add: nth_append)
qed auto

lemma opened_snoc: "opened rs c \<Longrightarrow> route_coherent (rs @ [env]) \<Longrightarrow> opened (rs @ [env]) c"
  by (cases rs) (auto simp: opened_def route_coherent_def)

lemma same_generation:
  "c_network_generation c' = c_network_generation c \<Longrightarrow> lost rs c' = lost rs c"
  "c_network_generation c' = c_network_generation c \<Longrightarrow> opened rs c' = opened rs c"
  by (simp_all add: lost_def opened_def)

lemma lost_not_open:
  assumes "lost rs c" "route_coherent (rs @ [env])" "\<not> fe_stopping env" "way_open env c"
  shows False
  using assms(1) unfolding lost_def
proof
  assume "\<exists>r \<in> set rs. halted r"
  then obtain i where "i < length rs" "halted (rs ! i)" by (auto simp: in_set_conv_nth)
  with route_coherentD(1) [OF assms(2), of i "length rs"] have "halted env" by (simp add: nth_append)
  with assms(3,4) show False by (simp add: halted_def way_open_def)
next
  assume "\<exists>i j. i < j \<and> j < length rs \<and> fe_network (rs ! i) = Some (c_network_generation c, True) \<and>
      fe_network (rs ! j) = Some (c_network_generation c, False)"
  then obtain i j where ij: "i < j" "j < length rs" "fe_network (rs ! i) = Some (c_network_generation c, True)"
    "fe_network (rs ! j) = Some (c_network_generation c, False)" by blast
  then have "rs ! j \<in> set (rs @ [env])" "fe_network (rs ! j) \<noteq> None" by auto
  with route_coherentD(2) [OF assms(2)] have "fe_network env \<noteq> None" by auto
  moreover have "fe_network ((rs @ [env]) ! length rs) \<noteq> Some (c_network_generation c, True)"
    using route_coherentD(3) [OF assms(2) ij(1,2), of "c_network_generation c"] ij by (simp add: nth_append)
  ultimately show False using assms(4) by (simp add: way_open_def)
qed

lemma opened_lost:
  assumes "opened rs c" "route_coherent (rs @ [env])" "fe_network env = Some (c_network_generation c, False)"
  shows "lost (rs @ [env]) c"
proof -
  have "\<not> (rs \<noteq> [] \<and> (\<forall>r \<in> set rs. fe_network r = None))"
    using assms(2,3) unfolding route_coherent_def by (cases rs) auto
  with assms(1) obtain i where "i < length rs" "fe_network (rs ! i) = Some (c_network_generation c, True)"
    unfolding opened_def by (metis in_set_conv_nth)
  with assms(3) show ?thesis
    unfolding lost_def by (intro disjI2 exI [of _ i] exI [of _ "length rs"]) (simp add: nth_append)
qed

section \<open>The written packets against the accepted ones\<close>

lemma ep_inv_order:
  assumes "ep_inv n ep ph" "Suc n < 2 ^ 32"
  shows "unat (c_queue_epoch (e_conn ep)) \<le> unat (q_generation (e_queue ep))"
    and "e_hold ep = Some (p, g) \<Longrightarrow> unat (c_queue_epoch (e_conn ep)) \<le> unat g \<and> unat g \<le> unat (q_generation (e_queue ep))"
    and "unat (q_generation (e_queue ep) + 1) = Suc (unat (q_generation (e_queue ep)))"
proof -
  from assms(1) obtain cnt e where i: "cnt \<le> n" "e \<le> cnt" "q_generation (e_queue ep) = of_nat cnt"
      "c_queue_epoch (e_conn ep) = of_nat e" "hold_after e cnt (e_hold ep)"
  proof -
    from assms(1) obtain cnt e where i: "cnt \<le> n" "e \<le> cnt" "q_generation (e_queue ep) = of_nat cnt"
        "c_queue_epoch (e_conn ep) = of_nat e"
        "if headed ph then e < cnt \<and> hold_after (Suc e) cnt (e_hold ep) else hold_after e cnt (e_hold ep)"
      unfolding ep_inv_def by blast
    have "hold_after e cnt (e_hold ep)"
    proof (cases "e_hold ep")
      case (Some h)
      with i(5) show ?thesis by (cases h) (auto split: if_splits)
    qed simp
    with i that show thesis by blast
  qed
  have u: "unat (of_nat m :: u32) = m" if "m \<le> Suc n" for m
    using that assms(2) by (simp add: unat_of_nat take_bit_nat_eq_self)
  show "unat (c_queue_epoch (e_conn ep)) \<le> unat (q_generation (e_queue ep))"
    using i u by simp
  show "e_hold ep = Some (p, g) \<Longrightarrow> unat (c_queue_epoch (e_conn ep)) \<le> unat g \<and> unat g \<le> unat (q_generation (e_queue ep))"
    using i u by auto
  have "q_generation (e_queue ep) + 1 = of_nat (Suc cnt)" using i(3) by (simp add: add.commute)
  then show "unat (q_generation (e_queue ep) + 1) = Suc (unat (q_generation (e_queue ep)))"
    using i u by (simp del: of_nat_Suc)
qed

definition held :: "endpoint \<Rightarrow> packet list" where
  "held ep = (case e_hold ep of None \<Rightarrow> [] | Some (p, g) \<Rightarrow> [p])"

text \<open>
  The packets on the context are consecutive accepted ones of a generation. While the context can still be written, they are the last
  ones delivered but for the packet in the thread's hands.
\<close>

definition stream_current :: "ep_event list \<Rightarrow> endpoint \<Rightarrow> packet list \<Rightarrow> (byte list \<times> bool) list \<Rightarrow> bool" where
  "stream_current es ep out w \<longleftrightarrow>
     unat (c_queue_epoch (e_conn ep)) < unat (q_generation (e_queue ep)) \<or> q_stopped (e_queue ep) \<or>
     lost (sends es) (e_conn ep) \<or> (w \<noteq> [] \<and> (\<exists>b. videos out = b @ w @ videos (held ep)))"

definition stream_inv ::
  "endpoint_config \<Rightarrow> int \<Rightarrow> ep_event list \<Rightarrow> endpoint \<Rightarrow> packet list \<Rightarrow> (byte list \<times> bool) list \<Rightarrow> bool" where
  "stream_inv cfg timeout_ms es ep out w \<longleftrightarrow>
     (\<exists>es1 es2. es = es1 @ es2 \<and> sublist w (videos (accepted_since cfg timeout_ms es1))) \<and>
     (w \<noteq> [] \<longrightarrow> snd (hd w)) \<and>
     (\<forall>p. e_hold ep = Some (p, q_generation (e_queue ep)) \<longrightarrow> (\<exists>o'. out = o' @ [p])) \<and>
     (c_ready (e_conn ep) \<longrightarrow> opened (sends es) (e_conn ep) \<and> stream_current es ep out w)"

lemma stream_inv_longer:
  "\<exists>es1 es2. es = es1 @ es2 \<and> sublist w (videos (accepted_since cfg timeout_ms es1)) \<Longrightarrow>
   \<exists>es1 es2. es @ es' = es1 @ es2 \<and> sublist w (videos (accepted_since cfg timeout_ms es1))"
  by (metis append_assoc)

text \<open>An event that leaves the connection alone.\<close>

lemma stream_same_generation:
  assumes "stream_inv cfg timeout_ms es ep out w" "e_conn ep' = e_conn ep" "sends [e] = []"
    and "q_generation (e_queue ep') = q_generation (e_queue ep)" "q_stopped (e_queue ep) \<longrightarrow> q_stopped (e_queue ep')"
    and "held ep' = held ep @ p"
    and "\<forall>x. e_hold ep' = Some (x, q_generation (e_queue ep')) \<longrightarrow> (\<exists>o'. out @ p = o' @ [x])"
  shows "stream_inv cfg timeout_ms (es @ [e]) ep' (out @ p) w"
  using assms stream_inv_longer [of es w cfg timeout_ms "[e]"] unfolding stream_inv_def stream_current_def by auto

lemma stream_new_generation:
  assumes "stream_inv cfg timeout_ms es ep out w" "e_conn ep' = e_conn ep" "sends [e] = []" "e_hold ep' = e_hold ep"
    and "q_generation (e_queue ep') = q_generation (e_queue ep) + 1" "ep_inv n ep ph" "Suc n < 2 ^ 32"
  shows "stream_inv cfg timeout_ms (es @ [e]) ep' [] w"
proof -
  note o = ep_inv_order [OF assms(6,7)]
  have "\<not> (\<exists>x. e_hold ep' = Some (x, q_generation (e_queue ep')))"
  proof
    assume "\<exists>x. e_hold ep' = Some (x, q_generation (e_queue ep'))"
    then obtain x where "e_hold ep = Some (x, q_generation (e_queue ep'))" using assms(4) by auto
    from o(2) [OF this] o(3) assms(5) show False by simp
  qed
  moreover have "unat (c_queue_epoch (e_conn ep')) < unat (q_generation (e_queue ep'))"
    using o(1,3) assms(2,5) by simp
  ultimately show ?thesis
    using assms stream_inv_longer [of es w cfg timeout_ms "[e]"] unfolding stream_inv_def stream_current_def by auto
qed

lemma way_open_opened: "way_open env c \<Longrightarrow> route_coherent (rs @ [env]) \<Longrightarrow> opened (rs @ [env]) c"
  by (auto simp: way_open_def opened_def dest!: route_coherentD(2))

lemma ep_inv_headed:
  assumes "ep_inv n ep ph" "n < 2 ^ 32" "headed ph" "e_hold ep = Some (p, g)"
  shows "c_queue_epoch (e_conn ep) \<noteq> g"
proof -
  from assms(1,3,4) obtain cnt e h where "cnt \<le> n" "c_queue_epoch (e_conn ep) = of_nat e" "g = of_nat h" "Suc e \<le> h" "h \<le> cnt"
    by (auto simp: ep_inv_def)
  with assms(2) of_nat_u32_inj [of e h] show ?thesis by auto
qed

text \<open>The thread handles the packet it holds: skipped, or sent.\<close>

lemma stream_skip:
  assumes inv: "stream_inv cfg timeout_ms es ep out w" and ei: "ep_inv n ep ph" "Suc n < 2 ^ 32"
    and hold: "e_hold ep = Some (p, g)" and skip: "fe_stopping env \<or> queue_cancelled g (e_queue ep)"
    and coh: "route_coherent (sends es @ [env])"
  shows "stream_inv cfg timeout_ms (es @ [Ep_send env]) (ep\<lparr>e_hold := None\<rparr>) out w"
proof -
  have "halted env \<or> q_stopped (e_queue ep) \<or> unat (c_queue_epoch (e_conn ep)) < unat (q_generation (e_queue ep))"
  proof (cases "fe_stopping env \<or> q_stopped (e_queue ep)")
    case False
    with skip have "g \<noteq> q_generation (e_queue ep)" by (auto simp: queue_cancelled_def)
    then have "unat g \<noteq> unat (q_generation (e_queue ep))" by (simp add: word_unat_eq_iff)
    with ep_inv_order(2) [OF ei hold] show ?thesis by linarith
  qed (auto simp: halted_def)
  then have "stream_current (es @ [Ep_send env]) (ep\<lparr>e_hold := None\<rparr>) out w"
    by (auto simp: stream_current_def lost_def)
  with inv coh show ?thesis
    using stream_inv_longer [of es w cfg timeout_ms "[Ep_send env]"] opened_snoc
    unfolding stream_inv_def by auto
qed

lemma stream_sent:
  assumes inv: "stream_inv cfg timeout_ms es ep out w" and ei: "ep_inv n ep ph" "Suc n < 2 ^ 32"
    and hold: "e_hold ep = Some (p, g)" and live: "\<not> (fe_stopping env \<or> queue_cancelled g (e_queue ep))"
    and sp: "send_packet cfg env p g (e_conn ep) = (ret, c, ops)"
    and coh: "route_coherent (sends es @ [env])" and acc: "accepted_since cfg timeout_ms es = out @ r"
  shows "stream_inv cfg timeout_ms (es @ [Ep_send env])
     (ep\<lparr>e_conn := c, e_hold := None, e_queue := (if send_failed ret then queue_reset (e_queue ep) else e_queue ep)\<rparr>)
     (if send_failed ret then [] else out) (written w ops)"
    (is "stream_inv _ _ _ ?ep ?out _")
proof -
  let ?pv = "videos [p]"
  have g: "g = q_generation (e_queue ep)" "\<not> q_stopped (e_queue ep)" using live by (auto simp: queue_cancelled_def)
  from inv hold g(1) obtain o' where out: "out = o' @ [p]" unfolding stream_inv_def by blast
  have ok: "conn_ok (e_conn ep) ph" using ei(1) by (auto simp: ep_inv_def)
  have "headed ph \<longrightarrow> c_queue_epoch (e_conn ep) \<noteq> g" using ep_inv_headed [OF ei(1) _ _ hold] ei(2) by auto
  with send_packet_ok [OF ok _ sp] have epoch: "c_queue_epoch c = g" by blast
  have failed: "stream_current (es @ [Ep_send env]) ?ep ?out x" if "send_failed ret" for x
    using that epoch g ep_inv_order(3) [OF ei]
    by (simp add: stream_current_def queue_reset_def reset_locked_def)
  have sent: "stream_current (es @ [Ep_send env]) ?ep ?out x" if "videos out = b @ x" "x \<noteq> []" for b x
    using that failed by (cases "send_failed ret") (auto simp: stream_current_def held_def)
  have gone: "stream_current (es @ [Ep_send env]) ?ep ?out x" if "lost (sends es @ [env]) c" for x
    using that by (simp add: stream_current_def)
  have current: "lost (sends es) (e_conn ep) \<or> (w \<noteq> [] \<and> (\<exists>b. videos out = b @ w @ ?pv))"
    if "c_ready (e_conn ep)" "c_queue_epoch (e_conn ep) = g"
    using inv that g hold by (auto simp: stream_inv_def stream_current_def held_def)
  have "(\<exists>es1 es2. es = es1 @ es2 \<and> sublist (written w ops) (videos (accepted_since cfg timeout_ms es1))) \<and>
      (written w ops \<noteq> [] \<longrightarrow> snd (hd (written w ops))) \<and>
      (c_ready c \<longrightarrow> opened (sends es @ [env]) c \<and> stream_current (es @ [Ep_send env]) ?ep ?out (written w ops))"
    using packet_effect [OF sp ok, of w] unfolding send_effect_def
  proof (elim disjE conjE)
    assume w: "written w ops = w" and k: "kept env g p (e_conn ep) c ret"
    have "opened (sends es @ [env]) c \<and> stream_current (es @ [Ep_send env]) ?ep ?out w" if "c_ready c"
    proof -
      from k that have k': "c_ready (e_conn ep)" "c_network_generation c = c_network_generation (e_conn ep)"
        "c_queue_epoch (e_conn ep) = g"
        "p_video p \<longrightarrow> send_failed ret \<or> fe_stopping_route env \<or> fe_network env = Some (c_network_generation (e_conn ep), False)"
        by (auto simp: kept_def)
      note same = same_generation [OF k'(2)]
      have op: "opened (sends es) (e_conn ep)" using inv k'(1) by (auto simp: stream_inv_def)
      have "stream_current (es @ [Ep_send env]) ?ep ?out w"
      proof (cases "p_video p")
        case True
        with k'(4) consider "send_failed ret" | "fe_stopping_route env"
          | "fe_network env = Some (c_network_generation (e_conn ep), False)" by blast
        then show ?thesis
        proof cases
          case 1
          then show ?thesis by (rule failed)
        next
          case 2
          then have "lost (sends es @ [env]) c" by (auto simp: lost_def halted_def)
          then show ?thesis by (rule gone)
        next
          case 3
          from opened_lost [OF op coh this] have "lost (sends es @ [env]) c" by (simp only: same)
          then show ?thesis by (rule gone)
        qed
      next
        case False
        then have "lost (sends es @ [env]) c \<or> (w \<noteq> [] \<and> (\<exists>b. videos out = b @ w))"
          using current [OF k'(1,3)] lost_append [of "sends es" "e_conn ep" "[env]"] same(1) by auto
        then show ?thesis using gone sent by blast
      qed
      with opened_snoc [OF op coh] same show ?thesis by simp
    qed
    with inv w show ?thesis by (auto simp: stream_inv_def)
  next
    assume w: "written w ops = w @ ?pv" and c: "c_ready (e_conn ep)" "c_queue_epoch (e_conn ep) = g" "way_open env c"
      "c_network_generation c = c_network_generation (e_conn ep)" and v: "p_video p"
    from c(3,4) have "way_open env (e_conn ep)" by (simp add: way_open_def)
    with current [OF c(1,2)] lost_not_open [OF _ coh] live obtain b where b: "w \<noteq> []" "videos out = b @ w @ ?pv" by auto
    from b(2) have "sublist (w @ ?pv) (videos (out @ r))" by (simp only: videos_simps) (metis append_assoc sublist_appendI)
    then have "\<exists>es1 es2. es = es1 @ es2 \<and> sublist (w @ ?pv) (videos (accepted_since cfg timeout_ms es1))"
      unfolding acc [symmetric] by (intro exI [of _ es] exI [of _ "[]"]) simp
    moreover have "snd (hd (w @ ?pv))" using inv b(1) by (simp add: stream_inv_def)
    moreover note way_open_opened [OF c(3) coh] sent [OF b(2)]
    ultimately show ?thesis using b(1) unfolding w by simp
  next
    assume w: "written w ops = []" and f: "send_failed ret" and o: "c_ready c \<longrightarrow> way_open env c"
    then show ?thesis using failed [OF f] way_open_opened [OF _ coh] by auto
  next
    assume w: "written w ops = ?pv" and v: "p_video p" "p_key p" and o: "way_open env c"
    have "sublist ?pv (videos (out @ r))" unfolding out videos_simps by (metis append_assoc sublist_appendI)
    then have "\<exists>es1 es2. es = es1 @ es2 \<and> sublist ?pv (videos (accepted_since cfg timeout_ms es1))"
      unfolding acc [symmetric] by (intro exI [of _ es] exI [of _ "[]"]) simp
    moreover have "videos out = videos o' @ ?pv" "?pv \<noteq> []" "snd (hd ?pv)" using out v by simp_all
    ultimately show ?thesis unfolding w using way_open_opened [OF o coh] sent by blast
  qed
  then show ?thesis
    using stream_inv_longer [of es "written w ops" cfg timeout_ms "[Ep_send env]"] unfolding stream_inv_def by simp
qed

section \<open>Properties\<close>

lemma endpoint_history_snoc:
  "endpoint_history cfg timeout_ms (es @ [e]) =
     gop_step (endpoint_event cfg) (\<lambda>ep. q_generation (e_queue ep)) e (endpoint_history cfg timeout_ms es)"
  by (simp add: endpoint_history_def gop_run_def)

lemma accepted_delivered:
  assumes "endpoint_history cfg timeout_ms es = (ep, acc, out)"
  shows "\<exists>r. accepted_since cfg timeout_ms es = out @ r" "queue_inv (e_queue ep)"
proof -
  have "queue_inv (e_queue ep) \<and> (acc = [] \<or> is_video_key (hd acc)) \<and>
      (\<exists>r. acc = out @ r \<and> (\<not> q_stopped (e_queue ep) \<longrightarrow> r = queue_pending (e_queue ep)))"
    by (rule endpoint_gop.gop_run_spec [OF _ _ _ assms [unfolded endpoint_history_def]])
      (simp_all add: endpoint_new_def queue_default_def queue_new_inv, simp_all add: queue_new_def queue_pending_def)
  with assms show "\<exists>r. accepted_since cfg timeout_ms es = out @ r" "queue_inv (e_queue ep)"
    by (auto simp: accepted_since_def)
qed

lemma stream_idle:
  assumes inv: "stream_inv cfg timeout_ms es ep out w" and coh: "route_coherent (sends es @ [env])"
  shows "stream_inv cfg timeout_ms (es @ [Ep_send env]) ep out w"
proof -
  have "stream_current es ep out w \<Longrightarrow> stream_current (es @ [Ep_send env]) ep out w"
    unfolding stream_current_def using lost_append [of "sends es" "e_conn ep" "[env]"] by auto
  moreover note opened_snoc [OF _ coh] stream_inv_longer [of es w cfg timeout_ms "[Ep_send env]"]
  ultimately show ?thesis using inv unfolding stream_inv_def by (simp only: sends_append sends.simps append_Nil) blast
qed

lemma stream_call:
  assumes inv: "stream_inv cfg timeout_ms es ep out w" and ei: "ep_inv n ep ph" "Suc n < 2 ^ 32"
    and "\<forall>t. ev \<noteq> Ev_pop t" and st: "endpoint_event cfg (Ep_call ev) ep = (a, p, ep')" and q: "queue_inv (e_queue ep)"
  shows "stream_inv cfg timeout_ms (es @ [Ep_call ev]) ep'
     (if q_generation (e_queue ep') = q_generation (e_queue ep) then out @ p else p) w"
proof -
  from st have ep': "ep' = ep\<lparr>e_queue := snd (snd (queue_event ev (e_queue ep)))\<rparr>" "p = fst (snd (queue_event ev (e_queue ep)))"
    by (auto simp: endpoint_event_def Let_def split: prod.splits)
  have p: "p = []" using assms(4) ep'(2) by (cases ev) (auto split: prod.splits)
  note stopped = endpoint_event_laws(4) [OF q st]
  show ?thesis
  proof (cases "q_generation (e_queue ep') = q_generation (e_queue ep)")
    case True
    have "stream_inv cfg timeout_ms (es @ [Ep_call ev]) ep' (out @ []) w"
      by (rule stream_same_generation [OF inv])
        (use True ep' stopped inv in \<open>auto simp: held_def stream_inv_def\<close>)
    with True p show ?thesis by simp
  next
    case False
    with queue_event_generation [of ev "e_queue ep"] ep' have
      "q_generation (e_queue ep') = q_generation (e_queue ep) + 1" by auto
    from stream_new_generation [OF inv _ _ _ this ei, of "Ep_call ev"] False p ep' show ?thesis by simp
  qed
qed

lemma stream_take:
  assumes inv: "stream_inv cfg timeout_ms es ep out w" and ei: "ep_inv n ep ph" "Suc n < 2 ^ 32"
    and st: "endpoint_event cfg (Ep_take now) ep = (a, p, ep')" and q: "queue_inv (e_queue ep)"
  shows "stream_inv cfg timeout_ms (es @ [Ep_take now]) ep'
     (if q_generation (e_queue ep') = q_generation (e_queue ep) then out @ p else p) w"
proof (cases "e_hold ep")
  case (Some h)
  with st have e: "p = []" "ep' = ep" by (auto simp: endpoint_event_def)
  have "stream_inv cfg timeout_ms (es @ [Ep_take now]) ep (out @ []) w"
    by (rule stream_same_generation [OF inv]) (use inv in \<open>auto simp: stream_inv_def\<close>)
  with e show ?thesis by simp
next
  case None
  note stopped = endpoint_event_laws(4) [OF q st]
  obtain res q' where pop: "queue_pop now (e_queue ep) = (res, q')" by fastforce
  note g = queue_pop_generation [OF pop]
  have ep': "e_queue ep' = q'" "e_conn ep' = e_conn ep"
    "e_hold ep' = (case res of Pop_item x y \<Rightarrow> Some (x, y) | _ \<Rightarrow> None)" "p = (case res of Pop_item x y \<Rightarrow> [x] | _ \<Rightarrow> [])"
    using None pop st by (auto simp: endpoint_event_def Let_def split: pop_result.splits)
  show ?thesis
  proof (cases "q_generation q' = q_generation (e_queue ep)")
    case True
    have "stream_inv cfg timeout_ms (es @ [Ep_take now]) ep' (out @ p) w"
      by (rule stream_same_generation [OF inv])
        (use True ep' None stopped in \<open>auto simp: held_def split: pop_result.splits\<close>)
    with True ep'(1) show ?thesis by simp
  next
    case False
    with g have "q_generation (e_queue ep') = q_generation (e_queue ep) + 1" "e_hold ep' = e_hold ep" "p = []"
      using ep' None by (auto split: pop_result.splits)
    from stream_new_generation [OF inv ep'(2) _ this(2,1) ei, of "Ep_take now"] this(3) False ep'(1) show ?thesis by simp
  qed
qed

lemma stream_send:
  assumes inv: "stream_inv cfg timeout_ms es ep out w" and ei: "ep_inv n ep ph" "Suc n < 2 ^ 32"
    and st: "endpoint_step cfg (Ep_send env) ep = (ep', ops)"
    and coh: "route_coherent (sends es @ [env])" and acc: "accepted_since cfg timeout_ms es = out @ r"
  shows "stream_inv cfg timeout_ms (es @ [Ep_send env]) ep'
     (if q_generation (e_queue ep') = q_generation (e_queue ep) then out else []) (written w ops)"
proof (cases "e_hold ep")
  case None
  with st stream_idle [OF inv coh] show ?thesis by simp
next
  case (Some pg)
  obtain p g where h: "e_hold ep = Some (p, g)" using Some by (cases pg) auto
  show ?thesis
  proof (cases "fe_stopping env \<or> queue_cancelled g (e_queue ep)")
    case True
    from stream_skip [OF inv ei h True coh] st h True show ?thesis by auto
  next
    case False
    obtain ret c ops1 where sp: "send_packet cfg env p g (e_conn ep) = (ret, c, ops1)" by (metis prod_cases3)
    from stream_sent [OF inv ei h False sp coh acc] st h False sp show ?thesis
      by (cases "send_failed ret") (auto simp: queue_reset_def reset_locked_def)
  qed
qed

lemma stream_run:
  assumes "endpoint_run cfg es (endpoint_new timeout_ms) = (ep, ops)" "length es < 2 ^ 32"
    and "route_coherent (sends es)" "\<forall>t. Ep_call (Ev_pop t) \<notin> set es"
  shows "\<exists>acc out ph. endpoint_history cfg timeout_ms es = (ep, acc, out) \<and> ep_inv (length es) ep ph \<and>
     stream_inv cfg timeout_ms es ep out (written [] ops)"
  using assms
proof (induction es arbitrary: ep ops rule: rev_induct)
  case Nil
  then show ?case using ep_inv_new [of timeout_ms]
    by (auto simp: endpoint_history_def gop_run_def stream_inv_def endpoint_new_def connection_new_def)
next
  case (snoc e es)
  obtain ep0 ops0 where r: "endpoint_run cfg es (endpoint_new timeout_ms) = (ep0, ops0)" by fastforce
  obtain ops1 where s: "endpoint_step cfg e ep0 = (ep, ops1)" "ops = ops0 @ ops1"
    using snoc.prems(1) r by (auto simp: endpoint_run_append split: prod.splits)
  from snoc.IH [OF r] snoc.prems(2-4) coherent_append obtain acc out ph where
    h: "endpoint_history cfg timeout_ms es = (ep0, acc, out)" and ei: "ep_inv (length es) ep0 ph" and
    inv: "stream_inv cfg timeout_ms es ep0 out (written [] ops0)" by fastforce
  have n: "Suc (length es) < 2 ^ 32" using snoc.prems(2) by simp
  from endpoint_step_inv [OF ei _ s(1)] n obtain ph' where ei': "ep_inv (length (es @ [e])) ep ph'" by auto
  from accepted_delivered [OF h] obtain rest where acc: "accepted_since cfg timeout_ms es = out @ rest"
    and q: "queue_inv (e_queue ep0)" by blast
  have "snd (snd (endpoint_event cfg e ep0)) = ep"
    using s(1) by (simp add: endpoint_event_def Let_def prod.case_eq_if)
  then obtain a p where ev: "endpoint_event cfg e ep0 = (a, p, ep)" by (metis prod.collapse)
  let ?out = "if q_generation (e_queue ep) = q_generation (e_queue ep0) then out @ p else p"
  have hist: "\<exists>acc'. endpoint_history cfg timeout_ms (es @ [e]) = (ep, acc', ?out)"
    by (simp add: endpoint_history_snoc h gop_step_def ev)
  have "stream_inv cfg timeout_ms (es @ [e]) ep ?out (written (written [] ops0) ops1)"
  proof (cases e)
    case (Ep_call qe)
    with snoc.prems(4) have "\<forall>t. qe \<noteq> Ev_pop t" by auto
    from stream_call [OF inv ei n this ev [unfolded Ep_call] q] Ep_call s(1) show ?thesis by auto
  next
    case (Ep_take now)
    with s(1) have "ops1 = []" by (auto split: option.splits prod.splits pop_result.splits)
    with Ep_take stream_take [OF inv ei n ev [unfolded Ep_take] q] show ?thesis by simp
  next
    case (Ep_send env)
    with ev have "p = []" by (auto simp: endpoint_event_def)
    with Ep_send stream_send [OF inv ei n s(1) [unfolded Ep_send] _ acc] snoc.prems(3) show ?thesis
      by (auto split: if_splits)
  qed
  with hist ei' s(2) show ?case by auto
qed


text \<open>Two frames pass.\<close>

definition example_stream :: "ep_event list" where
  "example_stream =
     [Ep_call (Ev_push True (example_packet\<lparr>p_extra := Some [1]\<rparr>) 0),
      Ep_call (Ev_push True (example_packet\<lparr>p_data := Some [0, 0, 0, 1, 0x41], p_key := False\<rparr>) 0),
      Ep_take 1, Ep_send ff_env_ok, Ep_take 1, Ep_send ff_env_ok]"

lemma example_stream_written:
  "written [] (snd (endpoint_run example_endpoint example_stream (endpoint_new 5000))) =
     [([0, 0, 0, 1, 0x65, 0x88], True), ([0, 0, 0, 1, 0x41], False)]"
proof -
  have ps: "annexb_parameter_sets [0, 0, 0, 1, 0x65, 0x88] False = ps_empty"
    using ps_loop_stream [of "[(True, [0x65, 0x88])]" False "[]" ps_empty]
    by (simp add: annexb_parameter_sets_def nal_ok_def nal_bytes_def ps_unit_def ps_add_def nal_flag_def
        nal_type_def Let_def)
  show ?thesis
    by (simp add: example_stream_def endpoint_new_def queue_default_def queue_new_def example_packet_def
        queue_push_def queue_room_def queue_pop_def queue_cancelled_def send_packet_def sync_queue_epoch_def
        write_video_def sync_network_route_def cache_extra_def ps ps_complete_def ps_empty_def ff_env_ok_def
        connection_new_def conn_open_def conn_header_def conn_close_def write_packet_def arm_deadline_def Let_def
        example_endpoint_def)
qed


end
