(* ===== verification/PublisherManager.thy ===== *)
theory PublisherManager
  imports FfmpegConnection Param ConfigExample
begin

text \<open>
  The publishing front of \<^verbatim>\<open>src/publisher/ffmpeg_publisher.cpp\<close>: the checks of
  \<^verbatim>\<open>ffmpeg_publisher_init\<close>, the endpoints a configuration creates, and the fan-out of captured
  packets by \<^verbatim>\<open>PublisherManager\<close>. Endpoints are represented by their queues. The properties
  are that endpoints do not influence each other and that a configuration that passed the
  start-up check is never refused here.
\<close>

section \<open>Initialisation\<close>

definition self_check_stream :: "byte list" where
  "self_check_stream =
     [0, 0, 0, 1, 0x67, 0x64, 0x00, 0x1f, 0, 0, 0, 1, 0x68, 0xee, 0x3c, 0x80, 0, 0, 0, 1, 0x65, 0x88]"

definition publisher_self_check :: bool where
  "publisher_self_check \<longleftrightarrow>
     (let extra = annexb_parameter_sets self_check_stream False
      in ps_complete False extra \<and> length (ps_data extra) = 16 \<and> take 16 (ps_data extra) = take 16 self_check_stream \<and>
         \<not> ps_complete False (annexb_parameter_sets (take 8 self_check_stream) False))"

text \<open>One video channel: accepted codec name and even dimensions.\<close>

definition channel_supported :: "param_state \<Rightarrow> nat \<Rightarrow> bool option" where
  "channel_supported st i =
     (case video_text st i ''output_data_type'' ''H.264'' of
        Str codec \<Rightarrow>
          if codec \<noteq> ''H.264'' \<and> codec \<noteq> ''H.265'' then Some False
          else (case video_value st i ''width'' 0 of
                  None \<Rightarrow> None
                | Some w \<Rightarrow>
                    if odd w then Some False
                    else (case video_value st i ''height'' 0 of None \<Rightarrow> None | Some h \<Rightarrow> Some (even h)))
      | _ \<Rightarrow> None)"

definition url_given :: "param_state \<Rightarrow> string \<Rightarrow> bool" where
  "url_given st key = (case rk_param_get_string st key (Str []) of Str url \<Rightarrow> url \<noteq> [] | _ \<Rightarrow> False)"

definition urls_given :: "param_state \<Rightarrow> bool \<Rightarrow> bool \<Rightarrow> bool" where
  "urls_given st rtsp rtmp \<longleftrightarrow>
     (rtsp \<longrightarrow> url_given st ''stream:rtsp_main_url'' \<and> url_given st ''stream:rtsp_ai_url'') \<and>
     (rtmp \<longrightarrow> url_given st ''stream:rtmp_main_url'' \<and> url_given st ''stream:rtmp_ai_url'')"

text \<open>The checks before the manager is created: \<open>Some 0\<close> goes on, \<open>Some (-1)\<close> refuses.\<close>

definition publisher_config_check :: "param_state \<Rightarrow> int option" where
  "publisher_config_check st =
     (if \<not> publisher_self_check then Some (-1)
      else (case channel_supported st 0 of None \<Rightarrow> None | Some ok0 \<Rightarrow>
        if \<not> ok0 then Some (-1)
        else (case channel_supported st 1 of None \<Rightarrow> None | Some ok1 \<Rightarrow>
          if \<not> ok1 then Some (-1)
          else (case (rk_param_get_int st ''stream:enable_rtsp'' 0, rk_param_get_int st ''stream:enable_rtmp'' 0) of
                  (Some a, Some b) \<Rightarrow>
                    if a = 0 \<and> b = 0 then Some (-1)
                    else if \<not> urls_given st (a \<noteq> 0) (b \<noteq> 0) then Some (-1)
                    else if b \<noteq> 0
                    then (case (video_codec st 0, video_codec st 1) of
                            (Some h0, Some h1) \<Rightarrow> if h0 \<or> h1 then Some (-1) else Some 0
                          | _ \<Rightarrow> None)
                    else Some 0
                | _ \<Rightarrow> None))))"

section \<open>The manager\<close>

record manager =
  m_endpoints :: "(nat \<times> queue) list"
  m_extra :: "nat \<Rightarrow> byte list option"

text \<open>One endpoint per enabled protocol, stream and non-empty URL: name, configuration.\<close>

definition add_endpoint ::
  "param_state \<Rightarrow> string \<Rightarrow> string \<Rightarrow> string \<Rightarrow> string \<Rightarrow> nat \<Rightarrow> bool \<Rightarrow> endpoint_config list option" where
  "add_endpoint st name enable_key url_key format i audio =
     (case rk_param_get_int st enable_key 0 of
        None \<Rightarrow> None
      | Some e \<Rightarrow>
          if e = 0 then Some []
          else (case rk_param_get_string st url_key (Str []) of
                  Str url \<Rightarrow>
                    if url = [] then Some []
                    else Some [\<lparr>ec_name = name, ec_url = url, ec_format = format, ec_stream_id = i, ec_audio = audio\<rparr>]
                | _ \<Rightarrow> Some []))"

fun append_endpoints :: "endpoint_config list option list \<Rightarrow> endpoint_config list option" where
  "append_endpoints [] = Some []"
| "append_endpoints (None # xs) = None"
| "append_endpoints (Some e # xs) = map_option ((@) e) (append_endpoints xs)"

definition manager_endpoints :: "param_state \<Rightarrow> endpoint_config list option" where
  "manager_endpoints st =
     append_endpoints
       [add_endpoint st ''rtsp-main'' ''stream:enable_rtsp'' ''stream:rtsp_main_url'' ''rtsp'' 0 True,
        add_endpoint st ''rtmp-main'' ''stream:enable_rtmp'' ''stream:rtmp_main_url'' ''flv'' 0 True,
        add_endpoint st ''rtsp-ai'' ''stream:enable_rtsp'' ''stream:rtsp_ai_url'' ''rtsp'' 1 False,
        add_endpoint st ''rtmp-ai'' ''stream:enable_rtmp'' ''stream:rtmp_ai_url'' ''flv'' 1 False]"

definition manager_new :: "endpoint_config list \<Rightarrow> manager" where
  "manager_new cfgs = \<lparr>m_endpoints = map (\<lambda>c. (ec_stream_id c, queue_default)) cfgs, m_extra = \<lambda>_. None\<rparr>"

definition discard_channel :: "nat \<Rightarrow> manager \<Rightarrow> manager" where
  "discard_channel i m =
     m\<lparr>m_endpoints := map (\<lambda>(j, q). if j = i then (j, queue_reset q) else (j, q)) (m_endpoints m)\<rparr>"

text \<open>\<open>mem k\<close> is the outcome of the allocation for the \<open>k\<close>-th endpoint.\<close>

fun fan_out ::
  "nat \<Rightarrow> packet \<Rightarrow> int \<Rightarrow> (nat \<Rightarrow> bool) \<Rightarrow> (nat \<times> queue) list \<Rightarrow> int \<times> (nat \<times> queue) list" where
  "fan_out i p now mem [] = (0, [])"
| "fan_out i p now mem ((j, q) # eps) =
     (case fan_out i p now (mem \<circ> Suc) eps of
        (ret, eps') \<Rightarrow>
          if j = i
          then (case endpoint_enqueue (mem 0) p now q of (r, q') \<Rightarrow> (if r = 0 then ret else -1, (j, q') # eps'))
          else (ret, (j, q) # eps'))"

definition MAX_PACKET :: nat where
  "MAX_PACKET = 2 * 1024 * 1024"

text \<open>
  Which allocations of a call succeed: the parameter sets found in a key frame, the snapshot kept of them, the copy of
  the data, and the queue entries.
\<close>

record capture_memory =
  cm_scan :: bool
  cm_snapshot :: bool
  cm_data :: bool
  cm_push :: "nat \<Rightarrow> bool"

definition memory_ok :: capture_memory where
  "memory_ok = \<lparr>cm_scan = True, cm_snapshot = True, cm_data = True, cm_push = (\<lambda>_. True)\<rparr>"

text \<open>The cached parameter sets after a key frame; \<open>None\<close> is an exception, before anything was changed.\<close>

definition update_extra ::
  "capture_memory \<Rightarrow> bool \<Rightarrow> nat \<Rightarrow> byte list \<Rightarrow> bool \<Rightarrow> (nat \<Rightarrow> byte list option) \<Rightarrow> (nat \<Rightarrow> byte list option) option" where
  "update_extra cm h265 i bytes key extra =
     (if \<not> key then Some extra
      else if \<not> cm_scan cm then None
      else
        (let sets = annexb_parameter_sets bytes h265
         in if ps_complete h265 sets \<and> extra i \<noteq> Some (ps_data sets)
            then (if cm_snapshot cm then Some (extra(i := Some (ps_data sets))) else None)
            else Some extra))"

definition enqueue_video ::
  "capture_memory \<Rightarrow> bool \<Rightarrow> bool \<Rightarrow> int \<Rightarrow> byte list option \<Rightarrow> u64 \<Rightarrow> bool \<Rightarrow> int \<Rightarrow> manager \<Rightarrow> int \<times> manager" where
  "enqueue_video cm stopping h265 i data pts key now m =
     (case data of
        Some bytes \<Rightarrow>
          if stopping \<or> i < 0 \<or> i > 1 \<or> bytes = [] \<or> length bytes > MAX_PACKET
          then (-1, if i \<ge> 0 \<and> i \<le> 1 then discard_channel (nat i) m else m)
          else
            (case update_extra cm h265 (nat i) bytes key (m_extra m) of
               None \<Rightarrow> (-1, discard_channel (nat i) m)
             | Some extra \<Rightarrow>
                 if \<not> cm_data cm then (-1, discard_channel (nat i) (m\<lparr>m_extra := extra\<rparr>))
                 else
                   (let p = \<lparr>p_data = Some bytes, p_extra = extra (nat i), p_pts = pts, p_video = True, p_key = key\<rparr>
                    in (case fan_out (nat i) p now (cm_push cm) (m_endpoints m) of
                          (ret, eps) \<Rightarrow> (ret, m\<lparr>m_endpoints := eps, m_extra := extra\<rparr>))))
      | None \<Rightarrow> (-1, if i \<ge> 0 \<and> i \<le> 1 then discard_channel (nat i) m else m))"

definition enqueue_audio ::
  "capture_memory \<Rightarrow> bool \<Rightarrow> byte list option \<Rightarrow> u64 \<Rightarrow> int \<Rightarrow> manager \<Rightarrow> int \<times> manager" where
  "enqueue_audio cm stopping data pts now m =
     (case data of
        Some bytes \<Rightarrow>
          if stopping \<or> bytes = [] \<or> length bytes > MAX_PACKET then (-1, m)
          else if \<not> cm_data cm then (-1, discard_channel 0 m)
          else
            (let p = \<lparr>p_data = Some bytes, p_extra = None, p_pts = pts, p_video = False, p_key = False\<rparr>
             in (case fan_out 0 p now (cm_push cm) (m_endpoints m) of (ret, eps) \<Rightarrow> (ret, m\<lparr>m_endpoints := eps\<rparr>)))
      | None \<Rightarrow> (-1, m))"

datatype capture =
    Cap_video capture_memory bool int "byte list option" u64 bool int
  | Cap_audio capture_memory "byte list option" u64 int

fun manager_step :: "bool \<Rightarrow> capture \<Rightarrow> manager \<Rightarrow> manager" where
  "manager_step stopping (Cap_video cm h265 i data pts key now) m =
     snd (enqueue_video cm stopping h265 i data pts key now m)"
| "manager_step stopping (Cap_audio cm data pts now) m = snd (enqueue_audio cm stopping data pts now m)"

text \<open>
  The receiver and the ports to probe for the failover route. \<open>split\<close> stands for
  \<^verbatim>\<open>av_url_split\<close>: host (cut to the 256-byte buffer) and port, \<open>-1\<close> for none. \<open>Inl\<close> is
  the exception for URLs of different receivers.
\<close>

definition route_urls :: "(bool \<times> string) list" where
  "route_urls = [(True, ''stream:rtsp_main_url''), (True, ''stream:rtsp_ai_url''),
                 (False, ''stream:rtmp_main_url''), (False, ''stream:rtmp_ai_url'')]"

definition default_port :: "bool \<Rightarrow> int \<Rightarrow> int" where
  "default_port rtsp port = (if port > 0 then port else if rtsp then 554 else 1935)"

fun route_probes ::
  "(cptr \<Rightarrow> string \<times> int) \<Rightarrow> param_state \<Rightarrow> string \<Rightarrow> int list \<Rightarrow> (bool \<times> string) list \<Rightarrow>
   (string + string \<times> int list) option" where
  "route_probes split st host ports [] = Some (Inr (host, ports))"
| "route_probes split st host ports ((rtsp, key) # urls) =
     (case rk_param_get_int st (if rtsp then ''stream:enable_rtsp'' else ''stream:enable_rtmp'') 0 of
        None \<Rightarrow> None
      | Some e \<Rightarrow>
          if e = 0 then route_probes split st host ports urls
          else
            (case split (rk_param_get_string st key (Str [])) of
               (current, port) \<Rightarrow>
                 if host \<noteq> [] \<and> host \<noteq> current
                 then Some (Inl ''failover requires all URLs to use the same IPv4 receiver'')
                 else
                   (let probe = default_port rtsp port
                    in route_probes split st (if host = [] then current else host)
                         (if probe \<in> set ports then ports else ports @ [probe]) urls)))"

definition initialize_network_route ::
  "(cptr \<Rightarrow> string \<times> int) \<Rightarrow> param_state \<Rightarrow> (string + (string \<times> int list) option) option" where
  "initialize_network_route split st =
     (case rk_param_get_int st ''network:enable_failover'' 0 of
        None \<Rightarrow> None
      | Some e \<Rightarrow>
          if e = 0 then Some (Inr None)
          else map_option (map_sum id Some) (route_probes split st [] [] route_urls))"

section \<open>The process-wide publisher\<close>

text \<open>
  The stop flag, the manager, and how often \<^verbatim>\<open>avformat_network_init\<close> was called without its counterpart.
  The environment: URL splitting, whether the route monitor and the send threads can be created, and FFmpeg's
  initialisation.
\<close>

record publisher =
  pub_stopping :: bool
  pub_manager :: "manager option"
  pub_network :: nat

record publisher_env =
  pe_split :: "cptr \<Rightarrow> string \<times> int"
  pe_route :: "string \<Rightarrow> int list \<Rightarrow> bool"
  pe_network :: bool
  pe_threads :: bool

definition publisher_initial :: publisher where
  "publisher_initial = \<lparr>pub_stopping = False, pub_manager = None, pub_network = 0\<rparr>"

text \<open>The constructor of the manager: \<open>False\<close> is an exception.\<close>

definition manager_create :: "publisher_env \<Rightarrow> param_state \<Rightarrow> publisher \<Rightarrow> (bool \<times> publisher) option" where
  "manager_create env st p =
     (case initialize_network_route (pe_split env) st of
        None \<Rightarrow> None
      | Some (Inl e) \<Rightarrow> Some (False, p)
      | Some (Inr route) \<Rightarrow>
          if (case route of None \<Rightarrow> False | Some (host, ports) \<Rightarrow> \<not> pe_route env host ports) then Some (False, p)
          else if \<not> pe_network env then Some (False, p)
          else
            (let p1 = p\<lparr>pub_network := pub_network p + 1\<rparr>
             in (case manager_endpoints st of
                   None \<Rightarrow> None
                 | Some cfgs \<Rightarrow>
                     if cfgs \<noteq> [] \<and> \<not> pe_threads env then Some (False, p1\<lparr>pub_network := pub_network p1 - 1\<rparr>)
                     else Some (True, p1\<lparr>pub_manager := Some (manager_new cfgs)\<rparr>))))"

definition ffmpeg_publisher_init :: "publisher_env \<Rightarrow> param_state \<Rightarrow> publisher \<Rightarrow> (int \<times> publisher) option" where
  "ffmpeg_publisher_init env st p =
     (if pub_manager p \<noteq> None then Some (0, p)
      else (case publisher_config_check st of
              None \<Rightarrow> None
            | Some rc \<Rightarrow>
                if rc \<noteq> 0 then Some (-1, p)
                else map_option (\<lambda>(built, p1). (if built then 0 else -1, p1))
                       (manager_create env st (p\<lparr>pub_stopping := False\<rparr>))))"

definition ffmpeg_publisher_interrupt :: "publisher \<Rightarrow> publisher" where
  "ffmpeg_publisher_interrupt p = p\<lparr>pub_stopping := True\<rparr>"

definition ffmpeg_publisher_deinit :: "publisher \<Rightarrow> publisher" where
  "ffmpeg_publisher_deinit p =
     (case pub_manager p of
        None \<Rightarrow> p
      | Some m \<Rightarrow> p\<lparr>pub_manager := None, pub_network := pub_network p - 1\<rparr>)"

definition ffmpeg_publisher_write_video ::
  "capture_memory \<Rightarrow> bool \<Rightarrow> int \<Rightarrow> byte list option \<Rightarrow> u64 \<Rightarrow> bool \<Rightarrow> int \<Rightarrow> publisher \<Rightarrow> int \<times> publisher" where
  "ffmpeg_publisher_write_video cm h265 i data pts key now p =
     (case pub_manager p of
        None \<Rightarrow> (-1, p)
      | Some m \<Rightarrow>
          (case enqueue_video cm (pub_stopping p) h265 i data pts key now m of
             (ret, m1) \<Rightarrow> (ret, p\<lparr>pub_manager := Some m1\<rparr>)))"

definition ffmpeg_publisher_write_audio ::
  "capture_memory \<Rightarrow> byte list option \<Rightarrow> u64 \<Rightarrow> int \<Rightarrow> publisher \<Rightarrow> int \<times> publisher" where
  "ffmpeg_publisher_write_audio cm data pts now p =
     (case pub_manager p of
        None \<Rightarrow> (-1, p)
      | Some m \<Rightarrow>
          (case enqueue_audio cm (pub_stopping p) data pts now m of
             (ret, m1) \<Rightarrow> (ret, p\<lparr>pub_manager := Some m1\<rparr>)))"

text \<open>FFmpeg's network layer is initialised exactly while there is a manager.\<close>

definition publisher_inv :: "publisher \<Rightarrow> bool" where
  "publisher_inv p \<longleftrightarrow> pub_network p = (if pub_manager p = None then 0 else 1)"

lemma publisher_inv_initial [wf_intros]: "publisher_inv publisher_initial"
  by (simp add: publisher_inv_def publisher_initial_def)

lemma publisher_inv_init [wf_intros]:
  "publisher_inv p \<Longrightarrow> ffmpeg_publisher_init env st p = Some (ret, p') \<Longrightarrow>
   publisher_inv p' \<and> (ret = 0) = (pub_manager p' \<noteq> None)"
  by (auto simp: publisher_inv_def ffmpeg_publisher_init_def manager_create_def Let_def
      split: option.splits sum.splits if_splits)

lemma publisher_inv_steps [wf_intros]:
  assumes "publisher_inv p"
  shows "publisher_inv (ffmpeg_publisher_interrupt p)" "publisher_inv (ffmpeg_publisher_deinit p)"
    "publisher_inv (snd (ffmpeg_publisher_write_video cm h265 i data pts key now p))"
    "publisher_inv (snd (ffmpeg_publisher_write_audio cm data pts now p))"
  using assms
  by (auto simp: publisher_inv_def ffmpeg_publisher_interrupt_def ffmpeg_publisher_deinit_def
      ffmpeg_publisher_write_video_def ffmpeg_publisher_write_audio_def split: option.splits prod.splits)


section \<open>Runs of the manager\<close>

text \<open>
  A run interleaves captured packets with what the send thread of a single endpoint does on
  its own queue: taking a packet, discarding after a failed write, stopping.
\<close>

datatype manager_event = M_capture bool capture | M_endpoint nat qevent

fun manager_event_step :: "manager_event \<Rightarrow> manager \<Rightarrow> manager" where
  "manager_event_step (M_capture stopping cap) m = manager_step stopping cap m"
| "manager_event_step (M_endpoint k ev) m =
     (if k < length (m_endpoints m)
      then m\<lparr>m_endpoints := (m_endpoints m)[k := (fst (m_endpoints m ! k), snd (snd (queue_event ev (snd (m_endpoints m ! k)))))]\<rparr>
      else m)"

definition manager_run :: "manager_event list \<Rightarrow> manager \<Rightarrow> manager" where
  "manager_run es m = fold manager_event_step es m"

text \<open>The events an endpoint may observe: all captures and its own actions.\<close>

fun visible_to :: "nat \<Rightarrow> manager_event \<Rightarrow> bool" where
  "visible_to j (M_capture stopping cap) = True"
| "visible_to j (M_endpoint k ev) = (k = j)"

definition same_view :: "nat \<Rightarrow> manager \<Rightarrow> manager \<Rightarrow> bool" where
  "same_view j m m' \<longleftrightarrow>
     length (m_endpoints m) = length (m_endpoints m') \<and> m_extra m = m_extra m' \<and>
     (j < length (m_endpoints m) \<longrightarrow> m_endpoints m ! j = m_endpoints m' ! j)"

text \<open>What a captured packet does to one endpoint, given the endpoint's place in the list.\<close>

definition pointwise :: "(nat \<Rightarrow> nat \<times> queue \<Rightarrow> nat \<times> queue) \<Rightarrow> (nat \<times> queue) list \<Rightarrow> (nat \<times> queue) list" where
  "pointwise F eps = map (\<lambda>(k, ep). F k ep) (enumerate 0 eps)"

lemma pointwise_simps [simp]:
  "length (pointwise F eps) = length eps"
  "k < length eps \<Longrightarrow> pointwise F eps ! k = F k (eps ! k)"
  by (simp_all add: pointwise_def nth_enumerate_eq)

lemma pointwise_Cons: "pointwise F (ep # eps) = F 0 ep # pointwise (F \<circ> Suc) eps"
  by (rule nth_equalityI) (auto simp: nth_Cons split: nat.split)

lemma pointwise_map: "pointwise (\<lambda>k. f) eps = map f eps"
  by (rule nth_equalityI) auto

lemma fan_out_pointwise:
  "snd (fan_out i p now mem eps) =
     pointwise (\<lambda>k ep. (fst ep, if fst ep = i then snd (endpoint_enqueue (mem k) p now (snd ep)) else snd ep)) eps"
proof (induction i p now mem eps rule: fan_out.induct)
  case (1 i p now mem)
  then show ?case by (simp add: pointwise_def)
next
  case (2 i p now mem j q eps)
  from 2 [unfolded comp_def] show ?case by (auto simp: pointwise_Cons comp_def split: prod.splits)
qed

lemma discard_pointwise:
  "discard_channel i \<lparr>m_endpoints = eps, m_extra = x\<rparr> =
     \<lparr>m_endpoints = pointwise (\<lambda>k ep. (fst ep, if fst ep = i then queue_reset (snd ep) else snd ep)) eps, m_extra = x\<rparr>"
  by (auto simp: discard_channel_def pointwise_map)

lemma pointwise_id: "pointwise (\<lambda>k ep. ep) eps = eps"
  by (simp add: pointwise_map)

text \<open>A captured packet acts on every endpoint by itself, given the cached parameter sets.\<close>

lemma manager_step_pointwise:
  "\<exists>F x'. \<forall>eps. manager_step stopping cap \<lparr>m_endpoints = eps, m_extra = x\<rparr> =
     \<lparr>m_endpoints = pointwise F eps, m_extra = x'\<rparr>"
    (is "\<exists>F x'. ?P F x'")
proof -
  let ?discard = "\<lambda>i k ep. (fst ep, if fst ep = i then queue_reset (snd ep) else snd ep)"
  let ?push = "\<lambda>cm i p now k ep.
     (fst ep, if fst ep = i then snd (endpoint_enqueue (cm_push cm k) p now (snd ep)) else snd ep)"
  show ?thesis
  proof (cases cap)
    case (Cap_audio cm data pts now)
    let ?p = "\<lambda>a. \<lparr>p_data = Some a, p_extra = None, p_pts = pts, p_video = False, p_key = False\<rparr>"
    consider "data = None \<or> stopping \<or> data = Some [] \<or> length (the data) > MAX_PACKET"
      | a where "data = Some a" "\<not> stopping" "a \<noteq> []" "length a \<le> MAX_PACKET" "\<not> cm_data cm"
      | a where "data = Some a" "\<not> stopping" "a \<noteq> []" "length a \<le> MAX_PACKET" "cm_data cm" by force
    then show ?thesis
    proof cases
      case 1
      then have "?P (\<lambda>k ep. ep) x" by (cases data) (auto simp: Cap_audio enqueue_audio_def pointwise_id)
      then show ?thesis by blast
    next
      case (2 a)
      then have "?P (?discard 0) x" by (simp add: Cap_audio enqueue_audio_def discard_pointwise)
      then show ?thesis by blast
    next
      case (3 a)
      then have "?P (?push cm 0 (?p a) now) x"
        by (simp add: Cap_audio enqueue_audio_def Let_def fan_out_pointwise prod.case_eq_if)
      then show ?thesis by blast
    qed
  next
    case (Cap_video cm h265 i data pts key now)
    consider "data = None \<or> stopping \<or> data = Some [] \<or> length (the data) > MAX_PACKET" "0 \<le> i \<and> i \<le> 1"
      | "i < 0 \<or> i > 1"
      | a where "data = Some a" "\<not> stopping" "a \<noteq> []" "length a \<le> MAX_PACKET" "0 \<le> i" "i \<le> 1" by force
    then show ?thesis
    proof cases
      case 1
      then have "?P (?discard (nat i)) x"
        by (cases data) (auto simp: Cap_video enqueue_video_def discard_pointwise)
      then show ?thesis by blast
    next
      case 2
      then have "?P (\<lambda>k ep. ep) x" by (cases data) (auto simp: Cap_video enqueue_video_def pointwise_id)
      then show ?thesis by blast
    next
      case (3 a)
      show ?thesis
      proof (cases "update_extra cm h265 (nat i) a key x")
        case None
        then have "?P (?discard (nat i)) x" using 3 by (simp add: Cap_video enqueue_video_def discard_pointwise)
        then show ?thesis by blast
      next
        case (Some x')
        let ?p = "\<lparr>p_data = Some a, p_extra = x' (nat i), p_pts = pts, p_video = True, p_key = key\<rparr>"
        have "?P (if cm_data cm then ?push cm (nat i) ?p now else ?discard (nat i)) x'"
          using 3 Some
          by (simp add: Cap_video enqueue_video_def Let_def fan_out_pointwise discard_pointwise prod.case_eq_if)
        then show ?thesis by blast
      qed
    qed
  qed
qed

lemma same_view_capture:
  assumes "same_view j m m'"
  shows "same_view j (manager_step stopping cap m) (manager_step stopping cap m')"
proof -
  obtain eps x eps' where m: "m = \<lparr>m_endpoints = eps, m_extra = x\<rparr>" "m' = \<lparr>m_endpoints = eps', m_extra = x\<rparr>"
    using assms by (cases m; cases m') (auto simp: same_view_def)
  obtain F x' where
    "\<forall>eps. manager_step stopping cap \<lparr>m_endpoints = eps, m_extra = x\<rparr> = \<lparr>m_endpoints = pointwise F eps, m_extra = x'\<rparr>"
    using manager_step_pointwise by blast
  with assms m show ?thesis by (simp add: same_view_def)
qed

lemma same_view_step:
  assumes "same_view j m m'"
  shows "visible_to j e \<Longrightarrow> same_view j (manager_event_step e m) (manager_event_step e m')"
    and "\<not> visible_to j e \<Longrightarrow> same_view j (manager_event_step e m) m'"
  using assms same_view_capture [OF assms] by (cases e; auto simp: same_view_def nth_list_update)+

lemma same_view_run:
  "same_view j m m' \<Longrightarrow> same_view j (manager_run es m) (manager_run (filter (visible_to j) es) m')"
  by (induction es arbitrary: m m') (simp_all add: manager_run_def same_view_step)

lemma manager_run_length: "length (m_endpoints (manager_run es m)) = length (m_endpoints m)"
proof (induction es arbitrary: m)
  case Nil
  then show ?case by (simp add: manager_run_def)
next
  case (Cons e es)
  have "length (m_endpoints (manager_event_step e m)) = length (m_endpoints m)"
  proof (cases e)
    case (M_capture stopping cap)
    with manager_step_pointwise [of stopping cap "m_extra m"] show ?thesis by (cases m) auto
  qed auto
  with Cons show ?case by (simp add: manager_run_def)
qed

section \<open>Properties\<close>

lemma self_check_passes: "publisher_self_check"
proof -
  let ?sps = "(True, [0x67, 0x64, 0x00, 0x1f :: byte])"
  let ?pps = "(True, [0x68, 0xee, 0x3c, 0x80 :: byte])"
  let ?idr = "(True, [0x65, 0x88 :: byte])"
  have ok: "nal_ok (snd ?sps)" "nal_ok (snd ?pps)" "nal_ok (snd ?idr)"
    by (simp_all add: nal_ok_def All_less_Suc)
  have "annexb_parameter_sets self_check_stream False =
          \<lparr>ps_data = take 16 self_check_stream, ps_found = 3\<rparr>"
    using ps_loop_stream [of "[?sps, ?pps, ?idr]" False "[]" ps_empty] ok
    by (simp add: annexb_parameter_sets_def self_check_stream_def nal_bytes_def ps_unit_def ps_add_def ps_empty_def
        nal_flag_def nal_type_def Let_def)
  moreover have "annexb_parameter_sets (take 8 self_check_stream) False =
          \<lparr>ps_data = take 8 self_check_stream, ps_found = 1\<rparr>"
    using ps_loop_stream [of "[?sps]" False "[]" ps_empty] ok
    by (simp add: annexb_parameter_sets_def self_check_stream_def nal_bytes_def ps_unit_def ps_add_def ps_empty_def
        nal_flag_def nal_type_def Let_def)
  ultimately show ?thesis by (simp add: publisher_self_check_def ps_complete_def self_check_stream_def)
qed

lemma video_key_short: "i < 2 \<Longrightarrow> length field \<le> 50 \<Longrightarrow> video_key i field = ''video.'' @ show_nat i @ '':'' @ field"
  using length_show_nat [of i 1] by (simp add: video_key_def)

lemma channel_supported_validated:
  assumes "cfg_validate pton4 pton6 (g_ini_d st) = Inr ()" "i < 2"
  shows "channel_supported st i = Some True"
proof -
  from validated_codec [OF assms] obtain c where
    c: "c \<in> {''H.264'', ''H.265''}"
       "\<And>fb. iniparser_getstring (g_ini_d st) (Some (''video.'' @ show_nat i @ '':output_data_type'')) fb = Str c"
    by blast
  from validated_video [OF assms] obtain w h where
    "iniparser_getint (g_ini_d st) (Some (''video.'' @ show_nat i @ '':'' @ ''width'')) 0 = Some w" "even w"
    "iniparser_getint (g_ini_d st) (Some (''video.'' @ show_nat i @ '':'' @ ''height'')) 0 = Some h" "even h"
    unfolding Let_def by blast
  with c assms(2) show ?thesis
    by (auto simp: channel_supported_def video_text_def video_value_def rk_param_get_string_def rk_param_get_int_def
        video_key_short)
qed

lemma video_codec_h264:
  assumes "iniparser_getstring (g_ini_d st) (Some (''video.'' @ show_nat i @ '':output_data_type'')) Null = Str ''H.264''"
    "i < 2"
  shows "video_codec st i = Some False"
  using getstring_required [OF assms(1)] assms(2)
  by (simp add: video_codec_def video_text_def rk_param_get_string_def video_key_short)

lemma url_given_required:
  assumes "iniparser_getstring (g_ini_d st) (Some (cfg_url_key p s)) Null = Str u" "url_ok p u" "p \<noteq> []"
  shows "url_given st (cfg_url_key p s)"
proof -
  have "u \<noteq> []" using assms(2,3) by (cases u) (simp_all add: url_ok_def str_starts_def)
  with getstring_required [OF assms(1)] show ?thesis unfolding url_given_def rk_param_get_string_def by simp
qed

lemma add_endpoint_created:
  assumes "rk_param_get_int st enable_key 0 = Some (if on then 1 else 0)" and "on \<longrightarrow> url_given st url_key"
  shows "\<exists>x. add_endpoint st name enable_key url_key format i audio = Some x \<and> map ec_name x = (if on then [name] else [])"
  using assms by (auto simp: add_endpoint_def url_given_def split: cptr.splits)

lemma manager_endpoints_created:
  assumes "rk_param_get_int st ''stream:enable_rtsp'' 0 = Some (if rtsp then 1 else 0)"
    and "rk_param_get_int st ''stream:enable_rtmp'' 0 = Some (if rtmp then 1 else 0)"
    and "urls_given st rtsp rtmp"
  shows "\<exists>cfgs. manager_endpoints st = Some cfgs \<and>
     map ec_name cfgs = (if rtsp then [''rtsp-main''] else []) @ (if rtmp then [''rtmp-main''] else []) @
                        (if rtsp then [''rtsp-ai''] else []) @ (if rtmp then [''rtmp-ai''] else [])"
proof -
  have u: "rtsp \<longrightarrow> url_given st ''stream:rtsp_main_url''" "rtmp \<longrightarrow> url_given st ''stream:rtmp_main_url''"
    "rtsp \<longrightarrow> url_given st ''stream:rtsp_ai_url''" "rtmp \<longrightarrow> url_given st ''stream:rtmp_ai_url''"
    using assms(3) by (simp_all add: urls_given_def)
  obtain x1 where 1: "add_endpoint st ''rtsp-main'' ''stream:enable_rtsp'' ''stream:rtsp_main_url'' ''rtsp'' 0 True = Some x1"
    "map ec_name x1 = (if rtsp then [''rtsp-main''] else [])"
    using add_endpoint_created [OF assms(1) u(1)] by blast
  obtain x2 where 2: "add_endpoint st ''rtmp-main'' ''stream:enable_rtmp'' ''stream:rtmp_main_url'' ''flv'' 0 True = Some x2"
    "map ec_name x2 = (if rtmp then [''rtmp-main''] else [])"
    using add_endpoint_created [OF assms(2) u(2)] by blast
  obtain x3 where 3: "add_endpoint st ''rtsp-ai'' ''stream:enable_rtsp'' ''stream:rtsp_ai_url'' ''rtsp'' 1 False = Some x3"
    "map ec_name x3 = (if rtsp then [''rtsp-ai''] else [])"
    using add_endpoint_created [OF assms(1) u(3)] by blast
  obtain x4 where 4: "add_endpoint st ''rtmp-ai'' ''stream:enable_rtmp'' ''stream:rtmp_ai_url'' ''flv'' 1 False = Some x4"
    "map ec_name x4 = (if rtmp then [''rtmp-ai''] else [])"
    using add_endpoint_created [OF assms(2) u(4)] by blast
  show ?thesis by (simp add: manager_endpoints_def 1 2 3 4 del: One_nat_def)
qed

text \<open>C16. A configuration that passed the start-up check passes every check of the publisher's
  initialisation, which then reads no entry through a NULL value, and gets one endpoint for each stream of
  each protocol it enables: at least two.\<close>

theorem validated_config_publishes:
  assumes "cfg_validate pton4 pton6 (g_ini_d st) = Inr ()"
  shows "publisher_config_check st = Some 0 \<and>
     (\<exists>rtsp rtmp cfgs. rk_param_get_int st ''stream:enable_rtsp'' 0 = Some (if rtsp then 1 else 0) \<and>
        rk_param_get_int st ''stream:enable_rtmp'' 0 = Some (if rtmp then 1 else 0) \<and> (rtsp \<or> rtmp) \<and>
        manager_endpoints st = Some cfgs \<and>
        map ec_name cfgs = (if rtsp then [''rtsp-main''] else []) @ (if rtmp then [''rtmp-main''] else []) @
                           (if rtsp then [''rtsp-ai''] else []) @ (if rtmp then [''rtmp-ai''] else []))"
proof -
  from validated_streams [OF assms] obtain on where
    on: "\<forall>p \<in> {''rtsp'', ''rtmp''}. iniparser_getint (g_ini_d st) (Some (''stream:enable_'' @ p)) 0 =
           Some (if on p then 1 else 0)"
      "on ''rtsp'' \<or> on ''rtmp''"
      "\<forall>p \<in> {''rtsp'', ''rtmp''}. on p \<longrightarrow>
         (\<exists>m a. iniparser_getstring (g_ini_d st) (Some (cfg_url_key p ''main'')) Null = Str m \<and>
                iniparser_getstring (g_ini_d st) (Some (cfg_url_key p ''ai'')) Null = Str a \<and>
                m \<noteq> a \<and> url_ok p m \<and> url_ok p a)"
      "on ''rtmp'' \<longrightarrow> (\<forall>i < 2. iniparser_getstring (g_ini_d st)
         (Some (''video.'' @ show_nat i @ '':output_data_type'')) Null = Str ''H.264'')"
    by (elim exE conjE) (rule that)
  have g: "rk_param_get_int st ''stream:enable_rtsp'' 0 = Some (if on ''rtsp'' then 1 else 0)"
      "rk_param_get_int st ''stream:enable_rtmp'' 0 = Some (if on ''rtmp'' then 1 else 0)"
    using on(1) by (simp_all add: rk_param_get_int_def)
  have u: "url_given st (cfg_url_key p ''main'') \<and> url_given st (cfg_url_key p ''ai'')"
    if p: "p \<in> {''rtsp'', ''rtmp''}" "on p" for p
  proof -
    from on(3) [rule_format, OF p] obtain m a where ma:
      "iniparser_getstring (g_ini_d st) (Some (cfg_url_key p ''main'')) Null = Str m" "url_ok p m"
      "iniparser_getstring (g_ini_d st) (Some (cfg_url_key p ''ai'')) Null = Str a" "url_ok p a"
      by (elim exE conjE) (rule that)
    from p have "p \<noteq> []" by auto
    from url_given_required [OF ma(1,2) this] url_given_required [OF ma(3,4) this] show ?thesis ..
  qed
  have urls: "urls_given st (on ''rtsp'') (on ''rtmp'')"
    using u [of "''rtsp''"] u [of "''rtmp''"] by (simp add: urls_given_def cfg_url_key_def)
  have "on ''rtmp'' \<Longrightarrow> video_codec st 0 = Some False \<and> video_codec st 1 = Some False"
    using on(4) by (metis video_codec_h264 less_2_cases_iff One_nat_def)
  then have "publisher_config_check st = Some 0"
    using g on(2) urls self_check_passes channel_supported_validated [OF assms]
    by (auto simp: publisher_config_check_def)
  with g on(2) manager_endpoints_created [OF g urls] show ?thesis
    by (intro conjI exI [of _ "on ''rtsp''"] exI [of _ "on ''rtmp''"]) simp_all
qed

theorem validated_config_publishes_witness:
  "\<exists>d. dict_map d = map_of example_config \<and>
     publisher_config_check \<lparr>g_ini_path = ''rkipc.ini'', g_ini_d = Some d\<rparr> = Some 0 \<and>
     (\<exists>cfgs. manager_endpoints \<lparr>g_ini_path = ''rkipc.ini'', g_ini_d = Some d\<rparr> = Some cfgs)"
proof -
  obtain d where d: "dict_map d = map_of example_config" using example_dict by blast
  let ?st = "\<lparr>g_ini_path = ''rkipc.ini'', g_ini_d = Some d\<rparr>"
  have "cfg_validate (\<lambda>_. False) (\<lambda>_. False) (g_ini_d ?st) = Inr ()" using example_validates [OF d] by simp
  from d validated_config_publishes [OF this] show ?thesis by blast
qed

section \<open>What a checked configuration tells FFmpeg\<close>

lemma audio_lits: "''8000'' = show_int 8000" "''1'' = show_int 1" "''1152'' = show_int 1152" "''5000'' = show_int 5000"
  by (simp add: show_int_def show_nat.simps digit_char_def, code_simp)+

lemma checked_number:
  assumes "cfg_number d key low high fb = Inr n" "fb = Null \<or> fb = Str (show_int dflt)"
    and "- 2147483648 \<le> dflt" "dflt \<le> 2147483647"
  shows "rk_param_get_int \<lparr>g_ini_path = path, g_ini_d = d\<rparr> key dflt = Some n \<and> low \<le> n \<and> n \<le> high"
  using cfg_number_runtime [OF assms(1,2)] assms(3,4) by (simp add: rk_param_get_int_def LONG_MIN_def LONG_MAX_def)

lemma checked_video:
  assumes "cfg_validate pton4 pton6 (g_ini_d st) = Inr ()" "i < 2"
  shows "\<exists>v. video_parameters st i = Some v \<and> vp_width v \<in> {2..8192} \<and> vp_height v \<in> {2..8192} \<and>
     vp_bit_rate v \<in> {1000..1000000000} \<and> 0 < snd (vp_frame_rate v) \<and>
     snd (vp_frame_rate v) dvd fst (vp_frame_rate v) \<and> snd (vp_frame_rate v) \<le> fst (vp_frame_rate v)"
proof -
  obtain path d where st: "st = \<lparr>g_ini_path = path, g_ini_d = d\<rparr>" by (cases st) auto
  from assms(1) obtain rtmp isp where v: "cfg_video d rtmp isp 0 = Inr ()" "cfg_video d rtmp isp 1 = Inr ()"
    by (auto simp: st cfg_validate_def cfg_fail_def bindE_Inr split: if_splits)
  let ?b = "''video.'' @ show_nat i @ '':''"
  have "cfg_video d rtmp isp i = Inr ()"
    using v assms(2) by (cases "i = 0") (auto simp: less_2_cases_iff)
  then obtain w h r src sd num den where
    n: "cfg_number d (?b @ ''width'') 2 8192 Null = Inr w" "cfg_number d (?b @ ''height'') 2 8192 Null = Inr h"
       "cfg_number d (?b @ ''dst_frame_rate_num'') 1 120 (Str ''25'') = Inr num"
       "cfg_number d (?b @ ''dst_frame_rate_den'') 1 120 (Str ''1'') = Inr den"
       "cfg_number d (?b @ ''max_rate'') 1 1000000 Null = Inr r"
    and e: "cfg_rates ?b src sd num den isp = Inr ()"
    unfolding cfg_video_def Let_def by (elim iffD1 [OF bindE_Inr, THEN exE] conjE) auto
  have "\<exists>hevc. video_codec st i = Some hevc"
    using validated_codec [OF assms] assms(2)
    by (auto simp: video_codec_def video_text_def rk_param_get_string_def video_key_short)
  then obtain hevc where c: "video_codec st i = Some hevc" ..
  have "den dvd num" "den \<le> num" using e by (auto simp: cfg_rates_def cfg_fail_def split: if_splits)
  moreover note checked_number [OF n(1), of "if i \<noteq> 0 then 640 else 1920" path]
    checked_number [OF n(2), of "if i \<noteq> 0 then 360 else 1080" path]
    checked_number [OF n(3), of 25 path] checked_number [OF n(4), of 1 path] checked_number [OF n(5), of 2048 path]
  ultimately show ?thesis
    using c assms(2) show_int_lits
    by (simp add: video_parameters_def video_value_def video_key_short st)
qed

lemma checked_audio:
  assumes "cfg_validate pton4 pton6 (g_ini_d st) = Inr ()" "rk_param_get_int st ''audio.0:enable'' 0 = Some e" "e \<noteq> 0"
  shows "\<exists>a. audio_parameters st = Some a \<and> ap_sample_rate a = 8000 \<and> ap_channels a = 1 \<and> \<not> ap_stereo a \<and>
     ap_bit_rate a = 64000 \<and> ap_time_base a = (1, 8000)"
proof -
  obtain path d where st: "st = \<lparr>g_ini_path = path, g_ini_d = d\<rparr>" by (cases st) auto
  from assms(1) have a: "cfg_audio d = Inr ()"
    by (auto simp: st cfg_validate_def cfg_fail_def bindE_Inr split: if_splits)
  then obtain e' where en: "cfg_number d ''audio.0:enable'' 0 1 Null = Inr e'" by (auto simp: cfg_audio_def bindE_Inr)
  have "e' = e" using checked_number [OF en, of 0 path] assms(2) by (simp add: st)
  with a en assms(3) obtain r c f where
    n: "cfg_number d ''audio.0:sample_rate'' 8000 8000 (Str ''8000'') = Inr r"
       "cfg_number d ''audio.0:channels'' 1 1 (Str ''1'') = Inr c"
       "cfg_number d ''audio.0:frame_size'' 1152 1152 (Str ''1152'') = Inr f"
    by (auto simp: cfg_audio_def bindE_Inr)
  have "rk_param_get_int st ''audio.0:sample_rate'' 8000 = Some 8000" "rk_param_get_int st ''audio.0:channels'' 1 = Some 1"
    "\<exists>f. rk_param_get_int st ''audio.0:frame_size'' 1152 = Some f"
    using checked_number [OF n(1), of 8000 path] checked_number [OF n(2), of 1 path]
      checked_number [OF n(3), of 1152 path] audio_lits by (auto simp: st)
  then show ?thesis by (auto simp: audio_parameters_def int64_ok_def)
qed

lemma append_endpoints_set:
  "append_endpoints xs = Some cfgs \<Longrightarrow> cfg \<in> set cfgs \<Longrightarrow> \<exists>x. Some x \<in> set xs \<and> cfg \<in> set x"
  by (induction xs arbitrary: cfgs rule: append_endpoints.induct) fastforce+

lemma add_endpoint_id:
  "add_endpoint st name enable url format i audio = Some x \<Longrightarrow> cfg \<in> set x \<Longrightarrow> ec_stream_id cfg = i"
  by (auto simp: add_endpoint_def split: option.splits if_splits cptr.splits)

lemma manager_endpoint_ids:
  assumes "manager_endpoints st = Some cfgs" "cfg \<in> set cfgs"
  shows "ec_stream_id cfg < 2"
proof -
  from append_endpoints_set [OF assms(1) [unfolded manager_endpoints_def] assms(2)]
  obtain name enable url format i audio x where
    "add_endpoint st name enable url format i audio = Some x" "cfg \<in> set x" "i < 2"
    by (auto simp: eq_commute [of "Some _"])
  with add_endpoint_id show ?thesis by metis
qed

lemma checked_transport:
  assumes "cfg_validate pton4 pton6 (g_ini_d st) = Inr ()"
  shows "rk_param_get_string st ''stream:rtsp_transport'' (Str ''tcp'') \<in> {Str ''tcp'', Str ''udp''}"
    and "\<exists>t. io_timeout_ms st = Some t \<and> rk_param_get_int st ''stream:io_timeout_ms'' 5000 = Some t"
proof -
  obtain path d where st: "st = \<lparr>g_ini_path = path, g_ini_d = d\<rparr>" by (cases st) auto
  from assms obtain t where
    t: "cfg_number d ''stream:io_timeout_ms'' 100 60000 (Str ''5000'') = Inr t"
    and c: "cfg_choice d ''stream:rtsp_transport'' [''tcp'', ''udp''] (Str ''tcp'') = Inr ()"
    by (auto simp: st cfg_validate_def cfg_fail_def bindE_Inr split: if_splits)
  from c obtain v where v: "cfg_text d ''stream:rtsp_transport'' (Str ''tcp'') = Inr v" "v \<in> {''tcp'', ''udp''}"
    by (auto simp: cfg_choice_def cfg_fail_def bindE_Inr split: if_splits)
  with cfg_text_found [OF v(1)] show "rk_param_get_string st ''stream:rtsp_transport'' (Str ''tcp'') \<in> {Str ''tcp'', Str ''udp''}"
    by (auto simp: st rk_param_get_string_def)
  from audio_lits checked_number [OF t, of 5000 path] show "\<exists>t. io_timeout_ms st = Some t \<and> rk_param_get_int st ''stream:io_timeout_ms'' 5000 = Some t"
    by (simp add: st io_timeout_ms_def)
qed


text \<open>The example with sound: its four streams' endpoints.\<close>

lemma audio_example_endpoint:
  assumes "dict_map d = map_of audio_config"
  shows "\<exists>cfgs. manager_endpoints \<lparr>g_ini_path = ''rkipc.ini'', g_ini_d = Some d\<rparr> = Some cfgs \<and>
     \<lparr>ec_name = ''rtsp-main'', ec_url = ''rtsp://10.0.0.2:8554/main'', ec_format = ''rtsp'', ec_stream_id = 0,
       ec_audio = True\<rparr> \<in> set cfgs"
proof -
  have l: "cfg_lookup audio_config ''stream:enable_rtsp'' Invalid_key = Str ''1''"
    "cfg_lookup audio_config ''stream:enable_rtmp'' Invalid_key = Str ''0''"
    "cfg_lookup audio_config ''stream:rtsp_main_url'' (Str []) = Str ''rtsp://10.0.0.2:8554/main''"
    "cfg_lookup audio_config ''stream:rtsp_ai_url'' (Str []) = Str ''rtsp://10.0.0.2:8554/ai''"
    by code_simp+
  have n: "c_strtol 0 ''1'' = (1, [], False)" "c_strtol 0 ''0'' = (0, [], False)"
    by code_simp+
  show ?thesis
    by (simp add: manager_endpoints_def add_endpoint_def rk_param_get_int_def rk_param_get_string_def
        iniparser_getint_def iniparser_getlongint_def getstring_entries [OF assms] l n)
qed


text \<open>The endpoints of the main stream declare an audio track even when the configuration turns audio off; with an
  accepted configuration the track's parameters are then read unchecked.\<close>

lemma audio_track_without_audio:
  assumes "manager_endpoints st = Some cfgs" "cfg \<in> set cfgs" "ec_stream_id cfg = 0"
  shows "ec_audio cfg"
proof -
  from append_endpoints_set [OF assms(1) [unfolded manager_endpoints_def] assms(2)]
  obtain name enable url format i audio x where
    "add_endpoint st name enable url format i audio = Some x" "cfg \<in> set x" "i = 0 \<longrightarrow> audio"
    by (auto simp: eq_commute [of "Some _"])
  with assms(3) show ?thesis by (auto simp: add_endpoint_def split: option.splits if_splits cptr.splits)
qed

text \<open>C31. Endpoints do not interfere: whatever the send threads of the other endpoints do, in whatever
  interleaving, the queue of an endpoint after a run is the one it would have if those
  actions had not happened, also when memory runs out for some of them. A slow or failing receiver therefore cannot hold back, reorder
  or drop the packets of another one.\<close>

theorem endpoints_isolated:
  "j < length (m_endpoints m) \<Longrightarrow>
   m_endpoints (manager_run es m) ! j = m_endpoints (manager_run (filter (visible_to j) es) m) ! j"
  using same_view_run [of j m m es] by (simp add: same_view_def manager_run_length)

definition example_endpoints :: "endpoint_config list" where
  "example_endpoints =
     [\<lparr>ec_name = ''rtsp-main'', ec_url = ''rtsp://h/a'', ec_format = ''rtsp'', ec_stream_id = 0, ec_audio = True\<rparr>,
      \<lparr>ec_name = ''rtmp-main'', ec_url = ''rtmp://h/a'', ec_format = ''flv'', ec_stream_id = 0, ec_audio = True\<rparr>]"

theorem endpoints_isolated_witness:
  "m_endpoints (manager_run
       [M_endpoint 1 Ev_reset, M_capture False (Cap_audio memory_ok (Some [1]) 0 0), M_endpoint 1 Ev_stop]
       (manager_new example_endpoints)) ! 0 =
   m_endpoints (manager_run [M_capture False (Cap_audio memory_ok (Some [1]) 0 0)] (manager_new example_endpoints)) ! 0"
  using endpoints_isolated [of 0 "manager_new example_endpoints"
      "[M_endpoint 1 Ev_reset, M_capture False (Cap_audio memory_ok (Some [1]) 0 0), M_endpoint 1 Ev_stop]"]
  by (simp add: manager_new_def example_endpoints_def)

end
