(* ===== verification/IspState.thy ===== *)
theory IspState
  imports Complex_Main Param "HOL-Library.Monad_Syntax"
begin

text \<open>
  The state of the image-tuning layer \<^verbatim>\<open>common/isp/rv1106/isp.c\<close>, the calls it makes and its
  getters. The Rockchip AIQ library, the GPIO, PWM and VI drivers are not part of the
  repository: every call is logged with its arguments, and what it returns is a function of
  the log, an argument of the model. \<open>None\<close> stands for undefined behaviour (a NULL string
  dereferenced, a fixed buffer overrun, an array indexed out of bounds).
\<close>

section \<open>Attributes of the tuning library\<close>

text \<open>The fields of the library's structures that the program reads or writes.\<close>

datatype wdr_mode = Wdr_normal | Wdr_hdr2

datatype aiq_handle = Aiq_ctx int | Aiq_group int

datatype time_value = Time_value rat | Time_other

record exp_attr =
  ae_manual :: bool
  ae_fps_fix :: bool
  ae_fps :: int
  ae_flicker :: bool
  ae_flicker_60hz :: bool
  ae_flicker_normal :: bool
  ae_lin_gain_en :: bool
  ae_lin_time_en :: bool
  ae_hdr_gain_en :: bool
  ae_hdr_time_en :: bool
  ae_lin_gain :: rat
  ae_hdr_gain :: "rat list"
  ae_lin_time :: time_value
  ae_hdr_time :: "time_value list"

record lin_attr =
  la_blc :: bool
  la_blc_area_auto :: bool
  la_blc_bias :: int
  la_hlc :: bool
  la_hlc_bias :: int

record acp_attr =
  acp_contrast :: rat
  acp_brightness :: rat
  acp_saturation :: rat
  acp_hue :: rat

datatype dehaze_mode = Dehaze_auto | Dehaze_manual | Dehaze_other

record dehaze_setting =
  ds_enable :: bool
  ds_dehaze :: bool
  ds_enhance :: bool
  ds_alpha :: rat

record dehaze_attr =
  dh_mode :: dehaze_mode
  dh_sync_default :: bool
  dh_done :: bool
  dh_auto :: dehaze_setting
  dh_manual :: dehaze_setting
  dh_update :: bool
  dh_strength :: int

record ldch_attr =
  ld_en :: bool
  ld_level :: int
  ld_lut_update :: bool
  ld_external_buffer :: bool
  ld_buffer :: "nat \<times> int"

record mwb_attr =
  mw_sync :: bool
  mw_gain_mode :: bool
  mw_rgain :: rat
  mw_grgain :: rat
  mw_gbgain :: rat
  mw_bgain :: rat

datatype op_mode = Op_auto | Op_semi_auto | Op_manual

text \<open>Queries and settings of a context, the board drivers, and the life cycle of contexts and groups.\<close>

datatype aiq_query =
    Ae_get | Lin_get | Acp_get | Ie_get | Wp_get | Mwb_get | Dehaze_get | Acgc_get | Ldch_get
  | Bayer2dnr_get rat | Zoom_range | Zoom_get | Focus_range | Focus_get

datatype aiq_tune =
    Ae_set exp_attr | Lin_set lin_attr | Acp_set acp_attr | Sharp_set rat | Ie_set bool | Drc_gain rat rat rat
  | Wp_set bool | Mwb_set mwb_attr | Dehaze_set dehaze_attr | Acgc_set bool | Ldch_set ldch_attr
  | Ynr_set rat | Bayertnr_set rat

datatype aiq_control =
    Mirror_flip int int nat | Focus_mode op_mode | Zoom_set int | Zoom_end | Focus_set int | Switch_scene string string

datatype board_call =
    Gpio_output int | Gpio_set int bool | Gpio_unexport int
  | Pwm_init nat nat nat | Pwm_enable nat | Pwm_deinit nat
  | Vi_pause nat | Vi_resume nat | Meta_access | System string

datatype sysctl_call =
    Hdr_env wdr_mode | Enum_sensor | Dev_buf_cnt | Preinit_scene string string
  | Sysctl_init string | Sysctl_prepare wdr_mode | Sysctl_start | Sysctl_stop | Sysctl_deinit
  | Preinit_iq_addr int int | Preinit_tb_info

datatype group_call =
    Group_create nat string | Group_prepare wdr_mode | Group_start | Group_stop | Group_destroy
  | Group_infos | Group_member nat | Ldch_get_member nat | Ldch_set_member nat ldch_attr

datatype isp_call =
    Query aiq_query aiq_handle
  | Tune aiq_tune aiq_handle
  | Control aiq_control aiq_handle
  | Board board_call
  | Sysctl sysctl_call int
  | Group group_call int
  | Param_store string

type_synonym isp_log = "isp_call list"

text \<open>
  The environment: the result of a call and the attributes a query returns, given the log
  including that call; allocation outcomes of the parameter store; the float and double
  roundings; what a float conversion of \<^verbatim>\<open>sscanf\<close> reads; the value of an object the code
  leaves uninitialised.
\<close>

record isp_env =
  sdk_rc :: "isp_log \<Rightarrow> int"
  sdk_exp :: "isp_log \<Rightarrow> exp_attr"
  sdk_lin :: "isp_log \<Rightarrow> lin_attr"
  sdk_acp :: "isp_log \<Rightarrow> acp_attr"
  sdk_wb_auto :: "isp_log \<Rightarrow> bool"
  sdk_mwb :: "isp_log \<Rightarrow> mwb_attr"
  sdk_dehaze :: "isp_log \<Rightarrow> dehaze_attr"
  sdk_ldch :: "isp_log \<Rightarrow> ldch_attr"
  sdk_range :: "isp_log \<Rightarrow> int \<times> int"
  sdk_position :: "isp_log \<Rightarrow> int"
  sdk_context :: "isp_log \<Rightarrow> bool"
  sdk_sensor :: "int \<Rightarrow> string"
  sdk_members :: "isp_log \<Rightarrow> nat"
  sdk_mem :: "isp_log \<Rightarrow> dict_alloc"
  fl32 :: "rat \<Rightarrow> rat"
  fl64 :: "rat \<Rightarrow> rat"
  scan_float :: "string \<Rightarrow> (rat \<times> string) option"
  junk :: int

section \<open>State\<close>

definition MAX_SCENARIO_NUM :: int where
  "MAX_SCENARIO_NUM = 2"

definition MAX_AIQ_CTX :: int where
  "MAX_AIQ_CTX = 8"

record isp =
  g_iq_file_dir :: string
  main_scene :: string
  sub_scene :: string
  light_level :: int
  light_state :: int
  current_scenario_id :: int
  aiq_use_group :: bool
  g_aiq_ctx :: "int \<Rightarrow> bool"
  g_camera_group_ctx :: "int \<Rightarrow> bool"
  g_WDRMode :: "int \<Rightarrow> wdr_mode"
  isp_param :: param_state
  isp_log :: isp_log

definition isp_initial :: "param_state \<Rightarrow> isp" where
  "isp_initial st =
     \<lparr>g_iq_file_dir = replicate 256 NUL, main_scene = [], sub_scene = [], light_level = -1, light_state = -1,
      current_scenario_id = 0, aiq_use_group = False, g_aiq_ctx = \<lambda>_. False, g_camera_group_ctx = \<lambda>_. False,
      g_WDRMode = \<lambda>_. Wdr_normal, isp_param = st, isp_log = []\<rparr>"

definition get_ctx :: "isp \<Rightarrow> int \<Rightarrow> aiq_handle" where
  "get_ctx s cam_id = (if aiq_use_group s then Aiq_group cam_id else Aiq_ctx cam_id)"

definition get_scenario_id :: "isp \<Rightarrow> int \<Rightarrow> int" where
  "get_scenario_id s cam_id = cam_id * MAX_SCENARIO_NUM + current_scenario_id s"

text \<open>\<^verbatim>\<open>RK_ISP_CHECK_CAMERA_ID\<close> in front of the rest of a function.\<close>

definition camera_ready :: "isp \<Rightarrow> int \<Rightarrow> bool" where
  "camera_ready s cam_id \<longleftrightarrow>
     cam_id < MAX_AIQ_CTX \<and> (if aiq_use_group s then g_camera_group_ctx s cam_id else g_aiq_ctx s cam_id)"

definition check_camera :: "isp \<Rightarrow> int \<Rightarrow> (int \<times> isp) option \<Rightarrow> (int \<times> isp) option" where
  "check_camera s cam_id rest =
     (if cam_id < 0 then None else if \<not> camera_ready s cam_id then Some (-1, s) else rest)"

text \<open>One call to the library: its result and the state with the call logged.\<close>

definition sdk :: "isp_env \<Rightarrow> isp_call \<Rightarrow> isp \<Rightarrow> int \<times> isp" where
  "sdk env c s = (sdk_rc env (isp_log s @ [c]), s\<lparr>isp_log := isp_log s @ [c]\<rparr>)"

abbreviation sdk_do :: "isp_env \<Rightarrow> isp_call \<Rightarrow> isp \<Rightarrow> isp" where
  "sdk_do env c s \<equiv> snd (sdk env c s)"

section \<open>Configuration entries\<close>

text \<open>\<^verbatim>\<open>snprintf(entry, 127, "isp.%d.<field>", id)\<close>\<close>

definition isp_entry :: "int \<Rightarrow> string \<Rightarrow> string" where
  "isp_entry i field = take 126 (''isp.'' @ show_int i @ ''.'' @ field)"

definition isp_int_or :: "isp \<Rightarrow> int \<Rightarrow> string \<Rightarrow> int \<Rightarrow> int option" where
  "isp_int_or s cam_id field def = rk_param_get_int (isp_param s) (isp_entry (get_scenario_id s cam_id) field) def"

definition isp_text_or :: "isp \<Rightarrow> int \<Rightarrow> string \<Rightarrow> cptr \<Rightarrow> cptr" where
  "isp_text_or s cam_id field def =
     rk_param_get_string (isp_param s) (isp_entry (get_scenario_id s cam_id) field) def"

definition store_int :: "isp_env \<Rightarrow> string \<Rightarrow> int \<Rightarrow> isp \<Rightarrow> isp option" where
  "store_int env entry v s =
     (let log = isp_log s @ [Param_store entry]
      in map_option (\<lambda>(rc, p). s\<lparr>isp_param := p, isp_log := log\<rparr>) (rk_param_set_int (sdk_mem env log) (isp_param s) entry v))"

definition store_text :: "isp_env \<Rightarrow> string \<Rightarrow> string \<Rightarrow> isp \<Rightarrow> isp option" where
  "store_text env entry v s =
     (let log = isp_log s @ [Param_store entry]
      in map_option (\<lambda>(rc, p). s\<lparr>isp_param := p, isp_log := log\<rparr>)
           (rk_param_set_string (sdk_mem env log) (isp_param s) entry (Some v)))"

text \<open>The common ends of a setter: the value goes to the current scenario's entry.\<close>

definition put_int :: "isp_env \<Rightarrow> int \<Rightarrow> string \<Rightarrow> int \<Rightarrow> int \<times> isp \<Rightarrow> (int \<times> isp) option" where
  "put_int env cam_id field v rs =
     map_option (Pair (fst rs)) (store_int env (isp_entry (get_scenario_id (snd rs) cam_id) field) v (snd rs))"

definition put_text :: "isp_env \<Rightarrow> int \<Rightarrow> string \<Rightarrow> string \<Rightarrow> int \<times> isp \<Rightarrow> (int \<times> isp) option" where
  "put_text env cam_id field v rs =
     map_option (Pair (fst rs)) (store_text env (isp_entry (get_scenario_id (snd rs) cam_id) field) v (snd rs))"

section \<open>Getters\<close>

text \<open>A getter: the result and the value written through the pointer, if any.\<close>

definition get_int :: "string \<Rightarrow> isp \<Rightarrow> int \<Rightarrow> (int \<times> int option) option" where
  "get_int field s cam_id =
     (if cam_id < 0 then None
      else if \<not> camera_ready s cam_id then Some (-1, None)
      else map_option (\<lambda>v. (0, Some v)) (isp_int_or s cam_id field (-1)))"

definition get_text :: "string \<Rightarrow> cptr \<Rightarrow> isp \<Rightarrow> int \<Rightarrow> (int \<times> cptr option) option" where
  "get_text field def s cam_id =
     (if cam_id < 0 then None
      else if \<not> camera_ready s cam_id then Some (-1, None)
      else Some (0, Some (isp_text_or s cam_id field def)))"

definition rk_isp_get_frame_rate :: "isp \<Rightarrow> int \<Rightarrow> (int \<times> int option) option" where
  "rk_isp_get_frame_rate = get_int ''adjustment:fps''"

definition rk_isp_get_contrast :: "isp \<Rightarrow> int \<Rightarrow> (int \<times> int option) option" where
  "rk_isp_get_contrast = get_int ''adjustment:contrast''"

definition rk_isp_get_brightness :: "isp \<Rightarrow> int \<Rightarrow> (int \<times> int option) option" where
  "rk_isp_get_brightness = get_int ''adjustment:brightness''"

definition rk_isp_get_saturation :: "isp \<Rightarrow> int \<Rightarrow> (int \<times> int option) option" where
  "rk_isp_get_saturation = get_int ''adjustment:saturation''"

definition rk_isp_get_sharpness :: "isp \<Rightarrow> int \<Rightarrow> (int \<times> int option) option" where
  "rk_isp_get_sharpness = get_int ''adjustment:sharpness''"

definition rk_isp_get_hue :: "isp \<Rightarrow> int \<Rightarrow> (int \<times> int option) option" where
  "rk_isp_get_hue = get_int ''adjustment:hue''"

definition rk_isp_get_exposure_mode :: "isp \<Rightarrow> int \<Rightarrow> (int \<times> cptr option) option" where
  "rk_isp_get_exposure_mode = get_text ''exposure:exposure_mode'' Null"

definition rk_isp_get_gain_mode :: "isp \<Rightarrow> int \<Rightarrow> (int \<times> cptr option) option" where
  "rk_isp_get_gain_mode = get_text ''exposure:gain_mode'' Null"

definition rk_isp_get_exposure_time :: "isp \<Rightarrow> int \<Rightarrow> (int \<times> cptr option) option" where
  "rk_isp_get_exposure_time = get_text ''exposure:exposure_time'' Null"

definition rk_isp_get_exposure_gain :: "isp \<Rightarrow> int \<Rightarrow> (int \<times> int option) option" where
  "rk_isp_get_exposure_gain = get_int ''exposure:exposure_gain''"

definition rk_isp_get_night_to_day :: "isp \<Rightarrow> int \<Rightarrow> (int \<times> cptr option) option" where
  "rk_isp_get_night_to_day = get_text ''night_to_day:night_to_day'' Null"

definition rk_isp_get_fill_light_mode :: "isp \<Rightarrow> int \<Rightarrow> (int \<times> cptr option) option" where
  "rk_isp_get_fill_light_mode = get_text ''night_to_day:fill_light_mode'' Null"

definition rk_isp_get_light_brightness :: "isp \<Rightarrow> int \<Rightarrow> (int \<times> int option) option" where
  "rk_isp_get_light_brightness = get_int ''night_to_day:light_brightness''"

definition rk_isp_get_night_to_day_filter_level :: "isp \<Rightarrow> int \<Rightarrow> (int \<times> int option) option" where
  "rk_isp_get_night_to_day_filter_level = get_int ''night_to_day:night_to_day_filter_level''"

definition rk_isp_get_night_to_day_filter_time :: "isp \<Rightarrow> int \<Rightarrow> (int \<times> int option) option" where
  "rk_isp_get_night_to_day_filter_time = get_int ''night_to_day:night_to_day_filter_time''"

definition rk_isp_get_hdr :: "isp \<Rightarrow> int \<Rightarrow> (int \<times> cptr option) option" where
  "rk_isp_get_hdr = get_text ''blc:hdr'' Null"

definition rk_isp_get_blc_region :: "isp \<Rightarrow> int \<Rightarrow> (int \<times> cptr option) option" where
  "rk_isp_get_blc_region = get_text ''blc:blc_region'' Null"

definition rk_isp_get_hlc :: "isp \<Rightarrow> int \<Rightarrow> (int \<times> cptr option) option" where
  "rk_isp_get_hlc = get_text ''blc:hlc'' Null"

definition rk_isp_get_hdr_level :: "isp \<Rightarrow> int \<Rightarrow> (int \<times> int option) option" where
  "rk_isp_get_hdr_level = get_int ''blc:hdr_level''"

definition rk_isp_get_blc_strength :: "isp \<Rightarrow> int \<Rightarrow> (int \<times> int option) option" where
  "rk_isp_get_blc_strength = get_int ''blc:blc_strength''"

definition rk_isp_get_hlc_level :: "isp \<Rightarrow> int \<Rightarrow> (int \<times> int option) option" where
  "rk_isp_get_hlc_level = get_int ''blc:hlc_level''"

definition rk_isp_get_dark_boost_level :: "isp \<Rightarrow> int \<Rightarrow> (int \<times> int option) option" where
  "rk_isp_get_dark_boost_level = get_int ''blc:dark_boost_level''"

definition rk_isp_get_white_blance_style :: "isp \<Rightarrow> int \<Rightarrow> (int \<times> cptr option) option" where
  "rk_isp_get_white_blance_style = get_text ''white_blance:white_blance_style'' Null"

definition rk_isp_get_white_blance_red :: "isp \<Rightarrow> int \<Rightarrow> (int \<times> int option) option" where
  "rk_isp_get_white_blance_red = get_int ''white_blance:white_blance_red''"

definition rk_isp_get_white_blance_green :: "isp \<Rightarrow> int \<Rightarrow> (int \<times> int option) option" where
  "rk_isp_get_white_blance_green = get_int ''white_blance:white_blance_green''"

definition rk_isp_get_white_blance_blue :: "isp \<Rightarrow> int \<Rightarrow> (int \<times> int option) option" where
  "rk_isp_get_white_blance_blue = get_int ''white_blance:white_blance_blue''"

definition rk_isp_get_noise_reduce_mode :: "isp \<Rightarrow> int \<Rightarrow> (int \<times> cptr option) option" where
  "rk_isp_get_noise_reduce_mode = get_text ''enhancement:noise_reduce_mode'' Null"

definition rk_isp_get_dehaze :: "isp \<Rightarrow> int \<Rightarrow> (int \<times> cptr option) option" where
  "rk_isp_get_dehaze = get_text ''enhancement:dehaze'' Null"

definition rk_isp_get_gray_scale_mode :: "isp \<Rightarrow> int \<Rightarrow> (int \<times> cptr option) option" where
  "rk_isp_get_gray_scale_mode = get_text ''enhancement:gray_scale_mode'' Null"

definition rk_isp_get_distortion_correction :: "isp \<Rightarrow> int \<Rightarrow> (int \<times> cptr option) option" where
  "rk_isp_get_distortion_correction = get_text ''enhancement:distortion_correction'' Null"

definition rk_isp_get_spatial_denoise_level :: "isp \<Rightarrow> int \<Rightarrow> (int \<times> int option) option" where
  "rk_isp_get_spatial_denoise_level = get_int ''enhancement:spatial_denoise_level''"

definition rk_isp_get_temporal_denoise_level :: "isp \<Rightarrow> int \<Rightarrow> (int \<times> int option) option" where
  "rk_isp_get_temporal_denoise_level = get_int ''enhancement:temporal_denoise_level''"

definition rk_isp_get_dehaze_level :: "isp \<Rightarrow> int \<Rightarrow> (int \<times> int option) option" where
  "rk_isp_get_dehaze_level = get_int ''enhancement:dehaze_level''"

definition rk_isp_get_fec_level :: "isp \<Rightarrow> int \<Rightarrow> (int \<times> int option) option" where
  "rk_isp_get_fec_level = get_int ''enhancement:fec_level''"

definition rk_isp_get_ldch_level :: "isp \<Rightarrow> int \<Rightarrow> (int \<times> int option) option" where
  "rk_isp_get_ldch_level = get_int ''enhancement:ldch_level''"

definition rk_isp_get_power_line_frequency_mode :: "isp \<Rightarrow> int \<Rightarrow> (int \<times> cptr option) option" where
  "rk_isp_get_power_line_frequency_mode = get_text ''video_adjustment:power_line_frequency_mode'' Null"

definition rk_isp_get_image_flip :: "isp \<Rightarrow> int \<Rightarrow> (int \<times> cptr option) option" where
  "rk_isp_get_image_flip = get_text ''video_adjustment:image_flip'' Null"

definition rk_isp_get_af_mode :: "isp \<Rightarrow> int \<Rightarrow> (int \<times> cptr option) option" where
  "rk_isp_get_af_mode = get_text ''auto_focus:af_mode'' (Str ''auto'')"

definition rk_isp_get_zoom_level :: "isp \<Rightarrow> int \<Rightarrow> (int \<times> int option) option" where
  "rk_isp_get_zoom_level = get_int ''auto_focus:zoom_level''"

definition rk_isp_get_focus_level :: "isp \<Rightarrow> int \<Rightarrow> (int \<times> int option) option" where
  "rk_isp_get_focus_level = get_int ''auto_focus:focus_level''"

definition rk_isp_get_scenario :: "isp \<Rightarrow> int \<Rightarrow> (int \<times> cptr option) option" where
  "rk_isp_get_scenario s cam_id = Some (0, Some (rk_param_get_string (isp_param s) ''isp:scenario'' Null))"

end
