(* ===== verification/IspSettings.thy ===== *)
theory IspSettings
  imports IspState
begin

unbundle bit_operations_syntax

text \<open>
  The setters of \<^verbatim>\<open>common/isp/rv1106/isp.c\<close>, in the order of the file. Each one checks the
  camera, makes its library calls and stores the value in the entry of the current scenario.
  A result the code leaves uninitialised is \<open>junk\<close>. Float and double expressions are written
  with the rounding of every operation.
\<close>

section \<open>Building blocks\<close>

text \<open>Query an attribute, change it, set it: both results and the state.\<close>

definition modify ::
  "isp_env \<Rightarrow> aiq_query \<Rightarrow> (isp_log \<Rightarrow> 'a) \<Rightarrow> ('a \<Rightarrow> aiq_tune) \<Rightarrow> ('a \<Rightarrow> 'a) \<Rightarrow> int \<Rightarrow> isp \<Rightarrow> int \<times> int \<times> isp" where
  "modify env query attr tune f cam_id s =
     (let h = get_ctx s cam_id; q = sdk env (Query query h) s;
          t = sdk env (Tune (tune (f (attr (isp_log (snd q))))) h) (snd q)
      in (fst q, fst t, snd t))"

definition set_exp :: "isp_env \<Rightarrow> (exp_attr \<Rightarrow> exp_attr) \<Rightarrow> int \<Rightarrow> isp \<Rightarrow> int \<times> isp" where
  "set_exp env f cam_id s = snd (modify env Ae_get (sdk_exp env) Ae_set f cam_id s)"

definition check_normal :: "isp \<Rightarrow> int \<Rightarrow> (int \<times> isp) option \<Rightarrow> (int \<times> isp) option" where
  "check_normal s cam_id rest = (if g_WDRMode s cam_id \<noteq> Wdr_normal then Some (0, s) else rest)"

definition percent255 :: "isp_env \<Rightarrow> int \<Rightarrow> rat" where
  "percent255 env v = fl64 env (of_int v * fl64 env (255 / 100))"

section \<open>Board: infrared cut and fill light\<close>

definition rk_isp_enable_ircut :: "isp_env \<Rightarrow> bool \<Rightarrow> isp \<Rightarrow> (int \<times> isp) option" where
  "rk_isp_enable_ircut env on s =
     do {
       open_gpio \<leftarrow> rk_param_get_int (isp_param s) ''isp:ircut_open_gpio'' (-1);
       close_gpio \<leftarrow> rk_param_get_int (isp_param s) ''isp:ircut_close_gpio'' (-1);
       if open_gpio < 0 \<or> close_gpio < 0 then Some (-1, s)
       else
         (let (r1, s1) = sdk env (Board (Gpio_output open_gpio)) s;
              (r2, s2) = sdk env (Board (Gpio_output close_gpio)) s1;
              pin = (if on then open_gpio else close_gpio)
          in Some (r1 OR r2,
                   (sdk_do env (Board (Gpio_unexport close_gpio)) \<circ> sdk_do env (Board (Gpio_unexport open_gpio)) \<circ>
                    sdk_do env (Board (Gpio_set pin False)) \<circ> sdk_do env (Board (Gpio_set pin True))) s2))
     }"

definition rk_isp_set_light_strength :: "isp_env \<Rightarrow> nat \<Rightarrow> nat \<Rightarrow> nat \<Rightarrow> isp \<Rightarrow> int \<times> isp" where
  "rk_isp_set_light_strength env pwm period duty s =
     (case sdk env (Board (Pwm_init pwm period duty)) s of
        (ret, s1) \<Rightarrow>
          if ret \<noteq> 0 then (ret, s1\<lparr>light_state := 0\<rparr>)
          else (junk env, sdk_do env (Board (Pwm_enable pwm)) (s1\<lparr>light_state := 1\<rparr>)))"

definition rk_isp_close_light :: "isp_env \<Rightarrow> nat \<Rightarrow> isp \<Rightarrow> int \<times> isp" where
  "rk_isp_close_light env pwm s = (junk env, sdk_do env (Board (Pwm_deinit pwm)) (s\<lparr>light_state := 0\<rparr>))"

section \<open>Frame rate\<close>

definition set_fps :: "int \<Rightarrow> exp_attr \<Rightarrow> exp_attr" where
  "set_fps value a = (if value = 0 then a\<lparr>ae_fps_fix := False\<rparr> else a\<lparr>ae_fps_fix := True, ae_fps := value\<rparr>)"

definition rk_isp_set_frame_rate :: "isp_env \<Rightarrow> int \<Rightarrow> int \<Rightarrow> isp \<Rightarrow> (int \<times> isp) option" where
  "rk_isp_set_frame_rate env cam_id value s =
     check_camera s cam_id
       (put_int env cam_id ''adjustment:fps'' value (0, snd (set_exp env (set_fps value) cam_id s)))"

definition rk_isp_set_frame_rate_without_ini :: "isp_env \<Rightarrow> int \<Rightarrow> int \<Rightarrow> isp \<Rightarrow> (int \<times> isp) option" where
  "rk_isp_set_frame_rate_without_ini env cam_id value s =
     check_camera s cam_id (Some (0, snd (set_exp env (set_fps value) cam_id s)))"

section \<open>Image adjustment\<close>

definition set_acp ::
  "isp_env \<Rightarrow> string \<Rightarrow> (rat \<Rightarrow> acp_attr \<Rightarrow> acp_attr) \<Rightarrow> int \<Rightarrow> int \<Rightarrow> isp \<Rightarrow> (int \<times> isp) option" where
  "set_acp env field upd cam_id value s =
     check_camera s cam_id
       (case modify env Acp_get (sdk_acp env) Acp_set (upd (percent255 env value)) cam_id s of
          (r1, r2, s') \<Rightarrow> put_int env cam_id field value (r1 OR r2, s'))"

definition rk_isp_set_contrast :: "isp_env \<Rightarrow> int \<Rightarrow> int \<Rightarrow> isp \<Rightarrow> (int \<times> isp) option" where
  "rk_isp_set_contrast env = set_acp env ''adjustment:contrast'' (\<lambda>x a. a\<lparr>acp_contrast := x\<rparr>)"

definition rk_isp_set_brightness :: "isp_env \<Rightarrow> int \<Rightarrow> int \<Rightarrow> isp \<Rightarrow> (int \<times> isp) option" where
  "rk_isp_set_brightness env = set_acp env ''adjustment:brightness'' (\<lambda>x a. a\<lparr>acp_brightness := x\<rparr>)"

definition rk_isp_set_saturation :: "isp_env \<Rightarrow> int \<Rightarrow> int \<Rightarrow> isp \<Rightarrow> (int \<times> isp) option" where
  "rk_isp_set_saturation env = set_acp env ''adjustment:saturation'' (\<lambda>x a. a\<lparr>acp_saturation := x\<rparr>)"

definition rk_isp_set_hue :: "isp_env \<Rightarrow> int \<Rightarrow> int \<Rightarrow> isp \<Rightarrow> (int \<times> isp) option" where
  "rk_isp_set_hue env = set_acp env ''adjustment:hue'' (\<lambda>x a. a\<lparr>acp_hue := x\<rparr>)"

definition rk_isp_set_sharpness :: "isp_env \<Rightarrow> int \<Rightarrow> int \<Rightarrow> isp \<Rightarrow> (int \<times> isp) option" where
  "rk_isp_set_sharpness env cam_id value s =
     check_camera s cam_id
       (case sdk env (Tune (Sharp_set (fl32 env (fl32 env (of_int value) / 100))) (get_ctx s cam_id)) s of
          (ret, s1) \<Rightarrow> if ret \<noteq> 0 then Some (ret, s1) else put_int env cam_id ''adjustment:sharpness'' value (ret, s1))"

section \<open>Exposure\<close>

definition rk_isp_set_exposure_mode :: "isp_env \<Rightarrow> int \<Rightarrow> string \<Rightarrow> isp \<Rightarrow> (int \<times> isp) option" where
  "rk_isp_set_exposure_mode env cam_id value s =
     check_camera s cam_id
       (put_text env cam_id ''exposure:exposure_mode'' value
         (0, snd (set_exp env (\<lambda>a.
            if value = ''auto'' then a\<lparr>ae_manual := False\<rparr>
            else if g_WDRMode s cam_id \<noteq> Wdr_normal
            then a\<lparr>ae_manual := True, ae_hdr_gain_en := True, ae_hdr_time_en := True\<rparr>
            else a\<lparr>ae_manual := True, ae_lin_gain_en := True, ae_lin_time_en := True\<rparr>) cam_id s)))"

definition rk_isp_set_gain_mode :: "isp_env \<Rightarrow> int \<Rightarrow> string \<Rightarrow> isp \<Rightarrow> (int \<times> isp) option" where
  "rk_isp_set_gain_mode env cam_id value s =
     check_camera s cam_id
       (put_text env cam_id ''exposure:gain_mode'' value
         (set_exp env (\<lambda>a. a\<lparr>ae_lin_gain_en := value \<noteq> ''auto'', ae_hdr_gain_en := value \<noteq> ''auto''\<rparr>) cam_id s))"

text \<open>\<^verbatim>\<open>"1/25"\<close> or a plain number; a failed conversion or a division by zero gives no number.\<close>

definition exposure_seconds :: "isp_env \<Rightarrow> string \<Rightarrow> time_value" where
  "exposure_seconds env value =
     (case scan_float env value of
        None \<Rightarrow> Time_other
      | Some (num, rest) \<Rightarrow>
          if CHR ''/'' \<notin> set value then Time_value num
          else (case rest of
                  [] \<Rightarrow> Time_other
                | c # rest' \<Rightarrow>
                    if c \<noteq> CHR ''/'' then Time_other
                    else (case scan_float env rest' of
                            None \<Rightarrow> Time_other
                          | Some (den, _) \<Rightarrow> if den = 0 then Time_other else Time_value (fl32 env (num / den)))))"

definition rk_isp_set_exposure_time :: "isp_env \<Rightarrow> int \<Rightarrow> string \<Rightarrow> isp \<Rightarrow> (int \<times> isp) option" where
  "rk_isp_set_exposure_time env cam_id value s =
     check_camera s cam_id
       (let t = exposure_seconds env value
        in put_text env cam_id ''exposure:exposure_time'' value
             (set_exp env (\<lambda>a. a\<lparr>ae_lin_time := t, ae_hdr_time := [t, t, t]\<rparr>) cam_id s))"

text \<open>The test of the two enable flags is written with an assignment: it clears them and is never true.\<close>

definition rk_isp_set_exposure_gain :: "isp_env \<Rightarrow> int \<Rightarrow> int \<Rightarrow> isp \<Rightarrow> (int \<times> isp) option" where
  "rk_isp_set_exposure_gain env cam_id value s =
     check_camera s cam_id
       (let g = fl32 env (of_int value)
        in put_int env cam_id ''exposure:exposure_gain'' value
             (set_exp env (\<lambda>a. a\<lparr>ae_lin_gain_en := False, ae_hdr_gain_en := False,
                                ae_lin_gain := g, ae_hdr_gain := [g, g, g]\<rparr>) cam_id s))"

section \<open>Night to day\<close>

definition rk_isp_set_night_to_day :: "isp_env \<Rightarrow> int \<Rightarrow> string \<Rightarrow> isp \<Rightarrow> (int \<times> isp) option" where
  "rk_isp_set_night_to_day env cam_id value s =
     check_camera s cam_id
       (let h = get_ctx s cam_id; s0 = sdk_do env (Query Ie_get h) s
        in if value = ''night''
           then do {
             (r, s1) \<leftarrow> rk_isp_enable_ircut env False (sdk_do env (Tune (Ie_set True) h) s0);
             put_text env cam_id ''night_to_day:night_to_day'' value (junk env, s1)
           }
           else do {
             (r, s1) \<leftarrow> rk_isp_enable_ircut env True s0;
             let s2 = (if light_state s1 = 1 then snd (rk_isp_close_light env 3 s1) else s1);
             put_text env cam_id ''night_to_day:night_to_day'' value (junk env, sdk_do env (Tune (Ie_set False) h) s2)
           })"

definition rk_isp_set_fill_light_mode :: "isp_env \<Rightarrow> int \<Rightarrow> string \<Rightarrow> isp \<Rightarrow> (int \<times> isp) option" where
  "rk_isp_set_fill_light_mode env cam_id value s =
     check_camera s cam_id (put_text env cam_id ''night_to_day:fill_light_mode'' value (junk env, s))"

definition rk_isp_set_light_brightness :: "isp_env \<Rightarrow> int \<Rightarrow> int \<Rightarrow> isp \<Rightarrow> (int \<times> isp) option" where
  "rk_isp_set_light_brightness env cam_id value s =
     (if light_level s = value then Some (0, s)
      else check_camera s cam_id
        (map_option (\<lambda>(r, s'). (r, s'\<lparr>light_level := value\<rparr>))
          (put_int env cam_id ''night_to_day:light_brightness'' value (rk_isp_set_light_strength env 3 10000 5000 s))))"

definition rk_isp_set_night_to_day_filter_level :: "isp_env \<Rightarrow> int \<Rightarrow> int \<Rightarrow> isp \<Rightarrow> (int \<times> isp) option" where
  "rk_isp_set_night_to_day_filter_level env cam_id value s =
     check_camera s cam_id (put_int env cam_id ''night_to_day:night_to_day_filter_level'' value (junk env, s))"

definition rk_isp_set_night_to_day_filter_time :: "isp_env \<Rightarrow> int \<Rightarrow> int \<Rightarrow> isp \<Rightarrow> (int \<times> isp) option" where
  "rk_isp_set_night_to_day_filter_time env cam_id value s =
     check_camera s cam_id (put_int env cam_id ''night_to_day:night_to_day_filter_time'' value (junk env, s))"

section \<open>Back light\<close>

definition set_lin_text ::
  "isp_env \<Rightarrow> string \<Rightarrow> (lin_attr \<Rightarrow> lin_attr) \<Rightarrow> int \<Rightarrow> string \<Rightarrow> isp \<Rightarrow> (int \<times> isp) option" where
  "set_lin_text env field f cam_id value s =
     check_camera s cam_id (check_normal s cam_id
       (put_text env cam_id field value (snd (modify env Lin_get (sdk_lin env) Lin_set f cam_id s))))"

definition rk_isp_set_blc_region :: "isp_env \<Rightarrow> int \<Rightarrow> string \<Rightarrow> isp \<Rightarrow> (int \<times> isp) option" where
  "rk_isp_set_blc_region env cam_id value =
     set_lin_text env ''blc:blc_region''
       (\<lambda>a. a\<lparr>la_blc := value \<noteq> ''close'', la_blc_area_auto := True, la_blc_bias := 0\<rparr>) cam_id value"

definition rk_isp_set_hlc :: "isp_env \<Rightarrow> int \<Rightarrow> string \<Rightarrow> isp \<Rightarrow> (int \<times> isp) option" where
  "rk_isp_set_hlc env cam_id value =
     set_lin_text env ''blc:hlc'' (\<lambda>a. a\<lparr>la_hlc := value \<noteq> ''close'', la_hlc_bias := 0\<rparr>) cam_id value"

definition rk_isp_set_hdr_level :: "isp_env \<Rightarrow> int \<Rightarrow> int \<Rightarrow> isp \<Rightarrow> (int \<times> isp) option" where
  "rk_isp_set_hdr_level env cam_id value s =
     check_camera s cam_id
       (put_int env cam_id ''blc:hdr_level'' value
         (junk env, sdk_do env (Tune (Drc_gain (fl32 env (of_int value)) (fl64 env (1 / 10)) 16) (get_ctx s cam_id)) s))"

text \<open>A strength is only accepted while its mode is enabled.\<close>

definition set_lin_bias ::
  "isp_env \<Rightarrow> string \<Rightarrow> (lin_attr \<Rightarrow> bool) \<Rightarrow> (lin_attr \<Rightarrow> lin_attr) \<Rightarrow> int \<Rightarrow> int \<Rightarrow> isp \<Rightarrow> (int \<times> isp) option" where
  "set_lin_bias env field enabled f cam_id value s =
     check_camera s cam_id (check_normal s cam_id
       (let h = get_ctx s cam_id; s1 = sdk_do env (Query Lin_get h) s; a = sdk_lin env (isp_log s1)
        in if \<not> enabled a then Some (0, s1)
           else put_int env cam_id field value (sdk env (Tune (Lin_set (f a)) h) s1)))"

definition rk_isp_set_blc_strength :: "isp_env \<Rightarrow> int \<Rightarrow> int \<Rightarrow> isp \<Rightarrow> (int \<times> isp) option" where
  "rk_isp_set_blc_strength env cam_id value =
     set_lin_bias env ''blc:blc_strength'' la_blc (\<lambda>a. a\<lparr>la_blc_bias := value\<rparr>) cam_id value"

definition rk_isp_set_hlc_level :: "isp_env \<Rightarrow> int \<Rightarrow> int \<Rightarrow> isp \<Rightarrow> (int \<times> isp) option" where
  "rk_isp_set_hlc_level env cam_id value =
     (let v = (if value = 0 then 1 else value)
      in set_lin_bias env ''blc:hlc_level'' la_hlc (\<lambda>a. a\<lparr>la_hlc_bias := v\<rparr>) cam_id v)"

definition rk_isp_set_dark_boost_level :: "isp_env \<Rightarrow> int \<Rightarrow> int \<Rightarrow> isp \<Rightarrow> (int \<times> isp) option" where
  "rk_isp_set_dark_boost_level env cam_id value s =
     check_camera s cam_id
       (let gain = fl32 env (fl32 env (fl32 env (fl32 env (of_int value) / fl32 env (143 / 10)) + 1) * 1)
        in put_int env cam_id ''blc:dark_boost_level'' value
             (sdk env (Tune (Drc_gain gain (fl32 env (1 / 10)) 16) (get_ctx s cam_id)) s))"

section \<open>White balance\<close>

definition rk_isp_set_white_blance_style :: "isp_env \<Rightarrow> int \<Rightarrow> string \<Rightarrow> isp \<Rightarrow> (int \<times> isp) option" where
  "rk_isp_set_white_blance_style env cam_id value s =
     check_camera s cam_id
       (put_text env cam_id ''white_blance:white_blance_style'' value
         (sdk env (Tune (Wp_set (value = ''manualWhiteBalance'')) (get_ctx s cam_id)) s))"

text \<open>\<^verbatim>\<open>value / 50.0f * gain\<close> with a factory gain.\<close>

definition wb_gain :: "isp_env \<Rightarrow> int \<Rightarrow> rat \<Rightarrow> rat" where
  "wb_gain env value factory = fl32 env (fl32 env (fl32 env (of_int value) / 50) * fl32 env factory)"

definition set_wb ::
  "isp_env \<Rightarrow> string \<Rightarrow> (int \<Rightarrow> mwb_attr \<Rightarrow> mwb_attr) \<Rightarrow> int \<Rightarrow> int \<Rightarrow> isp \<Rightarrow> (int \<times> isp) option" where
  "set_wb env field upd cam_id value s =
     check_camera s cam_id
       (let s1 = sdk_do env (Query Wp_get (get_ctx s cam_id)) s; v = (if value = 0 then 1 else value)
        in if sdk_wb_auto env (isp_log s1) then Some (0, s1)
           else put_int env cam_id field v
             (junk env,
              snd (snd (modify env Mwb_get (sdk_mwb env) Mwb_set
                (\<lambda>a. upd v (a\<lparr>mw_sync := True, mw_gain_mode := True\<rparr>)) cam_id s1))))"

definition rk_isp_set_white_blance_red :: "isp_env \<Rightarrow> int \<Rightarrow> int \<Rightarrow> isp \<Rightarrow> (int \<times> isp) option" where
  "rk_isp_set_white_blance_red env =
     set_wb env ''white_blance:white_blance_red'' (\<lambda>v a. a\<lparr>mw_rgain := wb_gain env v (20839 / 10000)\<rparr>)"

definition rk_isp_set_white_blance_green :: "isp_env \<Rightarrow> int \<Rightarrow> int \<Rightarrow> isp \<Rightarrow> (int \<times> isp) option" where
  "rk_isp_set_white_blance_green env =
     set_wb env ''white_blance:white_blance_green''
       (\<lambda>v a. a\<lparr>mw_grgain := wb_gain env v 1, mw_gbgain := wb_gain env v 1\<rparr>)"

definition rk_isp_set_white_blance_blue :: "isp_env \<Rightarrow> int \<Rightarrow> int \<Rightarrow> isp \<Rightarrow> (int \<times> isp) option" where
  "rk_isp_set_white_blance_blue env =
     set_wb env ''white_blance:white_blance_blue'' (\<lambda>v a. a\<lparr>mw_bgain := wb_gain env v (20185 / 10000)\<rparr>)"

section \<open>Enhancement\<close>

definition rk_isp_set_noise_reduce_mode :: "isp_env \<Rightarrow> int \<Rightarrow> string \<Rightarrow> isp \<Rightarrow> (int \<times> isp) option" where
  "rk_isp_set_noise_reduce_mode env cam_id value s =
     check_camera s cam_id (put_text env cam_id ''enhancement:noise_reduce_mode'' value (junk env, s))"

definition dehaze_on :: "dehaze_setting \<Rightarrow> dehaze_setting" where
  "dehaze_on d = d\<lparr>ds_enable := True, ds_dehaze := True, ds_enhance := False, ds_alpha := 1\<rparr>"

definition dehaze_apply :: "(dehaze_setting \<Rightarrow> dehaze_setting) \<Rightarrow> dehaze_attr \<Rightarrow> dehaze_attr" where
  "dehaze_apply f a =
     (case dh_mode a of
        Dehaze_auto \<Rightarrow> a\<lparr>dh_auto := f (dh_auto a)\<rparr>
      | Dehaze_manual \<Rightarrow> a\<lparr>dh_manual := f (dh_manual a)\<rparr>
      | Dehaze_other \<Rightarrow> a)"

definition dehaze_set :: "string \<Rightarrow> dehaze_attr \<Rightarrow> dehaze_attr" where
  "dehaze_set value a0 =
     (let a = a0\<lparr>dh_sync_default := True, dh_done := False\<rparr>
      in if value = ''close'' then dehaze_apply (\<lambda>d. d\<lparr>ds_dehaze := False\<rparr>) a
         else if value = ''open'' \<or> value = ''auto''
         then (dehaze_apply dehaze_on a)\<lparr>dh_update := True, dh_strength := 50\<rparr>
         else a)"

definition rk_isp_set_dehaze :: "isp_env \<Rightarrow> int \<Rightarrow> string \<Rightarrow> isp \<Rightarrow> (int \<times> isp) option" where
  "rk_isp_set_dehaze env cam_id value s =
     check_camera s cam_id
       (put_text env cam_id ''enhancement:dehaze'' value
         (snd (modify env Dehaze_get (sdk_dehaze env) Dehaze_set (dehaze_set value) cam_id s)))"

definition rk_isp_set_gray_scale_mode :: "isp_env \<Rightarrow> int \<Rightarrow> string \<Rightarrow> isp \<Rightarrow> (int \<times> isp) option" where
  "rk_isp_set_gray_scale_mode env cam_id value s =
     check_camera s cam_id
       (let h = get_ctx s cam_id; s1 = sdk_do env (Query Acgc_get h) s
        in put_text env cam_id ''enhancement:gray_scale_mode'' value
             (junk env, sdk_do env (Tune (Acgc_set (value \<noteq> ''[16-235]'')) h) s1))"

definition rk_isp_set_distortion_correction :: "isp_env \<Rightarrow> int \<Rightarrow> string \<Rightarrow> isp \<Rightarrow> (int \<times> isp) option" where
  "rk_isp_set_distortion_correction env cam_id value s =
     check_camera s cam_id
       (put_text env cam_id ''enhancement:distortion_correction'' value
         (snd (modify env Ldch_get (sdk_ldch env) Ldch_set (\<lambda>a. a\<lparr>ld_en := value \<noteq> ''close''\<rparr>) cam_id s)))"

text \<open>The level a denoiser gets: 50 in the modes that switch it off; \<open>None\<close> without a mode (\<^verbatim>\<open>strcmp\<close> of NULL).\<close>

definition denoise_level :: "isp \<Rightarrow> int \<Rightarrow> string \<Rightarrow> int \<Rightarrow> int option" where
  "denoise_level s cam_id other value =
     (case isp_text_or s cam_id ''enhancement:noise_reduce_mode'' Null of
        Str mode \<Rightarrow> Some (if mode = ''close'' \<or> mode = other then 50 else value)
      | _ \<Rightarrow> None)"

definition rk_isp_set_spatial_denoise_level :: "isp_env \<Rightarrow> int \<Rightarrow> int \<Rightarrow> isp \<Rightarrow> (int \<times> isp) option" where
  "rk_isp_set_spatial_denoise_level env cam_id value s =
     check_camera s cam_id
       (do {
          v \<leftarrow> denoise_level s cam_id ''3dnr'' value;
          let h = get_ctx s cam_id;
          let p = fl64 env (of_int v / 100);
          let s1 = sdk_do env (Tune (Ynr_set p) h) s;
          put_int env cam_id ''enhancement:spatial_denoise_level'' v (sdk env (Query (Bayer2dnr_get p) h) s1)
        })"

definition rk_isp_set_temporal_denoise_level :: "isp_env \<Rightarrow> int \<Rightarrow> int \<Rightarrow> isp \<Rightarrow> (int \<times> isp) option" where
  "rk_isp_set_temporal_denoise_level env cam_id value s =
     check_camera s cam_id
       (do {
          v \<leftarrow> denoise_level s cam_id ''2dnr'' value;
          put_int env cam_id ''enhancement:temporal_denoise_level'' v
            (sdk env (Tune (Bayertnr_set (fl64 env (of_int v / 100))) (get_ctx s cam_id)) s)
        })"

text \<open>The mode is read under the camera number, the level stored under the scenario number.\<close>

definition rk_isp_set_dehaze_level :: "isp_env \<Rightarrow> int \<Rightarrow> int \<Rightarrow> isp \<Rightarrow> (int \<times> isp) option" where
  "rk_isp_set_dehaze_level env cam_id value s =
     check_camera s cam_id
       (case rk_param_get_string (isp_param s) (isp_entry cam_id ''enhancement:dehaze'') (Str ''close'') of
          Str mode \<Rightarrow>
            if mode = ''close'' then Some (0, s)
            else put_int env cam_id ''enhancement:dehaze_level'' value
                   (snd (modify env Dehaze_get (sdk_dehaze env) Dehaze_set
                      (\<lambda>a. a\<lparr>dh_sync_default := True, dh_done := False, dh_update := True, dh_strength := value * 10\<rparr>)
                      cam_id s))
        | _ \<Rightarrow> None)"

definition rk_isp_set_fec_level :: "isp_env \<Rightarrow> int \<Rightarrow> int \<Rightarrow> isp \<Rightarrow> (int \<times> isp) option" where
  "rk_isp_set_fec_level env cam_id value s =
     check_camera s cam_id (put_int env cam_id ''enhancement:fec_level'' value (0, s))"

definition rk_isp_set_ldch_level :: "isp_env \<Rightarrow> int \<Rightarrow> int \<Rightarrow> isp \<Rightarrow> (int \<times> isp) option" where
  "rk_isp_set_ldch_level env cam_id value s =
     do {
       group_ldch \<leftarrow> rk_param_get_int (isp_param s) ''isp:group_ldch'' 0;
       if group_ldch \<noteq> 0 then Some (0, s)
       else check_camera s cam_id
         (let v = (if value < 0 then 0 else value)
          in put_int env cam_id ''enhancement:ldch_level'' v
               (snd (modify env Ldch_get (sdk_ldch env) Ldch_set
                  (\<lambda>a. a\<lparr>ld_level := \<lfloor>fl64 env (fl64 env (of_int v * fl64 env (253 / 100)) + 2)\<rfloor>\<rparr>) cam_id s)))
     }"

section \<open>Video adjustment\<close>

definition rk_isp_set_power_line_frequency_mode :: "isp_env \<Rightarrow> int \<Rightarrow> string \<Rightarrow> isp \<Rightarrow> (int \<times> isp) option" where
  "rk_isp_set_power_line_frequency_mode env cam_id value s =
     check_camera s cam_id
       (put_text env cam_id ''video_adjustment:power_line_frequency_mode'' value
         (set_exp env (\<lambda>a. a\<lparr>ae_flicker := True, ae_flicker_60hz := value = ''NTSC(60HZ)'', ae_flicker_normal := True\<rparr>)
            cam_id s))"

text \<open>Mirror, flip and the number \<^verbatim>\<open>make_meta\<close> gets; an unknown word leaves both uninitialised.\<close>

definition flip_mode :: "string \<Rightarrow> (int \<times> int \<times> string) option" where
  "flip_mode value =
     (if value = ''close'' then Some (0, 0, ''0'')
      else if value = ''flip'' then Some (0, 1, ''1'')
      else if value = ''mirror'' then Some (1, 0, ''2'')
      else if value = ''centrosymmetric'' then Some (1, 1, ''3'')
      else None)"

definition make_meta :: "string \<Rightarrow> string" where
  "make_meta n = ''make_meta --update --meta_path /dev/block/by-name/meta --rk_cam_mirror_flip '' @ n"

definition rk_isp_set_image_flip :: "isp_env \<Rightarrow> int \<Rightarrow> string \<Rightarrow> isp \<Rightarrow> (int \<times> isp) option" where
  "rk_isp_set_image_flip env cam_id value s =
     check_camera s cam_id
       (if aiq_use_group s then Some (0, s)
        else
          (let (mirror, flip, s1) =
             (case flip_mode value of
                None \<Rightarrow> (junk env, junk env, s)
              | Some (mirror, flip, n) \<Rightarrow>
                  (mirror, flip,
                   (case sdk env (Board Meta_access) s of
                      (r, s') \<Rightarrow> if r = 0 then sdk_do env (Board (System (make_meta n))) s' else s')))
           in put_text env cam_id ''video_adjustment:image_flip'' value
                (junk env, sdk_do env (Control (Mirror_flip mirror flip 4) (get_ctx s1 cam_id)) s1)))"

section \<open>Focus\<close>

definition rk_isp_set_af_mode :: "isp_env \<Rightarrow> int \<Rightarrow> string option \<Rightarrow> isp \<Rightarrow> (int \<times> isp) option" where
  "rk_isp_set_af_mode env cam_id value s =
     check_camera s cam_id
       (case value of
          None \<Rightarrow> Some (-1, s)
        | Some v \<Rightarrow>
            (let put = (\<lambda>m. put_text env cam_id ''auto_focus:af_mode'' v
                          (0, sdk_do env (Control (Focus_mode m) (get_ctx s cam_id)) s))
             in if v = ''auto'' then put Op_auto
                else if v = ''semi-auto'' then put Op_semi_auto
                else if v = ''manual'' then put Op_manual
                else Some (-1, s)))"

text \<open>The range check of the zoom only logs: the position is set all the same.\<close>

definition rk_isp_af_zoom_change :: "isp_env \<Rightarrow> int \<Rightarrow> int \<Rightarrow> isp \<Rightarrow> (int \<times> isp) option" where
  "rk_isp_af_zoom_change env cam_id change s =
     check_camera s cam_id
       (let h = get_ctx s cam_id; (ret, s1) = sdk env (Query Zoom_range h) s
        in if ret \<noteq> 0 then Some (ret, s1)
           else
             (let s2 = sdk_do env (Query Zoom_get h) s1; code = sdk_position env (isp_log s2) + change
              in put_int env cam_id ''auto_focus:zoom_level'' code (sdk env (Control (Zoom_set code) h) s2)))"

text \<open>The focus code is a 16-bit \<^verbatim>\<open>short\<close>.\<close>

definition rk_isp_af_focus_change :: "isp_env \<Rightarrow> int \<Rightarrow> int \<Rightarrow> isp \<Rightarrow> (int \<times> isp) option" where
  "rk_isp_af_focus_change env cam_id change s =
     check_camera s cam_id
       (case isp_text_or s cam_id ''auto_focus:af_mode'' (Str ''auto'') of
          Str mode \<Rightarrow>
            if mode = ''auto'' then Some (0, s)
            else
              (let h = get_ctx s cam_id; (ret, s1) = sdk env (Query Focus_range h) s
               in if ret \<noteq> 0 then Some (ret, s1)
                  else
                    (let (min_pos, max_pos) = sdk_range env (isp_log s1); s2 = sdk_do env (Query Focus_get h) s1;
                         code = signed_take_bit 15 (sdk_position env (isp_log s2) + change)
                     in if code < min_pos \<or> code > max_pos then Some (-1, s2)
                        else put_int env cam_id ''auto_focus:focus_level'' code (sdk env (Control (Focus_set code) h) s2)))
        | _ \<Rightarrow> None)"

definition rk_isp_af_zoom_in :: "isp_env \<Rightarrow> int \<Rightarrow> isp \<Rightarrow> (int \<times> isp) option" where
  "rk_isp_af_zoom_in env cam_id = rk_isp_af_zoom_change env cam_id 20"

definition rk_isp_af_zoom_out :: "isp_env \<Rightarrow> int \<Rightarrow> isp \<Rightarrow> (int \<times> isp) option" where
  "rk_isp_af_zoom_out env cam_id = rk_isp_af_zoom_change env cam_id (-20)"

definition rk_isp_af_focus_in :: "isp_env \<Rightarrow> int \<Rightarrow> isp \<Rightarrow> (int \<times> isp) option" where
  "rk_isp_af_focus_in env cam_id = rk_isp_af_focus_change env cam_id 1"

definition rk_isp_af_focus_out :: "isp_env \<Rightarrow> int \<Rightarrow> isp \<Rightarrow> (int \<times> isp) option" where
  "rk_isp_af_focus_out env cam_id = rk_isp_af_focus_change env cam_id (-1)"

definition rk_isp_af_focus_once :: "isp_env \<Rightarrow> int \<Rightarrow> isp \<Rightarrow> int \<times> isp" where
  "rk_isp_af_focus_once env cam_id s = sdk env (Control Zoom_end (get_ctx s cam_id)) s"

end
