(* ===== verification/IspControl.thy ===== *)
theory IspControl
  imports IspSettings
begin

unbundle bit_operations_syntax

text \<open>
  The life cycle of the image-tuning layer \<^verbatim>\<open>common/isp/rv1106/isp.c\<close>: starting and stopping a
  camera or a camera group, switching scenario and HDR mode, and \<^verbatim>\<open>rk_isp_set_from_ini\<close>,
  which applies the whole configuration. The contract \<open>isp_contract\<close> collects what a state
  predicate needs so that every setter keeps it and never runs into undefined behaviour.
\<close>

section \<open>Starting and stopping\<close>

text \<open>\<^verbatim>\<open>strcpy\<close> of a configuration text into a buffer of \<open>n\<close> characters.\<close>

definition copy_text :: "nat \<Rightarrow> cptr \<Rightarrow> string option" where
  "copy_text n p = (case p of Str v \<Rightarrow> if length v < n then Some v else None | _ \<Rightarrow> None)"

definition sample_common_isp_init ::
  "isp_env \<Rightarrow> int \<Rightarrow> wdr_mode \<Rightarrow> string option \<Rightarrow> isp \<Rightarrow> (int \<times> isp) option" where
  "sample_common_isp_init env cam_id mode iq_file_dir s =
     (if cam_id \<ge> MAX_AIQ_CTX then Some (-1, s)
      else if cam_id < 0 then None
      else (case iq_file_dir of
              None \<Rightarrow> Some (0, s\<lparr>g_aiq_ctx := (g_aiq_ctx s)(cam_id := False)\<rparr>)
            | Some dir \<Rightarrow>
                (let s1 = sdk_do env (Sysctl (Hdr_env mode) cam_id) (s\<lparr>g_WDRMode := (g_WDRMode s)(cam_id := mode)\<rparr>);
                     s2 = sdk_do env (Sysctl Dev_buf_cnt cam_id) (sdk_do env (Sysctl Enum_sensor cam_id) s1);
                     s3 = s2\<lparr>main_scene := (if mode = Wdr_normal then ''normal'' else ''hdr'')\<rparr>;
                     (ret, s4) = sdk env (Sysctl (Preinit_scene (main_scene s3) (sub_scene s3)) cam_id) s3
                 in if ret < 0 then Some (-1, s4)
                    else
                      (let s5 = sdk_do env (Sysctl (Sysctl_init dir) cam_id) s4
                       in if \<not> sdk_context env (isp_log s5) then Some (-1, s5)
                          else Some (0, s5\<lparr>g_aiq_ctx := (g_aiq_ctx s5)(cam_id := True)\<rparr>)))))"

definition sample_common_isp_run :: "isp_env \<Rightarrow> int \<Rightarrow> isp \<Rightarrow> (int \<times> isp) option" where
  "sample_common_isp_run env cam_id s =
     check_camera s cam_id
       (let (p, s1) = sdk env (Sysctl (Sysctl_prepare (g_WDRMode s cam_id)) cam_id) s
        in if p \<noteq> 0 then Some (-1, s1\<lparr>g_aiq_ctx := (g_aiq_ctx s1)(cam_id := False)\<rparr>)
           else (let (r, s2) = sdk env (Sysctl Sysctl_start cam_id) s1 in if r \<noteq> 0 then Some (-1, s2) else Some (0, s2)))"

text \<open>
  The directory is copied without its end into a buffer of 256 characters: what an earlier,
  longer path left behind stays. The result is the buffer read as a string.
\<close>

definition copy_iq_dir :: "string \<Rightarrow> isp \<Rightarrow> (string \<times> isp) option" where
  "copy_iq_dir path s =
     (let buf = path @ drop (length path) (g_iq_file_dir s)
      in if length path > 256 \<or> NUL \<notin> set buf then None else Some (cstr buf, s\<lparr>g_iq_file_dir := buf\<rparr>))"

definition iq_path :: "string option \<Rightarrow> string" where
  "iq_path p = (case p of Some path \<Rightarrow> path | None \<Rightarrow> ''/etc/iqfiles'')"

definition isp_text :: "isp \<Rightarrow> string \<Rightarrow> string \<Rightarrow> cptr" where
  "isp_text s key def = rk_param_get_string (isp_param s) key (Str def)"

definition enter_scenario :: "int \<Rightarrow> isp \<Rightarrow> isp option" where
  "enter_scenario n s =
     do {
       sub \<leftarrow> copy_text 32 (if n = 0 then isp_text s ''isp:normal_scene'' ''day'' else isp_text s ''isp:custom1_scene'' ''night'');
       Some (s\<lparr>current_scenario_id := n, sub_scene := sub\<rparr>)
     }"

definition hdr_mode :: "cptr \<Rightarrow> wdr_mode option" where
  "hdr_mode p = (case p of Str v \<Rightarrow> Some (if v = ''HDR2'' then Wdr_hdr2 else Wdr_normal) | _ \<Rightarrow> None)"

definition rk_isp_init :: "isp_env \<Rightarrow> int \<Rightarrow> string option \<Rightarrow> isp \<Rightarrow> (int \<times> isp) option" where
  "rk_isp_init env cam_id iqfile_path s0 =
     do {
       (dir, s1) \<leftarrow> copy_iq_dir (iq_path iqfile_path) s0;
       scenario \<leftarrow> (case isp_text s1 ''isp:scenario'' ''normal'' of Str v \<Rightarrow> Some v | _ \<Rightarrow> None);
       s2 \<leftarrow> enter_scenario (if scenario = ''normal'' then 0 else 1) s1;
       mode \<leftarrow> hdr_mode (isp_text_or s2 cam_id ''blc:hdr'' (Str ''close''));
       (r1, s3) \<leftarrow> sample_common_isp_init env cam_id mode (Some dir) s2;
       (r2, s4) \<leftarrow> sample_common_isp_run env cam_id s3;
       Some (r1 OR r2, s4)
     }"

definition rk_isp_deinit :: "isp_env \<Rightarrow> int \<Rightarrow> isp \<Rightarrow> (int \<times> isp) option" where
  "rk_isp_deinit env cam_id s =
     check_camera s cam_id
       (let s1 = sdk_do env (Sysctl Sysctl_deinit cam_id) (sdk_do env (Sysctl Sysctl_stop cam_id) s)
        in Some (0, s1\<lparr>g_aiq_ctx := (g_aiq_ctx s1)(cam_id := False)\<rparr>))"

section \<open>Camera groups\<close>

definition add_sensor :: "isp_env \<Rightarrow> wdr_mode \<Rightarrow> int \<Rightarrow> isp \<Rightarrow> isp option" where
  "add_sensor env mode i s =
     (if i \<ge> MAX_AIQ_CTX \<or> length (sdk_sensor env i) \<ge> 128 then None
      else Some ((sdk_do env (Sysctl (Preinit_scene (if mode = Wdr_normal then ''normal'' else ''hdr'') ''day'') i) \<circ>
                  sdk_do env (Sysctl Dev_buf_cnt i) \<circ> sdk_do env (Sysctl Enum_sensor i)) s))"

fun add_sensors :: "isp_env \<Rightarrow> wdr_mode \<Rightarrow> int list \<Rightarrow> isp \<Rightarrow> isp option" where
  "add_sensors env mode [] s = Some s"
| "add_sensors env mode (i # is) s = do { s1 \<leftarrow> add_sensor env mode i s; add_sensors env mode is s1 }"

definition isp_camera_group_init ::
  "isp_env \<Rightarrow> int \<Rightarrow> wdr_mode \<Rightarrow> string \<Rightarrow> isp \<Rightarrow> (int \<times> isp) option" where
  "isp_camera_group_init env g mode dir s =
     do {
       n \<leftarrow> rk_param_get_int (isp_param s) ''avs:sensor_num'' 6;
       s1 \<leftarrow> add_sensors env mode [0..n - 1] s;
       if g < 0 \<or> g \<ge> MAX_AIQ_CTX then None
       else
         (let s2 = sdk_do env (Group (Group_create (nat n) dir) g) s1;
              made = sdk_context env (isp_log s2);
              s3 = s2\<lparr>g_camera_group_ctx := (g_camera_group_ctx s2)(g := made)\<rparr>
          in if \<not> made then Some (-1, s3)
             else
               (let (p, s4) = sdk env (Group (Group_prepare mode) g) s3; (r, s5) = sdk env (Group Group_start g) s4
                in Some (p OR r, s5)))
     }"

definition isp_camera_group_stop :: "isp_env \<Rightarrow> int \<Rightarrow> isp \<Rightarrow> (int \<times> isp) option" where
  "isp_camera_group_stop env g s =
     check_camera s g
       (let s1 = sdk_do env (Group Group_destroy g) (sdk_do env (Group Group_stop g) s)
        in Some (0, s1\<lparr>g_camera_group_ctx := (g_camera_group_ctx s1)(g := False)\<rparr>))"

definition rk_isp_group_init :: "isp_env \<Rightarrow> int \<Rightarrow> string option \<Rightarrow> isp \<Rightarrow> (int \<times> isp) option" where
  "rk_isp_group_init env g iqfile_path s0 =
     do {
       (dir, s1) \<leftarrow> copy_iq_dir (iq_path iqfile_path) (s0\<lparr>aiq_use_group := True\<rparr>);
       mode \<leftarrow> hdr_mode (rk_param_get_string (isp_param s1) (isp_entry g ''blc:hdr'') (Str ''close''));
       isp_camera_group_init env g mode dir s1
     }"

definition rk_isp_group_deinit :: "isp_env \<Rightarrow> int \<Rightarrow> isp \<Rightarrow> (int \<times> isp) option" where
  "rk_isp_group_deinit env g = isp_camera_group_stop env g"

text \<open>The lens-distortion tables of a group from two buffers: the first member gets the first one.\<close>

fun ldch_members ::
  "isp_env \<Rightarrow> int \<Rightarrow> nat \<times> int \<Rightarrow> nat \<times> int \<Rightarrow> nat list \<Rightarrow> isp \<Rightarrow> int \<times> isp" where
  "ldch_members env g b0 b1 [] s = (0, s)"
| "ldch_members env g b0 b1 (i # is) s =
     (let s1 = sdk_do env (Group (Group_member i) g) s
      in if \<not> sdk_context env (isp_log s1) then ldch_members env g b0 b1 is s1
         else
           (let (r, s2) = sdk env (Group (Ldch_get_member i) g) s1
            in if r \<noteq> 0 then (-1, s2)
               else
                 (let a = (sdk_ldch env (isp_log s2))\<lparr>ld_en := True, ld_lut_update := True, ld_external_buffer := True,
                                                   ld_buffer := (if i = 0 then b0 else b1)\<rparr>;
                      (r2, s3) = sdk env (Group (Ldch_set_member i a) g) s2
                  in if r2 \<noteq> 0 then (-1, s3) else ldch_members env g b0 b1 is s3)))"

definition rk_isp_set_group_ldch_level_form_buffer ::
  "isp_env \<Rightarrow> int \<Rightarrow> nat \<times> int \<Rightarrow> nat \<times> int \<Rightarrow> isp \<Rightarrow> (int \<times> isp) option" where
  "rk_isp_set_group_ldch_level_form_buffer env g b0 b1 s =
     (if g < 0 \<or> g \<ge> MAX_AIQ_CTX then None
      else
        (let (r, s1) = sdk env (Group Group_infos g) s
         in if r \<noteq> 0 then Some (-1, s1)
            else Some (ldch_members env g b0 b1 [0..<sdk_members env (isp_log s1)] s1)))"

section \<open>The whole configuration\<close>

definition ini_int ::
  "isp_env \<Rightarrow> int \<Rightarrow> string \<Rightarrow> int \<Rightarrow> (isp_env \<Rightarrow> int \<Rightarrow> int \<Rightarrow> isp \<Rightarrow> (int \<times> isp) option) \<Rightarrow> isp \<Rightarrow> isp option" where
  "ini_int env cam_id field def setter s =
     do { v \<leftarrow> isp_int_or s cam_id field def; (r, s') \<leftarrow> setter env cam_id v s; Some s' }"

definition ini_text ::
  "isp_env \<Rightarrow> int \<Rightarrow> string \<Rightarrow> string \<Rightarrow> (isp_env \<Rightarrow> int \<Rightarrow> string \<Rightarrow> isp \<Rightarrow> (int \<times> isp) option) \<Rightarrow> isp \<Rightarrow> isp option" where
  "ini_text env cam_id field def setter s =
     do { v \<leftarrow> copy_text 128 (isp_text_or s cam_id field (Str def)); (r, s') \<leftarrow> setter env cam_id v s; Some s' }"

text \<open>The settings before and from the noise-reduction mode on.\<close>

definition ini_picture :: "isp_env \<Rightarrow> int \<Rightarrow> isp \<Rightarrow> isp option" where
  "ini_picture env c s0 =
     do {
       s \<leftarrow> ini_int env c ''adjustment:fps'' 30 rk_isp_set_frame_rate s0;
       s \<leftarrow> ini_int env c ''adjustment:contrast'' 50 rk_isp_set_contrast s;
       s \<leftarrow> ini_int env c ''adjustment:brightness'' 50 rk_isp_set_brightness s;
       s \<leftarrow> ini_int env c ''adjustment:saturation'' 50 rk_isp_set_saturation s;
       s \<leftarrow> ini_int env c ''adjustment:sharpness'' 50 rk_isp_set_sharpness s;
       s \<leftarrow> ini_int env c ''adjustment:hue'' 50 rk_isp_set_hue s;
       s \<leftarrow> ini_text env c ''exposure:exposure_mode'' ''auto'' rk_isp_set_exposure_mode s;
       s \<leftarrow> ini_text env c ''exposure:gain_mode'' ''auto'' rk_isp_set_gain_mode s;
       s \<leftarrow> ini_text env c ''exposure:exposure_time'' ''1/6'' rk_isp_set_exposure_time s;
       s \<leftarrow> ini_int env c ''exposure:exposure_gain'' 1 rk_isp_set_exposure_gain s;
       s \<leftarrow> ini_text env c ''night_to_day:night_to_day'' ''day'' rk_isp_set_night_to_day s;
       s \<leftarrow> ini_text env c ''night_to_day:fill_light_mode'' ''IR'' rk_isp_set_fill_light_mode s;
       s \<leftarrow> ini_int env c ''night_to_day:light_brightness'' 1 rk_isp_set_light_brightness s;
       s \<leftarrow> ini_text env c ''blc:blc_region'' ''close'' rk_isp_set_blc_region s;
       s \<leftarrow> ini_text env c ''blc:hlc'' ''close'' rk_isp_set_hlc s;
       s \<leftarrow> ini_int env c ''blc:hdr_level'' 1 rk_isp_set_hdr_level s;
       s \<leftarrow> ini_int env c ''blc:blc_strength'' 1 rk_isp_set_blc_strength s;
       s \<leftarrow> ini_int env c ''blc:hlc_level'' 0 rk_isp_set_hlc_level s;
       s \<leftarrow> ini_int env c ''blc:dark_boost_level'' 0 rk_isp_set_dark_boost_level s;
       s \<leftarrow> ini_text env c ''white_blance:white_blance_style'' ''autoWhiteBalance'' rk_isp_set_white_blance_style s;
       s \<leftarrow> ini_int env c ''white_blance:white_blance_red'' 50 rk_isp_set_white_blance_red s;
       s \<leftarrow> ini_int env c ''white_blance:white_blance_green'' 50 rk_isp_set_white_blance_green s;
       ini_int env c ''white_blance:white_blance_blue'' 50 rk_isp_set_white_blance_blue s
     }"

definition ini_enhancement :: "isp_env \<Rightarrow> int \<Rightarrow> isp \<Rightarrow> isp option" where
  "ini_enhancement env c s0 =
     do {
       s \<leftarrow> ini_text env c ''enhancement:dehaze'' ''close'' rk_isp_set_dehaze s0;
       s \<leftarrow> ini_text env c ''enhancement:gray_scale_mode'' ''[0-255]'' rk_isp_set_gray_scale_mode s;
       s \<leftarrow> ini_text env c ''enhancement:distortion_correction'' ''close'' rk_isp_set_distortion_correction s;
       s \<leftarrow> ini_int env c ''enhancement:spatial_denoise_level'' 50 rk_isp_set_spatial_denoise_level s;
       s \<leftarrow> ini_int env c ''enhancement:temporal_denoise_level'' 50 rk_isp_set_temporal_denoise_level s;
       s \<leftarrow> ini_int env c ''enhancement:dehaze_level'' 50 rk_isp_set_dehaze_level s;
       s \<leftarrow> ini_int env c ''enhancement:ldch_level'' 0 rk_isp_set_ldch_level s;
       s \<leftarrow> ini_text env c ''video_adjustment:power_line_frequency_mode'' ''PAL(50HZ)''
              rk_isp_set_power_line_frequency_mode s;
       ini_text env c ''video_adjustment:image_flip'' ''close'' rk_isp_set_image_flip s
     }"

definition rk_isp_set_from_ini :: "isp_env \<Rightarrow> int \<Rightarrow> isp \<Rightarrow> (int \<times> isp) option" where
  "rk_isp_set_from_ini env cam_id s0 =
     check_camera s0 cam_id
       (do {
          s \<leftarrow> ini_picture env cam_id s0;
          s \<leftarrow> ini_text env cam_id ''enhancement:noise_reduce_mode'' ''close'' rk_isp_set_noise_reduce_mode s;
          s \<leftarrow> ini_enhancement env cam_id s;
          Some (0, s)
        })"

section \<open>Scenario and HDR\<close>

definition ini_on_switch :: "isp_env \<Rightarrow> int \<times> isp \<Rightarrow> (int \<times> isp) option" where
  "ini_on_switch env rs =
     do {
       init \<leftarrow> rk_param_get_int (isp_param (snd rs)) ''isp:init_form_ini'' 1;
       if init = 0 then Some rs
       else do { (r, s') \<leftarrow> rk_isp_set_from_ini env 0 (snd rs); Some (fst rs OR r, s') }
     }"

definition rk_isp_set_scenario :: "isp_env \<Rightarrow> int \<Rightarrow> string \<Rightarrow> isp \<Rightarrow> (int \<times> isp) option" where
  "rk_isp_set_scenario env cam_id value s0 =
     do {
       s1 \<leftarrow> (if value = ''normal'' then enter_scenario 0 s0
              else if value = ''custom1'' then enter_scenario 1 s0 else Some s0);
       if cam_id < 0 \<or> cam_id \<ge> MAX_AIQ_CTX then None
       else do {
         (r, s2) \<leftarrow> ini_on_switch env
           (0, sdk_do env (Control (Switch_scene (main_scene s1) (sub_scene s1)) (get_ctx s1 cam_id)) s1);
         s3 \<leftarrow> store_text env ''isp:scenario'' value s2;
         Some (0, s3)
       }
     }"

text \<open>The VI channels in use, by their switches in the configuration.\<close>

definition vi_channels :: "isp \<Rightarrow> nat list option" where
  "vi_channels s =
     do {
       npu \<leftarrow> rk_param_get_int (isp_param s) ''video.source:enable_npu'' 0;
       venc0 \<leftarrow> rk_param_get_int (isp_param s) ''video.source:enable_venc_0'' 1;
       venc1 \<leftarrow> rk_param_get_int (isp_param s) ''video.source:enable_venc_1'' 1;
       pp \<leftarrow> rk_param_get_int (isp_param s) ''video.source:enable_pp'' 1;
       Some (map snd (filter (\<lambda>(on, c). on \<noteq> 0) [(venc0, 0), (venc1, 1), (npu, 2), (pp, 3)]))
     }"

definition rk_isp_set_hdr :: "isp_env \<Rightarrow> int \<Rightarrow> string \<Rightarrow> isp \<Rightarrow> (int \<times> isp) option" where
  "rk_isp_set_hdr env cam_id value s =
     check_camera s cam_id
       (do {
          chans \<leftarrow> vi_channels s;
          old_value \<leftarrow> (case isp_text_or s cam_id ''blc:hdr'' Null of Str v \<Rightarrow> Some v | _ \<Rightarrow> None);
          if value = old_value then Some (0, s)
          else do {
            let entry = isp_entry (get_scenario_id s cam_id) ''blc:hdr'';
            let s1 = fold (\<lambda>c. sdk_do env (Board (Vi_pause c))) chans s;
            (r1, s2) \<leftarrow> rk_isp_deinit env 0 s1;
            s3 \<leftarrow> store_text env entry value s2;
            (r2, s4) \<leftarrow> rk_isp_init env 0 (Some (cstr (g_iq_file_dir s3))) s3;
            (ret, s5) \<leftarrow> ini_on_switch env (0, s4);
            Some (ret, fold (\<lambda>c. sdk_do env (Board (Vi_resume c))) chans s5)
          }
        })"

end
