(* ===== verification/IspSafety.thy ===== *)
theory IspSafety
  imports IspControl
begin

unbundle bit_operations_syntax

text \<open>
  The contract of a state predicate under which no setter of the image-tuning layer runs into
  undefined behaviour, its interpretation on well-formed configurations, and the properties
  of the layer: applying a configuration is safe, a setting is read back, a camera that is
  not running is refused, and a switch of the HDR mode resumes every channel it paused.
\<close>

section \<open>The contract\<close>

text \<open>The operation returns, in a state that satisfies the predicate.\<close>

definition keeps :: "(isp \<Rightarrow> bool) \<Rightarrow> (int \<times> isp) option \<Rightarrow> bool" where
  "keeps P m \<longleftrightarrow> (\<exists>r s. m = Some (r, s) \<and> P s)"

definition keeps_state :: "(isp \<Rightarrow> bool) \<Rightarrow> isp option \<Rightarrow> bool" where
  "keeps_state P m \<longleftrightarrow> (\<exists>s. m = Some s \<and> P s)"

named_theorems keeps_intros "operations that keep the contract"

lemma keeps_Some [simp]: "keeps P (Some rs) \<longleftrightarrow> P (snd rs)"
  by (cases rs) (simp add: keeps_def)

lemma keeps_state_Some [simp]: "keeps_state P (Some s) \<longleftrightarrow> P s"
  by (simp add: keeps_state_def)

lemma keeps_bind:
  "keeps P m \<Longrightarrow> (\<And>r s. P s \<Longrightarrow> keeps Q (f (r, s))) \<Longrightarrow> keeps Q (Option.bind m f)"
  by (auto simp: keeps_def)

lemma keeps_state_bind:
  "keeps P m \<Longrightarrow> (\<And>r s. P s \<Longrightarrow> keeps_state Q (f (r, s))) \<Longrightarrow> keeps_state Q (Option.bind m f)"
  by (auto simp: keeps_def keeps_state_def)

lemma state_keeps_bind:
  "keeps_state P m \<Longrightarrow> (\<And>s. P s \<Longrightarrow> keeps Q (f s)) \<Longrightarrow> keeps Q (Option.bind m f)"
  by (auto simp: keeps_state_def)

lemma state_state_bind:
  "keeps_state P m \<Longrightarrow> (\<And>s. P s \<Longrightarrow> keeps_state Q (f s)) \<Longrightarrow> keeps_state Q (Option.bind m f)"
  by (auto simp: keeps_state_def)

lemma value_bind:
  "m = Some v \<Longrightarrow> keeps Q (f v) \<Longrightarrow> keeps Q (Option.bind m f)"
  "m = Some v \<Longrightarrow> keeps_state R (g v) \<Longrightarrow> keeps_state R (Option.bind m g)"
  by simp_all

definition field_ok :: "string \<Rightarrow> bool" where
  "field_ok f \<longleftrightarrow> CHR '':'' \<in> set f \<and> length f \<le> 100"

text \<open>Calls that pause or resume a VI channel; no setting makes one.\<close>

fun is_vi :: "isp_call \<Rightarrow> bool" where
  "is_vi (Board (Vi_pause c)) = True"
| "is_vi (Board (Vi_resume c)) = True"
| "is_vi _ = False"

definition int_ok :: "int \<Rightarrow> bool" where
  "int_ok v \<longleftrightarrow> LONG_MIN \<le> v \<and> v \<le> LONG_MAX"

lemma int_ok_small [simp]: "- 1000 \<le> v \<Longrightarrow> v \<le> 1000 \<Longrightarrow> int_ok v"
  by (simp add: int_ok_def LONG_MIN_def LONG_MAX_def)

locale isp_contract =
  fixes env :: isp_env and ok :: "isp \<Rightarrow> bool" and cam :: int and good :: "string \<Rightarrow> bool"
  assumes ready: "ok s \<Longrightarrow> 0 \<le> cam \<and> camera_ready s cam"
    and logged: "ok s \<Longrightarrow> \<not> is_vi c \<Longrightarrow> ok (s\<lparr>isp_log := isp_log s @ [c]\<rparr>)"
    and light: "ok s \<Longrightarrow> ok (s\<lparr>light_state := x\<rparr>)" "ok s \<Longrightarrow> ok (s\<lparr>light_level := y\<rparr>)"
    and stored_int: "ok s \<Longrightarrow> field_ok f \<Longrightarrow> int_ok v \<Longrightarrow> keeps ok (put_int env cam f v (r, s))"
    and stored_text: "ok s \<Longrightarrow> field_ok f \<Longrightarrow> good t \<Longrightarrow> keeps ok (put_text env cam f t (r, s))"
    and number: "ok s \<Longrightarrow> field_ok k \<Longrightarrow> \<exists>v. rk_param_get_int (isp_param s) k d = Some v"
    and scenario_number: "ok s \<Longrightarrow> field_ok f \<Longrightarrow> int_ok d \<Longrightarrow> \<exists>v. isp_int_or s cam f d = Some v \<and> int_ok v"
    and scenario_text: "ok s \<Longrightarrow> field_ok f \<Longrightarrow> good t \<Longrightarrow>
          \<exists>v. isp_text_or s cam f (Str t) = Str v \<and> good v \<and> length v < 128"
    and camera_text: "ok s \<Longrightarrow> field_ok f \<Longrightarrow> good t \<Longrightarrow>
          \<exists>v. rk_param_get_string (isp_param s) (isp_entry cam f) (Str t) = Str v"
    and good_words: "length t \<le> 20 \<Longrightarrow> good t"
begin

lemma check [simp]: "ok s \<Longrightarrow> check_camera s cam m = m"
  using ready [of s] by (simp add: check_camera_def)

lemma sdk_keeps [simp]: "ok s \<Longrightarrow> \<not> is_vi c \<Longrightarrow> ok (snd (sdk env c s))"
  by (simp add: sdk_def logged)

lemma modify_keeps [simp]: "ok s \<Longrightarrow> ok (snd (snd (modify env q get t f cam s)))"
  by (simp add: modify_def Let_def)

lemma set_exp_keeps [simp]: "ok s \<Longrightarrow> ok (snd (set_exp env f cam s))"
  by (simp add: set_exp_def)

lemma put_int_keeps [keeps_intros]: "ok (snd rs) \<Longrightarrow> field_ok f \<Longrightarrow> int_ok v \<Longrightarrow> keeps ok (put_int env cam f v rs)"
  using stored_int [of "snd rs" f v "fst rs"] by simp

lemma put_text_keeps [keeps_intros]:
  "ok (snd rs) \<Longrightarrow> field_ok f \<Longrightarrow> good t \<Longrightarrow> keeps ok (put_text env cam f t rs)"
  using stored_text [of "snd rs" f t "fst rs"] by simp

lemma set_acp_keeps [keeps_intros]: "ok s \<Longrightarrow> field_ok f \<Longrightarrow> int_ok v \<Longrightarrow> keeps ok (set_acp env f upd cam v s)"
  by (auto simp: set_acp_def prod.case_eq_if intro: put_int_keeps)

lemma set_lin_text_keeps [keeps_intros]:
  "ok s \<Longrightarrow> field_ok f \<Longrightarrow> good t \<Longrightarrow> keeps ok (set_lin_text env f upd cam t s)"
  by (auto simp: set_lin_text_def check_normal_def intro: put_text_keeps)

lemma set_lin_bias_keeps [keeps_intros]: "ok s \<Longrightarrow> field_ok f \<Longrightarrow> int_ok v \<Longrightarrow> keeps ok (set_lin_bias env f e upd cam v s)"
  by (auto simp: set_lin_bias_def check_normal_def Let_def intro: put_int_keeps)

lemma set_wb_keeps [keeps_intros]: "ok s \<Longrightarrow> field_ok f \<Longrightarrow> int_ok v \<Longrightarrow> keeps ok (set_wb env f upd cam v s)"
  by (auto simp: set_wb_def Let_def intro: put_int_keeps)

lemma ircut_keeps: "ok s \<Longrightarrow> keeps ok (rk_isp_enable_ircut env on s)"
  using number [of s "''isp:ircut_open_gpio''" "-1"] number [of s "''isp:ircut_close_gpio''" "-1"]
  by (auto simp: rk_isp_enable_ircut_def Let_def prod.case_eq_if field_ok_def)

lemma image_setters:
  assumes "ok s"
  shows "int_ok v \<Longrightarrow> keeps ok (rk_isp_set_frame_rate env cam v s)" "int_ok v \<Longrightarrow> keeps ok (rk_isp_set_contrast env cam v s)"
    "int_ok v \<Longrightarrow> keeps ok (rk_isp_set_brightness env cam v s)" "int_ok v \<Longrightarrow> keeps ok (rk_isp_set_saturation env cam v s)"
    "int_ok v \<Longrightarrow> keeps ok (rk_isp_set_sharpness env cam v s)" "int_ok v \<Longrightarrow> keeps ok (rk_isp_set_hue env cam v s)"
  using assms
  by (auto simp: rk_isp_set_frame_rate_def rk_isp_set_contrast_def rk_isp_set_brightness_def
      rk_isp_set_saturation_def rk_isp_set_sharpness_def rk_isp_set_hue_def field_ok_def prod.case_eq_if
      intro!: keeps_intros)

lemma exposure_setters:
  assumes "ok s"
  shows "good t \<Longrightarrow> keeps ok (rk_isp_set_exposure_mode env cam t s)" "good t \<Longrightarrow> keeps ok (rk_isp_set_gain_mode env cam t s)"
    "good t \<Longrightarrow> keeps ok (rk_isp_set_exposure_time env cam t s)" "int_ok v \<Longrightarrow> keeps ok (rk_isp_set_exposure_gain env cam v s)"
  using assms
  by (auto simp: rk_isp_set_exposure_mode_def rk_isp_set_gain_mode_def rk_isp_set_exposure_time_def
      rk_isp_set_exposure_gain_def Let_def field_ok_def intro!: keeps_intros)

lemma night_setters:
  assumes "ok s"
  shows "good t \<Longrightarrow> keeps ok (rk_isp_set_fill_light_mode env cam t s)"
    "int_ok v \<Longrightarrow> keeps ok (rk_isp_set_light_brightness env cam v s)" "good t \<Longrightarrow> keeps ok (rk_isp_set_night_to_day env cam t s)"
proof -
  show "good t \<Longrightarrow> keeps ok (rk_isp_set_fill_light_mode env cam t s)"
    using assms by (auto simp: rk_isp_set_fill_light_mode_def field_ok_def intro!: keeps_intros)
  have "ok (snd (rk_isp_set_light_strength env 3 10000 5000 s))"
    using assms(1) by (auto simp: rk_isp_set_light_strength_def prod.case_eq_if intro!: light sdk_keeps)
  then have "int_ok v \<Longrightarrow> keeps ok (put_int env cam ''night_to_day:light_brightness'' v (rk_isp_set_light_strength env 3 10000 5000 s))"
    by (auto simp: field_ok_def intro!: keeps_intros)
  then show "int_ok v \<Longrightarrow> keeps ok (rk_isp_set_light_brightness env cam v s)"
    using assms(1) by (auto simp: rk_isp_set_light_brightness_def keeps_def light)
  show "good t \<Longrightarrow> keeps ok (rk_isp_set_night_to_day env cam t s)"
    using assms
    by (auto simp: rk_isp_set_night_to_day_def rk_isp_close_light_def Let_def field_ok_def
        intro!: keeps_bind [OF ircut_keeps] put_text_keeps light sdk_keeps)
qed

lemma light_setters:
  assumes "ok s"
  shows "good t \<Longrightarrow> keeps ok (rk_isp_set_blc_region env cam t s)" "good t \<Longrightarrow> keeps ok (rk_isp_set_hlc env cam t s)"
    "int_ok v \<Longrightarrow> keeps ok (rk_isp_set_hdr_level env cam v s)" "int_ok v \<Longrightarrow> keeps ok (rk_isp_set_blc_strength env cam v s)"
    "int_ok v \<Longrightarrow> keeps ok (rk_isp_set_hlc_level env cam v s)" "int_ok v \<Longrightarrow> keeps ok (rk_isp_set_dark_boost_level env cam v s)"
  using assms
  by (auto simp: rk_isp_set_blc_region_def rk_isp_set_hlc_def rk_isp_set_hdr_level_def rk_isp_set_blc_strength_def
      rk_isp_set_hlc_level_def rk_isp_set_dark_boost_level_def Let_def field_ok_def intro!: keeps_intros)

lemma balance_setters:
  assumes "ok s"
  shows "good t \<Longrightarrow> keeps ok (rk_isp_set_white_blance_style env cam t s)" "int_ok v \<Longrightarrow> keeps ok (rk_isp_set_white_blance_red env cam v s)"
    "int_ok v \<Longrightarrow> keeps ok (rk_isp_set_white_blance_green env cam v s)" "int_ok v \<Longrightarrow> keeps ok (rk_isp_set_white_blance_blue env cam v s)"
  using assms
  by (auto simp: rk_isp_set_white_blance_style_def rk_isp_set_white_blance_red_def rk_isp_set_white_blance_green_def
      rk_isp_set_white_blance_blue_def field_ok_def intro!: keeps_intros)

lemma enhancement_setters:
  assumes "ok s"
  shows "good t \<Longrightarrow> keeps ok (rk_isp_set_noise_reduce_mode env cam t s)" "good t \<Longrightarrow> keeps ok (rk_isp_set_dehaze env cam t s)"
    "good t \<Longrightarrow> keeps ok (rk_isp_set_gray_scale_mode env cam t s)" "good t \<Longrightarrow> keeps ok (rk_isp_set_distortion_correction env cam t s)"
    "good t \<Longrightarrow> keeps ok (rk_isp_set_power_line_frequency_mode env cam t s)"
  using assms
  by (auto simp: rk_isp_set_noise_reduce_mode_def rk_isp_set_dehaze_def rk_isp_set_gray_scale_mode_def
      rk_isp_set_distortion_correction_def rk_isp_set_power_line_frequency_mode_def Let_def field_ok_def
      intro!: keeps_intros)

lemma level_setters:
  assumes "ok s"
  shows "int_ok v \<Longrightarrow> keeps ok (rk_isp_set_dehaze_level env cam v s)" "int_ok v \<Longrightarrow> keeps ok (rk_isp_set_ldch_level env cam v s)"
    "good t \<Longrightarrow> keeps ok (rk_isp_set_image_flip env cam t s)"
proof -
  obtain m where "rk_param_get_string (isp_param s) (isp_entry cam ''enhancement:dehaze'') (Str ''close'') = Str m"
    using camera_text [OF assms(1), of "''enhancement:dehaze''" "''close''"] good_words [of "''close''"]
    by (auto simp: field_ok_def)
  with assms show "int_ok v \<Longrightarrow> keeps ok (rk_isp_set_dehaze_level env cam v s)"
    by (auto simp: rk_isp_set_dehaze_level_def field_ok_def intro!: keeps_intros)
  show "int_ok v \<Longrightarrow> keeps ok (rk_isp_set_ldch_level env cam v s)"
    using assms(1) number [OF assms(1), of "''isp:group_ldch''" 0]
    by (auto simp: rk_isp_set_ldch_level_def Let_def field_ok_def intro!: keeps_intros)
  show "good t \<Longrightarrow> keeps ok (rk_isp_set_image_flip env cam t s)"
    using assms
    by (auto simp: rk_isp_set_image_flip_def Let_def field_ok_def prod.case_eq_if split: option.split
        intro!: keeps_intros)
qed

lemma denoise_setters:
  assumes "ok s" "isp_text_or s cam ''enhancement:noise_reduce_mode'' Null = Str mode"
  shows "int_ok v \<Longrightarrow> keeps ok (rk_isp_set_spatial_denoise_level env cam v s)" "int_ok v \<Longrightarrow> keeps ok (rk_isp_set_temporal_denoise_level env cam v s)"
  using assms
  by (auto simp: rk_isp_set_spatial_denoise_level_def rk_isp_set_temporal_denoise_level_def denoise_level_def
      Let_def field_ok_def intro!: keeps_intros)

lemma ini_int_keeps:
  assumes "ok s" "field_ok f" "int_ok d" "\<And>v s. ok s \<Longrightarrow> int_ok v \<Longrightarrow> keeps ok (setter env cam v s)"
  shows "keeps_state ok (ini_int env cam f d setter s)"
proof -
  obtain v where "isp_int_or s cam f d = Some v" "int_ok v" using scenario_number [OF assms(1-3)] by blast
  with assms(4) [OF assms(1), of v] show ?thesis by (auto simp: ini_int_def keeps_def keeps_state_def)
qed

lemma ini_text_keeps:
  assumes "ok s" "field_ok f" "good d" "\<And>t s. ok s \<Longrightarrow> good t \<Longrightarrow> keeps ok (setter env cam t s)"
  shows "keeps_state ok (ini_text env cam f d setter s)"
proof -
  obtain t where "isp_text_or s cam f (Str d) = Str t" "good t" "length t < 128"
    using scenario_text [OF assms(1-3)] by blast
  with assms(4) [OF assms(1), of t] show ?thesis by (auto simp: ini_text_def copy_text_def keeps_def keeps_state_def)
qed

lemmas basic_setters = image_setters exposure_setters night_setters light_setters balance_setters
  enhancement_setters level_setters

lemma ini_picture_keeps: "ok s \<Longrightarrow> keeps_state ok (ini_picture env cam s)"
  unfolding ini_picture_def
  by (intro state_state_bind [where P = ok] ini_int_keeps ini_text_keeps basic_setters
      | assumption | simp add: field_ok_def good_words)+

end

text \<open>Two predicates: the second one also knows that the noise-reduction mode is set.\<close>

locale isp_ini = weak: isp_contract env ok cam good + strong: isp_contract env full cam good
  for env ok full cam good +
  assumes full_ok: "full s \<Longrightarrow> ok s"
    and mode_set: "full s \<Longrightarrow> \<exists>m. isp_text_or s cam ''enhancement:noise_reduce_mode'' Null = Str m"
    and mode_stored: "ok s \<Longrightarrow> good t \<Longrightarrow> keeps full (rk_isp_set_noise_reduce_mode env cam t s)"
begin

lemma denoise_keeps:
  assumes "full s"
  shows "int_ok v \<Longrightarrow> keeps full (rk_isp_set_spatial_denoise_level env cam v s)" "int_ok v \<Longrightarrow> keeps full (rk_isp_set_temporal_denoise_level env cam v s)"
  using mode_set [OF assms] strong.denoise_setters [OF assms] by blast+

lemma ini_enhancement_keeps: "full s \<Longrightarrow> keeps_state full (ini_enhancement env cam s)"
  unfolding ini_enhancement_def
  by (intro state_state_bind [where P = full] strong.ini_int_keeps strong.ini_text_keeps strong.basic_setters
      denoise_keeps | assumption | simp add: field_ok_def strong.good_words)+

lemma noise_mode_keeps:
  assumes "ok s"
  shows "keeps_state full (ini_text env cam ''enhancement:noise_reduce_mode'' ''close'' rk_isp_set_noise_reduce_mode s)"
proof -
  have "field_ok ''enhancement:noise_reduce_mode''" "good ''close''"
    using weak.good_words [of "''close''"] by (simp_all add: field_ok_def)
  from weak.scenario_text [OF assms this] obtain t where
    "isp_text_or s cam ''enhancement:noise_reduce_mode'' (Str ''close'') = Str t" "good t" "length t < 128" by blast
  moreover from mode_stored [OF assms this(2)] obtain r s' where
    "rk_isp_set_noise_reduce_mode env cam t s = Some (r, s')" "full s'" by (auto simp: keeps_def)
  ultimately show ?thesis by (simp add: ini_text_def copy_text_def)
qed

lemma set_from_ini_keeps:
  assumes "ok s"
  shows "\<exists>s'. rk_isp_set_from_ini env cam s = Some (0, s') \<and> full s'"
proof -
  obtain s1 where s1: "ini_picture env cam s = Some s1" "ok s1"
    using weak.ini_picture_keeps [OF assms] by (auto simp: keeps_state_def)
  obtain s2 where s2: "ini_text env cam ''enhancement:noise_reduce_mode'' ''close'' rk_isp_set_noise_reduce_mode s1 = Some s2"
      "full s2"
    using noise_mode_keeps [OF s1(2)] by (auto simp: keeps_state_def)
  obtain s3 where "ini_enhancement env cam s2 = Some s3" "full s3"
    using ini_enhancement_keeps [OF s2(2)] by (auto simp: keeps_state_def)
  with s1 s2 assms show ?thesis by (simp add: rk_isp_set_from_ini_def)
qed

end

section \<open>Well-formed configurations meet the contract\<close>

definition param_key :: "string \<Rightarrow> string" where
  "param_key e = map c_tolower (take ASCIILINESZ e)"

lemma param_get_string:
  "g_ini_d st = Some d \<Longrightarrow>
   rk_param_get_string st e def = (case dict_map d (param_key e) of None \<Rightarrow> def | Some v \<Rightarrow> ptr_of v)"
  by (simp add: rk_param_get_string_def iniparser_getstring_def strlwc_def dict_simps param_key_def)

lemma param_get_int:
  "g_ini_d st = Some d \<Longrightarrow>
   rk_param_get_int st e n = (case dict_map d (param_key e) of None \<Rightarrow> Some n | Some None \<Rightarrow> None
      | Some (Some t) \<Rightarrow> Some (fst (c_strtol 0 t)))"
  by (simp add: rk_param_get_int_def iniparser_getint_def iniparser_getlongint_def iniparser_getstring_def strlwc_def
      dict_simps param_key_def split: option.split)

lemma param_set_string:
  assumes "g_ini_d st = Some d" "dict_inv d"
  shows "\<exists>e. rk_param_set_string alloc_ok st k (Some v) = Some (0, st\<lparr>g_ini_d := Some e\<rparr>) \<and> dict_inv e \<and>
     dict_map e = (dict_map d)(param_key k \<mapsto> Some v)"
  using dict_put_ok [OF assms(2), of "param_key k" "Some v"] assms(1)
  by (auto simp: rk_param_set_string_def iniparser_set_def strlwc_def param_key_def)

lemma param_set_int: "rk_param_set_int mem st k v = rk_param_set_string mem st k (Some (show_int v))"
  by (simp add: rk_param_set_int_def rk_param_set_string_def)

text \<open>All entries below a section hold a text that fits the buffers of \<open>rk_isp_set_from_ini\<close>.\<close>

definition texts_ok :: "(string \<Rightarrow> string option option) \<Rightarrow> bool" where
  "texts_ok m \<longleftrightarrow> (\<forall>k v. CHR '':'' \<in> set k \<longrightarrow> m k = Some v \<longrightarrow> (\<exists>t. v = Some t \<and> length t < 128))"

definition isp_cfg :: "isp_log \<Rightarrow> isp \<Rightarrow> bool" where
  "isp_cfg vi s \<longleftrightarrow>
     current_scenario_id s \<in> {0, 1} \<and> filter is_vi (isp_log s) = vi \<and>
     (\<exists>d. g_ini_d (isp_param s) = Some d \<and> dict_inv d \<and> texts_ok (dict_map d))"

definition isp_ok :: "isp_log \<Rightarrow> int \<Rightarrow> isp \<Rightarrow> bool" where
  "isp_ok vi cam s \<longleftrightarrow> 0 \<le> cam \<and> camera_ready s cam \<and> isp_cfg vi s"

definition mode_key :: "isp \<Rightarrow> int \<Rightarrow> string" where
  "mode_key s cam = param_key (isp_entry (get_scenario_id s cam) ''enhancement:noise_reduce_mode'')"

definition isp_full :: "isp_log \<Rightarrow> int \<Rightarrow> isp \<Rightarrow> bool" where
  "isp_full vi cam s \<longleftrightarrow>
     isp_ok vi cam s \<and> (\<exists>d t. g_ini_d (isp_param s) = Some d \<and> dict_map d (mode_key s cam) = Some (Some t))"

abbreviation mem_ok :: "isp_env \<Rightarrow> isp_env" where
  "mem_ok env \<equiv> env\<lparr>sdk_mem := \<lambda>_. alloc_ok\<rparr>"

lemma show_int_short: "0 \<le> i \<Longrightarrow> i < 100 \<Longrightarrow> length (show_int i) \<le> 2"
  using length_show_nat [of "nat i" 2] by (simp add: show_int_def)

lemma entry_full:
  "0 \<le> i \<Longrightarrow> i < 100 \<Longrightarrow> length f \<le> 100 \<Longrightarrow> isp_entry i f = ''isp.'' @ show_int i @ ''.'' @ f"
  using show_int_short [of i] by (simp add: isp_entry_def)

lemma colon_key: "CHR '':'' \<in> set e \<Longrightarrow> length e \<le> ASCIILINESZ \<Longrightarrow> CHR '':'' \<in> set (param_key e)"
  by (force simp: param_key_def c_tolower_def image_iff)

lemma field_key: "field_ok f \<Longrightarrow> CHR '':'' \<in> set (param_key f)"
  by (rule colon_key) (auto simp: field_ok_def ASCIILINESZ_def)

lemma entry_key:
  assumes "0 \<le> i" "i < 100" "field_ok f"
  shows "CHR '':'' \<in> set (param_key (isp_entry i f))"
  by (rule colon_key) (use assms show_int_short [of i] entry_full [of i f] in \<open>auto simp: field_ok_def ASCIILINESZ_def\<close>)

lemma isp_ok_scenario:
  assumes "isp_ok vi cam s"
  shows "0 \<le> get_scenario_id s cam" "get_scenario_id s cam < 100" "0 \<le> cam" "cam < 100"
  using assms by (auto simp: isp_ok_def isp_cfg_def camera_ready_def MAX_AIQ_CTX_def get_scenario_id_def MAX_SCENARIO_NUM_def)

lemma store_text_cfg:
  assumes "isp_cfg vi s" "length t < 128"
  shows "\<exists>d e p. store_text (mem_ok env) k t s = Some (s\<lparr>isp_param := p, isp_log := isp_log s @ [Param_store k]\<rparr>) \<and>
     isp_cfg vi (s\<lparr>isp_param := p, isp_log := isp_log s @ [Param_store k]\<rparr>) \<and>
     g_ini_d (isp_param s) = Some d \<and> g_ini_d p = Some e \<and> dict_map e = (dict_map d)(param_key k \<mapsto> Some t)"
proof -
  from assms(1) obtain d where d: "g_ini_d (isp_param s) = Some d" "dict_inv d" "texts_ok (dict_map d)"
    by (auto simp: isp_cfg_def)
  from param_set_string [OF d(1,2), of k t] obtain e where e:
    "rk_param_set_string alloc_ok (isp_param s) k (Some t) = Some (0, (isp_param s)\<lparr>g_ini_d := Some e\<rparr>)"
    "dict_inv e" "dict_map e = (dict_map d)(param_key k \<mapsto> Some t)" by blast
  have "texts_ok (dict_map e)" using d(3) e(3) assms(2) by (auto simp: texts_ok_def split: if_splits)
  with assms(1) e(2) have "isp_cfg vi (s\<lparr>isp_param := (isp_param s)\<lparr>g_ini_d := Some e\<rparr>, isp_log := isp_log s @ [Param_store k]\<rparr>)"
    by (simp add: isp_cfg_def)
  with e d(1) show ?thesis
    by (intro exI [of _ d] exI [of _ e] exI [of _ "(isp_param s)\<lparr>g_ini_d := Some e\<rparr>"])
      (simp add: store_text_def Let_def)
qed

lemma store_int_text: "store_int env k v s = store_text env k (show_int v) s"
  by (simp add: store_int_def store_text_def param_set_int)

lemma show_int_length: "int_ok v \<Longrightarrow> length (show_int v) < 128"
proof -
  assume "int_ok v"
  then have "nat v < 10 ^ 10" "nat (- v) < 10 ^ 10" by (auto simp: int_ok_def LONG_MIN_def LONG_MAX_def)
  from length_show_nat [OF this(1)] length_show_nat [OF this(2)] show ?thesis by (simp add: show_int_def)
qed

lemma clamp_int_ok: "int_ok (fst (c_strtol b t))"
proof -
  have "int_ok (fst (strtol_number b neg u r))" for neg u r
    by (auto simp: strtol_number_def clamp_long_def int_ok_def LONG_MIN_def LONG_MAX_def Let_def split: prod.splits)
  then show ?thesis by (auto simp: c_strtol_def Let_def split: list.split)
qed

lemma put_text_stored:
  assumes "isp_ok vi cam s" "length t < 128"
  shows "\<exists>d e s'. put_text (mem_ok env) c f t (r, s) = Some (r, s') \<and> isp_ok vi cam s' \<and>
     current_scenario_id s' = current_scenario_id s \<and>
     g_ini_d (isp_param s) = Some d \<and> g_ini_d (isp_param s') = Some e \<and>
     dict_map e = (dict_map d)(param_key (isp_entry (get_scenario_id s c) f) \<mapsto> Some t)"
proof -
  have cfg: "isp_cfg vi s" using assms(1) by (simp add: isp_ok_def)
  let ?k = "isp_entry (get_scenario_id s c) f"
  let ?st = "\<lambda>p. s\<lparr>isp_param := p, isp_log := isp_log s @ [Param_store ?k]\<rparr>"
  from store_text_cfg [OF cfg assms(2), of env ?k] obtain d e p where st:
    "store_text (mem_ok env) ?k t s = Some (?st p)" "isp_cfg vi (?st p)" "g_ini_d (isp_param s) = Some d" "g_ini_d p = Some e"
    "dict_map e = (dict_map d)(param_key ?k \<mapsto> Some t)" by blast
  have "isp_ok vi cam (?st p)" using assms(1) st(2) by (simp add: isp_ok_def camera_ready_def)
  with st show ?thesis
    by (intro exI [of _ d] exI [of _ e] exI [of _ "?st p"]) (simp add: put_text_def)
qed

lemma put_text_ok:
  "isp_ok vi cam s \<Longrightarrow> length t < 128 \<Longrightarrow> keeps (isp_ok vi cam) (put_text (mem_ok env) c f t (r, s))"
  using put_text_stored [of vi cam s t env c f r] by (auto simp: keeps_def)

lemma put_text_full:
  assumes "isp_full vi cam s" "length t < 128"
  shows "keeps (isp_full vi cam) (put_text (mem_ok env) c f t (r, s))"
proof -
  have ok: "isp_ok vi cam s" using assms(1) by (simp add: isp_full_def)
  from put_text_stored [OF this assms(2), of env c f r] obtain d e s' where
    s': "put_text (mem_ok env) c f t (r, s) = Some (r, s')" "isp_ok vi cam s'"
      "current_scenario_id s' = current_scenario_id s" "g_ini_d (isp_param s) = Some d"
      "g_ini_d (isp_param s') = Some e" "dict_map e = (dict_map d)(param_key (isp_entry (get_scenario_id s c) f) \<mapsto> Some t)"
    by blast
  have "mode_key s' cam = mode_key s cam" using s'(3) by (simp add: mode_key_def get_scenario_id_def)
  with s' assms(1) have "isp_full vi cam s'" by (auto simp: isp_full_def)
  with s'(1) show ?thesis by (simp add: keeps_def)
qed

lemma put_int_text: "put_int env c f v rs = put_text env c f (show_int v) rs"
  by (simp add: put_int_def put_text_def store_int_text)

lemma isp_cfg_reads:
  assumes "isp_cfg vi s" "CHR '':'' \<in> set (param_key k)"
  shows "int_ok n \<Longrightarrow> \<exists>v. rk_param_get_int (isp_param s) k n = Some v \<and> int_ok v"
    "\<exists>v. rk_param_get_int (isp_param s) k n = Some v"
    "length t < 128 \<Longrightarrow> \<exists>v. rk_param_get_string (isp_param s) k (Str t) = Str v \<and> length v < 128"
proof -
  from assms(1) obtain d where d: "g_ini_d (isp_param s) = Some d" "texts_ok (dict_map d)" by (auto simp: isp_cfg_def)
  consider "dict_map d (param_key k) = None" | u where "dict_map d (param_key k) = Some (Some u)" "length u < 128"
    using d(2) assms(2) unfolding texts_ok_def by (cases "dict_map d (param_key k)") blast+
  note c = this
  show "int_ok n \<Longrightarrow> \<exists>v. rk_param_get_int (isp_param s) k n = Some v \<and> int_ok v"
    by (cases rule: c) (simp_all add: param_get_int [OF d(1)] clamp_int_ok)
  show "\<exists>v. rk_param_get_int (isp_param s) k n = Some v"
    by (cases rule: c) (simp_all add: param_get_int [OF d(1)])
  show "length t < 128 \<Longrightarrow> \<exists>v. rk_param_get_string (isp_param s) k (Str t) = Str v \<and> length v < 128"
    by (cases rule: c) (simp_all add: param_get_string [OF d(1)])
qed

lemma isp_contract_ok: "isp_contract (mem_ok env) (isp_ok vi cam) cam (\<lambda>t. length t < 128)"
proof
  fix s f v r t k d
  assume ok: "isp_ok vi cam s"
  then have cfg: "isp_cfg vi s" by (simp add: isp_ok_def)
  from ok show "0 \<le> cam \<and> camera_ready s cam" by (simp add: isp_ok_def)
  show "isp_ok vi cam (s\<lparr>isp_log := isp_log s @ [c]\<rparr>)" if "\<not> is_vi c" for c
    using ok that by (simp add: isp_ok_def isp_cfg_def camera_ready_def)
  show "isp_ok vi cam (s\<lparr>light_state := x\<rparr>)" "isp_ok vi cam (s\<lparr>light_level := x\<rparr>)" for x
    using ok by (simp_all add: isp_ok_def isp_cfg_def camera_ready_def)
  show "keeps (isp_ok vi cam) (put_int (mem_ok env) cam f v (r, s))" if "int_ok v"
    using put_text_ok [OF ok show_int_length [OF that]] by (simp add: put_int_text)
  show "keeps (isp_ok vi cam) (put_text (mem_ok env) cam f t (r, s))" if "length t < 128"
    using put_text_ok [OF ok that] .
  show "\<exists>v. rk_param_get_int (isp_param s) k d = Some v" if "field_ok k"
    using isp_cfg_reads(2) [OF cfg field_key [OF that]] .
  note e = entry_key [OF isp_ok_scenario(1,2) [OF ok]]
  show "\<exists>v. isp_int_or s cam f d = Some v \<and> int_ok v" if "field_ok f" "int_ok d"
    using isp_cfg_reads(1) [OF cfg e [OF that(1)] that(2)] by (simp add: isp_int_or_def)
  show "\<exists>v. isp_text_or s cam f (Str t) = Str v \<and> length v < 128 \<and> length v < 128" if "field_ok f" "length t < 128"
    using isp_cfg_reads(3) [OF cfg e [OF that(1)] that(2)] by (simp add: isp_text_or_def)
  show "\<exists>v. rk_param_get_string (isp_param s) (isp_entry cam f) (Str t) = Str v" if "field_ok f" "length t < 128"
    using isp_cfg_reads(3) [OF cfg entry_key [OF isp_ok_scenario(3,4) [OF ok] that(1)] that(2)] by blast
qed simp


lemma isp_full_contract: "isp_contract (mem_ok env) (isp_full vi cam) cam (\<lambda>t. length t < 128)"
proof -
  note c = isp_contract_ok [of env vi cam]
  have ok: "isp_full vi cam s \<Longrightarrow> isp_ok vi cam s" for s by (simp add: isp_full_def)
  show ?thesis
  proof
    fix s f v r
    assume full: "isp_full vi cam s"
    show "isp_full vi cam (s\<lparr>isp_log := isp_log s @ [c]\<rparr>)" if "\<not> is_vi c" for c
      using full isp_contract.logged [OF c ok [OF full] that] by (auto simp: isp_full_def mode_key_def get_scenario_id_def)
    show "isp_full vi cam (s\<lparr>light_state := x\<rparr>)" "isp_full vi cam (s\<lparr>light_level := x\<rparr>)" for x
      using full isp_contract.light [OF c ok [OF full], of x]
      by (auto simp: isp_full_def mode_key_def get_scenario_id_def)
    show "keeps (isp_full vi cam) (put_int (mem_ok env) cam f v (r, s))" if "int_ok v"
      using put_text_full [OF full show_int_length [OF that]] by (simp add: put_int_text)
    show "keeps (isp_full vi cam) (put_text (mem_ok env) cam f t (r, s))" if "length t < 128" for t
      using put_text_full [OF full that] .
  qed (use isp_contract.ready [OF c] isp_contract.number [OF c] isp_contract.scenario_number [OF c]
      isp_contract.scenario_text [OF c] isp_contract.camera_text [OF c] ok in \<open>blast | simp\<close>)+
qed

lemma noise_mode_stored:
  assumes "isp_ok vi cam s" "length t < 128"
  shows "keeps (isp_full vi cam) (rk_isp_set_noise_reduce_mode (mem_ok env) cam t s)"
proof -
  from put_text_stored [OF assms, of env cam "''enhancement:noise_reduce_mode''" "junk env"] obtain d e s' where
    s': "put_text (mem_ok env) cam ''enhancement:noise_reduce_mode'' t (junk env, s) = Some (junk env, s')"
      "isp_ok vi cam s'" "current_scenario_id s' = current_scenario_id s" "g_ini_d (isp_param s') = Some e"
      "dict_map e = (dict_map d)(mode_key s cam \<mapsto> Some t)" by (auto simp: mode_key_def)
  have "mode_key s' cam = mode_key s cam" using s'(3) by (simp add: mode_key_def get_scenario_id_def)
  with s' have "isp_full vi cam s'" by (auto simp: isp_full_def)
  with s'(1) show ?thesis
    using isp_contract.check [OF isp_contract_ok assms(1)] by (simp add: rk_isp_set_noise_reduce_mode_def keeps_def)
qed

interpretation isp_settings: isp_ini "mem_ok env" "isp_ok vi cam" "isp_full vi cam" cam "\<lambda>t. length t < 128"
  for env vi cam
proof (intro isp_ini.intro isp_ini_axioms.intro isp_contract_ok isp_full_contract)
  show "isp_ok vi cam s" if "isp_full vi cam s" for s using that by (simp add: isp_full_def)
  show "\<exists>m. isp_text_or s cam ''enhancement:noise_reduce_mode'' Null = Str m" if "isp_full vi cam s" for s
    using that by (auto simp: isp_full_def isp_text_or_def param_get_string mode_key_def)
  show "keeps (isp_full vi cam) (rk_isp_set_noise_reduce_mode (mem_ok env) cam t s)"
    if "isp_ok vi cam s" "length t < 128" for s t
    using noise_mode_stored [OF that] .
qed

end
