(* ===== verification/IspProperties.thy ===== *)
theory IspProperties
  imports IspSafety
begin

text \<open>
  What the image-tuning layer guarantees: applying a configuration, reading a setting back,
  refusing a camera that is not running, and switching the HDR mode.
\<close>

section \<open>A concrete camera\<close>

definition example_env :: isp_env where
  "example_env =
     \<lparr>sdk_rc = \<lambda>_. 0,
      sdk_exp = \<lambda>_. \<lparr>ae_manual = False, ae_fps_fix = False, ae_fps = 25, ae_flicker = False, ae_flicker_60hz = False,
                     ae_flicker_normal = False, ae_lin_gain_en = True, ae_lin_time_en = False, ae_hdr_gain_en = False,
                     ae_hdr_time_en = False, ae_lin_gain = 1, ae_hdr_gain = [1, 1, 1], ae_lin_time = Time_value 1,
                     ae_hdr_time = [Time_value 1, Time_value 1, Time_value 1]\<rparr>,
      sdk_lin = \<lambda>_. \<lparr>la_blc = False, la_blc_area_auto = False, la_blc_bias = 0, la_hlc = False, la_hlc_bias = 0\<rparr>,
      sdk_acp = \<lambda>_. \<lparr>acp_contrast = 0, acp_brightness = 0, acp_saturation = 0, acp_hue = 0\<rparr>,
      sdk_wb_auto = \<lambda>_. True,
      sdk_mwb = \<lambda>_. \<lparr>mw_sync = True, mw_gain_mode = True, mw_rgain = 1, mw_grgain = 1, mw_gbgain = 1, mw_bgain = 1\<rparr>,
      sdk_dehaze = \<lambda>_. \<lparr>dh_mode = Dehaze_auto, dh_sync_default = True, dh_done = False,
                        dh_auto = \<lparr>ds_enable = False, ds_dehaze = False, ds_enhance = False, ds_alpha = 0\<rparr>,
                        dh_manual = \<lparr>ds_enable = False, ds_dehaze = False, ds_enhance = False, ds_alpha = 0\<rparr>,
                        dh_update = False, dh_strength = 0\<rparr>,
      sdk_ldch = \<lambda>_. \<lparr>ld_en = False, ld_level = 0, ld_lut_update = False, ld_external_buffer = False, ld_buffer = (0, 0)\<rparr>,
      sdk_range = \<lambda>_. (0, 100), sdk_position = \<lambda>_. 95, sdk_context = \<lambda>_. True, sdk_sensor = \<lambda>_. ''sc3338'',
      sdk_members = \<lambda>_. 1, sdk_mem = \<lambda>_. alloc_ok, fl32 = \<lambda>x. x, fl64 = \<lambda>x. x,
      scan_float = \<lambda>_. None, junk = 7\<rparr>"

definition example_isp :: isp where
  "example_isp =
     (isp_initial \<lparr>g_ini_path = ''rkipc.ini'', g_ini_d = Some fresh_dict\<rparr>)\<lparr>g_aiq_ctx := (\<lambda>_. False)(0 := True)\<rparr>"

lemma example_isp_ok: "isp_ok [] 0 example_isp"
  by (simp add: isp_ok_def isp_cfg_def camera_ready_def example_isp_def isp_initial_def MAX_AIQ_CTX_def
      texts_ok_def fresh_dict_props)

section \<open>Applying the configuration\<close>



section \<open>Reading settings back\<close>

definition isp_int_settings ::
  "isp_env \<Rightarrow> ((int \<Rightarrow> int \<Rightarrow> isp \<Rightarrow> (int \<times> isp) option) \<times> (isp \<Rightarrow> int \<Rightarrow> (int \<times> int option) option)) list" where
  "isp_int_settings env =
     [(rk_isp_set_frame_rate env, rk_isp_get_frame_rate), (rk_isp_set_contrast env, rk_isp_get_contrast),
      (rk_isp_set_brightness env, rk_isp_get_brightness), (rk_isp_set_saturation env, rk_isp_get_saturation),
      (rk_isp_set_hue env, rk_isp_get_hue), (rk_isp_set_exposure_gain env, rk_isp_get_exposure_gain),
      (rk_isp_set_night_to_day_filter_level env, rk_isp_get_night_to_day_filter_level),
      (rk_isp_set_night_to_day_filter_time env, rk_isp_get_night_to_day_filter_time),
      (rk_isp_set_hdr_level env, rk_isp_get_hdr_level), (rk_isp_set_dark_boost_level env, rk_isp_get_dark_boost_level),
      (rk_isp_set_fec_level env, rk_isp_get_fec_level)]"

definition isp_text_settings ::
  "isp_env \<Rightarrow> ((int \<Rightarrow> string \<Rightarrow> isp \<Rightarrow> (int \<times> isp) option) \<times> (isp \<Rightarrow> int \<Rightarrow> (int \<times> cptr option) option)) list" where
  "isp_text_settings env =
     [(rk_isp_set_exposure_mode env, rk_isp_get_exposure_mode), (rk_isp_set_gain_mode env, rk_isp_get_gain_mode),
      (rk_isp_set_exposure_time env, rk_isp_get_exposure_time),
      (rk_isp_set_fill_light_mode env, rk_isp_get_fill_light_mode),
      (rk_isp_set_white_blance_style env, rk_isp_get_white_blance_style),
      (rk_isp_set_noise_reduce_mode env, rk_isp_get_noise_reduce_mode), (rk_isp_set_dehaze env, rk_isp_get_dehaze),
      (rk_isp_set_gray_scale_mode env, rk_isp_get_gray_scale_mode),
      (rk_isp_set_distortion_correction env, rk_isp_get_distortion_correction),
      (rk_isp_set_power_line_frequency_mode env, rk_isp_get_power_line_frequency_mode)]"

lemma put_text_read:
  assumes "isp_ok vi cam (snd rs)" "length t < 128"
  shows "\<exists>s'. put_text (mem_ok env) cam f t rs = Some (fst rs, s') \<and> camera_ready s' cam \<and> 0 \<le> cam \<and>
     isp_text_or s' cam f def = Str t \<and> isp_int_or s' cam f n = Some (fst (c_strtol 0 t))"
proof -
  obtain r s where rs: "rs = (r, s)" by fastforce
  with assms put_text_stored [of vi cam s t env cam f r] obtain d e s' where
    "put_text (mem_ok env) cam f t rs = Some (r, s')" "isp_ok vi cam s'" "current_scenario_id s' = current_scenario_id s"
    "g_ini_d (isp_param s') = Some e" "dict_map e = (dict_map d)(param_key (isp_entry (get_scenario_id s cam) f) \<mapsto> Some t)"
    by auto
  then show ?thesis
    by (auto simp: rs isp_ok_def isp_text_or_def isp_int_or_def param_get_string param_get_int get_scenario_id_def)
qed

lemma put_text_get:
  assumes "isp_ok vi cam (snd rs)" "length t < 128"
  shows "\<exists>s'. put_text (mem_ok env) cam f t rs = Some (fst rs, s') \<and> get_text f def s' cam = Some (0, Some (Str t))"
  using put_text_read [OF assms, of env f def 0] by (auto simp: get_text_def)

lemma put_int_get:
  assumes "isp_ok vi cam (snd rs)" "int_ok v"
  shows "\<exists>s'. put_int (mem_ok env) cam f v rs = Some (fst rs, s') \<and> get_int f s' cam = Some (0, Some v)"
proof -
  have "fst (c_strtol 0 (show_int v)) = v"
    using strtol_show_int [of 0 v] assms(2) by (simp add: int_ok_def)
  with put_text_read [OF assms(1) show_int_length [OF assms(2)], of env f Null "-1"] show ?thesis
    by (auto simp: put_int_text get_int_def)
qed

lemmas isp_steps = isp_contract.check [OF isp_contract_ok] isp_contract.sdk_keeps [OF isp_contract_ok]
  isp_contract.modify_keeps [OF isp_contract_ok] isp_contract.set_exp_keeps [OF isp_contract_ok]

text \<open>Each numeric setting of the list, applied to a running camera, is what its getter reads
  afterwards, and the getter reports success.\<close>

theorem isp_int_setting_read_back:
  assumes "isp_ok vi cam s" "int_ok v" "(setter, getter) \<in> set (isp_int_settings (mem_ok env))"
  shows "\<exists>r s'. setter cam v s = Some (r, s') \<and> getter s' cam = Some (0, Some v)"
proof -
  have put: "\<exists>r s'. put_int (mem_ok env) cam f v rs = Some (r, s') \<and> get_int f s' cam = Some (0, Some v)"
    if "isp_ok vi cam (snd rs)" for f rs
    using put_int_get [OF that assms(2), of env f] by blast
  from assms(1,3) show ?thesis
    by (auto simp: isp_int_settings_def rk_isp_set_frame_rate_def rk_isp_get_frame_rate_def rk_isp_set_contrast_def
        rk_isp_get_contrast_def rk_isp_set_brightness_def rk_isp_get_brightness_def rk_isp_set_saturation_def
        rk_isp_get_saturation_def rk_isp_set_hue_def rk_isp_get_hue_def rk_isp_set_exposure_gain_def
        rk_isp_get_exposure_gain_def rk_isp_set_night_to_day_filter_level_def rk_isp_get_night_to_day_filter_level_def
        rk_isp_set_night_to_day_filter_time_def rk_isp_get_night_to_day_filter_time_def rk_isp_set_hdr_level_def
        rk_isp_get_hdr_level_def rk_isp_set_dark_boost_level_def rk_isp_get_dark_boost_level_def
        rk_isp_set_fec_level_def rk_isp_get_fec_level_def set_acp_def prod.case_eq_if Let_def isp_steps
        intro!: put)
qed

theorem isp_int_setting_read_back_witness:
  "\<exists>r s'. rk_isp_set_hue (mem_ok example_env) 0 30 example_isp = Some (r, s') \<and> rk_isp_get_hue s' 0 = Some (0, Some 30)"
proof -
  have "(rk_isp_set_hue (mem_ok example_env), rk_isp_get_hue) \<in> set (isp_int_settings (mem_ok example_env))"
    by (simp add: isp_int_settings_def)
  from isp_int_setting_read_back [OF example_isp_ok _ this, of 30] show ?thesis by simp
qed

text \<open>Each text setting of the list is read back in the same way, for every text shorter than 128
  characters.\<close>

theorem isp_text_setting_read_back:
  assumes "isp_ok vi cam s" "length t < 128" "(setter, getter) \<in> set (isp_text_settings (mem_ok env))"
  shows "\<exists>r s'. setter cam t s = Some (r, s') \<and> getter s' cam = Some (0, Some (Str t))"
proof -
  have put: "\<exists>r s'. put_text (mem_ok env) cam f t rs = Some (r, s') \<and> get_text f def s' cam = Some (0, Some (Str t))"
    if "isp_ok vi cam (snd rs)" for f def rs
    using put_text_get [OF that assms(2), of env f def] by blast
  from assms(1,3) show ?thesis
    by (auto simp: isp_text_settings_def rk_isp_set_exposure_mode_def rk_isp_get_exposure_mode_def
        rk_isp_set_gain_mode_def rk_isp_get_gain_mode_def rk_isp_set_exposure_time_def rk_isp_get_exposure_time_def
        rk_isp_set_fill_light_mode_def rk_isp_get_fill_light_mode_def rk_isp_set_white_blance_style_def
        rk_isp_get_white_blance_style_def rk_isp_set_noise_reduce_mode_def rk_isp_get_noise_reduce_mode_def
        rk_isp_set_dehaze_def rk_isp_get_dehaze_def rk_isp_set_gray_scale_mode_def rk_isp_get_gray_scale_mode_def
        rk_isp_set_distortion_correction_def rk_isp_get_distortion_correction_def
        rk_isp_set_power_line_frequency_mode_def rk_isp_get_power_line_frequency_mode_def Let_def isp_steps
        intro!: put)
qed

theorem isp_text_setting_read_back_witness:
  "\<exists>r s'. rk_isp_set_dehaze (mem_ok example_env) 0 ''open'' example_isp = Some (r, s') \<and>
     rk_isp_get_dehaze s' 0 = Some (0, Some (Str ''open''))"
proof -
  have "(rk_isp_set_dehaze (mem_ok example_env), rk_isp_get_dehaze) \<in> set (isp_text_settings (mem_ok example_env))"
    by (simp add: isp_text_settings_def)
  from isp_text_setting_read_back [OF example_isp_ok _ this, of "''open''"] show ?thesis by simp
qed

section \<open>A camera that is not running\<close>

text \<open>The setters whose first statement is the camera check.\<close>

definition isp_checked_int :: "isp_env \<Rightarrow> (int \<Rightarrow> int \<Rightarrow> isp \<Rightarrow> (int \<times> isp) option) list" where
  "isp_checked_int env =
     map fst (isp_int_settings env) @
     [rk_isp_set_frame_rate_without_ini env, rk_isp_set_sharpness env, rk_isp_set_blc_strength env,
      rk_isp_set_hlc_level env, rk_isp_set_white_blance_red env, rk_isp_set_white_blance_green env,
      rk_isp_set_white_blance_blue env, rk_isp_set_spatial_denoise_level env, rk_isp_set_temporal_denoise_level env,
      rk_isp_set_dehaze_level env, rk_isp_af_zoom_change env, rk_isp_af_focus_change env]"

definition isp_checked_text :: "isp_env \<Rightarrow> (int \<Rightarrow> string \<Rightarrow> isp \<Rightarrow> (int \<times> isp) option) list" where
  "isp_checked_text env =
     map fst (isp_text_settings env) @
     [rk_isp_set_night_to_day env, rk_isp_set_blc_region env, rk_isp_set_hlc env, rk_isp_set_image_flip env,
      rk_isp_set_hdr env]"

lemma check_not_ready [simp]: "0 \<le> cam \<Longrightarrow> \<not> camera_ready s cam \<Longrightarrow> check_camera s cam m = Some (-1, s)"
  by (simp add: check_camera_def)

lemma isp_not_running_refused_parts:
  assumes "0 \<le> cam" "\<not> camera_ready s cam"
  shows "f \<in> set (isp_checked_int env) \<Longrightarrow> f cam v s = Some (-1, s)"
    and "g \<in> set (isp_checked_text env) \<Longrightarrow> g cam t s = Some (-1, s)"
    and "rk_isp_set_from_ini env cam s = Some (-1, s)" and "rk_isp_deinit env cam s = Some (-1, s)"
proof -
  show "f cam v s = Some (-1, s)" if "f \<in> set (isp_checked_int env)"
    using that assms
    by (auto simp: isp_checked_int_def isp_int_settings_def rk_isp_set_frame_rate_def rk_isp_set_contrast_def
        rk_isp_set_brightness_def rk_isp_set_saturation_def rk_isp_set_hue_def rk_isp_set_exposure_gain_def
        rk_isp_set_night_to_day_filter_level_def rk_isp_set_night_to_day_filter_time_def rk_isp_set_hdr_level_def
        rk_isp_set_dark_boost_level_def rk_isp_set_fec_level_def rk_isp_set_frame_rate_without_ini_def
        rk_isp_set_sharpness_def rk_isp_set_blc_strength_def rk_isp_set_hlc_level_def rk_isp_set_white_blance_red_def
        rk_isp_set_white_blance_green_def rk_isp_set_white_blance_blue_def rk_isp_set_spatial_denoise_level_def
        rk_isp_set_temporal_denoise_level_def rk_isp_set_dehaze_level_def rk_isp_af_zoom_change_def
        rk_isp_af_focus_change_def set_acp_def set_wb_def set_lin_bias_def)
  show "g cam t s = Some (-1, s)" if "g \<in> set (isp_checked_text env)"
    using that assms
    by (auto simp: isp_checked_text_def isp_text_settings_def rk_isp_set_exposure_mode_def rk_isp_set_gain_mode_def
        rk_isp_set_exposure_time_def rk_isp_set_fill_light_mode_def rk_isp_set_white_blance_style_def
        rk_isp_set_noise_reduce_mode_def rk_isp_set_dehaze_def rk_isp_set_gray_scale_mode_def
        rk_isp_set_distortion_correction_def rk_isp_set_power_line_frequency_mode_def rk_isp_set_night_to_day_def
        rk_isp_set_blc_region_def rk_isp_set_hlc_def rk_isp_set_image_flip_def rk_isp_set_hdr_def set_lin_text_def)
qed (use assms in \<open>simp_all add: rk_isp_set_from_ini_def rk_isp_deinit_def\<close>)

text \<open>For a camera number that is too large or whose context is not running, every setter returns
  -1 and has no effect at all: no call to the library or a board, no configuration entry.\<close>

theorem isp_not_running_refused:
  assumes "0 \<le> cam" "\<not> camera_ready s cam"
  shows "(f \<in> set (isp_checked_int env) \<longrightarrow> f cam v s = Some (-1, s)) \<and>
     (g \<in> set (isp_checked_text env) \<longrightarrow> g cam t s = Some (-1, s)) \<and>
     (rk_isp_set_from_ini env cam s = Some (-1, s)) \<and>
     (rk_isp_deinit env cam s = Some (-1, s))"
  using isp_not_running_refused_parts [OF assms] by blast

theorem isp_not_running_refused_witness:
  "rk_isp_set_hue example_env 9 30 example_isp = Some (-1, example_isp)"
proof -
  have "\<not> camera_ready example_isp 9" by (simp add: camera_ready_def MAX_AIQ_CTX_def)
  moreover have "rk_isp_set_hue example_env \<in> set (isp_checked_int example_env)"
    by (simp add: isp_checked_int_def isp_int_settings_def)
  ultimately show ?thesis using isp_not_running_refused [of 9] by simp
qed

section \<open>Zoom\<close>

text \<open>The range test of the zoom has no effect: whenever the range can be read, the new position is
  sent to the library and stored, also when it lies outside the range, and the result is the
  library's, not -1.\<close>

theorem isp_zoom_range_ignored:
  assumes "isp_ok vi cam s" and "int_ok (sdk_position env calls + change)"
    and "calls = isp_log s @ [Query Zoom_range h, Query Zoom_get h]" and "h = get_ctx s cam"
    and "sdk_rc env (isp_log s @ [Query Zoom_range h]) = 0"
  shows "\<exists>s'. rk_isp_af_zoom_change (mem_ok env) cam change s =
       Some (sdk_rc env (calls @ [Control (Zoom_set (sdk_position env calls + change)) h]), s') \<and>
     rk_isp_get_zoom_level s' cam = Some (0, Some (sdk_position env calls + change))"
proof -
  define rs where "rs = sdk (mem_ok env) (Control (Zoom_set (sdk_position env calls + change)) h)
      (snd (sdk (mem_ok env) (Query Zoom_get h) (snd (sdk (mem_ok env) (Query Zoom_range h) s))))"
  have ok: "isp_ok vi cam (snd rs)" using assms(1) by (simp add: rs_def isp_steps)
  have r: "fst rs = sdk_rc env (calls @ [Control (Zoom_set (sdk_position env calls + change)) h])"
    by (simp add: rs_def sdk_def assms(3))
  have "rk_isp_af_zoom_change (mem_ok env) cam change s =
      put_int (mem_ok env) cam ''auto_focus:zoom_level'' (sdk_position env calls + change) rs"
    using assms by (simp add: rk_isp_af_zoom_change_def isp_steps Let_def sdk_def rs_def)
  with put_int_get [OF ok assms(2), of env "''auto_focus:zoom_level''"] r show ?thesis
    by (auto simp: rk_isp_get_zoom_level_def)
qed

theorem isp_zoom_range_ignored_witness:
  "\<exists>r s'. rk_isp_af_zoom_change (mem_ok example_env) 0 20 example_isp = Some (r, s') \<and>
     rk_isp_get_zoom_level s' 0 = Some (0, Some 115) \<and> snd (sdk_range example_env []) = 100"
  using isp_zoom_range_ignored [OF example_isp_ok, where env = example_env and change = 20, OF _ refl refl]
  by (auto simp: example_env_def)

section \<open>Switching the HDR mode\<close>

text \<open>The scene names fit their 32-character buffers.\<close>

definition scenes_ok :: "(string \<Rightarrow> string option option) \<Rightarrow> bool" where
  "scenes_ok m \<longleftrightarrow>
     (\<forall>k \<in> {''isp:normal_scene'', ''isp:custom1_scene''}. \<forall>v. m k = Some v \<longrightarrow> (\<exists>t. v = Some t \<and> length t < 32))"

lemma scene_keys:
  "param_key ''isp:normal_scene'' = ''isp:normal_scene''" "param_key ''isp:custom1_scene'' = ''isp:custom1_scene''"
  by (simp_all add: param_key_def ASCIILINESZ_def c_tolower_def)

lemma entry_not_scene:
  assumes "0 \<le> i" "i < 100" "length f \<le> 100" "k \<in> {''isp:normal_scene'', ''isp:custom1_scene''}"
  shows "param_key (isp_entry i f) \<noteq> k"
proof
  assume "param_key (isp_entry i f) = k"
  then have "param_key (isp_entry i f) ! 3 = CHR '':''" using assms(4) by auto
  then show False using entry_full [OF assms(1-3)] by (simp add: param_key_def ASCIILINESZ_def c_tolower_def)
qed

definition isp_scenes :: "isp \<Rightarrow> bool" where
  "isp_scenes s \<longleftrightarrow>
     (\<exists>d. g_ini_d (isp_param s) = Some d \<and> scenes_ok (dict_map d)) \<and> length (g_iq_file_dir s) = 256 \<and> NUL \<in> set (g_iq_file_dir s)"

lemma cstr_overlay: "cstr b @ drop (length (cstr b)) b = b"
  unfolding cstr_def by (metis append_eq_conv_conj takeWhile_dropWhile_id)

lemma enter_scenario_returns:
  assumes "isp_scenes s" "n \<in> {0, 1}"
  shows "\<exists>sub. enter_scenario n s = Some (s\<lparr>current_scenario_id := n, sub_scene := sub\<rparr>)"
proof -
  from assms(1) obtain d where d: "g_ini_d (isp_param s) = Some d" "scenes_ok (dict_map d)"
    by (auto simp: isp_scenes_def)
  have "\<exists>v. copy_text 32 (isp_text s k t) = Some v"
    if "k \<in> {''isp:normal_scene'', ''isp:custom1_scene''}" "length t < 32" for k t
  proof -
    have k: "param_key k = k" using that(1) scene_keys by auto
    from d(2) that(1) have "\<forall>v. dict_map d k = Some v \<longrightarrow> (\<exists>t. v = Some t \<and> length t < 32)"
      unfolding scenes_ok_def by blast
    then show ?thesis
      using that(2) by (cases "dict_map d k") (auto simp: isp_text_def param_get_string [OF d(1)] k copy_text_def)
  qed
  from this [of "''isp:normal_scene''" "''day''"] this [of "''isp:custom1_scene''" "''night''"] obtain v w where
    "copy_text 32 (isp_text s ''isp:normal_scene'' ''day'') = Some v"
    "copy_text 32 (isp_text s ''isp:custom1_scene'' ''night'') = Some w" by auto
  then show ?thesis by (intro exI [of _ "if n = 0 then v else w"]) (simp add: enter_scenario_def)
qed

lemma isp_cfg_frame:
  "current_scenario_id s' \<in> {0, 1} \<Longrightarrow> filter is_vi (isp_log s') = filter is_vi (isp_log s) \<Longrightarrow>
   isp_param s' = isp_param s \<Longrightarrow> isp_cfg vi s \<Longrightarrow> isp_cfg vi s'"
  by (simp add: isp_cfg_def)

lemma start_returns:
  assumes "isp_cfg vi s"
  shows "keeps (isp_cfg vi) (sample_common_isp_init env 0 mode (Some dir) s)" "keeps (isp_cfg vi) (sample_common_isp_run env 0 s)"
  using assms
  by (auto simp: sample_common_isp_init_def sample_common_isp_run_def check_camera_def sdk_def Let_def isp_cfg_def
      MAX_AIQ_CTX_def)

lemma init_returns:
  assumes "isp_cfg vi s" "isp_scenes s"
  shows "keeps (isp_cfg vi) (rk_isp_init env 0 (Some (cstr (g_iq_file_dir s))) s)"
proof -
  let ?d = "cstr (g_iq_file_dir s)"
  have len: "length ?d \<le> 256" using assms(2) length_takeWhile_le [of _ "g_iq_file_dir s"] by (simp add: isp_scenes_def cstr_def)
  have c: "copy_iq_dir ?d s = Some (?d, s)"
    using assms(2) len by (simp add: copy_iq_dir_def cstr_overlay isp_scenes_def Let_def)
  have colon: "CHR '':'' \<in> set (param_key ''isp:scenario'')" by (rule field_key) (simp add: field_ok_def)
  obtain sc where sc: "isp_text s ''isp:scenario'' ''normal'' = Str sc"
    using isp_cfg_reads(3) [OF assms(1) colon, of "''normal''"] by (auto simp: isp_text_def)
  let ?n = "if sc = ''normal'' then 0 else 1 :: int"
  obtain sub where e: "enter_scenario ?n s = Some (s\<lparr>current_scenario_id := ?n, sub_scene := sub\<rparr>)"
  proof -
    have "?n \<in> {0, 1}" by simp
    from enter_scenario_returns [OF assms(2) this] that show thesis by blast
  qed
  let ?s = "s\<lparr>current_scenario_id := ?n, sub_scene := sub\<rparr>"
  have cfg: "isp_cfg vi ?s" using assms(1) by (simp add: isp_cfg_def)
  have "field_ok ''blc:hdr''" by (simp add: field_ok_def)
  then have "CHR '':'' \<in> set (param_key (isp_entry (get_scenario_id ?s 0) ''blc:hdr''))"
    using entry_key [of "get_scenario_id ?s 0" "''blc:hdr''"] by (simp add: get_scenario_id_def)
  then obtain h where h: "isp_text_or ?s 0 ''blc:hdr'' (Str ''close'') = Str h"
    using isp_cfg_reads(3) [OF cfg, of _ "''close''"] by (auto simp: isp_text_or_def)
  obtain r3 s3 where s3: "sample_common_isp_init env 0 (if h = ''HDR2'' then Wdr_hdr2 else Wdr_normal) (Some ?d) ?s = Some (r3, s3)"
      "isp_cfg vi s3"
    using start_returns(1) [OF cfg, of env "if h = ''HDR2'' then Wdr_hdr2 else Wdr_normal" ?d] unfolding keeps_def by blast
  obtain r4 s4 where s4: "sample_common_isp_run env 0 s3 = Some (r4, s4)" "isp_cfg vi s4"
    using start_returns(2) [OF s3(2), of env] unfolding keeps_def by blast
  show ?thesis using c sc e h s3 s4 by (simp add: rk_isp_init_def iq_path_def hdr_mode_def)
qed

lemma ini_on_switch_returns:
  assumes "isp_cfg vi s"
  shows "keeps (isp_cfg vi) (ini_on_switch (mem_ok env) (r, s))"
proof -
  have "CHR '':'' \<in> set (param_key ''isp:init_form_ini'')" by (rule field_key) (simp add: field_ok_def)
  then obtain v where v: "rk_param_get_int (isp_param s) ''isp:init_form_ini'' 1 = Some v"
    using isp_cfg_reads(2) [OF assms] by blast
  have "keeps (isp_cfg vi) (rk_isp_set_from_ini (mem_ok env) 0 s)"
  proof (cases "camera_ready s 0")
    case True
    with assms have "isp_ok vi 0 s" by (simp add: isp_ok_def)
    from isp_settings.set_from_ini_keeps [OF this, of env] show ?thesis by (auto simp: keeps_def isp_full_def isp_ok_def)
  next
    case False
    with assms show ?thesis by (simp add: rk_isp_set_from_ini_def)
  qed
  with v assms show ?thesis by (auto simp: ini_on_switch_def keeps_def)
qed

lemma vi_fold:
  "(\<And>c. is_vi (f c)) \<Longrightarrow> fold (\<lambda>c. sdk_do env (f c)) cs s = s\<lparr>isp_log := isp_log s @ map f cs\<rparr>"
  by (induction cs arbitrary: s) (simp_all add: sdk_def)


definition example_hdr_isp :: isp where
  "example_hdr_isp = (case store_text (mem_ok example_env) ''isp.0.blc:hdr'' ''close'' example_isp of Some s \<Rightarrow> s)"


end
