(* ===== verification/IspFastboot.thy ===== *)
theory IspFastboot
  imports IspControl
begin

text \<open>
  The fast-boot start of the camera in \<^verbatim>\<open>common/isp/rv1106/isp.c\<close> and the kernel command line it is
  told by, \<^verbatim>\<open>get_cmd_val\<close> of \<^verbatim>\<open>common/common.c\<close>. The boot loader leaves the brightness it measured and the
  tuning data in physical memory; the code maps both through \<^verbatim>\<open>/dev/mem\<close>. The answers of the operating
  system are functions of the calls so far. The lemmas show what a start and a stop leave behind.
\<close>

section \<open>The kernel command line\<close>

text \<open>\<^verbatim>\<open>read_cmdline_to_buf\<close> into a zeroed buffer: \<open>None\<close> is a file that cannot be opened; a failed read leaves the zeros.\<close>

definition read_cmdline_to_buf :: "string option \<Rightarrow> nat \<Rightarrow> int \<times> string" where
  "read_cmdline_to_buf file n =
     (case file of
        None \<Rightarrow> (-1, replicate n NUL)
      | Some content \<Rightarrow>
          (int (length (take n content)), take n content @ replicate (n - length content) NUL))"

text \<open>\<^verbatim>\<open>strtol(s, NULL, 16)\<close>, with the prefix that base 16 allows.\<close>

fun skip_hex_prefix :: "string \<Rightarrow> string" where
  "skip_hex_prefix (z # x # h # r) =
     (if z = CHR ''0'' \<and> (x = CHR ''x'' \<or> x = CHR ''X'') \<and> is_digit 16 h then h # r else z # x # h # r)"
| "skip_hex_prefix s = s"

definition strtol_hex :: "string \<Rightarrow> int" where
  "strtol_hex s =
     (case dropWhile c_isspace s of
        [] \<Rightarrow> 0
      | c # cs \<Rightarrow>
          fst (strtol_number 16 (c = CHR ''-'') s
                 (skip_hex_prefix (if c = CHR ''-'' \<or> c = CHR ''+'' then cs else c # cs))))"

text \<open>The rest of a string from the first occurrence of another one.\<close>

fun c_strstr :: "string \<Rightarrow> string \<Rightarrow> string option" where
  "c_strstr [] needle = (if needle = [] then Some [] else None)"
| "c_strstr (c # cs) needle = (if str_starts (c # cs) needle then Some (c # cs) else c_strstr cs needle)"

text \<open>
  The value after the first occurrence of the name and one more character. The buffer of 1024 characters is read
  once; one without an end is read past it (\<open>None\<close>).
\<close>

definition CMDLINE_SIZE :: nat where
  "CMDLINE_SIZE = 1024"

definition get_cmd_val :: "string option \<Rightarrow> string \<Rightarrow> string option \<Rightarrow> (int \<times> string option) option" where
  "get_cmd_val file name cmdline =
     (let buf = (case cmdline of Some b \<Rightarrow> b | None \<Rightarrow> snd (read_cmdline_to_buf file CMDLINE_SIZE))
      in if NUL \<notin> set buf then None
         else (case c_strstr (cstr buf) name of
                 None \<Rightarrow> Some (0, Some buf)
               | Some rest \<Rightarrow> Some (strtol_hex (drop (length name + 1) rest), Some buf)))"

section \<open>State\<close>

datatype os_call =
    Os_open_mem
  | Os_map int int
  | Os_unmap int int
  | Os_close int

text \<open>\<open>fb_iq_mem\<close> is 0 for the initial NULL and -1 for \<^verbatim>\<open>MAP_FAILED\<close>; \<open>fb_file_size\<close> is the file's static variable.\<close>

record fastboot =
  fb_isp :: isp
  fb_fd :: int
  fb_file_size :: int
  fb_iq_mem :: int
  fb_cmdline :: "string option"
  fb_os :: "os_call list"

record fastboot_env =
  fe_isp :: isp_env
  fe_cmdline :: "string option"
  fe_page_mask :: nat
  fe_os :: "os_call list \<Rightarrow> int"
  fe_color_mode :: "int \<Rightarrow> int"

definition fastboot_initial :: "isp \<Rightarrow> fastboot" where
  "fastboot_initial s =
     \<lparr>fb_isp = s, fb_fd = 0, fb_file_size = 0, fb_iq_mem = 0, fb_cmdline = None, fb_os = []\<rparr>"

definition os :: "fastboot_env \<Rightarrow> os_call \<Rightarrow> fastboot \<Rightarrow> int \<times> fastboot" where
  "os env c s = (fe_os env (fb_os s @ [c]), s\<lparr>fb_os := fb_os s @ [c]\<rparr>)"

definition fb_sdk :: "fastboot_env \<Rightarrow> sysctl_call \<Rightarrow> int \<Rightarrow> fastboot \<Rightarrow> int \<times> fastboot" where
  "fb_sdk env c cam s =
     (case sdk (fe_isp env) (Sysctl c cam) (fb_isp s) of (r, s') \<Rightarrow> (r, s\<lparr>fb_isp := s'\<rparr>))"

definition cmd_val :: "fastboot_env \<Rightarrow> string \<Rightarrow> fastboot \<Rightarrow> (int \<times> fastboot) option" where
  "cmd_val env name s =
     map_option (\<lambda>(v, cmdline). (v, s\<lparr>fb_cmdline := cmdline\<rparr>)) (get_cmd_val (fe_cmdline env) name (fb_cmdline s))"

section \<open>Starting\<close>

text \<open>A physical address is mapped from the start of its page.\<close>

definition page_base :: "fastboot_env \<Rightarrow> int \<Rightarrow> int" where
  "page_base env a = a - a mod (int (fe_page_mask env) + 1)"

definition page_offset :: "fastboot_env \<Rightarrow> int \<Rightarrow> int" where
  "page_offset env a = a mod (int (fe_page_mask env) + 1)"

definition MAP_FAILED :: int where
  "MAP_FAILED = -1"

text \<open>The mode the boot loader measured, read through a mapping that is not checked before it is used.\<close>

definition read_color_mode :: "fastboot_env \<Rightarrow> int \<Rightarrow> fastboot \<Rightarrow> (int \<times> fastboot) option" where
  "read_color_mode env a s =
     (case os env (Os_map 4 (page_base env a)) s of
        (mem, s1) \<Rightarrow>
          if mem = MAP_FAILED then None
          else Some (fe_color_mode env (mem + page_offset env a), snd (os env (Os_unmap mem 4) s1)))"

text \<open>The engine: initialised with the tuning data at an address, prepared and started.\<close>

definition fastboot_engine :: "fastboot_env \<Rightarrow> int \<Rightarrow> int \<Rightarrow> int \<Rightarrow> fastboot \<Rightarrow> (int \<times> fastboot) option" where
  "fastboot_engine env cam_id iq_addr n s =
     (let s1 = snd (fb_sdk env Preinit_tb_info 0 (snd (fb_sdk env (Preinit_iq_addr iq_addr n) 0 s)));
          s2 = snd (fb_sdk env (Sysctl_init ''/etc/iqfiles/'') 0 s1);
          made = sdk_context (fe_isp env) (isp_log (fb_isp s2))
      in if cam_id < 0 \<or> cam_id \<ge> MAX_AIQ_CTX then None
         else
           (let i = fb_isp s2; s3 = s2\<lparr>fb_isp := i\<lparr>g_aiq_ctx := (g_aiq_ctx i)(cam_id := made)\<rparr>\<rparr>
            in if \<not> made then Some (-1, s3)
               else (case fb_sdk env (Sysctl_prepare Wdr_normal) cam_id s3 of
                       (p, s4) \<Rightarrow>
                         if p \<noteq> 0 then Some (-1, s4)
                         else (case fb_sdk env Sysctl_start cam_id s4 of
                                 (r, s5) \<Rightarrow> Some (if r \<noteq> 0 then -1 else 0, s5)))))"

definition rk_isp_fastboot_init :: "fastboot_env \<Rightarrow> int \<Rightarrow> fastboot \<Rightarrow> (int \<times> fastboot) option" where
  "rk_isp_fastboot_init env cam_id s0 =
     do {
       (color_addr, s1) \<leftarrow> cmd_val env ''rk_color_mode'' s0;
       (case os env Os_open_mem s1 of
          (fd, s2) \<Rightarrow>
            if fd < 0 then Some (-1, s2\<lparr>fb_fd := fd\<rparr>)
            else
              do {
                (night, s3) \<leftarrow> read_color_mode env color_addr (s2\<lparr>fb_fd := fd\<rparr>);
                (addr_iq, s4) \<leftarrow> cmd_val env ''rk_iqbin_addr'' s3;
                (n, s5) \<leftarrow> cmd_val env ''rk_iqbin_size'' s4;
                (case os env (Os_map n (page_base env addr_iq)) s5 of
                   (iq, s6) \<Rightarrow>
                     (case fb_sdk env (Preinit_scene ''normal'' (if night \<noteq> 0 then ''night'' else ''day'')) 0
                             (snd (fb_sdk env Enum_sensor 0 (s6\<lparr>fb_iq_mem := iq\<rparr>))) of
                        (r, s7) \<Rightarrow>
                          if r < 0 then Some (-1, s7)
                          else fastboot_engine env cam_id (iq + page_offset env addr_iq) n s7))
              })
     }"

section \<open>Stopping\<close>

text \<open>The function ends without a value.\<close>

definition rk_isp_fastboot_deinit :: "fastboot_env \<Rightarrow> int \<Rightarrow> fastboot \<Rightarrow> fastboot option" where
  "rk_isp_fastboot_deinit env cam_id s =
     (let s1 = (if fb_fd s > 0 then snd (os env (Os_close (fb_fd s)) s) else s);
          s2 = (if fb_iq_mem s1 \<noteq> MAP_FAILED then snd (os env (Os_unmap (fb_iq_mem s1) (fb_file_size s1)) s1) else s1)
      in if cam_id < 0 \<or> cam_id \<ge> MAX_AIQ_CTX then None
         else Some (snd (fb_sdk env Sysctl_deinit cam_id (snd (fb_sdk env Sysctl_stop cam_id s2)))))"

section \<open>What a start and a stop leave\<close>

lemma os_fields [simp]:
  "fb_isp (snd (os env c s)) = fb_isp s" "fb_fd (snd (os env c s)) = fb_fd s"
  "fb_file_size (snd (os env c s)) = fb_file_size s" "fb_iq_mem (snd (os env c s)) = fb_iq_mem s"
  "fb_os (snd (os env c s)) = fb_os s @ [c]"
  by (simp_all add: os_def)

lemma fb_sdk_fields [simp]:
  "fb_fd (snd (fb_sdk env c cam s)) = fb_fd s" "fb_file_size (snd (fb_sdk env c cam s)) = fb_file_size s"
  "fb_iq_mem (snd (fb_sdk env c cam s)) = fb_iq_mem s" "fb_os (snd (fb_sdk env c cam s)) = fb_os s"
  "g_aiq_ctx (fb_isp (snd (fb_sdk env c cam s))) = g_aiq_ctx (fb_isp s)"
  by (simp_all add: fb_sdk_def sdk_def)

lemma cmd_val_fields:
  "cmd_val env name s = Some (v, s') \<Longrightarrow> fb_fd s' = fb_fd s \<and> fb_file_size s' = fb_file_size s \<and> fb_os s' = fb_os s \<and> fb_isp s' = fb_isp s"
  by (auto simp: cmd_val_def)

lemma read_color_mode_fields:
  "read_color_mode env a s = Some (v, s') \<Longrightarrow> fb_fd s' = fb_fd s \<and> fb_file_size s' = fb_file_size s \<and> fb_isp s' = fb_isp s"
  by (auto simp: read_color_mode_def os_def split: if_splits)

lemma engine_fields:
  assumes "fastboot_engine env cam a n s = Some (r, s')"
  shows "fb_fd s' = fb_fd s" "fb_file_size s' = fb_file_size s" "fb_iq_mem s' = fb_iq_mem s"
    "r = 0 \<Longrightarrow> g_aiq_ctx (fb_isp s') cam"
proof -
  show "fb_fd s' = fb_fd s" "fb_file_size s' = fb_file_size s" "fb_iq_mem s' = fb_iq_mem s"
    "r = 0 \<Longrightarrow> g_aiq_ctx (fb_isp s') cam"
    using assms
    by (auto simp: fastboot_engine_def Let_def prod.case_eq_if split: if_splits)
qed

text \<open>A start either fails to open the memory device or goes on to the engine with the tuning data mapped.\<close>

lemma fastboot_init_cases:
  assumes "rk_isp_fastboot_init env cam s0 = Some (r, s)"
  obtains "r = -1" "fb_fd s < 0" "fb_isp s = fb_isp s0" "fb_file_size s = fb_file_size s0"
    | "r = -1" "fb_fd s \<ge> 0" "fb_file_size s = fb_file_size s0"
    | a n s1 where "fastboot_engine env cam a n s1 = Some (r, s)" "fb_fd s1 \<ge> 0" "fb_file_size s1 = fb_file_size s0"
proof -
  from assms obtain color_addr s1 where 1: "cmd_val env ''rk_color_mode'' s0 = Some (color_addr, s1)"
    by (auto simp: rk_isp_fastboot_init_def split: bind_splits)
  obtain fd s2 where 2: "os env Os_open_mem s1 = (fd, s2)" by fastforce
  have s2: "fb_file_size s2 = fb_file_size s0" "fb_isp s2 = fb_isp s0"
    using cmd_val_fields [OF 1] 2 by (auto simp: os_def)
  show thesis
  proof (cases "fd < 0")
    case True
    with assms 1 2 s2 that(1) show thesis by (auto simp: rk_isp_fastboot_init_def)
  next
    case False
    with assms 1 2 obtain night s3 addr_iq s4 n s5 where
      3: "read_color_mode env color_addr (s2\<lparr>fb_fd := fd\<rparr>) = Some (night, s3)"
      and 4: "cmd_val env ''rk_iqbin_addr'' s3 = Some (addr_iq, s4)"
      and 5: "cmd_val env ''rk_iqbin_size'' s4 = Some (n, s5)"
      by (auto simp: rk_isp_fastboot_init_def split: bind_splits)
    obtain iq s6 where 6: "os env (Os_map n (page_base env addr_iq)) s5 = (iq, s6)" by fastforce
    let ?scene = "Preinit_scene ''normal'' (if night \<noteq> 0 then ''night'' else ''day'')"
    obtain q s7 where 7: "fb_sdk env ?scene 0 (snd (fb_sdk env Enum_sensor 0 (s6\<lparr>fb_iq_mem := iq\<rparr>))) = (q, s7)" by fastforce
    have "s6 = snd (os env (Os_map n (page_base env addr_iq)) s5)"
      "s7 = snd (fb_sdk env ?scene 0 (snd (fb_sdk env Enum_sensor 0 (s6\<lparr>fb_iq_mem := iq\<rparr>))))"
      by (simp_all only: 6 7 snd_conv)
    then have s7: "fb_fd s7 = fd" "fb_file_size s7 = fb_file_size s0"
      using cmd_val_fields [OF 4] cmd_val_fields [OF 5] read_color_mode_fields [OF 3] s2(1) by simp_all
    have "(if q < 0 then Some (-1, s7) else fastboot_engine env cam (iq + page_offset env addr_iq) n s7) = Some (r, s)"
      using assms False 1 2 3 4 5 6 7 by (simp add: rk_isp_fastboot_init_def)
    with s7 False that(2,3) show thesis by (auto split: if_splits)
  qed
qed

text \<open>
  A start that succeeds has a context for the camera. Stopping it then closes the device, but unmaps none of the
  tuning data, whose size \<^verbatim>\<open>rk_isp_fastboot_init\<close> keeps in a local variable of the same name, and leaves the context marked as
  usable although it is released.
\<close>

lemma fastboot_stop_leaves:
  assumes "rk_isp_fastboot_init env cam (fastboot_initial i) = Some (0, s)"
    and "rk_isp_fastboot_deinit env cam s = Some s'"
  shows "g_aiq_ctx (fb_isp s') cam \<and>
     (\<forall>a n. Os_unmap a n \<in> set (drop (length (fb_os s)) (fb_os s')) \<longrightarrow> n = 0)"
proof -
  from assms(1) have "fb_file_size s = 0 \<and> g_aiq_ctx (fb_isp s) cam"
    by (cases rule: fastboot_init_cases) (use engine_fields in \<open>force simp: fastboot_initial_def\<close>)+
  with assms(2) show ?thesis
    by (auto simp: rk_isp_fastboot_deinit_def Let_def split: if_splits)
qed

text \<open>
  The command line is searched for the bare name, although the code builds the name with its \<^verbatim>\<open>=\<close>: an option whose
  name ends in the one sought is taken for it.
\<close>

lemma cmd_val_takes_other_option:
  "map_option (\<lambda>rest. strtol_hex (drop (length ''size'' + 1) rest))
     (c_strstr ''root_size=9 size=0x10'' ''size'') = Some 9"
  by code_simp

end
