(* ===== verification/Elog.thy ===== *)
theory Elog
  imports CNumbers
begin

unbundle bit_operations_syntax

text \<open>
  The synchronous logger of \<^verbatim>\<open>common/easylogger/src/elog.c\<close> and \<^verbatim>\<open>elog_utils.c\<close> in the
  configuration of \<^verbatim>\<open>include/elog_cfg.h\<close>: filters, the per-tag levels, the assembly of a line
  in its fixed buffer and the hex dump. The text \<^verbatim>\<open>vsnprintf\<close> formats is an argument. A failed
  \<^verbatim>\<open>ELOG_ASSERT\<close> without a hook loops for ever; it is \<open>None\<close> here.
\<close>

section \<open>State\<close>

definition ELOG_LINE_BUF_SIZE :: nat where "ELOG_LINE_BUF_SIZE = 1024"
definition ELOG_LINE_NUM_MAX_LEN :: nat where "ELOG_LINE_NUM_MAX_LEN = 5"
definition ELOG_FILTER_TAG_MAX_LEN :: nat where "ELOG_FILTER_TAG_MAX_LEN = 30"
definition ELOG_FILTER_KW_MAX_LEN :: nat where "ELOG_FILTER_KW_MAX_LEN = 16"
definition ELOG_FILTER_TAG_LVL_MAX_NUM :: nat where "ELOG_FILTER_TAG_LVL_MAX_NUM = 5"
definition ELOG_LVL_VERBOSE :: nat where "ELOG_LVL_VERBOSE = 5"
definition ELOG_LVL_DEBUG :: nat where "ELOG_LVL_DEBUG = 4"

definition ELOG_FILTER_LVL_SILENT :: nat where "ELOG_FILTER_LVL_SILENT = 0"
abbreviation ELOG_FILTER_LVL_ALL :: nat where "ELOG_FILTER_LVL_ALL \<equiv> ELOG_LVL_VERBOSE"

definition FMT_LVL :: u32 where "FMT_LVL = 1"
definition FMT_TAG :: u32 where "FMT_TAG = 2"
definition FMT_TIME :: u32 where "FMT_TIME = 4"
definition FMT_P_INFO :: u32 where "FMT_P_INFO = 8"
definition FMT_T_INFO :: u32 where "FMT_T_INFO = 16"
definition FMT_DIR :: u32 where "FMT_DIR = 32"
definition FMT_FUNC :: u32 where "FMT_FUNC = 64"
definition FMT_LINE :: u32 where "FMT_LINE = 128"

record tag_lvl =
  tl_level :: nat
  tl_tag :: string
  tl_use :: bool

record elog =
  el_level :: nat
  el_tag :: string
  el_keyword :: string
  el_tag_lvl :: "tag_lvl list"
  el_fmt :: "u32 list"
  el_init_ok :: bool
  el_enabled :: bool
  el_lock_enabled :: bool
  el_locked_before_enable :: bool
  el_locked_before_disable :: bool
  el_port_locked :: int

definition tag_lvl_free :: tag_lvl where
  "tag_lvl_free = \<lparr>tl_level = ELOG_FILTER_LVL_SILENT, tl_tag = [], tl_use = False\<rparr>"

section \<open>Filters and the output lock\<close>

definition elog_set_output_enabled :: "bool \<Rightarrow> elog \<Rightarrow> elog" where
  "elog_set_output_enabled on e = e\<lparr>el_enabled := on\<rparr>"

definition elog_set_fmt :: "nat \<Rightarrow> u32 \<Rightarrow> elog \<Rightarrow> elog option" where
  "elog_set_fmt level fmt e = (if level > ELOG_LVL_VERBOSE then None else Some (e\<lparr>el_fmt := (el_fmt e)[level := fmt]\<rparr>))"

definition elog_set_filter_lvl :: "nat \<Rightarrow> elog \<Rightarrow> elog option" where
  "elog_set_filter_lvl level e = (if level > ELOG_LVL_VERBOSE then None else Some (e\<lparr>el_level := level\<rparr>))"

definition elog_set_filter_tag :: "string \<Rightarrow> elog \<Rightarrow> elog" where
  "elog_set_filter_tag tag e = e\<lparr>el_tag := take ELOG_FILTER_TAG_MAX_LEN tag\<rparr>"

definition elog_set_filter_kw :: "string \<Rightarrow> elog \<Rightarrow> elog" where
  "elog_set_filter_kw keyword e = e\<lparr>el_keyword := take ELOG_FILTER_KW_MAX_LEN keyword\<rparr>"

definition elog_set_filter :: "nat \<Rightarrow> string \<Rightarrow> string \<Rightarrow> elog \<Rightarrow> elog option" where
  "elog_set_filter level tag keyword e =
     map_option (\<lambda>e. elog_set_filter_kw keyword (elog_set_filter_tag tag e)) (elog_set_filter_lvl level e)"

definition elog_output_lock :: "elog \<Rightarrow> elog" where
  "elog_output_lock e =
     (if el_lock_enabled e then e\<lparr>el_port_locked := el_port_locked e + 1, el_locked_before_disable := True\<rparr>
      else e\<lparr>el_locked_before_enable := True\<rparr>)"

definition elog_output_unlock :: "elog \<Rightarrow> elog" where
  "elog_output_unlock e =
     (if el_lock_enabled e then e\<lparr>el_port_locked := el_port_locked e - 1, el_locked_before_disable := False\<rparr>
      else e\<lparr>el_locked_before_enable := False\<rparr>)"

definition elog_output_lock_enabled :: "bool \<Rightarrow> elog \<Rightarrow> elog" where
  "elog_output_lock_enabled on e =
     (let e1 = e\<lparr>el_lock_enabled := on\<rparr>
      in if on then
           (if \<not> el_locked_before_disable e1 \<and> el_locked_before_enable e1 then e1\<lparr>el_port_locked := el_port_locked e1 + 1\<rparr>
            else if el_locked_before_disable e1 \<and> \<not> el_locked_before_enable e1
                 then e1\<lparr>el_port_locked := el_port_locked e1 - 1\<rparr> else e1)
         else e1)"

definition elog_set_filter_tag_lvl_default :: "elog \<Rightarrow> elog" where
  "elog_set_filter_tag_lvl_default e = e\<lparr>el_tag_lvl := replicate ELOG_FILTER_TAG_LVL_MAX_NUM tag_lvl_free\<rparr>"

text \<open>\<^verbatim>\<open>!strncmp(tag, slot.tag, ELOG_FILTER_TAG_MAX_LEN)\<close> for a slot in use.\<close>

definition tag_slot :: "string \<Rightarrow> tag_lvl \<Rightarrow> bool" where
  "tag_slot tag t \<longleftrightarrow> tl_use t \<and> take ELOG_FILTER_TAG_MAX_LEN tag = take ELOG_FILTER_TAG_MAX_LEN (tl_tag t)"

fun set_first :: "('a \<Rightarrow> bool) \<Rightarrow> ('a \<Rightarrow> 'a) \<Rightarrow> 'a list \<Rightarrow> 'a list" where
  "set_first p f [] = []"
| "set_first p f (x # xs) = (if p x then f x # xs else x # set_first p f xs)"

definition tag_lvl_update :: "string \<Rightarrow> nat \<Rightarrow> tag_lvl list \<Rightarrow> tag_lvl list" where
  "tag_lvl_update tag level ts =
     (if list_ex (tag_slot tag) ts
      then set_first (tag_slot tag)
             (\<lambda>t. if level = ELOG_FILTER_LVL_ALL then tag_lvl_free else t\<lparr>tl_level := level\<rparr>) ts
      else if level \<noteq> ELOG_FILTER_LVL_ALL
      then set_first (\<lambda>t. \<not> tl_use t)
             (\<lambda>_. \<lparr>tl_level = level, tl_tag = take ELOG_FILTER_TAG_MAX_LEN tag, tl_use = True\<rparr>) ts
      else ts)"

definition elog_set_filter_tag_lvl :: "string \<Rightarrow> nat \<Rightarrow> elog \<Rightarrow> elog option" where
  "elog_set_filter_tag_lvl tag level e =
     (if level > ELOG_LVL_VERBOSE then None
      else if \<not> el_init_ok e then Some e
      else (let e1 = elog_output_lock e
            in Some (elog_output_unlock (e1\<lparr>el_tag_lvl := tag_lvl_update tag level (el_tag_lvl e1)\<rparr>))))"

definition tag_lvl_find :: "string \<Rightarrow> tag_lvl list \<Rightarrow> nat" where
  "tag_lvl_find tag ts = (case find (tag_slot tag) ts of Some t \<Rightarrow> tl_level t | None \<Rightarrow> ELOG_FILTER_LVL_ALL)"

definition elog_get_filter_tag_lvl :: "string \<Rightarrow> elog \<Rightarrow> nat \<times> elog" where
  "elog_get_filter_tag_lvl tag e =
     (if \<not> el_init_ok e then (ELOG_FILTER_LVL_ALL, e)
      else (let e1 = elog_output_lock e in (tag_lvl_find tag (el_tag_lvl e1), elog_output_unlock e1)))"

definition elog_init :: "bool \<Rightarrow> elog \<Rightarrow> (int \<times> elog) option" where
  "elog_init port_ok e =
     (if el_init_ok e then Some (0, e)
      else if \<not> port_ok then Some (-1, e)
      else (let e1 = (elog_output_lock_enabled True e)\<lparr>el_locked_before_enable := False, el_locked_before_disable := False\<rparr>
            in map_option (\<lambda>e2. (0, (elog_set_filter_tag_lvl_default e2)\<lparr>el_init_ok := True\<rparr>))
                 (elog_set_filter_lvl ELOG_LVL_VERBOSE e1)))"

definition elog_deinit :: "elog \<Rightarrow> elog" where
  "elog_deinit e = (if el_init_ok e then e\<lparr>el_init_ok := False\<rparr> else e)"

section \<open>The line buffer\<close>

text \<open>The fill level and the buffer; a copy starts at the fill level and stops at the end of the buffer.\<close>

type_synonym line_buf = "nat \<times> string"

definition buf_put :: "string \<Rightarrow> nat \<Rightarrow> string \<Rightarrow> string" where
  "buf_put b n t = take n b @ t @ drop (n + length t) b"

definition elog_strcpy :: "string \<Rightarrow> line_buf \<Rightarrow> line_buf" where
  "elog_strcpy src st =
     (case st of (n, b) \<Rightarrow> (let t = take (ELOG_LINE_BUF_SIZE - n) src in (n + length t, buf_put b n t)))"

text \<open>\<^verbatim>\<open>vsnprintf\<close> behind the fill level: at most the rest of the buffer, its end mark included.\<close>

definition line_vsnprintf :: "string \<Rightarrow> line_buf \<Rightarrow> string" where
  "line_vsnprintf msg st =
     (case st of (n, b) \<Rightarrow>
        if n < ELOG_LINE_BUF_SIZE then buf_put b n (take (ELOG_LINE_BUF_SIZE - n - 1) msg @ [NUL]) else b)"

definition put_if :: "bool \<Rightarrow> string \<Rightarrow> line_buf \<Rightarrow> line_buf" where
  "put_if c s st = (if c then elog_strcpy s st else st)"

definition get_fmt_enabled :: "elog \<Rightarrow> nat \<Rightarrow> u32 \<Rightarrow> bool" where
  "get_fmt_enabled e level fmt \<longleftrightarrow> el_fmt e ! level AND fmt \<noteq> 0"

definition get_fmt_used_and_enabled_u32 :: "elog \<Rightarrow> nat \<Rightarrow> u32 \<Rightarrow> int \<Rightarrow> bool" where
  "get_fmt_used_and_enabled_u32 e level fmt arg \<longleftrightarrow> (word_of_int arg :: u32) \<noteq> 0 \<and> get_fmt_enabled e level fmt"

definition get_fmt_used_and_enabled_ptr :: "elog \<Rightarrow> nat \<Rightarrow> u32 \<Rightarrow> string option \<Rightarrow> bool" where
  "get_fmt_used_and_enabled_ptr e level fmt arg \<longleftrightarrow> arg \<noteq> None \<and> get_fmt_enabled e level fmt"

definition level_output_info :: "string list" where
  "level_output_info = [''A/'', ''E/'', ''W/'', ''I/'', ''D/'', ''V/'']"

record port_info =
  pi_time :: string
  pi_process :: string
  pi_thread :: string

record log_site =
  ls_level :: nat
  ls_tag :: string
  ls_file :: "string option"
  ls_func :: "string option"
  ls_line :: int

text \<open>Level and tag; a short tag is padded.\<close>

definition put_tag :: "elog \<Rightarrow> log_site \<Rightarrow> line_buf \<Rightarrow> line_buf" where
  "put_tag e c st =
     (let half = ELOG_FILTER_TAG_MAX_LEN div 2; tag = ls_tag c; level = ls_level c;
          st = put_if (get_fmt_enabled e level FMT_LVL) (level_output_info ! level) st
      in if get_fmt_enabled e level FMT_TAG
         then elog_strcpy '' '' (put_if (length tag \<le> half) (replicate (half - length tag) CHR '' '') (elog_strcpy tag st))
         else st)"

definition put_info :: "elog \<Rightarrow> port_info \<Rightarrow> nat \<Rightarrow> line_buf \<Rightarrow> line_buf" where
  "put_info e pi level st =
     (let fmt = get_fmt_enabled e level
      in if fmt (FMT_TIME OR FMT_P_INFO OR FMT_T_INFO)
         then
           (let st = elog_strcpy ''['' st;
                st = put_if (fmt FMT_TIME) (pi_time pi) st;
                st = put_if (fmt FMT_TIME \<and> fmt (FMT_P_INFO OR FMT_T_INFO)) '' '' st;
                st = put_if (fmt FMT_P_INFO) (pi_process pi) st;
                st = put_if (fmt FMT_P_INFO \<and> fmt FMT_T_INFO) '' '' st;
                st = put_if (fmt FMT_T_INFO) (pi_thread pi) st
            in elog_strcpy ''] '' st)
         else st)"

definition str_or_empty :: "string option \<Rightarrow> string" where
  "str_or_empty p = (case p of Some s \<Rightarrow> s | None \<Rightarrow> [])"

text \<open>The line number goes through a buffer of five characters and keeps at most four digits.\<close>

definition put_site :: "elog \<Rightarrow> log_site \<Rightarrow> line_buf \<Rightarrow> line_buf" where
  "put_site e c st =
     (let level = ls_level c;
          dir = get_fmt_used_and_enabled_ptr e level FMT_DIR (ls_file c);
          func = get_fmt_used_and_enabled_ptr e level FMT_FUNC (ls_func c);
          line = get_fmt_used_and_enabled_u32 e level FMT_LINE (ls_line c)
      in if dir \<or> func \<or> line
         then
           (let st = elog_strcpy ''('' st;
                st = put_if dir (str_or_empty (ls_file c)) st;
                st = put_if (dir \<and> func) '':'' st;
                st = put_if (dir \<and> \<not> func \<and> line) '' '' st;
                st = put_if line (take (ELOG_LINE_NUM_MAX_LEN - 1) (show_int (ls_line c))) st;
                st = put_if (line \<and> func) '' '' st;
                st = put_if func (str_or_empty (ls_func c)) st
            in elog_strcpy '')'' st)
         else st)"

text \<open>
  From the assembled header on: the formatted text \<open>msg\<close> (\<open>None\<close> is an error of \<^verbatim>\<open>vsnprintf\<close>),
  the length with room for the newline, the keyword filter, the newline, the output.
\<close>

definition text_length :: "string option \<Rightarrow> nat \<Rightarrow> nat" where
  "text_length msg n =
     (case msg of
        Some m \<Rightarrow> if n + length m \<le> ELOG_LINE_BUF_SIZE then n + length m else ELOG_LINE_BUF_SIZE
      | None \<Rightarrow> ELOG_LINE_BUF_SIZE)"

definition finish_line :: "elog \<Rightarrow> string option \<Rightarrow> line_buf \<Rightarrow> string option \<times> elog \<times> string" where
  "finish_line e msg st =
     (let b1 = (case msg of Some m \<Rightarrow> line_vsnprintf m st | None \<Rightarrow> snd st);
          n1 = text_length msg (fst st);
          n2 = (if n1 + 1 > ELOG_LINE_BUF_SIZE then ELOG_LINE_BUF_SIZE - 1 else n1);
          b2 = (if el_keyword e \<noteq> [] then b1[n2 := NUL] else b1)
      in if el_keyword e \<noteq> [] \<and> \<not> str_contains (cstr b2) (el_keyword e)
         then (None, elog_output_unlock e, b2)
         else (case elog_strcpy [NL] (n2, b2) of (n3, b3) \<Rightarrow> (Some (take n3 b3), elog_output_unlock e, b3)))"

text \<open>One call: the line written to the port, if any, and the buffer afterwards.\<close>

definition elog_output ::
  "port_info \<Rightarrow> log_site \<Rightarrow> string option \<Rightarrow> elog \<Rightarrow> string \<Rightarrow> (string option \<times> elog \<times> string) option" where
  "elog_output pi c msg e0 buf =
     (if ls_level c > ELOG_LVL_VERBOSE then None
      else if \<not> el_enabled e0 then Some (None, e0, buf)
      else if ls_level c > el_level e0 then Some (None, e0, buf)
      else
        (let (tag_level, e) = elog_get_filter_tag_lvl (ls_tag c) e0
         in if ls_level c > tag_level \<or> \<not> str_contains (ls_tag c) (el_tag e) then Some (None, e, buf)
            else
              (let e1 = elog_output_lock e
               in Some (finish_line e1 msg (put_site e1 c (put_info e1 pi (ls_level c) (put_tag e1 c (0, buf))))))))"

definition elog_raw_output :: "string option \<Rightarrow> elog \<Rightarrow> string \<Rightarrow> string option \<times> elog \<times> string" where
  "elog_raw_output msg e buf =
     (if \<not> el_enabled e then (None, e, buf)
      else
        (let e1 = elog_output_lock e;
             b = (case msg of Some m \<Rightarrow> line_vsnprintf m (0, buf) | None \<Rightarrow> buf);
             n = text_length msg 0
         in (Some (take n b), elog_output_unlock e1, b)))"

text \<open>\<^verbatim>\<open>elog_find_lvl\<close> without colours; the assertions on the formats are its precondition.\<close>

definition elog_find_lvl :: "elog \<Rightarrow> string \<Rightarrow> int option" where
  "elog_find_lvl e line =
     (if \<not> list_all (\<lambda>i. get_fmt_enabled e i FMT_LVL) [0, 1, 2, 3, 4, 5] then None
      else Some (case line of
                   [] \<Rightarrow> -1
                 | c # _ \<Rightarrow>
                     if c = CHR ''A'' then 0 else if c = CHR ''E'' then 1 else if c = CHR ''W'' then 2
                     else if c = CHR ''I'' then 3 else if c = CHR ''D'' then 4 else if c = CHR ''V'' then 5 else -1))"

text \<open>The tag of a line: the characters behind the level mark up to a space among the next 30.\<close>

definition elog_find_tag :: "elog \<Rightarrow> string \<Rightarrow> nat \<Rightarrow> string option option" where
  "elog_find_tag e line lvl =
     (if lvl > ELOG_LVL_VERBOSE \<or> \<not> get_fmt_enabled e lvl FMT_TAG then None
      else
        (let t = take ELOG_FILTER_TAG_MAX_LEN (drop (length (level_output_info ! lvl)) line)
         in Some (if CHR '' '' \<in> set t then Some (takeWhile (\<lambda>c. c \<noteq> CHR '' '') t) else None)))"

section \<open>Copying lines\<close>

fun elog_cpyln :: "string \<Rightarrow> nat \<Rightarrow> string" where
  "elog_cpyln log 0 = []"
| "elog_cpyln [] (Suc len) = []"
| "elog_cpyln (c # cs) (Suc len) = (if c = NL then [c] else c # elog_cpyln cs len)"

section \<open>Hex dump\<close>

definition hex_digit :: "nat \<Rightarrow> char" where
  "hex_digit n = ''0123456789ABCDEF'' ! n"

fun show_hex :: "nat \<Rightarrow> string" where
  "show_hex n = (if n < 16 then [hex_digit n] else show_hex (n div 16) @ [hex_digit (n mod 16)])"

declare show_hex.simps [simp del]

text \<open>\<^verbatim>\<open>%04X\<close> and \<^verbatim>\<open>%02X\<close> of an unsigned int.\<close>

definition hex_pad :: "nat \<Rightarrow> u32 \<Rightarrow> string" where
  "hex_pad w x = (let s = show_hex (unat x) in replicate (w - length s) CHR ''0'' @ s)"

definition is_print :: "byte \<Rightarrow> bool" where
  "is_print ch \<longleftrightarrow> 32 \<le> ch \<and> ch < 127"

definition hex_cell :: "byte list \<Rightarrow> nat \<Rightarrow> nat \<Rightarrow> string" where
  "hex_cell bs i j =
     (if i + j < length bs then hex_pad 2 (ucast (bs ! (i + j))) @ '' '' else ''   '') @
     (if (j + 1) mod 8 = 0 then '' '' else [])"

definition hex_char :: "byte list \<Rightarrow> nat \<Rightarrow> nat \<Rightarrow> string" where
  "hex_char bs i j =
     (if i + j < length bs
      then [if is_print (bs ! (i + j)) then char_of (unat (bs ! (i + j))) else CHR ''.''] else [])"

definition hex_header :: "string \<Rightarrow> nat \<Rightarrow> nat \<Rightarrow> string" where
  "hex_header name width i =
     ''D/HEX '' @ name @ '': '' @ hex_pad 4 (of_nat i) @ ''-'' @ hex_pad 4 (of_nat i + of_nat width - 1) @ '': ''"

definition hex_row :: "string \<Rightarrow> nat \<Rightarrow> byte list \<Rightarrow> nat \<Rightarrow> string \<Rightarrow> string \<times> string" where
  "hex_row name width bs i buf =
     (let h = hex_header name width i;
          st = (min (length h) ELOG_LINE_BUF_SIZE, line_vsnprintf h (0, buf));
          st = fold (\<lambda>j. elog_strcpy (hex_cell bs i j)) [0..<width] st;
          st = elog_strcpy ''  '' st;
          (n, b) = fold (\<lambda>j. elog_strcpy (hex_char bs i j)) [0..<width] st;
          (n3, b3) = elog_strcpy [NL] (if n + 1 > ELOG_LINE_BUF_SIZE then ELOG_LINE_BUF_SIZE - 1 else n, b)
      in (take n3 b3, b3))"

text \<open>The loop over the rows, whose counter is a 16-bit number; \<open>None\<close> if it does not end.\<close>

partial_function (option) hex_loop ::
  "string \<Rightarrow> nat \<Rightarrow> byte list \<Rightarrow> nat \<Rightarrow> string list \<times> string \<Rightarrow> (string list \<times> string) option" where
  "hex_loop name width bs i st =
     (if i < length bs
      then hex_loop name width bs ((i + width) mod 2 ^ 16)
             (case hex_row name width bs i (snd st) of (line, buf) \<Rightarrow> (fst st @ [line], buf))
      else Some st)"

definition elog_hexdump ::
  "string \<Rightarrow> nat \<Rightarrow> byte list \<Rightarrow> elog \<Rightarrow> string \<Rightarrow> (string list \<times> elog \<times> string) option" where
  "elog_hexdump name width bs e buf =
     (if \<not> el_enabled e \<or> ELOG_LVL_DEBUG > el_level e \<or> \<not> str_contains name (el_tag e) then Some ([], e, buf)
      else map_option (\<lambda>(out, b). (out, elog_output_unlock (elog_output_lock e), b)) (hex_loop name width bs 0 ([], buf)))"

end
