(* ===== verification/ElogProperties.thy ===== *)
theory ElogProperties
  imports Elog
begin

unbundle bit_operations_syntax

text \<open>
  What the logger guarantees: the line written is the assembled text cut to the buffer, the
  per-tag levels behave as a map of at most five tags.
\<close>

section \<open>The buffer holds the text so far\<close>

text \<open>The buffer has its fixed size, and up to the fill level it holds \<open>t\<close>, cut to that size.\<close>

definition holds :: "string \<Rightarrow> line_buf \<Rightarrow> bool" where
  "holds t st \<longleftrightarrow>
     length (snd st) = ELOG_LINE_BUF_SIZE \<and> fst st = min ELOG_LINE_BUF_SIZE (length t) \<and>
     take (fst st) (snd st) = take ELOG_LINE_BUF_SIZE t"

named_theorems holds_intros "steps that extend the text in the line buffer"

lemma length_buf_put: "n + length t \<le> length b \<Longrightarrow> length (buf_put b n t) = length b"
  by (simp add: buf_put_def)

lemma take_buf_put: "n + length t \<le> length b \<Longrightarrow> take (n + length t) (buf_put b n t) = take n b @ t"
  by (simp add: buf_put_def min_absorb2)

lemma holds_start: "length buf = ELOG_LINE_BUF_SIZE \<Longrightarrow> holds [] (0, buf)"
  by (simp add: holds_def)

lemma strcpy_holds [holds_intros]:
  assumes "holds t st"
  shows "holds (t @ s) (elog_strcpy s st)"
proof -
  obtain n b where st: "st = (n, b)" by fastforce
  let ?u = "take (ELOG_LINE_BUF_SIZE - n) s"
  from assms st have h: "length b = ELOG_LINE_BUF_SIZE" "n = min ELOG_LINE_BUF_SIZE (length t)"
    "take n b = take ELOG_LINE_BUF_SIZE t" by (auto simp: holds_def)
  then have fits: "n + length ?u \<le> length b" by simp
  have cut: "take ELOG_LINE_BUF_SIZE t @ ?u = take ELOG_LINE_BUF_SIZE (t @ s)"
    using h(2) by (simp add: min_def)
  show ?thesis
    using length_buf_put [OF fits] take_buf_put [OF fits] h cut
    by (auto simp: st elog_strcpy_def holds_def Let_def)
qed

lemma put_if_holds [holds_intros]: "holds t st \<Longrightarrow> holds (t @ (if c then s else [])) (put_if c s st)"
  by (simp add: put_if_def strcpy_holds)

section \<open>The assembled text\<close>

definition tag_text :: "elog \<Rightarrow> log_site \<Rightarrow> string" where
  "tag_text e c =
     (if get_fmt_enabled e (ls_level c) FMT_LVL then level_output_info ! ls_level c else []) @
     (if get_fmt_enabled e (ls_level c) FMT_TAG
      then ls_tag c @ replicate (15 - length (ls_tag c)) CHR '' '' @ '' '' else [])"

definition info_text :: "elog \<Rightarrow> port_info \<Rightarrow> nat \<Rightarrow> string" where
  "info_text e pi level =
     (let time = get_fmt_enabled e level FMT_TIME; process = get_fmt_enabled e level FMT_P_INFO;
          thread = get_fmt_enabled e level FMT_T_INFO
      in if time \<or> process \<or> thread
         then ''['' @ (if time then pi_time pi @ (if process \<or> thread then '' '' else []) else []) @
              (if process then pi_process pi @ (if thread then '' '' else []) else []) @
              (if thread then pi_thread pi else []) @ ''] ''
         else [])"

definition site_text :: "elog \<Rightarrow> log_site \<Rightarrow> string" where
  "site_text e c =
     (let dir = get_fmt_used_and_enabled_ptr e (ls_level c) FMT_DIR (ls_file c);
          func = get_fmt_used_and_enabled_ptr e (ls_level c) FMT_FUNC (ls_func c);
          line = get_fmt_used_and_enabled_u32 e (ls_level c) FMT_LINE (ls_line c)
      in if dir \<or> func \<or> line
         then ''('' @ (if dir then str_or_empty (ls_file c) @ (if func then '':'' else if line then '' '' else []) else []) @
              (if line then take 4 (show_int (ls_line c)) @ (if func then '' '' else []) else []) @
              (if func then str_or_empty (ls_func c) else []) @ '')''
         else [])"

lemma get_fmt_enabled_or: "get_fmt_enabled e l (a OR b) \<longleftrightarrow> get_fmt_enabled e l a \<or> get_fmt_enabled e l b"
  by (simp add: get_fmt_enabled_def bit.conj_disj_distrib or_eq_0_iff)

lemma pad_all: "(if m \<le> 15 then replicate (15 - m) x else []) = replicate (15 - m) x"
  by simp

lemma put_tag_holds:
  assumes "holds t st"
  shows "holds (t @ tag_text e c) (put_tag e c st)"
proof -
  let ?l = "if get_fmt_enabled e (ls_level c) FMT_LVL then level_output_info ! ls_level c else []"
  let ?st = "put_if (get_fmt_enabled e (ls_level c) FMT_LVL) (level_output_info ! ls_level c) st"
  have 1: "holds (t @ ?l) ?st"
    by (intro holds_intros assms)
  have "holds ((((t @ ?l) @ ls_tag c) @ (if length (ls_tag c) \<le> 15 then replicate (15 - length (ls_tag c)) CHR '' '' else [])) @ '' '')
      (elog_strcpy '' '' (put_if (length (ls_tag c) \<le> 15) (replicate (15 - length (ls_tag c)) CHR '' '')
         (elog_strcpy (ls_tag c) ?st)))"
    by (intro holds_intros 1)
  then have 2: "holds (t @ ?l @ ls_tag c @ replicate (15 - length (ls_tag c)) CHR '' '' @ '' '')
      (elog_strcpy '' '' (put_if (length (ls_tag c) \<le> 15) (replicate (15 - length (ls_tag c)) CHR '' '')
         (elog_strcpy (ls_tag c) ?st)))"
    by (simp only: pad_all append_assoc)
  show ?thesis
  proof (cases "get_fmt_enabled e (ls_level c) FMT_TAG")
    case True
    with 2 show ?thesis by (simp add: put_tag_def tag_text_def Let_def ELOG_FILTER_TAG_MAX_LEN_def)
  next
    case False
    with 1 show ?thesis by (simp add: put_tag_def tag_text_def Let_def)
  qed
qed

lemma put_info_holds:
  assumes "holds t st"
  shows "holds (t @ info_text e pi level) (put_info e pi level st)"
proof -
  let ?f = "get_fmt_enabled e level"
  have "holds (((((((t @ ''['') @ (if ?f FMT_TIME then pi_time pi else [])) @
        (if ?f FMT_TIME \<and> ?f (FMT_P_INFO OR FMT_T_INFO) then '' '' else [])) @
        (if ?f FMT_P_INFO then pi_process pi else [])) @ (if ?f FMT_P_INFO \<and> ?f FMT_T_INFO then '' '' else [])) @
        (if ?f FMT_T_INFO then pi_thread pi else [])) @ ''] '')
      (elog_strcpy ''] '' (put_if (?f FMT_T_INFO) (pi_thread pi) (put_if (?f FMT_P_INFO \<and> ?f FMT_T_INFO) '' ''
        (put_if (?f FMT_P_INFO) (pi_process pi) (put_if (?f FMT_TIME \<and> ?f (FMT_P_INFO OR FMT_T_INFO)) '' ''
          (put_if (?f FMT_TIME) (pi_time pi) (elog_strcpy ''['' st)))))))"
    by (intro holds_intros assms)
  then show ?thesis
    using assms by (auto simp: put_info_def info_text_def Let_def get_fmt_enabled_or)
qed

lemma put_site_holds:
  assumes "holds t st"
  shows "holds (t @ site_text e c) (put_site e c st)"
proof -
  let ?d = "get_fmt_used_and_enabled_ptr e (ls_level c) FMT_DIR (ls_file c)"
  let ?u = "get_fmt_used_and_enabled_ptr e (ls_level c) FMT_FUNC (ls_func c)"
  let ?l = "get_fmt_used_and_enabled_u32 e (ls_level c) FMT_LINE (ls_line c)"
  let ?n = "take (ELOG_LINE_NUM_MAX_LEN - 1) (show_int (ls_line c))"
  have "holds ((((((((t @ ''('') @ (if ?d then str_or_empty (ls_file c) else [])) @ (if ?d \<and> ?u then '':'' else [])) @
        (if ?d \<and> \<not> ?u \<and> ?l then '' '' else [])) @ (if ?l then ?n else [])) @ (if ?l \<and> ?u then '' '' else [])) @
        (if ?u then str_or_empty (ls_func c) else [])) @ '')'')
      (elog_strcpy '')'' (put_if ?u (str_or_empty (ls_func c)) (put_if (?l \<and> ?u) '' '' (put_if ?l ?n
        (put_if (?d \<and> \<not> ?u \<and> ?l) '' '' (put_if (?d \<and> ?u) '':'' (put_if ?d (str_or_empty (ls_file c))
          (elog_strcpy ''('' st))))))))"
    by (intro holds_intros assms)
  then show ?thesis
    using assms by (auto simp: put_site_def site_text_def Let_def ELOG_LINE_NUM_MAX_LEN_def)
qed

section \<open>The line written\<close>

lemma holds_vsnprintf:
  assumes "holds t (n, b)"
  shows "length (line_vsnprintf m (n, b)) = ELOG_LINE_BUF_SIZE"
    "k \<le> ELOG_LINE_BUF_SIZE - 1 \<Longrightarrow> k \<le> length (t @ m) \<Longrightarrow> take k (line_vsnprintf m (n, b)) = take k (t @ m)"
proof -
  have h: "length b = ELOG_LINE_BUF_SIZE" "n = min ELOG_LINE_BUF_SIZE (length t)" "take n b = take ELOG_LINE_BUF_SIZE t"
    using assms by (auto simp: holds_def)
  show "length (line_vsnprintf m (n, b)) = ELOG_LINE_BUF_SIZE"
    using h(1) by (auto simp: line_vsnprintf_def buf_put_def)
  assume k: "k \<le> ELOG_LINE_BUF_SIZE - 1" "k \<le> length (t @ m)"
  show "take k (line_vsnprintf m (n, b)) = take k (t @ m)"
  proof (cases "n < ELOG_LINE_BUF_SIZE")
    case True
    with h have t: "n = length t" "take n b = t" by (auto simp: min_def split: if_splits)
    from t h(1) k True show ?thesis
      by (auto simp: line_vsnprintf_def buf_put_def take_append min_def)
  next
    case False
    with h have "length t \<ge> ELOG_LINE_BUF_SIZE" "take ELOG_LINE_BUF_SIZE b = take ELOG_LINE_BUF_SIZE t"
      by (auto simp: min_def split: if_splits)
    moreover have "min k ELOG_LINE_BUF_SIZE = k" using k(1) by simp
    then have "take k xs = take k (take ELOG_LINE_BUF_SIZE xs)" for xs :: string by simp
    ultimately have "take k b = take k t" "k \<le> length t"
      using k(1) by (metis, simp)
    with False show ?thesis by (simp add: line_vsnprintf_def)
  qed
qed

definition line_text :: "elog \<Rightarrow> port_info \<Rightarrow> log_site \<Rightarrow> string \<Rightarrow> string" where
  "line_text e pi c m = take (ELOG_LINE_BUF_SIZE - 1) (tag_text e c @ info_text e pi (ls_level c) @ site_text e c @ m)"

definition passes :: "elog \<Rightarrow> log_site \<Rightarrow> bool" where
  "passes e c \<longleftrightarrow>
     el_enabled e \<and> ls_level c \<le> el_level e \<and> ls_level c \<le> fst (elog_get_filter_tag_lvl (ls_tag c) e) \<and>
     str_contains (ls_tag c) (el_tag e)"

lemma lock_fields [simp]:
  "get_fmt_enabled (elog_output_lock e) = get_fmt_enabled e"
  "el_keyword (elog_output_lock e) = el_keyword e" "el_tag (elog_output_lock e) = el_tag e"
  "get_fmt_enabled (elog_output_unlock e) = get_fmt_enabled e"
  "el_keyword (elog_output_unlock e) = el_keyword e" "el_tag (elog_output_unlock e) = el_tag e"
  by (auto simp: elog_output_lock_def elog_output_unlock_def get_fmt_enabled_def fun_eq_iff)

lemma find_level_fields [simp]:
  "get_fmt_enabled (snd (elog_get_filter_tag_lvl t e)) = get_fmt_enabled e"
  "el_keyword (snd (elog_get_filter_tag_lvl t e)) = el_keyword e"
  "el_tag (snd (elog_get_filter_tag_lvl t e)) = el_tag e"
  by (auto simp: elog_get_filter_tag_lvl_def Let_def)

lemma text_same_fmt:
  assumes "get_fmt_enabled e = get_fmt_enabled e'"
  shows "tag_text e c = tag_text e' c" "info_text e pi l = info_text e' pi l" "site_text e c = site_text e' c"
  using assms by (simp_all add: tag_text_def info_text_def site_text_def get_fmt_used_and_enabled_ptr_def
      get_fmt_used_and_enabled_u32_def)

lemma cstr_cut: "cstr (s @ NUL # r) = cstr s"
  by (induction s) (simp_all add: cstr_def)

lemma finish_line_holds:
  fixes t m :: string
  assumes "holds t st"
  defines "out \<equiv> take (ELOG_LINE_BUF_SIZE - 1) (t @ m)"
  shows "\<exists>buf'. length buf' = ELOG_LINE_BUF_SIZE \<and> finish_line e (Some m) st =
     (if el_keyword e = [] \<or> str_contains (cstr out) (el_keyword e) then Some (out @ [NL]) else None,
      elog_output_unlock e, buf')"
proof -
  obtain n b where st: "st = (n, b)" by fastforce
  have n: "n = min ELOG_LINE_BUF_SIZE (length t)" using assms(1) by (simp add: holds_def st)
  define b1 where "b1 = line_vsnprintf m (n, b)"
  define n1 where "n1 = text_length (Some m) n"
  define n2 where "n2 = (if n1 + 1 > ELOG_LINE_BUF_SIZE then ELOG_LINE_BUF_SIZE - 1 else n1)"
  define b2 where "b2 = (if el_keyword e \<noteq> [] then b1[n2 := NUL] else b1)"
  have n2: "n2 = min (ELOG_LINE_BUF_SIZE - 1) (length (t @ m))" "n2 < ELOG_LINE_BUF_SIZE"
    unfolding n2_def n1_def text_length_def n by (auto simp: ELOG_LINE_BUF_SIZE_def)
  have len: "length b1 = ELOG_LINE_BUF_SIZE" and cut: "take n2 b1 = out"
    using holds_vsnprintf [OF assms(1) [unfolded st], where m = m] n2(1)
    by (simp_all add: b1_def out_def min_def)
  have len2: "length b2 = ELOG_LINE_BUF_SIZE" and cut2: "take n2 b2 = out"
    using len cut by (simp_all add: b2_def)
  have kw: "cstr b2 = cstr out" if "el_keyword e \<noteq> []"
  proof -
    have "b2 = out @ NUL # drop (Suc n2) b1"
      using that n2(2) len cut by (simp add: b2_def upd_conv_take_nth_drop)
    then show ?thesis by (simp add: cstr_cut)
  qed
  obtain n3 b3 where s: "elog_strcpy [NL] (n2, b2) = (n3, b3)" by fastforce
  have out3: "take n3 b3 = out @ [NL]" "length b3 = ELOG_LINE_BUF_SIZE"
    using s n2(2) len2 cut2 by (auto simp: elog_strcpy_def Let_def buf_put_def min_def)
  have "finish_line e (Some m) st =
     (if el_keyword e \<noteq> [] \<and> \<not> str_contains (cstr b2) (el_keyword e) then (None, elog_output_unlock e, b2)
      else (Some (take n3 b3), elog_output_unlock e, b3))"
    by (simp only: finish_line_def st fst_conv snd_conv option.case Let_def b1_def [symmetric] n1_def [symmetric]
        n2_def [symmetric] b2_def [symmetric] s prod.case)
  with out3 len2 show ?thesis
    using kw by (cases "el_keyword e = []") simp_all
qed

lemma elog_output_eq:
  assumes "length buf = ELOG_LINE_BUF_SIZE" and "ls_level c \<le> ELOG_LVL_VERBOSE"
  shows "\<exists>e' buf'. length buf' = ELOG_LINE_BUF_SIZE \<and>
     elog_output pi c (Some m) e buf =
       Some (if passes e c \<and> (el_keyword e = [] \<or> str_contains (cstr (line_text e pi c m)) (el_keyword e))
             then Some (line_text e pi c m @ [NL]) else None, e', buf')"
proof (cases "passes e c")
  case False
  then show ?thesis
    using assms by (auto simp: elog_output_def passes_def Let_def prod.case_eq_if)
next
  case True
  define e1 where "e1 = elog_output_lock (snd (elog_get_filter_tag_lvl (ls_tag c) e))"
  have same: "get_fmt_enabled e1 = get_fmt_enabled e" "el_keyword e1 = el_keyword e"
    by (simp_all add: e1_def)
  let ?t = "tag_text e c @ info_text e pi (ls_level c) @ site_text e c"
  let ?st = "put_site e1 c (put_info e1 pi (ls_level c) (put_tag e1 c (0, buf)))"
  have "holds ?t ?st"
    using put_site_holds [OF put_info_holds [OF put_tag_holds [OF holds_start [OF assms(1)]]], of e1 c e1 pi "ls_level c" e1 c]
      text_same_fmt [OF same(1)] by simp
  moreover have "elog_output pi c (Some m) e buf = Some (finish_line e1 (Some m) ?st)"
    using True assms by (simp add: elog_output_def passes_def Let_def prod.case_eq_if e1_def)
  ultimately show ?thesis
    using finish_line_holds [of ?t ?st, where m = m and e = e1] True same by (auto simp: line_text_def)
qed

text \<open>C33. For every level, tag, site and formatted text, a log call terminates, never writes outside the
  1024-character line buffer, and sends the port exactly one line or none: none if a filter
  rejects it, otherwise the level, tag, time, process, thread, site and message in this
  order, cut to 1023 characters, and a newline.\<close>

theorem elog_output_line:
  assumes "length buf = ELOG_LINE_BUF_SIZE" and "ls_level c \<le> ELOG_LVL_VERBOSE"
  shows "\<exists>e' buf'. length buf' = ELOG_LINE_BUF_SIZE \<and>
     elog_output pi c (Some m) e buf =
       Some (if passes e c \<and> (el_keyword e = [] \<or> str_contains (cstr (line_text e pi c m)) (el_keyword e))
             then Some (line_text e pi c m @ [NL]) else None, e', buf')"
  using assms by (rule elog_output_eq)


definition example_elog :: elog where
  "example_elog = \<lparr>el_level = 5, el_tag = [], el_keyword = [], el_tag_lvl = replicate 5 tag_lvl_free,
     el_fmt = replicate 6 135, el_init_ok = True, el_enabled = True, el_lock_enabled = True,
     el_locked_before_enable = False, el_locked_before_disable = False, el_port_locked = 0\<rparr>"

definition example_site :: log_site where
  "example_site = \<lparr>ls_level = 3, ls_tag = ''main'', ls_file = None, ls_func = None, ls_line = 12345\<rparr>"

definition example_port :: port_info where
  "example_port = \<lparr>pi_time = ''10:00'', pi_process = [], pi_thread = []\<rparr>"

lemma example_passes: "passes example_elog example_site"
  by code_simp

lemma example_line: "line_text example_elog example_port example_site ''up'' = ''I/main            [10:00] (1234)up''"
proof -
  have 1: "tag_text example_elog example_site = ''I/main            ''"
    "info_text example_elog example_port (ls_level example_site) = ''[10:00] ''"
    by code_simp+
  have number: "show_int 12345 = ''12345''"
    by (simp add: show_int_def show_nat.simps digit_char_def) code_simp
  have "\<not> get_fmt_used_and_enabled_ptr example_elog (ls_level example_site) FMT_DIR (ls_file example_site)"
    "\<not> get_fmt_used_and_enabled_ptr example_elog (ls_level example_site) FMT_FUNC (ls_func example_site)"
    "get_fmt_used_and_enabled_u32 example_elog (ls_level example_site) FMT_LINE (ls_line example_site)"
    by code_simp+
  then have "site_text example_elog example_site = ''('' @ take 4 (show_int (ls_line example_site)) @ '')''"
    by (simp add: site_text_def)
  moreover have "ls_line example_site = 12345" by (simp add: example_site_def)
  ultimately have "site_text example_elog example_site = ''(1234)''" by (simp add: number)
  with 1 show ?thesis by (simp add: line_text_def ELOG_LINE_BUF_SIZE_def)
qed

theorem elog_output_line_witness:
  "\<exists>e' buf'. elog_output example_port example_site (Some ''up'') example_elog (replicate 1024 NUL) =
     Some (Some (''I/main            [10:00] (1234)up'' @ [NL]), e', buf')"
proof -
  have 1: "length (replicate 1024 NUL) = ELOG_LINE_BUF_SIZE" "ls_level example_site \<le> ELOG_LVL_VERBOSE"
    by (simp_all add: ELOG_LINE_BUF_SIZE_def ELOG_LVL_VERBOSE_def example_site_def)
  have "el_keyword example_elog = []" by (simp add: example_elog_def)
  with elog_output_line [OF 1, of example_port "''up''" example_elog] example_passes example_line
  show ?thesis by auto
qed

section \<open>The levels of single tags\<close>

text \<open>The slots in use, as an association list from tag to level.\<close>

definition used_levels :: "tag_lvl list \<Rightarrow> (string \<times> nat) list" where
  "used_levels ts = map (\<lambda>s. (tl_tag s, tl_level s)) (filter tl_use ts)"

definition tags_ok :: "tag_lvl list \<Rightarrow> bool" where
  "tags_ok ts \<longleftrightarrow>
     length ts = ELOG_FILTER_TAG_LVL_MAX_NUM \<and> distinct (map fst (used_levels ts)) \<and>
     list_all (\<lambda>s. length (tl_tag s) \<le> ELOG_FILTER_TAG_MAX_LEN) ts"

abbreviation cut_tag :: "string \<Rightarrow> string" where
  "cut_tag \<equiv> take ELOG_FILTER_TAG_MAX_LEN"

text \<open>The contract: a map of at most five tags, from which the lowest level removes.\<close>

definition set_level_spec :: "string \<Rightarrow> nat \<Rightarrow> (string \<rightharpoonup> nat) \<Rightarrow> (string \<rightharpoonup> nat)" where
  "set_level_spec t l m =
     (if l = ELOG_FILTER_LVL_ALL then m(t := None)
      else if t \<in> dom m \<or> card (dom m) < ELOG_FILTER_TAG_LVL_MAX_NUM then m(t \<mapsto> l) else m)"

lemma used_levels_simps [simp]:
  "used_levels [] = []"
  "used_levels (s # ts) = (if tl_use s then (tl_tag s, tl_level s) # used_levels ts else used_levels ts)"
  by (simp_all add: used_levels_def)

lemma length_set_first [simp]: "length (set_first p f ts) = length ts"
  by (induction ts) auto

lemma tag_slot_cut: "length (tl_tag s) \<le> ELOG_FILTER_TAG_MAX_LEN \<Longrightarrow> tag_slot t s \<longleftrightarrow> tl_use s \<and> tl_tag s = cut_tag t"
  by (auto simp: tag_slot_def)

lemma find_used:
  "list_all (\<lambda>s. length (tl_tag s) \<le> ELOG_FILTER_TAG_MAX_LEN) ts \<Longrightarrow>
     map_option tl_level (find (tag_slot t) ts) = map_of (used_levels ts) (cut_tag t)"
  by (induction ts) (auto simp: tag_slot_cut)

lemma ex_used:
  "list_all (\<lambda>s. length (tl_tag s) \<le> ELOG_FILTER_TAG_MAX_LEN) ts \<Longrightarrow>
     list_ex (tag_slot t) ts \<longleftrightarrow> cut_tag t \<in> fst ` set (used_levels ts)"
  by (induction ts) (auto simp: tag_slot_cut)

lemma used_update:
  assumes "list_all (\<lambda>s. length (tl_tag s) \<le> ELOG_FILTER_TAG_MAX_LEN) ts" and "list_ex (tag_slot t) ts"
  shows "map_of (used_levels (set_first (tag_slot t) (\<lambda>s. s\<lparr>tl_level := l\<rparr>) ts)) = (map_of (used_levels ts))(cut_tag t \<mapsto> l)"
    and "map fst (used_levels (set_first (tag_slot t) (\<lambda>s. s\<lparr>tl_level := l\<rparr>) ts)) = map fst (used_levels ts)"
  using assms by (induction ts) (auto simp: tag_slot_cut fun_eq_iff)

lemma used_free:
  assumes "list_all (\<lambda>s. length (tl_tag s) \<le> ELOG_FILTER_TAG_MAX_LEN) ts" and "distinct (map fst (used_levels ts))"
  shows "used_levels (set_first (tag_slot t) (\<lambda>_. tag_lvl_free) ts) = filter (\<lambda>(u, _). u \<noteq> cut_tag t) (used_levels ts)"
  using assms
proof (induction ts)
  case (Cons s ts)
  have "filter (\<lambda>(u, _). u \<noteq> cut_tag t) (used_levels ts) = used_levels ts"
    if "cut_tag t \<notin> fst ` set (used_levels ts)"
    using that by (force simp: filter_id_conv)
  with Cons show ?case by (auto simp: tag_slot_cut tag_lvl_free_def split: if_splits)
qed simp

lemma map_of_filter_ne: "map_of (filter (\<lambda>(u, _). u \<noteq> k) xs) = (map_of xs)(k := None)"
  by (induction xs) (auto simp: fun_eq_iff)

lemma used_new:
  assumes "\<not> list_all tl_use ts"
  shows "\<exists>us vs. used_levels ts = us @ vs \<and>
     used_levels (set_first (\<lambda>s. \<not> tl_use s) (\<lambda>_. \<lparr>tl_level = l, tl_tag = k, tl_use = True\<rparr>) ts) = us @ (k, l) # vs"
  using assms
proof (induction ts)
  case (Cons s ts)
  show ?case
  proof (cases "tl_use s")
    case True
    with Cons obtain us vs where "used_levels ts = us @ vs"
      "used_levels (set_first (\<lambda>s. \<not> tl_use s) (\<lambda>_. \<lparr>tl_level = l, tl_tag = k, tl_use = True\<rparr>) ts) = us @ (k, l) # vs"
      by auto
    with True have "used_levels (s # ts) = ((tl_tag s, tl_level s) # us) @ vs"
      "used_levels (set_first (\<lambda>s. \<not> tl_use s) (\<lambda>_. \<lparr>tl_level = l, tl_tag = k, tl_use = True\<rparr>) (s # ts)) =
        ((tl_tag s, tl_level s) # us) @ (k, l) # vs" by simp_all
    then show ?thesis by blast
  next
    case False
    then show ?thesis by (auto intro: exI [of _ "[]"])
  qed
qed simp

lemma map_of_insert: "k \<notin> fst ` set (us @ vs) \<Longrightarrow> map_of (us @ (k, l) # vs) = (map_of (us @ vs))(k \<mapsto> l)"
  by (induction us) (auto simp: fun_eq_iff)

lemma set_first_full: "list_all tl_use ts \<Longrightarrow> set_first (\<lambda>s. \<not> tl_use s) f ts = ts"
  by (induction ts) auto

lemma full_length: "list_all tl_use ts \<longleftrightarrow> length (used_levels ts) = length ts"
proof (induction ts)
  case (Cons s ts)
  have "length (used_levels ts) \<le> length ts" by (simp add: used_levels_def)
  with Cons show ?case by auto
qed simp

lemma set_first_tags:
  assumes "list_all P ts" and "\<And>s. P s \<Longrightarrow> P (f s)"
  shows "list_all P (set_first p f ts)"
  using assms by (induction ts) auto

lemma tag_lvl_update_ok:
  assumes "tags_ok ts"
  shows "tags_ok (tag_lvl_update tag l ts) \<and>
     map_of (used_levels (tag_lvl_update tag l ts)) = set_level_spec (cut_tag tag) l (map_of (used_levels ts))"
proof -
  from assms have ok: "length ts = ELOG_FILTER_TAG_LVL_MAX_NUM" "distinct (map fst (used_levels ts))"
    "list_all (\<lambda>s. length (tl_tag s) \<le> ELOG_FILTER_TAG_MAX_LEN) ts" by (simp_all add: tags_ok_def)
  have dom: "dom (map_of (used_levels ts)) = fst ` set (used_levels ts)" by (rule dom_map_of_conv_image_fst)
  have card: "card (dom (map_of (used_levels ts))) = length (used_levels ts)"
    using ok(2) distinct_card [of "map fst (used_levels ts)"] by (simp add: dom)
  have short: "length (used_levels ts) \<le> ELOG_FILTER_TAG_LVL_MAX_NUM"
    using ok(1) by (simp add: used_levels_def flip: ok(1))
  show ?thesis
  proof (cases "list_ex (tag_slot tag) ts")
    case True
    show ?thesis
    proof (cases "l = ELOG_FILTER_LVL_ALL")
      case all: True
      have "list_all (\<lambda>s. length (tl_tag s) \<le> ELOG_FILTER_TAG_MAX_LEN) (set_first (tag_slot tag) (\<lambda>_. tag_lvl_free) ts)"
        by (rule set_first_tags [OF ok(3)]) (simp add: tag_lvl_free_def)
      with True all ok show ?thesis
        by (simp add: tag_lvl_update_def tags_ok_def set_level_spec_def used_free map_of_filter_ne distinct_map_filter)
    next
      case False
      have "list_all (\<lambda>s. length (tl_tag s) \<le> ELOG_FILTER_TAG_MAX_LEN)
          (set_first (tag_slot tag) (\<lambda>s. s\<lparr>tl_level := l\<rparr>) ts)"
        by (rule set_first_tags [OF ok(3)]) simp
      with True False ok ex_used [OF ok(3)] show ?thesis
        by (simp add: tag_lvl_update_def tags_ok_def set_level_spec_def dom used_update)
    qed
  next
    case False
    then have new: "cut_tag tag \<notin> fst ` set (used_levels ts)" using ex_used [OF ok(3)] by simp
    show ?thesis
    proof (cases "l = ELOG_FILTER_LVL_ALL")
      case True
      with False new assms show ?thesis
        by (auto simp: tag_lvl_update_def set_level_spec_def fun_eq_iff map_of_eq_None_iff)
    next
      case level: False
      show ?thesis
      proof (cases "list_all tl_use ts")
        case True
        with False level assms new card ok full_length [of ts] show ?thesis
          by (simp add: tag_lvl_update_def set_level_spec_def set_first_full dom)
      next
        case free: False
        with full_length [of ts] short ok(1) have "length (used_levels ts) < ELOG_FILTER_TAG_LVL_MAX_NUM" by simp
        let ?f = "set_first (\<lambda>s. \<not> tl_use s) (\<lambda>_. \<lparr>tl_level = l, tl_tag = cut_tag tag, tl_use = True\<rparr>) ts"
        obtain us vs where used: "used_levels ts = us @ vs" "used_levels ?f = us @ (cut_tag tag, l) # vs"
          using used_new [OF free] by blast
        have "map_of (used_levels ?f) = (map_of (used_levels ts))(cut_tag tag \<mapsto> l)"
          using map_of_insert [of "cut_tag tag" us vs l] new by (simp add: used)
        moreover have "distinct (map fst (used_levels ?f))"
          using ok(2) new by (auto simp: used)
        moreover have "list_all (\<lambda>s. length (tl_tag s) \<le> ELOG_FILTER_TAG_MAX_LEN) ?f"
          by (rule set_first_tags [OF ok(3)]) simp
        moreover have "tag_lvl_update tag l ts = ?f"
          using False level by (simp add: tag_lvl_update_def)
        ultimately show ?thesis
          using \<open>length (used_levels ts) < _\<close> card ok(1) level by (simp add: tags_ok_def set_level_spec_def)
      qed
    qed
  qed
qed

text \<open>A history of calls, as the code runs it and as the contract reads it.\<close>

fun elog_set_levels :: "(string \<times> nat) list \<Rightarrow> elog \<Rightarrow> elog option" where
  "elog_set_levels [] e = Some e"
| "elog_set_levels ((t, l) # cs) e =
     (case elog_set_filter_tag_lvl t l e of None \<Rightarrow> None | Some e' \<Rightarrow> elog_set_levels cs e')"

fun levels_spec :: "(string \<times> nat) list \<Rightarrow> (string \<rightharpoonup> nat) \<Rightarrow> (string \<rightharpoonup> nat)" where
  "levels_spec [] m = m"
| "levels_spec ((t, l) # cs) m = levels_spec cs (set_level_spec (cut_tag t) l m)"

lemma lock_tables [simp]:
  "el_tag_lvl (elog_output_lock e) = el_tag_lvl e" "el_init_ok (elog_output_lock e) = el_init_ok e"
  "el_tag_lvl (elog_output_unlock e) = el_tag_lvl e" "el_init_ok (elog_output_unlock e) = el_init_ok e"
  by (simp_all add: elog_output_lock_def elog_output_unlock_def)

lemma set_levels_refine:
  assumes "tags_ok (el_tag_lvl e)" "el_init_ok e" "list_all (\<lambda>(_, l). l \<le> ELOG_LVL_VERBOSE) cs"
  shows "\<exists>e'. elog_set_levels cs e = Some e' \<and> el_init_ok e' \<and> tags_ok (el_tag_lvl e') \<and>
     map_of (used_levels (el_tag_lvl e')) = levels_spec cs (map_of (used_levels (el_tag_lvl e)))"
  using assms
proof (induction cs arbitrary: e)
  case (Cons c cs)
  obtain t l where c: "c = (t, l)" by fastforce
  let ?e = "elog_output_unlock ((elog_output_lock e)\<lparr>el_tag_lvl := tag_lvl_update t l (el_tag_lvl e)\<rparr>)"
  have "elog_set_filter_tag_lvl t l e = Some ?e"
    using Cons.prems c by (simp add: elog_set_filter_tag_lvl_def Let_def)
  moreover have "tags_ok (el_tag_lvl ?e) \<and>
      map_of (used_levels (el_tag_lvl ?e)) = set_level_spec (cut_tag t) l (map_of (used_levels (el_tag_lvl e)))"
    using tag_lvl_update_ok [OF Cons.prems(1)] by simp
  ultimately show ?case
    using Cons.IH [of ?e] Cons.prems c by simp
qed simp

lemma elog_init_tags:
  assumes "\<not> el_init_ok e"
  obtains e' where "elog_init True e = Some (0, e')" "el_init_ok e'" "tags_ok (el_tag_lvl e')" "used_levels (el_tag_lvl e') = []"
  using assms
  by (simp add: elog_init_def Let_def elog_set_filter_lvl_def elog_set_filter_tag_lvl_default_def tags_ok_def
      used_levels_def tag_lvl_free_def list_all_length)

text \<open>C40. After initialisation and any history of calls that set a level for a tag, the level found for
  a tag is the one a map of at most five tags holds: tags agree on their first 30
  characters, the lowest level removes a tag, and a sixth tag is dropped without an error.\<close>

theorem elog_tag_levels_refine:
  assumes "\<not> el_init_ok e" and "list_all (\<lambda>(_, l). l \<le> ELOG_LVL_VERBOSE) cs"
  shows "\<exists>e1 e2. elog_init True e = Some (0, e1) \<and> elog_set_levels cs e1 = Some e2 \<and>
     card (dom (levels_spec cs Map.empty)) \<le> ELOG_FILTER_TAG_LVL_MAX_NUM \<and>
     (\<forall>t. fst (elog_get_filter_tag_lvl t e2) =
        (case levels_spec cs Map.empty (cut_tag t) of Some l \<Rightarrow> l | None \<Rightarrow> ELOG_FILTER_LVL_ALL))"
proof -
  obtain e1 where 1: "elog_init True e = Some (0, e1)" "el_init_ok e1" "tags_ok (el_tag_lvl e1)" "used_levels (el_tag_lvl e1) = []"
    using elog_init_tags [OF assms(1)] .
  from set_levels_refine [OF 1(3,2) assms(2)] obtain e2 where 2: "elog_set_levels cs e1 = Some e2" "el_init_ok e2"
    "tags_ok (el_tag_lvl e2)" "map_of (used_levels (el_tag_lvl e2)) = levels_spec cs Map.empty"
    by (auto simp: 1(4))
  have "card (dom (map_of (used_levels (el_tag_lvl e2)))) \<le> length (used_levels (el_tag_lvl e2))"
    using card_length [of "map fst (used_levels (el_tag_lvl e2))"] by (simp add: dom_map_of_conv_image_fst)
  also have "\<dots> \<le> ELOG_FILTER_TAG_LVL_MAX_NUM"
    using 2(3) by (simp add: tags_ok_def used_levels_def) (metis length_filter_le)
  finally have "card (dom (levels_spec cs Map.empty)) \<le> ELOG_FILTER_TAG_LVL_MAX_NUM" by (simp add: 2(4))
  moreover have "fst (elog_get_filter_tag_lvl t e2) =
      (case levels_spec cs Map.empty (cut_tag t) of Some l \<Rightarrow> l | None \<Rightarrow> ELOG_FILTER_LVL_ALL)" for t
    using find_used [of "el_tag_lvl e2" t] 2
    by (auto simp: elog_get_filter_tag_lvl_def Let_def tag_lvl_find_def tags_ok_def split: option.splits)
  ultimately show ?thesis using 1(1) 2(1) by blast
qed

theorem elog_tag_levels_refine_witness:
  "\<exists>e1 e2. elog_init True (example_elog\<lparr>el_init_ok := False\<rparr>) = Some (0, e1) \<and>
     elog_set_levels [(''net'', 2), (''isp'', 0), (''net'', 5)] e1 = Some e2 \<and>
     fst (elog_get_filter_tag_lvl ''isp'' e2) = 0 \<and> fst (elog_get_filter_tag_lvl ''net'' e2) = 5"
proof -
  have hyps: "\<not> el_init_ok (example_elog\<lparr>el_init_ok := False\<rparr>)"
    "list_all (\<lambda>(_, l). l \<le> ELOG_LVL_VERBOSE) [(''net'', 2), (''isp'', 0), (''net'', 5 :: nat)]"
    by (simp_all add: ELOG_LVL_VERBOSE_def)
  have "levels_spec [(''net'', 2), (''isp'', 0), (''net'', 5)] Map.empty (cut_tag ''isp'') = Some 0"
    "levels_spec [(''net'', 2), (''isp'', 0), (''net'', 5)] Map.empty (cut_tag ''net'') = None"
    by (simp_all add: set_level_spec_def ELOG_LVL_VERBOSE_def ELOG_FILTER_TAG_MAX_LEN_def ELOG_FILTER_TAG_LVL_MAX_NUM_def)
  with elog_tag_levels_refine [OF hyps] show ?thesis by (fastforce simp: ELOG_LVL_VERBOSE_def)
qed

end
