(* ===== verification/ElogHexdump.thy ===== *)
theory ElogHexdump
  imports ElogProperties
begin

text \<open>
  The hex dump of \<^verbatim>\<open>elog_hexdump\<close>: its row counter has 16 bits, and the loop ends for
  exactly the sizes and widths at which the counter, wrapping around, can pass the size.
\<close>

section \<open>The counter\<close>

abbreviation hex_at :: "nat \<Rightarrow> nat \<Rightarrow> nat \<Rightarrow> nat" where
  "hex_at i width k \<equiv> (i + k * width) mod 2 ^ 16"

lemma hex_at_step: "((i + width) mod 2 ^ 16 + k * width) mod 2 ^ 16 = hex_at i width (Suc k)"
  by (simp add: mod_add_left_eq add.assoc)

text \<open>A loop that ends has met a counter at or beyond the size.\<close>

lemma hex_loop_ended:
  assumes "hex_loop name width bs i st = Some r"
  shows "i < 2 ^ 16 \<Longrightarrow> \<exists>k. hex_at i width k \<ge> length bs"
proof (induct rule: hex_loop.raw_induct [OF _ assms])
  case (1 loop name width bs i st r)
  show ?case
  proof (cases "i < length bs")
    case True
    with 1(2) have "loop name width bs ((i + width) mod 2 ^ 16)
        (case hex_row name width bs i (snd st) of (line, buf) \<Rightarrow> (fst st @ [line], buf)) = Some r" by simp
    from 1(1) [OF this] obtain k where "hex_at ((i + width) mod 2 ^ 16) width k \<ge> length bs" by auto
    then show ?thesis by (simp only: hex_at_step) blast
  next
    case False
    with 1(3) have "hex_at i width 0 \<ge> length bs" by simp
    then show ?thesis by blast
  qed
qed

lemma hex_loop_ends: "hex_at i width k \<ge> length bs \<Longrightarrow> i < 2 ^ 16 \<Longrightarrow> \<exists>r. hex_loop name width bs i st = Some r"
proof (induction k arbitrary: i st)
  case 0
  then show ?case by (subst hex_loop.simps) simp
next
  case (Suc k)
  show ?case
  proof (cases "i < length bs")
    case True
    have "hex_at ((i + width) mod 2 ^ 16) width k \<ge> length bs"
      using Suc.prems(1) by (simp only: hex_at_step)
    with Suc.IH True show ?thesis by (subst hex_loop.simps) simp
  next
    case False
    then show ?thesis by (subst hex_loop.simps) simp
  qed
qed

text \<open>The largest value the counter takes is the modulus less its greatest common divisor with the step.\<close>

lemma multiple_mod_bound:
  fixes m w k :: nat
  assumes "0 < m"
  shows "(k * w) mod m + gcd w m \<le> m"
proof -
  have "gcd w m dvd (k * w) mod m" by (metis dvd_mod dvd_mult gcd_dvd1 gcd_dvd2)
  moreover have "gcd w m dvd m" by simp
  ultimately have "gcd w m dvd m - (k * w) mod m" by (rule dvd_diff_nat [rotated])
  moreover have less: "(k * w) mod m < m" using assms by simp
  ultimately have "gcd w m \<le> m - (k * w) mod m" by (intro dvd_imp_le) simp_all
  with less show ?thesis by linarith
qed

lemma multiple_mod_hits:
  fixes m w :: nat
  assumes "0 < m"
  shows "\<exists>k. (k * w) mod m + gcd w m = m"
proof (cases "w = 0")
  case False
  then obtain x y where "w * x = m * y + gcd w m" using bezout_nat [of w m] by auto
  let ?g = "gcd w m"
  have g: "0 < ?g" "?g \<le> m" using assms by (auto simp: gcd_le2_nat)
  let ?a = "(x * (m - 1)) * w"
  obtain m' where m': "m = Suc m'" using assms by (cases m) auto
  have "?a + (m * y + ?g) = m * (x * w)"
    unfolding \<open>w * x = _\<close> [symmetric] by (simp add: m' algebra_simps)
  then have "m dvd ?a + ?g + m * y" by (simp add: ac_simps)
  then have "m dvd ?a + ?g" using dvd_add_left_iff [of m "m * y" "?a + ?g"] by simp
  then have "m dvd ?a mod m + ?g" by (simp add: dvd_eq_mod_eq_0 mod_add_left_eq)
  then obtain c where c: "?a mod m + ?g = m * c" ..
  have "?a mod m < m" using assms by simp
  with g c have "m * c < m * 2" "0 < m * c" by linarith+
  then have "c = 1" by (simp add: mult_less_cancel1)
  with c show ?thesis by auto
qed simp

lemma hex_loop_ends_iff:
  "hex_loop name width bs 0 st \<noteq> None \<longleftrightarrow> length bs + gcd width (2 ^ 16) \<le> 2 ^ 16"
proof
  assume "hex_loop name width bs 0 st \<noteq> None"
  then obtain k where "hex_at 0 width k \<ge> length bs"
    using hex_loop_ended [of name width bs 0 st] by auto
  moreover have "(k * width) mod 2 ^ 16 + gcd width (2 ^ 16) \<le> 2 ^ 16"
    by (rule multiple_mod_bound) simp
  ultimately show "length bs + gcd width (2 ^ 16) \<le> 2 ^ 16" by (simp only: add_0)
next
  assume "length bs + gcd width (2 ^ 16) \<le> 2 ^ 16"
  moreover obtain k where "(k * width) mod 2 ^ 16 + gcd width (2 ^ 16) = 2 ^ 16"
    using multiple_mod_hits [of "2 ^ 16" width] by auto
  ultimately have "hex_at 0 width k \<ge> length bs" by (simp only: add_0)
  with hex_loop_ends [of bs 0 k width name st] show "hex_loop name width bs 0 st \<noteq> None" by auto
qed

section \<open>The rows\<close>

text \<open>The text of the row at offset \<open>i\<close>, cut to the line buffer.\<close>

definition hex_text :: "string \<Rightarrow> nat \<Rightarrow> byte list \<Rightarrow> nat \<Rightarrow> string" where
  "hex_text name width bs i =
     take (ELOG_LINE_BUF_SIZE - 1)
       (hex_header name width i @ concat (map (hex_cell bs i) [0..<width]) @ ''  '' @
        concat (map (hex_char bs i) [0..<width])) @ [NL]"

lemma holds_fold: "holds t st \<Longrightarrow> holds (t @ concat (map f xs)) (fold (\<lambda>j. elog_strcpy (f j)) xs st)"
proof (induction xs arbitrary: t st)
  case (Cons x xs)
  from Cons.IH [OF strcpy_holds [OF Cons.prems]] show ?case by simp
qed simp

lemma show_hex_length: "n < 16 ^ Suc k \<Longrightarrow> length (show_hex n) \<le> Suc k"
proof (induction k arbitrary: n)
  case 0
  then show ?case by (subst show_hex.simps) simp
next
  case (Suc k)
  then have "n div 16 < 16 ^ Suc k" by (simp add: less_mult_imp_div_less)
  from Suc.IH [OF this] show ?case by (subst show_hex.simps) simp
qed

lemma hex_pad_length: "w \<le> 8 \<Longrightarrow> length (hex_pad w x) \<le> 8"
proof -
  have "unat x < 2 ^ 32" by (rule order_less_le_trans [OF unsigned_less]) simp
  then have "length (show_hex (unat x)) \<le> 8" using show_hex_length [of "unat x" 7] by simp
  moreover assume "w \<le> 8"
  ultimately show ?thesis by (simp add: hex_pad_def Let_def)
qed

lemma hex_header_length: "length name \<le> 900 \<Longrightarrow> length (hex_header name width i) < ELOG_LINE_BUF_SIZE"
  using hex_pad_length [of 4 "of_nat i"] hex_pad_length [of 4 "of_nat i + of_nat width - 1"]
  by (simp add: hex_header_def ELOG_LINE_BUF_SIZE_def)

lemma hex_header_holds:
  assumes "length buf = ELOG_LINE_BUF_SIZE" and "length h < ELOG_LINE_BUF_SIZE"
  shows "holds h (min (length h) ELOG_LINE_BUF_SIZE, line_vsnprintf h (0, buf))"
  using assms by (simp add: holds_def line_vsnprintf_def buf_put_def min_def)

lemma newline_after:
  assumes "holds t (n, b)"
    and "elog_strcpy [NL] (if n + 1 > ELOG_LINE_BUF_SIZE then ELOG_LINE_BUF_SIZE - 1 else n, b) = (n3, b3)"
  shows "take n3 b3 = take (ELOG_LINE_BUF_SIZE - 1) t @ [NL] \<and> length b3 = ELOG_LINE_BUF_SIZE"
proof -
  define n2 where "n2 = (if n + 1 > ELOG_LINE_BUF_SIZE then ELOG_LINE_BUF_SIZE - 1 else n)"
  from assms(1) have h: "length b = ELOG_LINE_BUF_SIZE" "n = min ELOG_LINE_BUF_SIZE (length t)"
    "take n b = take ELOG_LINE_BUF_SIZE t" by (auto simp: holds_def)
  have n2: "n2 < ELOG_LINE_BUF_SIZE" "n2 \<le> n" "n2 = min (ELOG_LINE_BUF_SIZE - 1) (length t)"
    unfolding n2_def h(2) by (auto simp: ELOG_LINE_BUF_SIZE_def)
  have "take n2 b = take n2 (take n b)" using n2(2) by simp
  also have "\<dots> = take (ELOG_LINE_BUF_SIZE - 1) t" unfolding h(3) n2(3) by (simp add: min_def)
  finally have cut: "take n2 b = take (ELOG_LINE_BUF_SIZE - 1) t" .
  have "take (ELOG_LINE_BUF_SIZE - n2) [NL] = [NL]" using n2(1) by simp
  then have "n3 = n2 + 1" "b3 = take n2 b @ [NL] @ drop (n2 + 1) b"
    using assms(2) unfolding n2_def [symmetric] by (auto simp: elog_strcpy_def buf_put_def)
  moreover have "length (take n2 b) = n2" using n2(1) h(1) by simp
  ultimately have "take n3 b3 = take n2 b @ [NL]" "length b3 = ELOG_LINE_BUF_SIZE"
    using n2(1) h(1) by simp_all
  with cut show ?thesis by simp
qed

lemma hex_row_text:
  assumes "length buf = ELOG_LINE_BUF_SIZE" and "length name \<le> 900"
  obtains b where "hex_row name width bs i buf = (hex_text name width bs i, b)" "length b = ELOG_LINE_BUF_SIZE"
proof -
  let ?h = "hex_header name width i"
  let ?s1 = "(min (length ?h) ELOG_LINE_BUF_SIZE, line_vsnprintf ?h (0, buf))"
  let ?s2 = "elog_strcpy ''  '' (fold (\<lambda>j. elog_strcpy (hex_cell bs i j)) [0..<width] ?s1)"
  obtain n b where nb: "fold (\<lambda>j. elog_strcpy (hex_char bs i j)) [0..<width] ?s2 = (n, b)" by fastforce
  obtain n3 b3 where nl: "elog_strcpy [NL] (if n + 1 > ELOG_LINE_BUF_SIZE then ELOG_LINE_BUF_SIZE - 1 else n, b) = (n3, b3)"
    by fastforce
  have "holds (((?h @ concat (map (hex_cell bs i) [0..<width])) @ ''  '') @ concat (map (hex_char bs i) [0..<width])) (n, b)"
    unfolding nb [symmetric]
    by (intro holds_fold strcpy_holds hex_header_holds hex_header_length assms)
  from newline_after [OF this nl] have "take n3 b3 = hex_text name width bs i" "length b3 = ELOG_LINE_BUF_SIZE"
    by (simp_all add: hex_text_def)
  moreover have "hex_row name width bs i buf = (take n3 b3, b3)"
    by (simp only: hex_row_def Let_def nb nl prod.case)
  ultimately show ?thesis using that by simp
qed

text \<open>One pass over the data without wrap-around.\<close>

lemma hex_loop_rows:
  assumes "length buf = ELOG_LINE_BUF_SIZE" "length name \<le> 900" "0 < width"
    and "length bs \<le> i + m * width" "m = 0 \<or> i + (m - 1) * width < length bs" "i + m * width < 2 ^ 16"
  shows "\<exists>b. hex_loop name width bs i (out, buf) =
     Some (out @ map (\<lambda>k. hex_text name width bs (i + k * width)) [0..<m], b)"
  using assms
proof (induction m arbitrary: i out buf)
  case 0
  then show ?case by (subst hex_loop.simps) simp
next
  case (Suc m)
  obtain b where b: "hex_row name width bs i buf = (hex_text name width bs i, b)" "length b = ELOG_LINE_BUF_SIZE"
    using hex_row_text [OF Suc.prems(1,2)] .
  have i: "i < length bs" "(i + width) mod 2 ^ 16 = i + width"
    using Suc.prems(3,5,6) by auto
  have "m = 0 \<or> i + width + (m - 1) * width < length bs"
    using Suc.prems(5) by (cases m) auto
  with Suc.IH [of b "i + width" "out @ [hex_text name width bs i]"] Suc.prems b(2) obtain b' where
    "hex_loop name width bs (i + width) (out @ [hex_text name width bs i], b) =
      Some ((out @ [hex_text name width bs i]) @ map (\<lambda>k. hex_text name width bs (i + width + k * width)) [0..<m], b')"
    by (auto simp: algebra_simps)
  moreover have "[0..<Suc m] = 0 # map Suc [0..<m]" by (simp add: map_Suc_upt upt_conv_Cons)
  ultimately show ?case
    using i b(1) by (subst hex_loop.simps) (simp add: add.assoc comp_def)
qed

text \<open>C24. An enabled hex dump returns exactly when the size leaves room for a step of the 16-bit row counter,
  that is size + gcd(width, 65536) is at most 65536; when the rows end below 65536 it writes one
  line for each row, and for a longer buffer it writes rows for ever.\<close>

theorem elog_hexdump_returns:
  assumes "el_enabled e" "ELOG_LVL_DEBUG \<le> el_level e" "str_contains name (el_tag e)"
    and "length name \<le> 900" "length buf = ELOG_LINE_BUF_SIZE" "width < 256" "length bs < 2 ^ 16"
  shows "(elog_hexdump name width bs e buf \<noteq> None \<longleftrightarrow> length bs + gcd width (2 ^ 16) \<le> 2 ^ 16) \<and>
     (\<forall>m. 0 < width \<and> length bs \<le> m * width \<and> (m = 0 \<or> (m - 1) * width < length bs) \<and> m * width < 2 ^ 16 \<longrightarrow>
        (\<exists>e' b. elog_hexdump name width bs e buf =
           Some (map (\<lambda>k. hex_text name width bs (k * width)) [0..<m], e', b)))"
proof -
  have run: "elog_hexdump name width bs e buf =
      map_option (\<lambda>(out, b). (out, elog_output_unlock (elog_output_lock e), b)) (hex_loop name width bs 0 ([], buf))"
    using assms(1-3) by (simp add: elog_hexdump_def)
  have "\<exists>e' b. elog_hexdump name width bs e buf = Some (map (\<lambda>k. hex_text name width bs (k * width)) [0..<m], e', b)"
    if "0 < width" "length bs \<le> m * width" "m = 0 \<or> (m - 1) * width < length bs" "m * width < 2 ^ 16" for m
    using hex_loop_rows [OF assms(5,4) that(1), of bs 0 m "[]"] that by (auto simp: run)
  moreover have "elog_hexdump name width bs e buf \<noteq> None \<longleftrightarrow> length bs + gcd width (2 ^ 16) \<le> 2 ^ 16"
    using hex_loop_ends_iff [of name width bs "([], buf)"] by (simp add: run)
  ultimately show ?thesis by blast
qed

theorem elog_hexdump_returns_witness:
  "elog_hexdump ''x'' 16 (replicate 65530 0) example_elog (replicate 1024 NUL) = None"
proof -
  have hyps: "el_enabled example_elog" "ELOG_LVL_DEBUG \<le> el_level example_elog" "str_contains ''x'' (el_tag example_elog)"
    "length ''x'' \<le> 900" "length (replicate 1024 NUL) = ELOG_LINE_BUF_SIZE" "(16 :: nat) < 256"
    "length (replicate 65530 (0 :: byte)) < 2 ^ 16"
    by (simp_all add: example_elog_def ELOG_LVL_DEBUG_def ELOG_LINE_BUF_SIZE_def)
  have "gcd (16 :: nat) (2 ^ 16) = 16" by (simp add: gcd_non_0_nat)
  then have "\<not> length (replicate 65530 (0 :: byte)) + gcd 16 (2 ^ 16) \<le> 2 ^ 16" by simp
  with conjunct1 [OF elog_hexdump_returns [OF hyps]] show ?thesis by blast
qed

end
