(* ===== verification/LogPort.thy ===== *)
theory LogPort
  imports ElogProperties
begin

unbundle bit_operations_syntax

text \<open>
  The log file of \<^verbatim>\<open>src/logging/elog_port.c\<close> with its rotation, and the \<^verbatim>\<open>Logger\<close> of
  \<^verbatim>\<open>src/logging/logger.cpp\<close> that sets EasyLogger up on top of it. The files are a map from
  paths to contents that nothing else writes; the outcome of every call is an argument.
\<close>

section \<open>The port\<close>

definition LOG_FILE_LIMIT :: nat where "LOG_FILE_LIMIT = 1024 * 1024"

record log_port =
  po_path :: string
  po_fs :: "string \<rightharpoonup> string"
  po_open :: bool
  po_stderr :: string

text \<open>
  The outcomes of one output: \<^verbatim>\<open>fstat\<close>, the two \<^verbatim>\<open>rename\<close> calls (beyond ENOENT), \<^verbatim>\<open>fopen\<close>, how much
  \<^verbatim>\<open>fwrite\<close> takes, \<^verbatim>\<open>fflush\<close>, and how much of a failed write is in the file afterwards.
\<close>

record port_env =
  pe_fstat :: bool
  pe_rename_first :: bool
  pe_rename_log :: bool
  pe_fopen :: bool
  pe_fwrite :: nat
  pe_fflush :: bool
  pe_disk :: nat

definition first_path :: "log_port \<Rightarrow> string" where "first_path st = po_path st @ ''.1''"
definition second_path :: "log_port \<Rightarrow> string" where "second_path st = po_path st @ ''.2''"

definition file_text :: "(string \<rightharpoonup> string) \<Rightarrow> string \<Rightarrow> string" where
  "file_text fs p = (case fs p of Some s \<Rightarrow> s | None \<Rightarrow> [])"

definition fs_rename :: "string \<Rightarrow> string \<Rightarrow> (string \<rightharpoonup> string) \<Rightarrow> (string \<rightharpoonup> string)" where
  "fs_rename a b fs = (case fs a of Some s \<Rightarrow> fs(a := None, b \<mapsto> s) | None \<Rightarrow> fs)"

text \<open>\<^verbatim>\<open>fopen(path, "a")\<close> creates a missing file.\<close>

definition fs_append_open :: "string \<Rightarrow> (string \<rightharpoonup> string) \<Rightarrow> (string \<rightharpoonup> string)" where
  "fs_append_open p fs = fs(p \<mapsto> file_text fs p)"

definition port_append :: "string \<Rightarrow> log_port \<Rightarrow> log_port" where
  "port_append s st = st\<lparr>po_fs := (po_fs st)(po_path st \<mapsto> file_text (po_fs st) (po_path st) @ s)\<rparr>"

definition prepare_log :: "port_env \<Rightarrow> nat \<Rightarrow> log_port \<Rightarrow> int \<times> log_port" where
  "prepare_log env n st =
     (if \<not> pe_fstat env then (-1, st)
      else if length (file_text (po_fs st) (po_path st)) \<le> LOG_FILE_LIMIT - n then (0, st)
      else if \<not> pe_rename_first env then (-1, st)
      else
        (let st1 = st\<lparr>po_fs := fs_rename (first_path st) (second_path st) (po_fs st)\<rparr>
         in if \<not> pe_rename_log env then (-1, st1)
            else
              (let st2 = st1\<lparr>po_fs := fs_rename (po_path st) (first_path st) (po_fs st1), po_open := False\<rparr>
               in if \<not> pe_fopen env then (-1, st2)
                  else (0, st2\<lparr>po_fs := fs_append_open (po_path st) (po_fs st2), po_open := True\<rparr>))))"

definition elog_port_set_file :: "string \<Rightarrow> log_port \<Rightarrow> log_port" where
  "elog_port_set_file path st = (if path \<noteq> [] then st\<lparr>po_path := take 255 path\<rparr> else st)"

definition elog_port_init :: "bool \<Rightarrow> log_port \<Rightarrow> bool \<times> log_port" where
  "elog_port_init fopen_ok st =
     (if fopen_ok then (True, st\<lparr>po_fs := fs_append_open (po_path st) (po_fs st), po_open := True\<rparr>)
      else (False, st\<lparr>po_open := False\<rparr>))"

definition elog_port_deinit :: "log_port \<Rightarrow> log_port" where
  "elog_port_deinit st = (if po_open st then st\<lparr>po_open := False\<rparr> else st)"

definition log_failed :: string where
  "log_failed = ''gzh_ipc: log file failed; file logging disabled until restart'' @ [NL]"

definition elog_port_output :: "port_env \<Rightarrow> string \<Rightarrow> log_port \<Rightarrow> log_port" where
  "elog_port_output env line st =
     (let st = st\<lparr>po_stderr := po_stderr st @ line\<rparr>
      in if po_open st then
           (let t = take LOG_FILE_LIMIT line;
                (rc, st1) = prepare_log env (length t) st;
                n = min (length t) (pe_fwrite env)
            in if rc = 0 \<and> n = length t \<and> pe_fflush env then port_append t st1
               else (let st2 = (if rc = 0 then port_append (take (min n (pe_disk env)) t) st1 else st1)
                     in st2\<lparr>po_open := False, po_stderr := po_stderr st2 @ log_failed\<rparr>))
         else st)"

text \<open>The texts of a line's head, from the local time, the process and the thread name.\<close>

record local_time =
  tm_year :: nat
  tm_mon :: nat
  tm_mday :: nat
  tm_hour :: nat
  tm_min :: nat
  tm_sec :: nat
  tm_nsec :: nat

definition elog_port_get_time :: "local_time \<Rightarrow> string" where
  "elog_port_get_time t =
     take 31 (show_pad 4 (tm_year t + 1900) @ ''-'' @ show_pad 2 (tm_mon t + 1) @ ''-'' @ show_pad 2 (tm_mday t) @ '' '' @
       show_pad 2 (tm_hour t) @ '':'' @ show_pad 2 (tm_min t) @ '':'' @ show_pad 2 (tm_sec t) @ ''.'' @
       show_pad 3 (tm_nsec t div 1000000))"

definition elog_port_get_p_info :: "int \<Rightarrow> string" where
  "elog_port_get_p_info pid = take 15 (show_int pid)"

definition elog_port_get_t_info :: "string \<Rightarrow> string" where
  "elog_port_get_t_info name = take 16 name"

section \<open>The logger\<close>

record logger =
  lo_elog :: elog
  lo_buf :: string
  lo_port :: log_port

text \<open>One log call of the program; the configuration has no directory, function and line.\<close>

definition log_call :: "port_info \<Rightarrow> log_site \<Rightarrow> string option \<Rightarrow> port_env \<Rightarrow> logger \<Rightarrow> logger option" where
  "log_call pi c msg env lg =
     (case elog_output pi c msg (lo_elog lg) (lo_buf lg) of
        None \<Rightarrow> None
      | Some (line, e, buf) \<Rightarrow>
          Some \<lparr>lo_elog = e, lo_buf = buf,
                lo_port = (case line of Some l \<Rightarrow> elog_port_output env l (lo_port lg) | None \<Rightarrow> lo_port lg)\<rparr>)"

definition info_site :: log_site where
  "info_site = \<lparr>ls_level = 3, ls_tag = ''NO_TAG'', ls_file = None, ls_func = None, ls_line = 0\<rparr>"

definition elog_start :: "port_info \<Rightarrow> port_env \<Rightarrow> logger \<Rightarrow> logger option" where
  "elog_start pi env lg =
     (if \<not> el_init_ok (lo_elog lg) then Some lg
      else log_call pi info_site (Some ''EasyLogger V2.2.99 is initialize success.'') env
             (lg\<lparr>lo_elog := elog_set_output_enabled True (lo_elog lg)\<rparr>))"

definition elog_stop :: "port_info \<Rightarrow> port_env \<Rightarrow> logger \<Rightarrow> logger option" where
  "elog_stop pi env lg =
     (if \<not> el_init_ok (lo_elog lg) then Some lg
      else log_call pi info_site (Some ''EasyLogger V2.2.99 is deinitialize success.'') env
             (lg\<lparr>lo_elog := elog_set_output_enabled False (lo_elog lg)\<rparr>))"

definition logger_levels :: "nat list" where
  "logger_levels = [1, 2, 3, 4]"

definition logger_configure :: "int \<Rightarrow> elog \<Rightarrow> elog option" where
  "logger_configure level e =
     (let level = (if level < 0 then 0 else level); level = (if level > 3 then 3 else level)
      in elog_set_filter_lvl (logger_levels ! nat level) e)"

definition logger_format :: u32 where
  "logger_format = FMT_LVL OR FMT_TAG OR FMT_TIME OR FMT_P_INFO OR FMT_T_INFO"

fun set_formats :: "nat list \<Rightarrow> elog \<Rightarrow> elog option" where
  "set_formats [] e = Some e"
| "set_formats (l # ls) e = (case elog_set_fmt l logger_format e of None \<Rightarrow> None | Some e' \<Rightarrow> set_formats ls e')"

text \<open>The constructor; \<open>Inl\<close> is its exception.\<close>

definition logger_new ::
  "string \<Rightarrow> bool \<Rightarrow> port_info \<Rightarrow> port_env \<Rightarrow> logger \<Rightarrow> (string + logger) option" where
  "logger_new path fopen_ok pi env lg =
     (let port = elog_port_set_file path (lo_port lg);
          (ok, port) = (if el_init_ok (lo_elog lg) then (True, port) else elog_port_init fopen_ok port)
      in case elog_init ok (lo_elog lg) of
           None \<Rightarrow> None
         | Some (rc, e) \<Rightarrow>
             if rc \<noteq> 0 then Some (Inl ''EasyLogger initialization failed'')
             else
               (case set_formats [0, 1, 2, 3, 4, 5] e of
                  None \<Rightarrow> None
                | Some e \<Rightarrow>
                    (case elog_start pi env (lg\<lparr>lo_elog := e, lo_port := port\<rparr>) of
                       None \<Rightarrow> None
                     | Some lg' \<Rightarrow>
                         map_option (\<lambda>e'. Inr (lg'\<lparr>lo_elog := e'\<rparr>)) (logger_configure 2 (lo_elog lg')))))"

definition logger_delete :: "port_info \<Rightarrow> port_env \<Rightarrow> logger \<Rightarrow> logger option" where
  "logger_delete pi env lg =
     map_option (\<lambda>lg'. if el_init_ok (lo_elog lg')
                       then lg'\<lparr>lo_elog := elog_deinit (lo_elog lg'), lo_port := elog_port_deinit (lo_port lg')\<rparr> else lg')
       (elog_stop pi env lg)"

section \<open>Rotation\<close>

text \<open>The text the three files hold together, oldest first.\<close>

definition log_history :: "log_port \<Rightarrow> string" where
  "log_history st =
     file_text (po_fs st) (second_path st) @ file_text (po_fs st) (first_path st) @ file_text (po_fs st) (po_path st)"

definition log_small :: "log_port \<Rightarrow> bool" where
  "log_small st \<longleftrightarrow>
     length (file_text (po_fs st) (po_path st)) \<le> LOG_FILE_LIMIT \<and>
     length (file_text (po_fs st) (first_path st)) \<le> LOG_FILE_LIMIT \<and>
     length (file_text (po_fs st) (second_path st)) \<le> LOG_FILE_LIMIT"

text \<open>The newer backup is nearly full, so that more than a mebibyte less one line is kept.\<close>

definition backup_full :: "log_port \<Rightarrow> bool" where
  "backup_full st \<longleftrightarrow> LOG_FILE_LIMIT - ELOG_LINE_BUF_SIZE < length (file_text (po_fs st) (first_path st))"

definition other_files_kept :: "log_port \<Rightarrow> log_port \<Rightarrow> bool" where
  "other_files_kept st st' \<longleftrightarrow>
     po_path st' = po_path st \<and>
     (\<forall>p. p \<notin> {po_path st, first_path st, second_path st} \<longrightarrow> po_fs st' p = po_fs st p)"

text \<open>What a step that leaves the file open keeps: all but a dropped beginning, which is dropped only behind a full backup.\<close>

definition history_extends :: "string \<Rightarrow> log_port \<Rightarrow> log_port \<Rightarrow> bool" where
  "history_extends t st st' \<longleftrightarrow>
     (\<exists>d. d @ log_history st' = log_history st @ t \<and> (d = [] \<or> backup_full st')) \<and> (backup_full st \<longrightarrow> backup_full st')"

lemma file_text_simps [simp]:
  "file_text (fs(p \<mapsto> s)) p = s" "p \<noteq> q \<Longrightarrow> file_text (fs(q := v)) p = file_text fs p" "file_text (fs(p := None)) p = []"
  by (simp_all add: file_text_def)

lemma path_simps [simp]:
  "first_path st \<noteq> po_path st" "second_path st \<noteq> po_path st" "first_path st \<noteq> second_path st"
  "po_path st \<noteq> first_path st" "po_path st \<noteq> second_path st" "second_path st \<noteq> first_path st"
  by (simp_all add: first_path_def second_path_def)

lemma path_updates [simp]:
  "first_path (st\<lparr>po_fs := fs\<rparr>) = first_path st" "second_path (st\<lparr>po_fs := fs\<rparr>) = second_path st"
  "first_path (st\<lparr>po_open := b\<rparr>) = first_path st" "second_path (st\<lparr>po_open := b\<rparr>) = second_path st"
  "first_path (st\<lparr>po_stderr := e\<rparr>) = first_path st" "second_path (st\<lparr>po_stderr := e\<rparr>) = second_path st"
  by (simp_all add: first_path_def second_path_def)

lemma history_extends_trans:
  assumes "history_extends t st st'" and "history_extends u st' st''"
  shows "history_extends (t @ u) st st''"
proof -
  from assms obtain d d' where "d @ log_history st' = log_history st @ t" "d = [] \<or> backup_full st'"
    "d' @ log_history st'' = log_history st' @ u" "d' = [] \<or> backup_full st''"
    "backup_full st' \<longrightarrow> backup_full st''" "backup_full st \<longrightarrow> backup_full st'"
    unfolding history_extends_def by blast
  moreover from this have "(d @ d') @ log_history st'' = log_history st @ t @ u"
    by (metis append.assoc)
  ultimately show ?thesis unfolding history_extends_def by blast
qed

lemma history_extends_refl: "history_extends [] st st"
  by (simp add: history_extends_def)

lemma other_files_trans: "other_files_kept st st' \<Longrightarrow> other_files_kept st' st'' \<Longrightarrow> other_files_kept st st''"
  by (auto simp: other_files_kept_def first_path_def second_path_def)

text \<open>The two renames of a rotation.\<close>

lemma rotate_first:
  assumes "log_small st"
  defines "st1 \<equiv> st\<lparr>po_fs := fs_rename (first_path st) (second_path st) (po_fs st)\<rparr>"
  shows "log_small st1" "other_files_kept st st1"
    "\<exists>d. d @ log_history st1 = log_history st" "file_text (po_fs st1) (first_path st) = []"
    "file_text (po_fs st1) (po_path st) = file_text (po_fs st) (po_path st)"
  using assms
  by (cases "po_fs st (first_path st)";
      auto simp: st1_def fs_rename_def log_small_def other_files_kept_def log_history_def file_text_def)+

lemma rotate_log:
  assumes "log_small st" and "file_text (po_fs st) (first_path st) = []"
  defines "st1 \<equiv> st\<lparr>po_fs := fs_rename (po_path st) (first_path st) (po_fs st)\<rparr>"
  shows "log_small st1" "other_files_kept st st1" "log_history st1 = log_history st"
    "file_text (po_fs st1) (po_path st) = []"
    "file_text (po_fs st1) (first_path st) = file_text (po_fs st) (po_path st)"
  using assms
  by (cases "po_fs st (po_path st)";
      auto simp: st1_def fs_rename_def log_small_def other_files_kept_def log_history_def file_text_def)+

lemma small_updates [simp]:
  "log_small (st\<lparr>po_open := b\<rparr>) = log_small st" "log_small (st\<lparr>po_stderr := e\<rparr>) = log_small st"
  "log_history (st\<lparr>po_open := b\<rparr>) = log_history st" "log_history (st\<lparr>po_stderr := e\<rparr>) = log_history st"
  "backup_full (st\<lparr>po_open := b\<rparr>) = backup_full st" "backup_full (st\<lparr>po_stderr := e\<rparr>) = backup_full st"
  "other_files_kept st0 (st\<lparr>po_open := b\<rparr>) = other_files_kept st0 st"
  "other_files_kept st0 (st\<lparr>po_stderr := e\<rparr>) = other_files_kept st0 st"
  "other_files_kept (st\<lparr>po_stderr := e\<rparr>) st1 = other_files_kept st st1"
  by (simp_all add: log_small_def log_history_def backup_full_def other_files_kept_def)

lemma other_files_refl [simp]: "other_files_kept st st"
  by (simp add: other_files_kept_def)

lemma append_open_text [simp]: "file_text (fs_append_open p fs) q = file_text fs q"
  by (simp add: fs_append_open_def file_text_def)

lemma append_open_small [simp]:
  "log_small (st\<lparr>po_fs := fs_append_open (po_path st) (po_fs st)\<rparr>) = log_small st"
  "log_history (st\<lparr>po_fs := fs_append_open (po_path st) (po_fs st)\<rparr>) = log_history st"
  "backup_full (st\<lparr>po_fs := fs_append_open (po_path st) (po_fs st)\<rparr>) = backup_full st"
  by (simp_all add: log_small_def log_history_def backup_full_def)

lemma append_open_kept: "other_files_kept st (st\<lparr>po_fs := fs_append_open (po_path st) (po_fs st)\<rparr>)"
  by (simp add: other_files_kept_def fs_append_open_def)

lemma prepare_log_ok:
  assumes "log_small st" "po_open st" "n \<le> ELOG_LINE_BUF_SIZE" "prepare_log env n st = (rc, st')"
  shows "log_small st'" "other_files_kept st st'" "po_stderr st' = po_stderr st"
    "rc = 0 \<Longrightarrow> po_open st' \<and> length (file_text (po_fs st') (po_path st')) + n \<le> LOG_FILE_LIMIT \<and> history_extends [] st st'"
proof -
  have limit: "n \<le> LOG_FILE_LIMIT" using assms(3) by (simp add: LOG_FILE_LIMIT_def ELOG_LINE_BUF_SIZE_def)
  let ?p = "po_path st"
  define st1 where "st1 = st\<lparr>po_fs := fs_rename (first_path st) (second_path st) (po_fs st)\<rparr>"
  define st2 where "st2 = st1\<lparr>po_fs := fs_rename (po_path st1) (first_path st1) (po_fs st1)\<rparr>"
  define st3 where "st3 = st2\<lparr>po_fs := fs_append_open (po_path st2) (po_fs st2)\<rparr>"
  note one = rotate_first [OF assms(1), folded st1_def]
  have paths: "po_path st1 = po_path st" "po_path st2 = po_path st" "first_path st1 = first_path st"
    by (simp_all add: st1_def st2_def)
  have "file_text (po_fs st1) (first_path st1) = []" using one(4) by (simp add: paths)
  note two = rotate_log [OF one(1) this, folded st2_def]
  have kept: "other_files_kept st st2" "other_files_kept st st3"
    using other_files_trans [OF one(2) two(2)] other_files_trans [OF _ append_open_kept [of st2]] by (auto simp: st3_def)
  have small: "log_small st3" "log_history st3 = log_history st2" "backup_full st3 = backup_full st2"
    using two(1) by (simp_all add: st3_def)
  have empty: "file_text (po_fs st3) ?p = []" using two(4) by (simp add: st3_def paths)
  have full: "backup_full st2" if "\<not> length (file_text (po_fs st) ?p) \<le> LOG_FILE_LIMIT - n"
    using that assms(3) limit two(5) one(5) by (simp add: backup_full_def paths st2_def)
  have prep: "prepare_log env n st =
      (if \<not> pe_fstat env then (-1, st)
       else if length (file_text (po_fs st) ?p) \<le> LOG_FILE_LIMIT - n then (0, st)
       else if \<not> pe_rename_first env then (-1, st)
       else if \<not> pe_rename_log env then (-1, st1)
       else if \<not> pe_fopen env then (-1, st2\<lparr>po_open := False\<rparr>) else (0, st3\<lparr>po_open := True\<rparr>))"
    by (simp add: prepare_log_def Let_def st3_def st2_def st1_def)
  show "log_small st'" "other_files_kept st st'" "po_stderr st' = po_stderr st"
    using assms(1,4) one(1,2) two(1) kept small(1) unfolding prep
    by (auto split: if_splits simp: st3_def st2_def st1_def)
  assume "rc = 0"
  then consider "length (file_text (po_fs st) ?p) \<le> LOG_FILE_LIMIT - n" "st' = st"
    | "\<not> length (file_text (po_fs st) ?p) \<le> LOG_FILE_LIMIT - n" "st' = st3\<lparr>po_open := True\<rparr>"
    using assms(4) unfolding prep by (auto split: if_splits)
  then show "po_open st' \<and> length (file_text (po_fs st') (po_path st')) + n \<le> LOG_FILE_LIMIT \<and> history_extends [] st st'"
  proof cases
    case 1
    with limit assms(2) show ?thesis by (simp add: history_extends_refl)
  next
    case 2
    with full small one(3) two(3) have "history_extends [] st st'"
      by (auto simp: history_extends_def)
    with 2(2) empty limit show ?thesis by (simp add: st3_def paths)
  qed
qed

lemma port_append_ok:
  assumes "log_small st" "length (file_text (po_fs st) (po_path st)) + length t \<le> LOG_FILE_LIMIT"
  shows "log_small (port_append t st)" "other_files_kept st (port_append t st)"
    "history_extends t st (port_append t st)" "po_open (port_append t st) = po_open st"
    "po_stderr (port_append t st) = po_stderr st"
  using assms
  by (auto simp: port_append_def log_small_def other_files_kept_def history_extends_def log_history_def backup_full_def)

text \<open>What holds between two states of the port across any number of lines.\<close>

definition port_goes :: "log_port \<Rightarrow> log_port \<Rightarrow> bool" where
  "port_goes st st' \<longleftrightarrow>
     log_small st' \<and> other_files_kept st st' \<and>
     (po_open st' \<longrightarrow> po_open st \<and> (\<exists>t. po_stderr st' = po_stderr st @ t \<and> history_extends t st st'))"

lemma port_goes_refl: "log_small st \<Longrightarrow> port_goes st st"
  by (simp add: port_goes_def history_extends_refl)

lemma port_goes_trans: "port_goes st st' \<Longrightarrow> port_goes st' st'' \<Longrightarrow> port_goes st st''"
  unfolding port_goes_def by (metis append.assoc history_extends_trans other_files_trans)

lemma port_output_goes:
  assumes "log_small st" "length line \<le> ELOG_LINE_BUF_SIZE"
  shows "port_goes st (elog_port_output env line st)"
proof (cases "po_open st")
  case False
  with assms(1) show ?thesis by (simp add: elog_port_output_def port_goes_def)
next
  case True
  let ?st = "st\<lparr>po_stderr := po_stderr st @ line\<rparr>"
  have t: "take LOG_FILE_LIMIT line = line"
    using assms(2) by (simp add: LOG_FILE_LIMIT_def ELOG_LINE_BUF_SIZE_def)
  obtain rc st1 where prep: "prepare_log env (length line) ?st = (rc, st1)" by fastforce
  have small: "log_small ?st" and opened: "po_open ?st" using assms(1) True by simp_all
  note ok = prepare_log_ok [OF small opened assms(2) prep]
  let ?w = "take (min (min (length line) (pe_fwrite env)) (pe_disk env)) line"
  let ?all = "min (length line) (pe_fwrite env) = length line \<and> pe_fflush env"
  have out: "elog_port_output env line st =
      (if rc = 0 \<and> ?all then port_append line st1
       else let st2 = (if rc = 0 then port_append ?w st1 else st1)
            in st2\<lparr>po_open := False, po_stderr := po_stderr st2 @ log_failed\<rparr>)"
    using True by (simp add: elog_port_output_def t prep Let_def)
  show ?thesis
  proof (cases "rc = 0")
    case False
    with ok(1,2) show ?thesis by (simp add: out port_goes_def)
  next
    case rc: True
    with ok(4) have fits: "po_open st1" "length (file_text (po_fs st1) (po_path st1)) + length line \<le> LOG_FILE_LIMIT"
      "history_extends [] ?st st1" by simp_all
    have some: "length (file_text (po_fs st1) (po_path st1)) + length ?w \<le> LOG_FILE_LIMIT"
      using fits(2) by simp
    show ?thesis
    proof (cases ?all)
      case True
      have "history_extends ([] @ line) ?st (port_append line st1)"
        by (rule history_extends_trans [OF fits(3) port_append_ok(3) [OF ok(1) fits(2)]])
      then have "history_extends line st (port_append line st1)" by (simp add: history_extends_def)
      moreover have "other_files_kept ?st (port_append line st1)"
        by (rule other_files_trans [OF ok(2) port_append_ok(2) [OF ok(1) fits(2)]])
      ultimately show ?thesis
        using rc True fits(1) ok(3) port_append_ok [OF ok(1) fits(2)] \<open>po_open st\<close> by (simp add: out port_goes_def)
    next
      case False
      have "other_files_kept ?st (port_append ?w st1)"
        by (rule other_files_trans [OF ok(2) port_append_ok(2) [OF ok(1) some]])
      moreover have "elog_port_output env line st =
          (port_append ?w st1)\<lparr>po_open := False, po_stderr := po_stderr (port_append ?w st1) @ log_failed\<rparr>"
        by (subst out) (simp only: rc False simp_thms if_True if_False Let_def)
      ultimately show ?thesis using port_append_ok(1) [OF ok(1) some] by (simp add: port_goes_def)
    qed
  qed
qed

section \<open>The logger's files\<close>

lemma log_call_goes:
  assumes "log_small (lo_port lg)" "length (lo_buf lg) = ELOG_LINE_BUF_SIZE" "ls_level c \<le> ELOG_LVL_VERBOSE"
  obtains lg' where "log_call pi c (Some m) env lg = Some lg'" "port_goes (lo_port lg) (lo_port lg')"
    "length (lo_buf lg') = ELOG_LINE_BUF_SIZE"
proof -
  from elog_output_eq [OF assms(2,3), of pi m "lo_elog lg"] obtain line e buf where
    out: "elog_output pi c (Some m) (lo_elog lg) (lo_buf lg) = Some (line, e, buf)" "length buf = ELOG_LINE_BUF_SIZE"
      "line = None \<or> line = Some (line_text (lo_elog lg) pi c m @ [NL])"
    by (auto split: if_splits)
  have "length (line_text (lo_elog lg) pi c m @ [NL]) \<le> ELOG_LINE_BUF_SIZE"
    by (simp add: line_text_def ELOG_LINE_BUF_SIZE_def)
  then have "port_goes (lo_port lg) (case line of Some l \<Rightarrow> elog_port_output env l (lo_port lg) | None \<Rightarrow> lo_port lg)"
    using out(3) port_output_goes [OF assms(1)] port_goes_refl [OF assms(1)] by auto
  with out that show ?thesis by (simp add: log_call_def)
qed

fun log_run :: "(port_info \<times> log_site \<times> string \<times> port_env) list \<Rightarrow> logger \<Rightarrow> logger option" where
  "log_run [] lg = Some lg"
| "log_run ((pi, c, m, env) # cs) lg = (case log_call pi c (Some m) env lg of None \<Rightarrow> None | Some lg' \<Rightarrow> log_run cs lg')"

lemma log_run_goes:
  assumes "log_small (lo_port lg)" "length (lo_buf lg) = ELOG_LINE_BUF_SIZE"
    "list_all (\<lambda>(pi, c, m, env). ls_level c \<le> ELOG_LVL_VERBOSE) cs"
  shows "\<exists>lg'. log_run cs lg = Some lg' \<and> port_goes (lo_port lg) (lo_port lg')"
  using assms
proof (induction cs arbitrary: lg)
  case Nil
  then show ?case by (simp add: port_goes_refl)
next
  case (Cons x cs)
  obtain pi c m env where x: "x = (pi, c, m, env)" by (cases x)
  with Cons.prems have "ls_level c \<le> ELOG_LVL_VERBOSE" by simp
  with Cons.prems log_call_goes [of lg c pi m env] obtain lg1 where
    1: "log_call pi c (Some m) env lg = Some lg1" "port_goes (lo_port lg) (lo_port lg1)" "length (lo_buf lg1) = ELOG_LINE_BUF_SIZE"
    by blast
  then have "log_small (lo_port lg1)" by (simp add: port_goes_def)
  with Cons 1 x obtain lg2 where "log_run cs lg1 = Some lg2" "port_goes (lo_port lg1) (lo_port lg2)" by auto
  with 1 x port_goes_trans show ?case by auto
qed

text \<open>The constructor writes its first line through the same path.\<close>

lemma set_formats_total: "list_all (\<lambda>l. l \<le> ELOG_LVL_VERBOSE) ls \<Longrightarrow> \<exists>e'. set_formats ls e = Some e'"
  by (induction ls arbitrary: e) (auto simp: elog_set_fmt_def)

lemma set_formats_init: "set_formats ls e = Some e' \<Longrightarrow> el_init_ok e' = el_init_ok e"
  by (induction ls arbitrary: e) (auto simp: elog_set_fmt_def split: if_splits)

lemma logger_configure_total: "\<exists>e'. logger_configure level e = Some e'"
proof -
  have "l \<in> {0..3} \<Longrightarrow> logger_levels ! nat l \<le> ELOG_LVL_VERBOSE" for l
    unfolding logger_levels_def ELOG_LVL_VERBOSE_def atLeastAtMost_iff
    by (cases "l = 0"; cases "l = 1"; cases "l = 2"; cases "l = 3") auto
  then have "logger_levels ! nat (if (if level < 0 then 0 else level) > 3 then 3 else if level < 0 then 0 else level)
      \<le> ELOG_LVL_VERBOSE" by simp
  then show ?thesis by (simp add: logger_configure_def elog_set_filter_lvl_def Let_def)
qed

lemma logger_new_goes:
  assumes "\<not> el_init_ok (lo_elog lg)" "log_small (elog_port_set_file path (lo_port lg))" "length (lo_buf lg) = ELOG_LINE_BUF_SIZE"
  defines "p0 \<equiv> elog_port_set_file path (lo_port lg)"
  shows "\<exists>lg'. logger_new path True pi env lg = Some (Inr lg') \<and> port_goes (snd (elog_port_init True p0)) (lo_port lg') \<and>
     length (lo_buf lg') = ELOG_LINE_BUF_SIZE"
proof -
  define port where "port = snd (elog_port_init True p0)"
  have init: "elog_port_init True p0 = (True, port)" by (simp add: port_def elog_port_init_def)
  obtain e1 where e1: "elog_init True (lo_elog lg) = Some (0, e1)" "el_init_ok e1" using elog_init_tags [OF assms(1)] .
  obtain e2 where e2: "set_formats [0, 1, 2, 3, 4, 5] e1 = Some e2"
    using set_formats_total [of "[0, 1, 2, 3, 4, 5]" e1] by (auto simp: ELOG_LVL_VERBOSE_def)
  let ?lg = "lg\<lparr>lo_port := port, lo_elog := elog_set_output_enabled True e2\<rparr>"
  have small: "log_small (lo_port ?lg)" using assms(2) by (simp add: port_def p0_def elog_port_init_def)
  have level: "ls_level info_site \<le> ELOG_LVL_VERBOSE" by (simp add: info_site_def ELOG_LVL_VERBOSE_def)
  have buf: "length (lo_buf ?lg) = ELOG_LINE_BUF_SIZE" using assms(3) by simp
  obtain lg3 where lg3: "log_call pi info_site (Some ''EasyLogger V2.2.99 is initialize success.'') env ?lg = Some lg3"
    "port_goes (lo_port ?lg) (lo_port lg3)" "length (lo_buf lg3) = ELOG_LINE_BUF_SIZE"
    by (rule log_call_goes [OF small buf level])
  obtain e4 where e4: "logger_configure 2 (lo_elog lg3) = Some e4" using logger_configure_total by blast
  have "el_init_ok e2" using set_formats_init [OF e2] e1(2) by simp
  then have start: "elog_start pi env (lg\<lparr>lo_elog := e2, lo_port := port\<rparr>) = Some lg3"
    using lg3(1) by (simp add: elog_start_def)
  have "logger_new path True pi env lg = Some (Inr (lg3\<lparr>lo_elog := e4\<rparr>))"
    unfolding logger_new_def p0_def [symmetric] Let_def
    by (simp add: assms(1) init e1(1) e2 start e4 del: set_formats.simps One_nat_def)
  with lg3 show ?thesis by (simp add: port_def)
qed


definition example_logger :: logger where
  "example_logger =
     \<lparr>lo_elog = example_elog\<lparr>el_init_ok := False\<rparr>, lo_buf = replicate 1024 NUL,
      lo_port = \<lparr>po_path = ''/root/rkipc.log'', po_fs = Map.empty, po_open = False, po_stderr = []\<rparr>\<rparr>"

definition example_io :: port_env where
  "example_io =
     \<lparr>pe_fstat = True, pe_rename_first = True, pe_rename_log = True, pe_fopen = True, pe_fwrite = 4096,
      pe_fflush = False, pe_disk = 3\<rparr>"

definition example_calls :: "(port_info \<times> log_site \<times> string \<times> port_env) list" where
  "example_calls =
     [(example_port, example_site, ''up'', example_io)]"


end
