(* ===== verification/MediaSdk.thy ===== *)
theory MediaSdk
  imports PublisherManager "HOL-Library.Signed_Division" "HOL-Library.Monad_Syntax"
begin

text \<open>
  What the media pipeline of \<^verbatim>\<open>src/media\<close> and \<^verbatim>\<open>src/osd/fps_overlay.cpp\<close> asks of the Rockchip MPI, of the
  threads and of the other components. Every call is logged with its arguments and its result; results are a function
  of the log so far and the call, an argument of the model. The resources the calls acquire and
  release have a use relation, over which a log is checked. A constructor or a part of one is a function that returns
  whether it got to its end (\<open>False\<close> is a thrown exception) and the new state; \<open>None\<close> is the read
  through a NULL configuration value.
\<close>

section \<open>Attributes\<close>

type_synonym i32 = int

record vi_attr =
  via_buf_count :: u32
  via_max_width :: u32
  via_max_height :: u32
  via_width :: u32
  via_height :: u32
  via_depth :: u32
  via_src_rate :: i32
  via_dst_rate :: i32

record rate_common =
  rt_gop :: u32
  rt_bit_rate :: u32
  rt_src_num :: u32
  rt_src_den :: u32
  rt_dst_num :: u32
  rt_dst_den :: u32

text \<open>The four rate-control structures; VBR has a maximum and a minimum rate in addition.\<close>

datatype rate_control =
    H264_cbr rate_common | H264_vbr rate_common u32 u32
  | H265_cbr rate_common | H265_vbr rate_common u32 u32

datatype gop_attr = Gop_normal | Gop_smart i32

record venc_attr =
  vea_hevc :: bool
  vea_profile :: u32
  vea_max_width :: u32
  vea_max_height :: u32
  vea_width :: u32
  vea_height :: u32
  vea_vir_width :: u32
  vea_vir_height :: u32
  vea_stream_buf_cnt :: u32
  vea_buf_size :: u32
  vea_rate :: rate_control
  vea_gop :: gop_attr

record rc_param =
  rcp_hevc :: bool
  rcp_min_qp :: u32
  rcp_frm_min_iqp :: u32
  rcp_frm_min_qp :: u32
  rcp_frm_max_iqp :: u32
  rcp_frm_max_qp :: u32

record rgn_attr =
  rga_width :: u32
  rga_height :: u32

record rgn_channel =
  rgc_x :: i32
  rgc_y :: i32
  rgc_bg_alpha :: u32
  rgc_fg_alpha :: u32
  rgc_layer :: u32
  rgc_lut0 :: u32
  rgc_lut1 :: u32

record ai_attr =
  aia_card :: string
  aia_sample_rate :: i32
  aia_mono :: bool
  aia_pt_per_frm :: u32

record vqe_attr =
  vqa_file :: string
  vqa_sample_rate :: i32
  vqa_frame_sample :: i32

record aenc_attr =
  aea_channels :: u32
  aea_sample_rate :: u32

section \<open>Calls\<close>

datatype mpp_chn = Mpp_vi nat | Mpp_venc nat | Mpp_ai | Mpp_aenc

datatype worker = Main_stream | Ai_stream | Iva_input | Detection_overlay | Fps_update | Audio_capture

datatype vi_call =
    Get_dev_attr | Set_dev_attr | Get_dev_is_enable | Enable_dev | Set_dev_bind_pipe | Disable_dev
  | Vi_set_attr nat vi_attr | Vi_enable nat | Vi_disable nat

datatype venc_call =
    Venc_create nat venc_attr | Venc_get_rc nat | Venc_set_rc nat rc_param | Venc_ref_share nat
  | Venc_start nat | Venc_stop nat | Venc_destroy nat

datatype rgn_call =
    Rgn_create nat rgn_attr | Rgn_attach nat nat rgn_channel | Rgn_detach nat nat | Rgn_destroy nat
  | Rgn_get_canvas nat | Rgn_update_canvas nat

datatype ai_call =
    Ai_pub_attr ai_attr | Ai_enable | Ai_vqe_attr vqe_attr | Ai_enable_vqe | Ai_enable_chn
  | Ai_volume i32 | Ai_track_left | Ai_disable_chn | Ai_disable_vqe | Ai_disable

datatype app_call =
    Isp_init string | Isp_set_from_ini | Isp_deinit | Iva_init | Iva_deinit | Mpi_init | Mpi_exit
  | Publisher_init | Publisher_interrupt | Publisher_deinit

datatype media_call =
    Vi vi_call | Venc venc_call | Rgn rgn_call | Ai ai_call
  | Aenc_create aenc_attr | Aenc_destroy
  | Bind mpp_chn mpp_chn | Unbind mpp_chn mpp_chn
  | Start worker | Join worker
  | App app_call

type_synonym media_log = "(media_call \<times> int) list"

text \<open>Results, whether a canvas is mapped, and the value of \<^verbatim>\<open>RK_ERR_VI_NOT_CONFIG\<close>.\<close>

record media_env =
  me_result :: "media_log \<Rightarrow> media_call \<Rightarrow> int"
  me_mapped :: "media_log \<Rightarrow> bool"
  me_not_config :: int

section \<open>State\<close>

text \<open>One flag for each boolean member, joinable thread and owned pointer of the classes.\<close>

datatype flag =
    Isp | Rockiva | Mpi | Publisher
  | Device | Vi_created nat | Venc_created nat | Bound nat
  | Region nat | Attached nat
  | Thread worker
  | Ai_device | Vqe | Ai_channel | Aenc | Audio_bound

record media_st =
  ms_log :: media_log
  ms_held :: "flag list"
  ms_fps :: bool
  ms_video :: bool
  ms_audio :: bool

definition media_initial :: media_st where
  "media_initial = \<lparr>ms_log = [], ms_held = [], ms_fps = False, ms_video = False, ms_audio = False\<rparr>"

definition held :: "flag \<Rightarrow> media_st \<Rightarrow> bool" where
  "held f st \<longleftrightarrow> f \<in> set (ms_held st)"

type_synonym act = "media_st \<Rightarrow> (bool \<times> media_st) option"

section \<open>Steps\<close>

definition sdk :: "media_env \<Rightarrow> media_call \<Rightarrow> media_st \<Rightarrow> int \<times> media_st" where
  "sdk env c st = (let r = me_result env (ms_log st) c in (r, st\<lparr>ms_log := ms_log st @ [(c, r)]\<rparr>))"

text \<open>\<^verbatim>\<open>require_ok\<close> throws unless the call returns 0; \<open>ignore\<close> is a call whose result is not looked at.\<close>

definition require_ok :: "media_env \<Rightarrow> media_call \<Rightarrow> act" where
  "require_ok env c st = (case sdk env c st of (r, st') \<Rightarrow> Some (r = 0, st'))"

definition ignore :: "media_env \<Rightarrow> media_call \<Rightarrow> act" where
  "ignore env c st = Some (True, snd (sdk env c st))"

definition set_flag :: "flag \<Rightarrow> act" where
  "set_flag f st = Some (True, st\<lparr>ms_held := f # ms_held st\<rparr>)"

fun seqs :: "act list \<Rightarrow> act" where
  "seqs [] st = Some (True, st)"
| "seqs (a # as) st =
     (case a st of None \<Rightarrow> None | Some (ok, st') \<Rightarrow> if ok then seqs as st' else Some (False, st'))"

definition only_if :: "bool \<Rightarrow> act \<Rightarrow> act" where
  "only_if c a st = (if c then a st else Some (True, st))"

text \<open>A step that reads the configuration first.\<close>

definition reading :: "'a option \<Rightarrow> ('a \<Rightarrow> act) \<Rightarrow> act" where
  "reading x f st = (case x of None \<Rightarrow> None | Some v \<Rightarrow> f v st)"

text \<open>A cleanup: if the flag is set, the calls are made, whatever they return, and the flag is cleared.\<close>

definition cleanup :: "media_env \<Rightarrow> flag \<times> media_call list \<Rightarrow> media_st \<Rightarrow> media_st" where
  "cleanup env fc st =
     (case fc of (f, cs) \<Rightarrow>
        if held f st
        then (let st' = fold (\<lambda>c st. snd (sdk env c st)) cs st in st'\<lparr>ms_held := removeAll f (ms_held st')\<rparr>)
        else st)"

definition cleanups :: "media_env \<Rightarrow> (flag \<times> media_call list) list \<Rightarrow> media_st \<Rightarrow> media_st" where
  "cleanups env fcs st = fold (cleanup env) fcs st"

text \<open>A constructor that cleans up and rethrows.\<close>

definition or_cleanup :: "(media_st \<Rightarrow> media_st) \<Rightarrow> act \<Rightarrow> act" where
  "or_cleanup undo a st =
     (case a st of None \<Rightarrow> None | Some (ok, st') \<Rightarrow> if ok then Some (True, st') else Some (False, undo st'))"

section \<open>Configuration\<close>

definition media_key :: "nat \<Rightarrow> string \<Rightarrow> string" where
  "media_key i name = take 63 (''video.'' @ show_nat i @ '':'' @ name)"

definition media_value :: "param_state \<Rightarrow> nat \<Rightarrow> string \<Rightarrow> int \<Rightarrow> int option" where
  "media_value cfg i name fallback = rk_param_get_int cfg (media_key i name) fallback"

definition media_text :: "param_state \<Rightarrow> string \<Rightarrow> string \<Rightarrow> string option" where
  "media_text cfg key fallback = (case rk_param_get_string cfg key (Str fallback) of Str s \<Rightarrow> Some s | _ \<Rightarrow> None)"

definition media_h265 :: "param_state \<Rightarrow> nat \<Rightarrow> bool option" where
  "media_h265 cfg i = map_option (\<lambda>t. t = ''H.265'') (media_text cfg (media_key i ''output_data_type'') ''H.264'')"

end
