(* ===== verification/VideoPipeline.thy ===== *)
theory VideoPipeline
  imports MediaSdk
begin

unbundle bit_operations_syntax

text \<open>
  Construction and shutdown of \<^verbatim>\<open>VideoPipeline\<close> in \<^verbatim>\<open>src/media/video.cpp\<close> and of the \<^verbatim>\<open>FpsOverlay\<close>
  it owns (\<^verbatim>\<open>src/osd/fps_overlay.cpp\<close>), with every attribute the program sets.
\<close>

definition kMain :: nat where "kMain = 0"
definition kAi :: nat where "kAi = 1"
definition kOverlay :: nat where "kOverlay = 7"

section \<open>Attributes\<close>

definition by_id :: "nat \<Rightarrow> int \<Rightarrow> int \<Rightarrow> int" where
  "by_id i main ai = (if i = kMain then main else ai)"

definition vi_attr_of :: "param_state \<Rightarrow> bool \<Rightarrow> nat \<Rightarrow> vi_attr option" where
  "vi_attr_of cfg rockiva i =
     do {
       buffers \<leftarrow> media_value cfg i ''input_buffer_count'' (if i = kAi \<and> rockiva then 3 else 2);
       max_width \<leftarrow> media_value cfg i ''max_width'' (by_id i 1920 640);
       max_height \<leftarrow> media_value cfg i ''max_height'' (by_id i 1080 360);
       width \<leftarrow> media_value cfg i ''width'' (by_id i 1920 640);
       height \<leftarrow> media_value cfg i ''height'' (by_id i 1080 360);
       src \<leftarrow> rk_param_get_int cfg ''isp.0.adjustment:fps'' 25;
       num \<leftarrow> media_value cfg i ''dst_frame_rate_num'' 25;
       den \<leftarrow> media_value cfg i ''dst_frame_rate_den'' 1;
       Some \<lparr>via_buf_count = word_of_int buffers, via_max_width = word_of_int max_width,
             via_max_height = word_of_int max_height, via_width = word_of_int width,
             via_height = word_of_int height, via_depth = (if i = kAi \<and> rockiva then 1 else 0),
             via_src_rate = src, via_dst_rate = num sdiv max 1 den\<rparr>
     }"

definition set_rate :: "param_state \<Rightarrow> nat \<Rightarrow> bool \<Rightarrow> bool \<Rightarrow> rate_control option" where
  "set_rate cfg i use_h265 cbr =
     do {
       src_num \<leftarrow> media_value cfg i ''src_frame_rate_num'' 25;
       src_den \<leftarrow> media_value cfg i ''src_frame_rate_den'' 1;
       dst_num \<leftarrow> media_value cfg i ''dst_frame_rate_num'' 25;
       dst_den \<leftarrow> media_value cfg i ''dst_frame_rate_den'' 1;
       gop \<leftarrow> media_value cfg i ''gop'' 50;
       max_value \<leftarrow> media_value cfg i ''max_rate'' (by_id i 4096 512);
       let max_rate = (word_of_int max_value :: u32);
       let common = (\<lambda>rate. \<lparr>rt_gop = word_of_int gop, rt_bit_rate = rate,
                       rt_src_num = word_of_int src_num, rt_src_den = word_of_int src_den,
                       rt_dst_num = word_of_int dst_num, rt_dst_den = word_of_int dst_den\<rparr>);
       if cbr then Some (if use_h265 then H265_cbr (common max_rate) else H264_cbr (common max_rate))
       else do {
         mid \<leftarrow> media_value cfg i ''mid_rate'' (uint (max_rate div 2));
         low \<leftarrow> media_value cfg i ''min_rate'' 0;
         Some ((if use_h265 then H265_vbr else H264_vbr) (common (word_of_int mid)) max_rate (word_of_int low))
       }
     }"

definition profile_idc :: "string \<Rightarrow> u32" where
  "profile_idc profile = (if profile = ''baseline'' then 66 else if profile = ''main'' then 77 else 100)"

definition venc_attr_of :: "param_state \<Rightarrow> nat \<Rightarrow> venc_attr option" where
  "venc_attr_of cfg i =
     do {
       use_h265 \<leftarrow> media_h265 cfg i;
       profile \<leftarrow> (if use_h265 then Some 0
                   else map_option profile_idc (media_text cfg (media_key i ''h264_profile'') ''high''));
       max_width \<leftarrow> media_value cfg i ''max_width'' (by_id i 1920 640);
       max_height \<leftarrow> media_value cfg i ''max_height'' (by_id i 1080 360);
       width_value \<leftarrow> media_value cfg i ''width'' (by_id i 1920 640);
       height_value \<leftarrow> media_value cfg i ''height'' (by_id i 1080 360);
       let width = (word_of_int width_value :: u32);
       let height = (word_of_int height_value :: u32);
       buffers \<leftarrow> media_value cfg i ''buffer_count'' 4;
       buf_size \<leftarrow> media_value cfg i ''buffer_size'' (sint (width * height));
       mode \<leftarrow> media_text cfg (media_key i ''rc_mode'') ''CBR'';
       rate \<leftarrow> set_rate cfg i use_h265 (mode = ''CBR'');
       gop_mode \<leftarrow> media_text cfg (media_key i ''gop_mode'') ''normalP'';
       gop \<leftarrow> (if gop_mode = ''smartP'' then map_option Gop_smart (media_value cfg i ''smartp_viridrlen'' 25)
               else Some Gop_normal);
       Some \<lparr>vea_hevc = use_h265, vea_profile = profile, vea_max_width = word_of_int max_width,
             vea_max_height = word_of_int max_height, vea_width = width, vea_height = height,
             vea_vir_width = width, vea_vir_height = height, vea_stream_buf_cnt = word_of_int buffers,
             vea_buf_size = word_of_int buf_size, vea_rate = rate, vea_gop = gop\<rparr>
     }"

definition min_qp :: "string \<Rightarrow> u32" where
  "min_qp quality =
     (if quality = ''highest'' then 10 else if quality = ''higher'' then 15 else if quality = ''high'' then 20
      else if quality = ''medium'' then 25 else if quality = ''low'' then 30 else if quality = ''lower'' then 35 else 40)"

definition rc_param_of :: "param_state \<Rightarrow> nat \<Rightarrow> bool \<Rightarrow> u32 \<Rightarrow> rc_param option" where
  "rc_param_of cfg i use_h265 qp =
     do {
       min_i \<leftarrow> media_value cfg i ''frame_min_i_qp'' 26;
       min_p \<leftarrow> media_value cfg i ''frame_min_qp'' 28;
       max_i \<leftarrow> media_value cfg i ''frame_max_i_qp'' 51;
       max_p \<leftarrow> media_value cfg i ''frame_max_qp'' 51;
       Some \<lparr>rcp_hevc = use_h265, rcp_min_qp = qp, rcp_frm_min_iqp = word_of_int min_i, rcp_frm_min_qp = word_of_int min_p,
             rcp_frm_max_iqp = word_of_int max_i, rcp_frm_max_qp = word_of_int max_p\<rparr>
     }"

text \<open>\<^verbatim>\<open>(n + 15) & ~15\<close> of an int.\<close>

definition align16 :: "int \<Rightarrow> int" where
  "align16 n = (n + 15) AND NOT 15"

definition overlay_attr_of :: "param_state \<Rightarrow> rgn_attr option" where
  "overlay_attr_of cfg =
     do {
       width \<leftarrow> media_value cfg kAi ''width'' 640;
       height \<leftarrow> media_value cfg kAi ''height'' 360;
       Some \<lparr>rga_width = word_of_int (align16 width), rga_height = word_of_int (align16 height)\<rparr>
     }"

definition overlay_channel :: rgn_channel where
  "overlay_channel = \<lparr>rgc_x = 0, rgc_y = 0, rgc_bg_alpha = 0, rgc_fg_alpha = 255, rgc_layer = 7,
     rgc_lut0 = 0xFF0000, rgc_lut1 = 0x0000FF\<rparr>"

section \<open>The frame-rate overlay\<close>

definition fps_channel :: "nat \<Rightarrow> rgn_channel" where
  "fps_channel i = \<lparr>rgc_x = 16, rgc_y = 16, rgc_bg_alpha = 0, rgc_fg_alpha = 255, rgc_layer = of_nat i,
     rgc_lut0 = 0x000000, rgc_lut1 = 0xffffff\<rparr>"

definition fps_create :: "media_env \<Rightarrow> nat \<Rightarrow> act" where
  "fps_create env i =
     seqs [require_ok env (Rgn (Rgn_create i \<lparr>rga_width = 128, rga_height = 32\<rparr>)),
           set_flag (Region i),
           require_ok env (Rgn (Rgn_attach i i (fps_channel i))),
           set_flag (Attached i)]"

text \<open>A failing update only logs.\<close>

definition fps_update :: "media_env \<Rightarrow> nat \<Rightarrow> act" where
  "fps_update env i st =
     (let mapped = me_mapped env (ms_log st); (r, st') = sdk env (Rgn (Rgn_get_canvas i)) st
      in if r = 0 \<and> mapped then ignore env (Rgn (Rgn_update_canvas i)) st' else Some (True, st'))"

definition fps_cleanups :: "(flag \<times> media_call list) list" where
  "fps_cleanups =
     [(Thread Fps_update, [Join Fps_update]),
      (Attached 1, [Rgn (Rgn_detach 1 1)]), (Region 1, [Rgn (Rgn_destroy 1)]),
      (Attached 0, [Rgn (Rgn_detach 0 0)]), (Region 0, [Rgn (Rgn_destroy 0)])]"

definition fps_stop :: "media_env \<Rightarrow> media_st \<Rightarrow> media_st" where
  "fps_stop env st = cleanups env fps_cleanups st"

definition fps_new :: "media_env \<Rightarrow> act" where
  "fps_new env =
     or_cleanup (fps_stop env)
       (seqs [fps_create env 0, fps_create env 1, fps_update env 0, fps_update env 1,
              require_ok env (Start Fps_update), set_flag (Thread Fps_update)])"

section \<open>Channels\<close>

definition init_device :: "media_env \<Rightarrow> act" where
  "init_device env st =
     (let (r, st1) = sdk env (Vi Get_dev_attr) st
      in seqs [only_if (r = me_not_config env) (require_ok env (Vi Set_dev_attr)),
               (\<lambda>st. let (enabled, st') = sdk env (Vi Get_dev_is_enable) st
                     in only_if (enabled \<noteq> 0)
                          (seqs [require_ok env (Vi Enable_dev), require_ok env (Vi Set_dev_bind_pipe)]) st'),
               set_flag Device] st1)"

definition create_vi :: "media_env \<Rightarrow> param_state \<Rightarrow> bool \<Rightarrow> nat \<Rightarrow> act" where
  "create_vi env cfg rockiva i =
     reading (vi_attr_of cfg rockiva i) (\<lambda>attr.
       seqs [require_ok env (Vi (Vi_set_attr i attr)), require_ok env (Vi (Vi_enable i)), set_flag (Vi_created i)])"

definition apply_quality :: "media_env \<Rightarrow> param_state \<Rightarrow> nat \<Rightarrow> bool \<Rightarrow> act" where
  "apply_quality env cfg i use_h265 =
     reading (media_text cfg (media_key i ''rc_quality'') ''high'') (\<lambda>quality.
       seqs [require_ok env (Venc (Venc_get_rc i)),
             reading (rc_param_of cfg i use_h265 (min_qp quality)) (\<lambda>rc. require_ok env (Venc (Venc_set_rc i rc)))])"

definition create_venc :: "media_env \<Rightarrow> param_state \<Rightarrow> nat \<Rightarrow> act" where
  "create_venc env cfg i =
     reading (venc_attr_of cfg i) (\<lambda>attr.
       seqs [require_ok env (Venc (Venc_create i attr)), set_flag (Venc_created i),
             apply_quality env cfg i (vea_hevc attr),
             reading (media_value cfg i ''enable_refer_buffer_share'' 1) (\<lambda>share.
               only_if (share \<noteq> 0) (require_ok env (Venc (Venc_ref_share i)))),
             require_ok env (Venc (Venc_start i))])"

definition bind_video :: "media_env \<Rightarrow> nat \<Rightarrow> act" where
  "bind_video env i = seqs [require_ok env (Bind (Mpp_vi i) (Mpp_venc i)), set_flag (Bound i)]"

definition create_overlay :: "media_env \<Rightarrow> param_state \<Rightarrow> act" where
  "create_overlay env cfg =
     reading (overlay_attr_of cfg) (\<lambda>attr.
       seqs [require_ok env (Rgn (Rgn_create kOverlay attr)), set_flag (Region kOverlay),
             require_ok env (Rgn (Rgn_attach kOverlay kAi overlay_channel)), set_flag (Attached kOverlay)])"

definition set_fps :: "bool \<Rightarrow> act" where
  "set_fps b st = Some (True, st\<lparr>ms_fps := b\<rparr>)"

definition initialize_channels :: "media_env \<Rightarrow> param_state \<Rightarrow> bool \<Rightarrow> act" where
  "initialize_channels env cfg rockiva =
     seqs [init_device env, create_vi env cfg rockiva kMain, create_vi env cfg rockiva kAi,
           create_venc env cfg kMain, create_venc env cfg kAi, bind_video env kMain, bind_video env kAi,
           only_if rockiva (create_overlay env cfg),
           reading (rk_param_get_int cfg ''osd:enable_fps'' 1) (\<lambda>fps.
             only_if (fps \<noteq> 0) (seqs [fps_new env, set_fps True]))]"

definition start_worker :: "media_env \<Rightarrow> worker \<Rightarrow> act" where
  "start_worker env w = seqs [require_ok env (Start w), set_flag (Thread w)]"

definition start_workers :: "media_env \<Rightarrow> bool \<Rightarrow> act" where
  "start_workers env rockiva =
     seqs [start_worker env Main_stream, start_worker env Ai_stream,
           only_if rockiva (seqs [start_worker env Iva_input, start_worker env Detection_overlay])]"

section \<open>Shutdown\<close>

definition worker_cleanups :: "(flag \<times> media_call list) list" where
  "worker_cleanups = map (\<lambda>w. (Thread w, [Join w])) [Iva_input, Detection_overlay, Main_stream, Ai_stream]"

definition channel_cleanups :: "nat \<Rightarrow> (flag \<times> media_call list) list" where
  "channel_cleanups i =
     [(Bound i, [Unbind (Mpp_vi i) (Mpp_venc i)]),
      (Venc_created i, [Venc (Venc_stop i), Venc (Venc_destroy i)]),
      (Vi_created i, [Vi (Vi_disable i)])]"

definition hardware_cleanups :: "(flag \<times> media_call list) list" where
  "hardware_cleanups =
     [(Attached kOverlay, [Rgn (Rgn_detach kOverlay kAi)]), (Region kOverlay, [Rgn (Rgn_destroy kOverlay)])] @
     channel_cleanups kAi @ channel_cleanups kMain @ [(Device, [Vi Disable_dev])]"

definition video_shutdown :: "media_env \<Rightarrow> media_st \<Rightarrow> media_st" where
  "video_shutdown env st =
     (let st1 = cleanups env worker_cleanups st;
          st2 = (if ms_fps st1 then (fps_stop env st1)\<lparr>ms_fps := False\<rparr> else st1)
      in cleanups env hardware_cleanups st2)"

definition video_new :: "media_env \<Rightarrow> param_state \<Rightarrow> act" where
  "video_new env cfg =
     or_cleanup (video_shutdown env)
       (reading (rk_param_get_int cfg ''video.source:enable_npu'' 1) (\<lambda>npu.
          seqs [initialize_channels env cfg (npu \<noteq> 0), start_workers env (npu \<noteq> 0)]))"

end
