(* ===== verification/MediaPipeline.thy ===== *)
theory MediaPipeline
  imports VideoPipeline
begin

text \<open>
  Construction and shutdown of \<^verbatim>\<open>AudioPipeline\<close> (\<^verbatim>\<open>src/media/audio.cpp\<close>) and of \<^verbatim>\<open>MediaPipeline\<close>
  (\<^verbatim>\<open>src/media/media.cpp\<close>), which owns the video and audio pipelines and the publisher.
\<close>

section \<open>Audio\<close>

definition audio_value :: "param_state \<Rightarrow> string \<Rightarrow> int \<Rightarrow> int option" where
  "audio_value cfg name fallback = rk_param_get_int cfg (''audio.0:'' @ name) fallback"

definition audio_text :: "param_state \<Rightarrow> string \<Rightarrow> string \<Rightarrow> string option" where
  "audio_text cfg name fallback = media_text cfg (''audio.0:'' @ name) fallback"

definition validate_configuration :: "param_state \<Rightarrow> act" where
  "validate_configuration cfg =
     reading (audio_text cfg ''encode_type'' ''G711A'') (\<lambda>codec st. Some (codec = ''G711A'', st))"

text \<open>\<^verbatim>\<open>snprintf\<close> into the name and file buffers of the SDK, whose sizes are parameters.\<close>

definition ai_attr_of :: "nat \<Rightarrow> param_state \<Rightarrow> ai_attr option" where
  "ai_attr_of name_size cfg =
     do {
       card \<leftarrow> audio_text cfg ''card_name'' ''hw:0,0'';
       rate \<leftarrow> audio_value cfg ''sample_rate'' 8000;
       channels \<leftarrow> audio_value cfg ''channels'' 1;
       frame \<leftarrow> audio_value cfg ''frame_size'' 1152;
       Some \<lparr>aia_card = take (name_size - 1) card, aia_sample_rate = rate, aia_mono = (channels = 1),
             aia_pt_per_frm = word_of_int frame\<rparr>
     }"

definition vqe_attr_of :: "nat \<Rightarrow> param_state \<Rightarrow> int \<Rightarrow> vqe_attr option" where
  "vqe_attr_of file_size cfg rate =
     do {
       file \<leftarrow> audio_text cfg ''vqe_cfg'' ''/oem/usr/share/vqefiles/config_aivqe.json'';
       Some \<lparr>vqa_file = take (file_size - 1) file, vqa_sample_rate = rate, vqa_frame_sample = rate * 16 sdiv 1000\<rparr>
     }"

record audio_sizes =
  as_card :: nat
  as_vqe_file :: nat

definition initialize_audio_input :: "media_env \<Rightarrow> audio_sizes \<Rightarrow> param_state \<Rightarrow> act" where
  "initialize_audio_input env sizes cfg =
     reading (ai_attr_of (as_card sizes) cfg) (\<lambda>ai.
       seqs [require_ok env (Ai (Ai_pub_attr ai)), require_ok env (Ai Ai_enable), set_flag Ai_device,
             reading (audio_value cfg ''enable_vqe'' 1) (\<lambda>vqe.
               only_if (vqe \<noteq> 0)
                 (reading (vqe_attr_of (as_vqe_file sizes) cfg (aia_sample_rate ai)) (\<lambda>attr.
                    seqs [require_ok env (Ai (Ai_vqe_attr attr)), require_ok env (Ai Ai_enable_vqe), set_flag Vqe]))),
             require_ok env (Ai Ai_enable_chn), set_flag Ai_channel,
             reading (audio_value cfg ''volume'' 50) (\<lambda>volume. ignore env (Ai (Ai_volume volume))),
             reading (audio_value cfg ''channels'' 1) (\<lambda>channels. only_if (channels = 1) (ignore env (Ai Ai_track_left)))])"

definition create_encoder :: "media_env \<Rightarrow> param_state \<Rightarrow> act" where
  "create_encoder env cfg =
     reading (do { channels \<leftarrow> audio_value cfg ''channels'' 1; rate \<leftarrow> audio_value cfg ''sample_rate'' 8000;
                   Some \<lparr>aea_channels = word_of_int channels, aea_sample_rate = word_of_int rate\<rparr> })
       (\<lambda>attr. seqs [require_ok env (Aenc_create attr), set_flag Aenc])"

definition bind_input_to_encoder :: "media_env \<Rightarrow> act" where
  "bind_input_to_encoder env = seqs [require_ok env (Bind Mpp_ai Mpp_aenc), set_flag Audio_bound]"

definition audio_cleanups :: "(flag \<times> media_call list) list" where
  "audio_cleanups =
     [(Thread Audio_capture, [Join Audio_capture]), (Audio_bound, [Unbind Mpp_ai Mpp_aenc]), (Aenc, [Aenc_destroy]),
      (Ai_channel, [Ai Ai_disable_chn]), (Vqe, [Ai Ai_disable_vqe]), (Ai_device, [Ai Ai_disable])]"

definition audio_shutdown :: "media_env \<Rightarrow> media_st \<Rightarrow> media_st" where
  "audio_shutdown env st = cleanups env audio_cleanups st"

definition audio_new :: "media_env \<Rightarrow> audio_sizes \<Rightarrow> param_state \<Rightarrow> act" where
  "audio_new env sizes cfg =
     or_cleanup (audio_shutdown env)
       (seqs [validate_configuration cfg, initialize_audio_input env sizes cfg, create_encoder env cfg,
              bind_input_to_encoder env, start_worker env Audio_capture])"

section \<open>The pipeline\<close>

definition initialize_isp :: "media_env \<Rightarrow> param_state \<Rightarrow> string \<Rightarrow> act" where
  "initialize_isp env cfg iq_dir =
     reading (rk_param_get_int cfg ''video.source:enable_aiq'' 1) (\<lambda>aiq.
       only_if (aiq \<noteq> 0)
         (seqs [require_ok env (App (Isp_init iq_dir)), set_flag Isp,
                reading (rk_param_get_int cfg ''isp:init_form_ini'' 1) (\<lambda>ini.
                  only_if (ini \<noteq> 0) (require_ok env (App Isp_set_from_ini)))]))"

definition initialize_rockiva :: "media_env \<Rightarrow> param_state \<Rightarrow> act" where
  "initialize_rockiva env cfg =
     reading (rk_param_get_int cfg ''video.source:enable_npu'' 1) (\<lambda>npu.
       only_if (npu \<noteq> 0) (seqs [require_ok env (App Iva_init), set_flag Rockiva]))"

definition initialize_mpi :: "media_env \<Rightarrow> act" where
  "initialize_mpi env = seqs [require_ok env (App Mpi_init), set_flag Mpi]"

definition initialize_publisher :: "media_env \<Rightarrow> act" where
  "initialize_publisher env = seqs [require_ok env (App Publisher_init), set_flag Publisher]"

definition set_video :: "bool \<Rightarrow> act" where
  "set_video b st = Some (True, st\<lparr>ms_video := b\<rparr>)"

definition set_audio :: "bool \<Rightarrow> act" where
  "set_audio b st = Some (True, st\<lparr>ms_audio := b\<rparr>)"

definition initialize_capture :: "media_env \<Rightarrow> audio_sizes \<Rightarrow> param_state \<Rightarrow> act" where
  "initialize_capture env sizes cfg =
     seqs [video_new env cfg, set_video True,
           reading (rk_param_get_int cfg ''audio.0:enable'' 1) (\<lambda>audio.
             only_if (audio \<noteq> 0) (seqs [audio_new env sizes cfg, set_audio True]))]"

definition media_shutdown :: "media_env \<Rightarrow> media_st \<Rightarrow> media_st" where
  "media_shutdown env st =
     (let st = (if held Publisher st then snd (sdk env (App Publisher_interrupt) st) else st);
          st = (if ms_video st then (video_shutdown env st)\<lparr>ms_video := False\<rparr> else st);
          st = cleanups env [(Isp, [App Isp_deinit])] st;
          st = (if ms_audio st then (audio_shutdown env st)\<lparr>ms_audio := False\<rparr> else st)
      in cleanups env [(Publisher, [App Publisher_deinit]), (Mpi, [App Mpi_exit]), (Rockiva, [App Iva_deinit])] st)"

definition media_new :: "media_env \<Rightarrow> audio_sizes \<Rightarrow> param_state \<Rightarrow> string \<Rightarrow> act" where
  "media_new env sizes cfg iq_dir =
     or_cleanup (media_shutdown env)
       (seqs [initialize_isp env cfg iq_dir, initialize_rockiva env cfg, initialize_mpi env,
              initialize_publisher env, initialize_capture env sizes cfg])"

text \<open>The whole life of the runtime: construction, and destruction if it succeeded.\<close>

definition media_lifetime :: "media_env \<Rightarrow> audio_sizes \<Rightarrow> param_state \<Rightarrow> string \<Rightarrow> (bool \<times> media_st) option" where
  "media_lifetime env sizes cfg iq_dir =
     (case media_new env sizes cfg iq_dir media_initial of
        None \<Rightarrow> None
      | Some (ok, st) \<Rightarrow> Some (ok, if ok then media_shutdown env st else st))"

end
