(* ===== verification/MediaProtocol.thy ===== *)
theory MediaProtocol
  imports MediaPipeline
begin

text \<open>
  The protocol the media pipeline keeps with the hardware: a resource is acquired only while what it
  needs is there, and released, exactly once, only when nothing uses it any more. The protocol is
  a check of the log; the pipeline's construction, failed construction and shutdown are
  shown to pass it for all results of the calls.
\<close>

section \<open>The protocol\<close>

fun needs :: "flag \<Rightarrow> flag list" where
  "needs Device = [Mpi]"
| "needs (Vi_created i) = [Device]"
| "needs (Venc_created i) = [Mpi]"
| "needs (Bound i) = [Vi_created i, Venc_created i]"
| "needs (Region r) = [Mpi]"
| "needs (Attached r) = [Region r, Venc_created (if r = 7 then 1 else r)]"
| "needs (Thread Main_stream) = [Bound 0, Publisher]"
| "needs (Thread Ai_stream) = [Bound 1, Publisher]"
| "needs (Thread Iva_input) = [Vi_created 1, Rockiva]"
| "needs (Thread Detection_overlay) = [Attached 7, Rockiva]"
| "needs (Thread Fps_update) = [Attached 0, Attached 1]"
| "needs (Thread Audio_capture) = [Audio_bound, Publisher]"
| "needs Ai_device = [Mpi]"
| "needs Vqe = [Ai_device]"
| "needs Ai_channel = [Ai_device]"
| "needs Aenc = [Mpi]"
| "needs Audio_bound = [Ai_channel, Aenc]"
| "needs _ = []"

text \<open>What a resource uses besides if it is there: the tuned sensor, the voice processing, the frame counters.\<close>

fun may_use :: "flag \<Rightarrow> flag list" where
  "may_use Device = [Isp]"
| "may_use Ai_channel = [Vqe]"
| "may_use (Thread Main_stream) = [Thread Fps_update]"
| "may_use (Thread Ai_stream) = [Thread Fps_update]"
| "may_use _ = []"

definition uses :: "flag \<Rightarrow> flag list" where
  "uses g = needs g @ may_use g"

fun acquires :: "media_call \<Rightarrow> flag option" where
  "acquires (Vi Get_dev_is_enable) = Some Device"
| "acquires (Vi Enable_dev) = Some Device"
| "acquires (Vi (Vi_enable i)) = Some (Vi_created i)"
| "acquires (Venc (Venc_create i a)) = Some (Venc_created i)"
| "acquires (Rgn (Rgn_create r a)) = Some (Region r)"
| "acquires (Rgn (Rgn_attach r i a)) = Some (Attached r)"
| "acquires (Ai Ai_enable) = Some Ai_device"
| "acquires (Ai Ai_enable_vqe) = Some Vqe"
| "acquires (Ai Ai_enable_chn) = Some Ai_channel"
| "acquires (Aenc_create a) = Some Aenc"
| "acquires (Bind (Mpp_vi i) t) = Some (Bound i)"
| "acquires (Bind Mpp_ai t) = Some Audio_bound"
| "acquires (Start w) = Some (Thread w)"
| "acquires (App (Isp_init d)) = Some Isp"
| "acquires (App Iva_init) = Some Rockiva"
| "acquires (App Mpi_init) = Some Mpi"
| "acquires (App Publisher_init) = Some Publisher"
| "acquires _ = None"

fun releases :: "media_call \<Rightarrow> flag option" where
  "releases (Vi Disable_dev) = Some Device"
| "releases (Vi (Vi_disable i)) = Some (Vi_created i)"
| "releases (Venc (Venc_destroy i)) = Some (Venc_created i)"
| "releases (Rgn (Rgn_destroy r)) = Some (Region r)"
| "releases (Rgn (Rgn_detach r i)) = Some (Attached r)"
| "releases (Ai Ai_disable) = Some Ai_device"
| "releases (Ai Ai_disable_vqe) = Some Vqe"
| "releases (Ai Ai_disable_chn) = Some Ai_channel"
| "releases Aenc_destroy = Some Aenc"
| "releases (Unbind (Mpp_vi i) t) = Some (Bound i)"
| "releases (Unbind Mpp_ai t) = Some Audio_bound"
| "releases (Join w) = Some (Thread w)"
| "releases (App Isp_deinit) = Some Isp"
| "releases (App Iva_deinit) = Some Rockiva"
| "releases (App Mpi_exit) = Some Mpi"
| "releases (App Publisher_deinit) = Some Publisher"
| "releases _ = None"

text \<open>What the other calls work on.\<close>

fun works_on :: "media_call \<Rightarrow> flag list" where
  "works_on (Vi Get_dev_attr) = [Mpi]"
| "works_on (Vi Set_dev_attr) = [Mpi]"
| "works_on (Vi Set_dev_bind_pipe) = [Device]"
| "works_on (Vi (Vi_set_attr i a)) = [Device]"
| "works_on (Venc (Venc_get_rc i)) = [Venc_created i]"
| "works_on (Venc (Venc_set_rc i p)) = [Venc_created i]"
| "works_on (Venc (Venc_ref_share i)) = [Venc_created i]"
| "works_on (Venc (Venc_start i)) = [Venc_created i]"
| "works_on (Venc (Venc_stop i)) = [Venc_created i]"
| "works_on (Rgn (Rgn_get_canvas r)) = [Region r]"
| "works_on (Rgn (Rgn_update_canvas r)) = [Region r]"
| "works_on (Ai (Ai_pub_attr a)) = [Mpi]"
| "works_on (Ai (Ai_vqe_attr a)) = [Ai_device]"
| "works_on (Ai (Ai_volume v)) = [Ai_channel]"
| "works_on (Ai Ai_track_left) = [Ai_device]"
| "works_on (App Isp_set_from_ini) = [Isp]"
| "works_on (App Publisher_interrupt) = [Publisher]"
| "works_on _ = []"

text \<open>The resources there are after a call, or \<open>None\<close> if it breaks the protocol.\<close>

definition after_call :: "media_call \<times> int \<Rightarrow> flag list \<Rightarrow> flag list option" where
  "after_call cr live =
     (case cr of (c, r) \<Rightarrow>
        if \<not> list_all (\<lambda>f. f \<in> set live) (works_on c) then None
        else case releases c of
          Some f \<Rightarrow> if f \<in> set live \<and> list_all (\<lambda>g. f \<notin> set (uses g)) live then Some (removeAll f live) else None
        | None \<Rightarrow>
            (case acquires c of
               None \<Rightarrow> Some live
             | Some f \<Rightarrow>
                 if f \<in> set live \<or> \<not> list_all (\<lambda>g. g \<in> set live) (needs f) then None
                 else Some (if r = 0 then f # live else live)))"

fun live_after :: "media_log \<Rightarrow> flag list \<Rightarrow> flag list option" where
  "live_after [] live = Some live"
| "live_after (cr # log) live = (case after_call cr live of None \<Rightarrow> None | Some live' \<Rightarrow> live_after log live')"

lemma live_after_append:
  "live_after (xs @ ys) live = (case live_after xs live of None \<Rightarrow> None | Some l \<Rightarrow> live_after ys l)"
  by (induction xs arbitrary: live) (auto split: option.splits)

section \<open>Good states\<close>

text \<open>The log keeps the protocol, and what is live is what the flags say.\<close>

definition good :: "flag set \<Rightarrow> media_st \<Rightarrow> bool" where
  "good H st \<longleftrightarrow> (\<exists>live. live_after (ms_log st) [] = Some live \<and> set live = H) \<and> set (ms_held st) = H"

definition owners :: "media_st \<Rightarrow> bool \<times> bool \<times> bool" where
  "owners st = (ms_fps st, ms_video st, ms_audio st)"

definition st_is :: "flag set \<Rightarrow> bool \<times> bool \<times> bool \<Rightarrow> media_st \<Rightarrow> bool" where
  "st_is H own st \<longleftrightarrow> good H st \<and> owners st = own"

text \<open>Partial correctness of a step: \<open>Q\<close> where it goes on, \<open>R\<close> where it throws.\<close>

definition triple :: "(media_st \<Rightarrow> bool) \<Rightarrow> act \<Rightarrow> (media_st \<Rightarrow> bool) \<Rightarrow> (media_st \<Rightarrow> bool) \<Rightarrow> bool" where
  "triple P a Q R \<longleftrightarrow>
     (\<forall>st. P st \<longrightarrow> (case a st of None \<Rightarrow> True | Some (ok, st') \<Rightarrow> if ok then Q st' else R st'))"

named_theorems triple_rules "proof rules for the steps of a constructor"

lemma triple_weaken:
  assumes "triple P a Q R" "\<And>st. P' st \<Longrightarrow> P st" "\<And>st. Q st \<Longrightarrow> Q' st" "\<And>st. R st \<Longrightarrow> R' st"
  shows "triple P' a Q' R'"
  unfolding triple_def
proof (intro allI impI)
  fix st
  assume "P' st"
  then have "case a st of None \<Rightarrow> True | Some (ok, st') \<Rightarrow> if ok then Q st' else R st'"
    using assms(1,2) by (auto simp: triple_def)
  then show "case a st of None \<Rightarrow> True | Some (ok, st') \<Rightarrow> if ok then Q' st' else R' st'"
    using assms(3,4) by (auto split: option.splits)
qed

lemma triple_Nil [triple_rules]: "triple P (seqs []) P R"
  by (simp add: triple_def)

lemma triple_Cons [triple_rules]:
  assumes "triple P a Q R" "triple Q (seqs as) Q' R"
  shows "triple P (seqs (a # as)) Q' R"
  unfolding triple_def
proof (intro allI impI)
  fix st
  assume "P st"
  with assms(1) have 1: "case a st of None \<Rightarrow> True | Some (ok, st') \<Rightarrow> if ok then Q st' else R st'" by (simp add: triple_def)
  show "case seqs (a # as) st of None \<Rightarrow> True | Some (ok, st') \<Rightarrow> if ok then Q' st' else R st'"
  proof (cases "a st")
    case (Some x)
    obtain ok st' where x: "x = (ok, st')" by fastforce
    show ?thesis
    proof (cases ok)
      case True
      with 1 Some x have "Q st'" by simp
      with assms(2) Some x True show ?thesis by (simp add: triple_def)
    qed (use 1 Some x in simp)
  qed simp
qed

lemma triple_only_if: "(c \<Longrightarrow> triple P a Q R) \<Longrightarrow> (\<not> c \<Longrightarrow> (\<And>st. P st \<Longrightarrow> Q st)) \<Longrightarrow> triple P (only_if c a) Q R"
  by (cases c) (simp_all add: triple_def only_if_def)

lemma triple_reading [triple_rules]: "(\<And>v. triple P (f v) Q R) \<Longrightarrow> triple P (reading x f) Q R"
  by (cases x) (simp_all add: triple_def reading_def)

lemma triple_ex: "(\<And>x. triple (P x) a Q R) \<Longrightarrow> triple (\<lambda>st. \<exists>x. P x st) a Q R"
  unfolding triple_def by blast

lemma triple_or_cleanup:
  assumes "triple P a Q R" "\<And>st. R st \<Longrightarrow> R' (undo st)"
  shows "triple P (or_cleanup undo a) Q R'"
  unfolding triple_def
proof (intro allI impI)
  fix st
  assume "P st"
  with assms(1) have "case a st of None \<Rightarrow> True | Some (ok, st') \<Rightarrow> if ok then Q st' else R st'" by (simp add: triple_def)
  then show "case or_cleanup undo a st of None \<Rightarrow> True | Some (ok, st') \<Rightarrow> if ok then Q st' else R' st'"
    using assms(2) by (auto simp: or_cleanup_def split: option.splits)
qed

section \<open>Rules for single calls\<close>

lemma owners_sdk [simp]: "owners (snd (sdk env c st)) = owners st"
  by (simp add: owners_def sdk_def Let_def)

lemma sdk_log: "sdk env c st = (me_result env (ms_log st) c, st\<lparr>ms_log := ms_log st @ [(c, me_result env (ms_log st) c)]\<rparr>)"
  by (simp add: sdk_def Let_def)

lemma sdk_fields [simp]: "ms_held (snd (sdk env c st)) = ms_held st"
  by (simp add: sdk_log)

lemma good_sdk:
  assumes "live_after (ms_log st) [] = Some live" "after_call (c, me_result env (ms_log st) c) live = Some live'"
    "set live' = set h"
  shows "good (set h) ((snd (sdk env c st))\<lparr>ms_held := h\<rparr>)"
  using assms by (simp add: good_def sdk_log live_after_append)

lemma goodE:
  assumes "good H st"
  obtains live where "live_after (ms_log st) [] = Some live" "set live = H" "set (ms_held st) = H"
  using assms unfolding good_def by blast

lemma held_same [simp]: "(snd (sdk env c st))\<lparr>ms_held := ms_held st\<rparr> = snd (sdk env c st)"
  by (simp add: sdk_log)

lemma good_neutral:
  assumes "good H st" "releases c = None" "acquires c = None" "set (works_on c) \<subseteq> H"
  shows "good H (snd (sdk env c st))"
proof -
  from assms(1) obtain live where live: "live_after (ms_log st) [] = Some live" "set live = H" "set (ms_held st) = H"
    by (rule goodE)
  have "after_call (c, me_result env (ms_log st) c) live = Some live"
    using assms(2-4) live(2) by (auto simp: after_call_def list_all_iff)
  from good_sdk [OF live(1) this, of "ms_held st"] live(2,3) show ?thesis by simp
qed

lemma good_acquire:
  assumes "good H st" "acquires c = Some f" "releases c = None" "works_on c = []" "f \<notin> H" "set (needs f) \<subseteq> H"
    and "sdk env c st = (r, st')"
  shows "r = 0 \<Longrightarrow> good (insert f H) (st'\<lparr>ms_held := f # ms_held st'\<rparr>)" and "r \<noteq> 0 \<Longrightarrow> good H st'"
proof -
  from assms(1) obtain live where live: "live_after (ms_log st) [] = Some live" "set live = H" "set (ms_held st) = H"
    by (rule goodE)
  have "list_all (\<lambda>g. g \<in> set live) (needs f)" "f \<notin> set live"
    using assms(5,6) live(2) by (auto simp: list_all_iff)
  then have call: "after_call (c, r) live = Some (if r = 0 then f # live else live)"
    using assms(2-4) by (simp add: after_call_def)
  have c: "r = me_result env (ms_log st) c" "st' = snd (sdk env c st)" using assms(7) by (auto simp: sdk_log)
  show "good (insert f H) (st'\<lparr>ms_held := f # ms_held st'\<rparr>)" if "r = 0"
    using good_sdk [OF live(1), of c env "f # live" "f # ms_held st"] call c that live(2,3) by simp
  show "good H st'" if "r \<noteq> 0"
    using good_sdk [OF live(1), of c env live "ms_held st"] call c that live(2,3) by simp
qed

lemma good_release:
  assumes "good H st" "releases c = Some f" "f \<in> H" "set (works_on c) \<subseteq> H" "\<And>g. g \<in> H \<Longrightarrow> f \<notin> set (uses g)"
  shows "good (H - {f}) ((snd (sdk env c st))\<lparr>ms_held := removeAll f (ms_held st)\<rparr>)"
proof -
  from assms(1) obtain live where live: "live_after (ms_log st) [] = Some live" "set live = H" "set (ms_held st) = H"
    by (rule goodE)
  have "after_call (c, me_result env (ms_log st) c) live = Some (removeAll f live)"
    using assms(2-5) live(2) by (auto simp: after_call_def list_all_iff)
  from good_sdk [OF live(1) this, of "removeAll f (ms_held st)"] live(2,3) show ?thesis by simp
qed

text \<open>Between two sets: what may be held where a constructor throws.\<close>

definition within :: "flag set \<Rightarrow> flag set \<Rightarrow> bool \<times> bool \<times> bool \<Rightarrow> media_st \<Rightarrow> bool" where
  "within L U own st \<longleftrightarrow> (\<exists>H. L \<subseteq> H \<and> H \<subseteq> U \<and> st_is H own st)"

lemma withinI: "st_is H own st \<Longrightarrow> L \<subseteq> H \<Longrightarrow> H \<subseteq> U \<Longrightarrow> within L U own st"
  by (auto simp: within_def)

lemma triple_acquire [triple_rules]:
  assumes "acquires c = Some f" "releases c = None" "works_on c = []" "f \<notin> H" "set (needs f) \<subseteq> H"
    and "\<And>st. st_is H own st \<Longrightarrow> R st" and "triple (st_is (insert f H) own) (seqs as) Q R"
  shows "triple (st_is H own) (seqs (require_ok env c # set_flag f # as)) Q R"
  unfolding triple_def
proof (intro allI impI)
  fix st
  assume st: "st_is H own st"
  obtain r st' where c: "sdk env c st = (r, st')" by fastforce
  have own: "owners st' = own" using st c owners_sdk [of env c st] by (simp add: st_is_def)
  note acq = good_acquire [OF _ assms(1-5) c]
  show "case seqs (require_ok env c # set_flag f # as) st of None \<Rightarrow> True | Some (ok, st') \<Rightarrow> if ok then Q st' else R st'"
  proof (cases "r = 0")
    case True
    let ?st = "st'\<lparr>ms_held := f # ms_held st'\<rparr>"
    have "st_is (insert f H) own ?st" using acq(1) st True own by (simp add: st_is_def owners_def)
    moreover have "seqs (require_ok env c # set_flag f # as) st = seqs as ?st"
      using True c by (simp add: require_ok_def set_flag_def)
    ultimately show ?thesis using assms(7) by (simp add: triple_def)
  next
    case False
    then have "st_is H own st'" using acq(2) st own by (simp add: st_is_def)
    with False c assms(6) show ?thesis by (simp add: require_ok_def)
  qed
qed

lemma triple_require [triple_rules]:
  assumes "releases c = None" "acquires c = None" "set (works_on c) \<subseteq> H" "\<And>st. st_is H own st \<Longrightarrow> R st"
  shows "triple (st_is H own) (require_ok env c) (st_is H own) R"
proof -
  have "st_is H own (snd (sdk env c st))" if "st_is H own st" for st
    using that good_neutral [OF _ assms(1-3)] by (simp add: st_is_def)
  with assms(4) show ?thesis by (fastforce simp: triple_def require_ok_def split: prod.splits)
qed

lemma triple_ignore [triple_rules]:
  assumes "releases c = None" "acquires c = None" "set (works_on c) \<subseteq> H"
  shows "triple (st_is H own) (ignore env c) (st_is H own) R"
  using good_neutral [OF _ assms] by (simp add: triple_def ignore_def st_is_def)

section \<open>Cleanups\<close>

text \<open>The calls of a cleanup work on its resource, and the last one releases it.\<close>

definition tears_down :: "flag \<Rightarrow> media_call list \<Rightarrow> bool" where
  "tears_down f cs \<longleftrightarrow>
     cs \<noteq> [] \<and> releases (last cs) = Some f \<and> list_all (\<lambda>c. set (works_on c) \<subseteq> {f}) cs \<and>
     list_all (\<lambda>c. releases c = None \<and> acquires c = None) (butlast cs)"

text \<open>Among the flags \<open>fs\<close>, everything that uses a resource is cleaned up before it.\<close>

fun orderly :: "flag list \<Rightarrow> (flag \<times> media_call list) list \<Rightarrow> bool" where
  "orderly fs [] = True"
| "orderly fs ((f, cs) # fcs) \<longleftrightarrow>
     tears_down f cs \<and> list_all (\<lambda>g. f \<notin> set (uses g)) fs \<and> orderly (removeAll f fs) fcs"

lemma fold_neutral:
  assumes "good H st" "list_all (\<lambda>c. releases c = None \<and> acquires c = None \<and> set (works_on c) \<subseteq> H) cs"
  shows "good H (fold (\<lambda>c st. snd (sdk env c st)) cs st)"
  using assms by (induction cs arbitrary: st) (simp_all add: good_neutral)

lemma fold_owners [simp]: "owners (fold (\<lambda>c st. snd (sdk env c st)) cs st) = owners st"
  by (induction cs arbitrary: st) simp_all

lemma owners_held [simp]: "owners (st\<lparr>ms_held := h\<rparr>) = owners st"
  by (simp add: owners_def)

lemma cleanup_good:
  assumes "st_is H own st" "tears_down f cs" "\<And>g. g \<in> H \<Longrightarrow> f \<notin> set (uses g)"
  shows "st_is (H - {f}) own (cleanup env (f, cs) st)"
proof (cases "f \<in> H")
  case False
  with assms(1) show ?thesis by (simp add: cleanup_def held_def st_is_def good_def)
next
  case True
  from assms(2) have cs: "cs = butlast cs @ [last cs]" "releases (last cs) = Some f" "set (works_on (last cs)) \<subseteq> {f}"
    "list_all (\<lambda>c. releases c = None \<and> acquires c = None \<and> set (works_on c) \<subseteq> H) (butlast cs)"
    using True by (auto simp: tears_down_def list_all_iff dest: in_set_butlastD)
  let ?st = "fold (\<lambda>c st. snd (sdk env c st)) (butlast cs) st"
  have "good H ?st" using fold_neutral [OF _ cs(4)] assms(1) by (simp add: st_is_def)
  from good_release [OF this cs(2) True _ assms(3)] cs(3) True
  have "good (H - {f}) ((snd (sdk env (last cs) ?st))\<lparr>ms_held := removeAll f (ms_held ?st)\<rparr>)" by auto
  moreover have "fold (\<lambda>c st. snd (sdk env c st)) cs st = snd (sdk env (last cs) ?st)"
    by (subst cs(1)) simp
  moreover have "held f st" using assms(1) True by (simp add: held_def st_is_def good_def)
  ultimately show ?thesis using assms(1) by (simp add: cleanup_def st_is_def)
qed

lemma cleanups_good:
  assumes "st_is H own st" "orderly fs fcs" "H \<subseteq> set fs"
  shows "st_is (H - fst ` set fcs) own (cleanups env fcs st)"
  using assms
proof (induction fcs arbitrary: H st fs)
  case (Cons fc fcs)
  obtain f cs where fc: "fc = (f, cs)" by fastforce
  have "st_is (H - {f}) own (cleanup env (f, cs) st)"
    using Cons.prems fc by (intro cleanup_good) (auto simp: list_all_iff)
  from Cons.IH [OF this, of "removeAll f fs"] Cons.prems fc show ?case
    by (auto simp: cleanups_def set_diff_eq)
qed (simp add: cleanups_def)

end
