(* ===== verification/MediaProperties.thy ===== *)
theory MediaProperties
  imports MediaProtocol
begin

text \<open>
  The life of the media pipeline: for every configuration and every result of the calls, construction and
  shutdown keep the protocol of \<open>MediaProtocol\<close> and give back everything.
\<close>

section \<open>Parts of the construction\<close>

lemma fps_create_triple:
  assumes "Mpi \<in> H" "Region i \<notin> H" "Attached i \<notin> H" "Venc_created i \<in> H" "i < 2" "L \<subseteq> H" "insert (Attached i) (insert (Region i) H) \<subseteq> U"
  shows "triple (st_is H own) (fps_create env i) (st_is (insert (Attached i) (insert (Region i) H)) own) (within L U own)"
  unfolding fps_create_def using assms
  by (intro triple_acquire triple_Nil) (auto intro!: withinI)

lemma fps_update_triple:
  assumes "Region i \<in> H"
  shows "triple (st_is H own) (fps_update env i) (st_is H own) R"
proof -
  have 1: "st_is H own (snd (sdk env (Rgn (Rgn_get_canvas i)) st))" if "st_is H own st" for st
    using that assms good_neutral [of H st "Rgn (Rgn_get_canvas i)" env] by (simp add: st_is_def)
  have 2: "st_is H own (snd (sdk env (Rgn (Rgn_update_canvas i)) st))" if "st_is H own st" for st
    using that assms good_neutral [of H st "Rgn (Rgn_update_canvas i)" env] by (simp add: st_is_def)
  show ?thesis
    using 1 2 by (auto simp: triple_def fps_update_def ignore_def Let_def split: prod.splits) (metis snd_conv)+
qed

lemma create_vi_triple:
  assumes "Device \<in> H" "Vi_created i \<notin> H" "L \<subseteq> H" "insert (Vi_created i) H \<subseteq> U"
  shows "triple (st_is H own) (create_vi env cfg npu i) (st_is (insert (Vi_created i) H) own) (within L U own)"
  unfolding create_vi_def
  by (rule triple_reading, rule triple_Cons [OF triple_require], insert assms, auto intro!: withinI)
    (intro triple_acquire triple_Nil; auto intro!: withinI)

text \<open>The pipe is bound to the device: the one call whose failure loses a resource (see below).\<close>

definition pipe_binds :: "media_env \<Rightarrow> bool" where
  "pipe_binds env \<longleftrightarrow> (\<forall>log. me_result env log (Vi Set_dev_bind_pipe) = 0)"

lemma triple_set_flag_live:
  "triple (\<lambda>st. good (insert f H) (st\<lparr>ms_held := f # ms_held st\<rparr>) \<and> owners st = own) (set_flag f) (st_is (insert f H) own) R"
  by (simp add: triple_def set_flag_def st_is_def owners_def)

lemma bind_pipe_live:
  assumes "pipe_binds env" "good (insert Device H) (st\<lparr>ms_held := h\<rparr>)"
  shows "fst (sdk env (Vi Set_dev_bind_pipe) st) = 0"
    "good (insert Device H) ((snd (sdk env (Vi Set_dev_bind_pipe) st))\<lparr>ms_held := h\<rparr>)"
proof -
  show "fst (sdk env (Vi Set_dev_bind_pipe) st) = 0"
    using assms(1) by (simp add: pipe_binds_def sdk_log)
  have "good (insert Device H) (snd (sdk env (Vi Set_dev_bind_pipe) (st\<lparr>ms_held := h\<rparr>)))"
    by (rule good_neutral [OF assms(2)]) simp_all
  then show "good (insert Device H) ((snd (sdk env (Vi Set_dev_bind_pipe) st))\<lparr>ms_held := h\<rparr>)"
    by (cases st) (simp add: sdk_log)
qed

lemma init_device_triple:
  assumes "pipe_binds env" "Mpi \<in> H" "Device \<notin> H" "L \<subseteq> H" "insert Device H \<subseteq> U"
  shows "triple (st_is H own) (init_device env) (st_is (insert Device H) own) (within L U own)"
proof -
  let ?Q = "\<lambda>st. good (insert Device H) (st\<lparr>ms_held := Device # ms_held st\<rparr>) \<and> owners st = own"
  let ?R = "within L U own"
  have R: "?R st" if "st_is H own st" for st using that assms(4,5) by (auto intro: withinI)
  have get: "st_is H own (snd (sdk env (Vi Get_dev_attr) st))" if "st_is H own st" for st
    using that assms(2) good_neutral [of H st "Vi Get_dev_attr" env] by (simp add: st_is_def)
  have attr: "triple (st_is H own) (only_if c (require_ok env (Vi Set_dev_attr))) (st_is H own) ?R" for c
    by (rule triple_only_if, rule triple_require) (use assms(2) R in auto)
  let ?enable = "\<lambda>st. let (enabled, st') = sdk env (Vi Get_dev_is_enable) st
      in only_if (enabled \<noteq> 0) (seqs [require_ok env (Vi Enable_dev), require_ok env (Vi Set_dev_bind_pipe)]) st'"
  have enable: "triple (st_is H own) ?enable ?Q ?R"
    unfolding triple_def
  proof (intro allI impI)
    fix st
    assume st: "st_is H own st"
    obtain e st1 where 1: "sdk env (Vi Get_dev_is_enable) st = (e, st1)" by fastforce
    obtain r st2 where 2: "sdk env (Vi Enable_dev) st1 = (r, st2)" by fastforce
    have own: "owners st1 = own" "owners st2 = own"
      using st 1 2 owners_sdk [of env "Vi Get_dev_is_enable" st] owners_sdk [of env "Vi Enable_dev" st1]
      by (simp_all add: st_is_def)
    note is1 = good_acquire [OF _ _ _ _ assms(3) _ 1]
    note is2 = good_acquire [OF _ _ _ _ assms(3) _ 2]
    show "case ?enable st of None \<Rightarrow> True | Some (ok, st') \<Rightarrow> if ok then ?Q st' else ?R st'"
    proof (cases "e = 0")
      case True
      with st is1 own assms(2) show ?thesis by (simp add: 1 only_if_def st_is_def)
    next
      case e: False
      then have g1: "good H st1" using st is1 assms(2) by (simp add: st_is_def)
      show ?thesis
      proof (cases "r = 0")
        case True
        with g1 is2 assms(2) have "good (insert Device H) (st2\<lparr>ms_held := Device # ms_held st2\<rparr>)" by simp
        from bind_pipe_live [OF assms(1) this] own e True show ?thesis
          by (simp add: 1 2 only_if_def require_ok_def case_prod_unfold)
      next
        case False
        with g1 is2 assms(2) own have "st_is H own st2" by (simp add: st_is_def)
        with R e False show ?thesis by (simp add: 1 2 only_if_def require_ok_def)
      qed
    qed
  qed
  have "triple (st_is H own)
      (seqs [only_if c (require_ok env (Vi Set_dev_attr)), ?enable, set_flag Device]) (st_is (insert Device H) own) ?R" for c
    by (rule triple_Cons [OF attr], rule triple_Cons [OF enable], rule triple_Cons [OF triple_set_flag_live], rule triple_Nil)
  with get show ?thesis
    unfolding triple_def init_device_def by (simp add: Let_def case_prod_unfold)
qed

lemma apply_quality_triple:
  assumes "Venc_created i \<in> H" "L \<subseteq> H" "H \<subseteq> U"
  shows "triple (st_is H own) (apply_quality env cfg i hevc) (st_is H own) (within L U own)"
  unfolding apply_quality_def
  by (rule triple_reading, rule triple_Cons [OF triple_require], insert assms, auto intro!: withinI)
    (rule triple_Cons, rule triple_reading, rule triple_require, auto intro!: withinI triple_Nil)

lemma create_venc_triple:
  assumes "Mpi \<in> H" "Venc_created i \<notin> H" "L \<subseteq> H" "insert (Venc_created i) H \<subseteq> U"
  shows "triple (st_is H own) (create_venc env cfg i) (st_is (insert (Venc_created i) H) own) (within L U own)"
proof -
  let ?H = "insert (Venc_created i) H"
  have R: "st_is H' own st \<Longrightarrow> H' = H \<or> H' = ?H \<Longrightarrow> within L U own st" for H' st
    using assms by (auto intro: withinI)
  have quality: "triple (st_is ?H own) (apply_quality env cfg i hevc) (st_is ?H own) (within L U own)" for hevc
    by (rule apply_quality_triple) (use assms in auto)
  have call: "triple (st_is ?H own) (require_ok env c) (st_is ?H own) (within L U own)"
    if "c = Venc (Venc_ref_share i) \<or> c = Venc (Venc_start i)" for c
    using that by (elim disjE) (auto intro!: triple_require R)
  have share: "triple (st_is ?H own) (reading x (\<lambda>share. only_if (share \<noteq> 0) (require_ok env (Venc (Venc_ref_share i)))))
      (st_is ?H own) (within L U own)" for x :: "int option"
    by (rule triple_reading, rule triple_only_if) (auto intro: call)
  show ?thesis
    unfolding create_venc_def
  proof (rule triple_reading, rule triple_acquire)
    fix attr
    show "triple (st_is ?H own)
        (seqs [apply_quality env cfg i (vea_hevc attr),
               reading (media_value cfg i ''enable_refer_buffer_share'' 1)
                 (\<lambda>share. only_if (share \<noteq> 0) (require_ok env (Venc (Venc_ref_share i)))),
               require_ok env (Venc (Venc_start i))]) (st_is ?H own) (within L U own)"
      by (rule triple_Cons [OF quality], rule triple_Cons [OF share], rule triple_Cons [OF call triple_Nil]) simp
  qed (use assms R in auto)
qed

lemma bind_video_triple:
  assumes "Vi_created i \<in> H" "Venc_created i \<in> H" "Bound i \<notin> H" "L \<subseteq> H" "insert (Bound i) H \<subseteq> U"
  shows "triple (st_is H own) (bind_video env i) (st_is (insert (Bound i) H) own) (within L U own)"
  unfolding bind_video_def using assms
  by (intro triple_acquire triple_Nil) (auto intro!: withinI)

lemma create_overlay_triple:
  assumes "Mpi \<in> H" "Region 7 \<notin> H" "Attached 7 \<notin> H" "Venc_created 1 \<in> H" "L \<subseteq> H"
    "insert (Attached 7) (insert (Region 7) H) \<subseteq> U"
  shows "triple (st_is H own) (create_overlay env cfg) (st_is (insert (Attached 7) (insert (Region 7) H)) own) (within L U own)"
  unfolding create_overlay_def kOverlay_def kAi_def using assms
  by (intro triple_reading triple_acquire triple_Nil) (auto intro!: withinI)

lemma start_worker_triple:
  assumes "Thread w \<notin> H" "set (needs (Thread w)) \<subseteq> H" "L \<subseteq> H" "insert (Thread w) H \<subseteq> U"
  shows "triple (st_is H own) (start_worker env w) (st_is (insert (Thread w) H) own) (within L U own)"
  unfolding start_worker_def using assms
  by (intro triple_acquire triple_Nil) (auto intro!: withinI)

section \<open>Video\<close>

definition worker_flags :: "flag set" where
  "worker_flags = {Thread Iva_input, Thread Detection_overlay, Thread Main_stream, Thread Ai_stream}"

definition fps_flags :: "flag set" where
  "fps_flags = {Thread Fps_update, Attached 1, Region 1, Attached 0, Region 0}"

definition channel_flags :: "flag set" where
  "channel_flags = {Device, Vi_created 0, Vi_created 1, Venc_created 0, Venc_created 1, Bound 0, Bound 1}"

definition overlay_flags :: "flag set" where
  "overlay_flags = {Region 7, Attached 7}"

definition video_flags :: "flag set" where
  "video_flags = worker_flags \<union> fps_flags \<union> channel_flags \<union> overlay_flags"

lemmas flag_sets = worker_flags_def fps_flags_def channel_flags_def overlay_flags_def video_flags_def

definition base_flags :: "flag list" where
  "base_flags = [Isp, Rockiva, Mpi, Publisher, Ai_device, Vqe, Ai_channel, Aenc, Audio_bound, Thread Audio_capture]"

definition hardware_flags :: "flag list" where
  "hardware_flags = base_flags @ [Device, Vi_created 0, Vi_created 1, Venc_created 0, Venc_created 1, Bound 0, Bound 1, Region 7, Attached 7]"

definition fps_stage_flags :: "flag list" where
  "fps_stage_flags = hardware_flags @ [Thread Fps_update, Attached 1, Region 1, Attached 0, Region 0]"

definition all_flags :: "flag list" where
  "all_flags = fps_stage_flags @ [Thread Iva_input, Thread Detection_overlay, Thread Main_stream, Thread Ai_stream]"

lemma orderly_stages:
  "orderly all_flags worker_cleanups" "orderly fps_stage_flags fps_cleanups" "orderly hardware_flags hardware_cleanups"
  by code_simp+

lemma cleanup_flags:
  "fst ` set worker_cleanups = worker_flags" "fst ` set fps_cleanups = fps_flags"
  "fst ` set hardware_cleanups = channel_flags \<union> overlay_flags"
  by (auto simp: worker_cleanups_def fps_cleanups_def hardware_cleanups_def channel_cleanups_def flag_sets
      kOverlay_def kAi_def kMain_def)

lemma all_flags_sets:
  "set all_flags = set base_flags \<union> video_flags" "set fps_stage_flags = set base_flags \<union> fps_flags \<union> channel_flags \<union> overlay_flags"
  "set hardware_flags = set base_flags \<union> channel_flags \<union> overlay_flags" "set base_flags \<inter> video_flags = {}"
  by (auto simp: all_flags_def fps_stage_flags_def hardware_flags_def base_flags_def flag_sets)

lemma triple_reading_eq: "(\<And>v. x = Some v \<Longrightarrow> triple P (f v) Q R) \<Longrightarrow> triple P (reading x f) Q R"
  by (cases x) (simp_all add: triple_def reading_def)

lemma fps_new_triple:
  assumes "Mpi \<in> H" "Venc_created 0 \<in> H" "Venc_created 1 \<in> H" "fps_flags \<inter> H = {}" "H \<subseteq> set hardware_flags"
  shows "triple (st_is H own) (fps_new env) (st_is (fps_flags \<union> H) own) (st_is H own)"
proof -
  let ?U = "fps_flags \<union> H"
  let ?H0 = "insert (Attached 0) (insert (Region 0) H)"
  let ?H1 = "insert (Attached 1) (insert (Region 1) ?H0)"
  have new: "Region 0 \<notin> H" "Attached 0 \<notin> H" "Region 1 \<notin> H" "Attached 1 \<notin> H" "Thread Fps_update \<notin> H"
    using assms(4) by (auto simp: fps_flags_def)
  have all: "insert (Thread Fps_update) ?H1 = ?U" by (auto simp: fps_flags_def)
  have 0: "triple (st_is H own) (fps_create env 0) (st_is ?H0 own) (within H ?U own)"
    by (rule fps_create_triple) (use assms new in \<open>auto simp: fps_flags_def\<close>)
  have 1: "triple (st_is ?H0 own) (fps_create env 1) (st_is ?H1 own) (within H ?U own)"
    by (rule fps_create_triple) (use assms new in \<open>auto simp: fps_flags_def\<close>)
  have up: "triple (st_is ?H1 own) (fps_update env i) (st_is ?H1 own) (within H ?U own)" if "i < 2" for i
    by (rule fps_update_triple) (use that in \<open>auto simp: less_2_cases_iff\<close>)
  have start: "triple (st_is ?H1 own) (seqs [require_ok env (Start Fps_update), set_flag (Thread Fps_update)])
      (st_is ?U own) (within H ?U own)"
    unfolding all [symmetric]
    by (intro triple_acquire triple_Nil) (use new in \<open>auto intro!: withinI\<close>)
  have body: "triple (st_is H own)
      (seqs [fps_create env 0, fps_create env 1, fps_update env 0, fps_update env 1,
             require_ok env (Start Fps_update), set_flag (Thread Fps_update)]) (st_is ?U own) (within H ?U own)"
    by (rule triple_Cons [OF 0], rule triple_Cons [OF 1], rule triple_Cons [OF up], simp, rule triple_Cons [OF up], simp, rule start)
  have undo: "st_is H own (fps_stop env st)" if "within H ?U own st" for st
  proof -
    from that obtain H' where h: "H \<subseteq> H'" "H' \<subseteq> ?U" "st_is H' own st" by (auto simp: within_def)
    have "H' \<subseteq> set fps_stage_flags" using h(2) assms(5) by (auto simp: all_flags_sets)
    from cleanups_good [OF h(3) orderly_stages(2) this] have "st_is (H' - fps_flags) own (fps_stop env st)"
      by (simp add: fps_stop_def cleanup_flags)
    moreover have "H' - fps_flags = H" using h(1,2) assms(4) by blast
    ultimately show ?thesis by simp
  qed
  show ?thesis unfolding fps_new_def by (rule triple_or_cleanup [OF body]) (rule undo)
qed

text \<open>What is held where the constructor of the video pipeline throws, or when it has ended.\<close>

definition video_partial :: "flag set \<Rightarrow> bool \<Rightarrow> bool \<Rightarrow> media_st \<Rightarrow> bool" where
  "video_partial H0 v a st \<longleftrightarrow>
     (\<exists>fps. within H0 (H0 \<union> worker_flags \<union> channel_flags \<union> overlay_flags \<union> (if fps then fps_flags else {})) (fps, v, a) st)"

lemma owners_fps: "owners st = (f, v, a) \<Longrightarrow> ms_fps st = f" "owners st = (f, v, a) \<Longrightarrow> owners (st\<lparr>ms_fps := g\<rparr>) = (g, v, a)"
  by (auto simp: owners_def)

lemma good_fps [simp]: "good H (st\<lparr>ms_fps := b\<rparr>) = good H st" "good H (st\<lparr>ms_video := b\<rparr>) = good H st"
  "good H (st\<lparr>ms_audio := b\<rparr>) = good H st"
  by (simp_all add: good_def)

lemma video_shutdown_good:
  assumes "video_partial H0 v a st" "H0 \<subseteq> set base_flags"
  shows "st_is H0 (False, v, a) (video_shutdown env st)"
proof -
  from assms(1) obtain fps H where H: "H0 \<subseteq> H"
    "H \<subseteq> H0 \<union> worker_flags \<union> channel_flags \<union> overlay_flags \<union> (if fps then fps_flags else {})"
    "st_is H (fps, v, a) st" by (auto simp: video_partial_def within_def)
  have apart: "H0 \<inter> video_flags = {}" using assms(2) all_flags_sets(4) by blast
  let ?st1 = "cleanups env worker_cleanups st"
  have "H \<subseteq> set all_flags" using H(2) assms(2) by (auto simp: all_flags_sets video_flags_def split: if_splits)
  from cleanups_good [OF H(3) orderly_stages(1) this]
  have 1: "st_is (H - worker_flags) (fps, v, a) ?st1" by (simp add: cleanup_flags)
  let ?st2 = "if ms_fps ?st1 then (fps_stop env ?st1)\<lparr>ms_fps := False\<rparr> else ?st1"
  have 2: "st_is (H - worker_flags - fps_flags) (False, v, a) ?st2"
  proof (cases fps)
    case True
    have "H - worker_flags \<subseteq> set fps_stage_flags" using H(2) assms(2) by (auto simp: all_flags_sets split: if_splits)
    from cleanups_good [OF 1 orderly_stages(2) this]
    have "st_is (H - worker_flags - fps_flags) (fps, v, a) (fps_stop env ?st1)" by (simp add: cleanup_flags fps_stop_def)
    with 1 True show ?thesis by (auto simp: st_is_def owners_fps)
  next
    case False
    have "H - worker_flags - fps_flags = H - worker_flags"
      using False H(2) apart by (auto simp: flag_sets)
    with 1 False show ?thesis by (simp add: st_is_def owners_fps)
  qed
  have "H - worker_flags - fps_flags \<subseteq> set hardware_flags" using H(2) assms(2) by (auto simp: all_flags_sets split: if_splits)
  from cleanups_good [OF 2 orderly_stages(3) this]
  have "st_is (H - worker_flags - fps_flags - (channel_flags \<union> overlay_flags)) (False, v, a) (video_shutdown env st)"
    by (simp add: cleanup_flags video_shutdown_def Let_def)
  moreover have "H - worker_flags - fps_flags - (channel_flags \<union> overlay_flags) = H0"
    using H(1,2) apart by (auto simp: video_flags_def split: if_splits)
  ultimately show ?thesis by simp
qed

lemma initialize_channels_triple:
  assumes "pipe_binds env" "H0 \<subseteq> set base_flags" "Mpi \<in> H0"
  shows "triple (st_is H0 (False, v, a)) (initialize_channels env cfg npu)
     (\<lambda>st. \<exists>fps. st_is (H0 \<union> channel_flags \<union> (if npu then overlay_flags else {}) \<union> (if fps then fps_flags else {})) (fps, v, a) st)
     (within H0 (H0 \<union> channel_flags \<union> overlay_flags) (False, v, a))"
proof -
  have new: "f \<notin> H0" if "f \<in> video_flags" for f using that assms(2) all_flags_sets(4) by blast
  note fresh = new [unfolded flag_sets, simplified]
  let ?own = "(False, v, a)" let ?U = "H0 \<union> channel_flags \<union> overlay_flags" let ?R = "within H0 ?U ?own"
  let ?H1 = "insert Device H0" let ?H2 = "insert (Vi_created 0) ?H1" let ?H3 = "insert (Vi_created 1) ?H2"
  let ?H4 = "insert (Venc_created 0) ?H3" let ?H5 = "insert (Venc_created 1) ?H4"
  let ?H6 = "insert (Bound 0) ?H5" let ?H7 = "insert (Bound 1) ?H6"
  let ?H8 = "?H7 \<union> (if npu then overlay_flags else {})"
  have 1: "triple (st_is H0 ?own) (init_device env) (st_is ?H1 ?own) ?R"
    by (rule init_device_triple) (use assms fresh in \<open>auto simp: flag_sets\<close>)
  have 2: "triple (st_is ?H1 ?own) (create_vi env cfg npu kMain) (st_is ?H2 ?own) ?R"
    unfolding kMain_def by (rule create_vi_triple) (use fresh in \<open>auto simp: flag_sets\<close>)
  have 3: "triple (st_is ?H2 ?own) (create_vi env cfg npu kAi) (st_is ?H3 ?own) ?R"
    unfolding kAi_def by (rule create_vi_triple) (use fresh in \<open>auto simp: flag_sets\<close>)
  have 4: "triple (st_is ?H3 ?own) (create_venc env cfg kMain) (st_is ?H4 ?own) ?R"
    unfolding kMain_def by (rule create_venc_triple) (use assms fresh in \<open>auto simp: flag_sets\<close>)
  have 5: "triple (st_is ?H4 ?own) (create_venc env cfg kAi) (st_is ?H5 ?own) ?R"
    unfolding kAi_def by (rule create_venc_triple) (use assms fresh in \<open>auto simp: flag_sets\<close>)
  have 6: "triple (st_is ?H5 ?own) (bind_video env kMain) (st_is ?H6 ?own) ?R"
    unfolding kMain_def by (rule bind_video_triple) (use fresh in \<open>auto simp: flag_sets\<close>)
  have 7: "triple (st_is ?H6 ?own) (bind_video env kAi) (st_is ?H7 ?own) ?R"
    unfolding kAi_def by (rule bind_video_triple) (use fresh in \<open>auto simp: flag_sets\<close>)
  have overlay: "insert (Attached 7) (insert (Region 7) ?H7) = ?H7 \<union> overlay_flags" by (auto simp: flag_sets)
  have 8: "triple (st_is ?H7 ?own) (only_if npu (create_overlay env cfg)) (st_is ?H8 ?own) ?R"
  proof (rule triple_only_if)
    assume npu
    have "triple (st_is ?H7 ?own) (create_overlay env cfg) (st_is (insert (Attached 7) (insert (Region 7) ?H7)) ?own) ?R"
      by (rule create_overlay_triple) (use assms fresh in \<open>auto simp: flag_sets\<close>)
    with \<open>npu\<close> show "triple (st_is ?H7 ?own) (create_overlay env cfg) (st_is ?H8 ?own) ?R" by (simp only: overlay if_True)
  qed simp
  let ?Q = "\<lambda>st. \<exists>fps. st_is (?H8 \<union> (if fps then fps_flags else {})) (fps, v, a) st"
  have fps: "triple (st_is ?H8 ?own) (seqs [fps_new env, set_fps True]) ?Q ?R"
  proof (rule triple_Cons)
    have "triple (st_is ?H8 ?own) (fps_new env) (st_is (fps_flags \<union> ?H8) ?own) (st_is ?H8 ?own)"
      by (rule fps_new_triple) (use assms fresh in \<open>auto simp: flag_sets all_flags_sets\<close>)
    then show "triple (st_is ?H8 ?own) (fps_new env) (st_is (fps_flags \<union> ?H8) ?own) ?R"
      by (rule triple_weaken) (auto intro!: withinI simp: flag_sets split: if_splits)
    have "triple (st_is (fps_flags \<union> ?H8) ?own) (set_fps True) (st_is (fps_flags \<union> ?H8) (True, v, a)) ?R"
      by (simp add: triple_def set_fps_def st_is_def owners_def)
    then have "triple (st_is (fps_flags \<union> ?H8) ?own) (set_fps True) ?Q ?R"
      by (rule triple_weaken) (auto simp: Un_commute intro!: exI [of _ True])
    then show "triple (st_is (fps_flags \<union> ?H8) ?own) (seqs [set_fps True]) ?Q ?R"
      by (rule triple_Cons) (rule triple_Nil)
  qed
  have 9: "triple (st_is ?H8 ?own)
      (reading x (\<lambda>fps. only_if (fps \<noteq> 0) (seqs [fps_new env, set_fps True]))) ?Q ?R" for x :: "int option"
    by (rule triple_reading, rule triple_only_if [OF fps]) (auto intro!: exI [of _ False])
  have "triple (st_is H0 ?own) (initialize_channels env cfg npu) ?Q ?R"
    unfolding initialize_channels_def
    by (rule triple_Cons [OF 1], rule triple_Cons [OF 2], rule triple_Cons [OF 3], rule triple_Cons [OF 4],
        rule triple_Cons [OF 5], rule triple_Cons [OF 6], rule triple_Cons [OF 7], rule triple_Cons [OF 8],
        rule triple_Cons [OF 9 triple_Nil])
  moreover have all: "?H7 = H0 \<union> channel_flags" by (auto simp: flag_sets)
  ultimately show ?thesis by (simp only: all)
qed

lemma start_workers_triple:
  assumes "H0 \<subseteq> set base_flags" "Publisher \<in> H0" "npu \<longrightarrow> Rockiva \<in> H0"
    and "H = H0 \<union> channel_flags \<union> (if npu then overlay_flags else {}) \<union> (if fps then fps_flags else {})"
  shows "triple (st_is H (fps, v, a)) (start_workers env npu) (video_partial H0 v a) (video_partial H0 v a)"
proof -
  have new: "f \<notin> H0" if "f \<in> video_flags" for f using that assms(1) all_flags_sets(4) by blast
  note fresh = new [unfolded flag_sets, simplified]
  let ?own = "(fps, v, a)"
  let ?U = "H0 \<union> worker_flags \<union> channel_flags \<union> overlay_flags \<union> (if fps then fps_flags else {})"
  let ?R = "within H0 ?U ?own"
  let ?H1 = "insert (Thread Main_stream) H" let ?H2 = "insert (Thread Ai_stream) ?H1"
  let ?H3 = "insert (Thread Iva_input) ?H2" let ?H4 = "insert (Thread Detection_overlay) ?H3"
  have 1: "triple (st_is H ?own) (start_worker env Main_stream) (st_is ?H1 ?own) ?R"
    by (rule start_worker_triple) (use assms fresh in \<open>auto simp: flag_sets split: if_splits\<close>)
  have 2: "triple (st_is ?H1 ?own) (start_worker env Ai_stream) (st_is ?H2 ?own) ?R"
    by (rule start_worker_triple) (use assms fresh in \<open>auto simp: flag_sets split: if_splits\<close>)
  have 3: "triple (st_is ?H2 ?own) (start_worker env Iva_input) (st_is ?H3 ?own) ?R" if npu
    by (rule start_worker_triple) (use that assms fresh in \<open>auto simp: flag_sets split: if_splits\<close>)
  have 4: "triple (st_is ?H3 ?own) (start_worker env Detection_overlay) (st_is ?H4 ?own) ?R" if npu
    by (rule start_worker_triple) (use that assms fresh in \<open>auto simp: flag_sets split: if_splits\<close>)
  have end4: "st_is ?H4 ?own st \<Longrightarrow> ?R st" for st
    by (erule withinI) (use assms(4) in \<open>auto simp: flag_sets split: if_splits\<close>)
  have end2: "st_is ?H2 ?own st \<Longrightarrow> ?R st" for st
    by (erule withinI) (use assms(4) in \<open>auto simp: flag_sets split: if_splits\<close>)
  have iva: "triple (st_is ?H2 ?own)
      (only_if npu (seqs [start_worker env Iva_input, start_worker env Detection_overlay])) ?R ?R"
  proof (rule triple_only_if)
    assume npu
    show "triple (st_is ?H2 ?own) (seqs [start_worker env Iva_input, start_worker env Detection_overlay]) ?R ?R"
      by (rule triple_Cons [OF 3 [OF \<open>npu\<close>]], rule triple_weaken [OF triple_Cons [OF 4 [OF \<open>npu\<close>] triple_Nil]])
        (assumption | erule end4)+
  qed (rule end2)
  have all: "triple (st_is H ?own) (start_workers env npu) ?R ?R"
    unfolding start_workers_def
    by (rule triple_Cons, rule 1, rule triple_Cons, rule 2, rule triple_Cons, rule iva, rule triple_Nil)
  have vp: "video_partial H0 v a st" if "?R st" for st
    unfolding video_partial_def using that by (rule exI [of _ fps])
  show ?thesis by (rule triple_weaken [OF all _ vp vp])
qed

lemma video_new_triple:
  assumes "pipe_binds env" "H0 \<subseteq> set base_flags" "Mpi \<in> H0" "Publisher \<in> H0"
    and "\<And>npu. rk_param_get_int cfg ''video.source:enable_npu'' 1 = Some npu \<Longrightarrow> npu \<noteq> 0 \<Longrightarrow> Rockiva \<in> H0"
  shows "triple (st_is H0 (False, v, a)) (video_new env cfg) (video_partial H0 v a) (st_is H0 (False, v, a))"
  unfolding video_new_def
proof (rule triple_or_cleanup)
  show "triple (st_is H0 (False, v, a))
      (reading (rk_param_get_int cfg ''video.source:enable_npu'' 1)
        (\<lambda>npu. seqs [initialize_channels env cfg (npu \<noteq> 0), start_workers env (npu \<noteq> 0)]))
      (video_partial H0 v a) (video_partial H0 v a)"
  proof (rule triple_reading_eq)
    fix npu
    assume npu: "rk_param_get_int cfg ''video.source:enable_npu'' 1 = Some npu"
    let ?Q = "\<lambda>st. \<exists>fps. st_is (H0 \<union> channel_flags \<union> (if npu \<noteq> 0 then overlay_flags else {}) \<union>
        (if fps then fps_flags else {})) (fps, v, a) st"
    have 1: "triple (st_is H0 (False, v, a)) (initialize_channels env cfg (npu \<noteq> 0)) ?Q (video_partial H0 v a)"
      by (rule triple_weaken [OF initialize_channels_triple [OF assms(1-3)]])
        (auto simp: video_partial_def within_def intro!: exI [of _ False])
    have 2: "triple ?Q (start_workers env (npu \<noteq> 0)) (video_partial H0 v a) (video_partial H0 v a)"
      by (rule triple_ex, rule start_workers_triple [OF assms(2,4) _ refl]) (use assms(5) npu in simp)
    show "triple (st_is H0 (False, v, a)) (seqs [initialize_channels env cfg (npu \<noteq> 0), start_workers env (npu \<noteq> 0)])
        (video_partial H0 v a) (video_partial H0 v a)"
      by (rule triple_Cons [OF 1], rule triple_Cons [OF 2], rule triple_Nil)
  qed
qed (rule video_shutdown_good [OF _ assms(2)])

section \<open>Audio\<close>

definition audio_flags :: "flag set" where
  "audio_flags = {Thread Audio_capture, Audio_bound, Aenc, Ai_channel, Vqe, Ai_device}"

lemma audio_flag_facts:
  "orderly all_flags audio_cleanups" "fst ` set audio_cleanups = audio_flags" "audio_flags \<subseteq> set base_flags"
  "audio_flags \<inter> video_flags = {}"
proof -
  show "orderly all_flags audio_cleanups" by code_simp
qed (auto simp: audio_cleanups_def audio_flags_def base_flags_def flag_sets)

lemma initialize_audio_triple:
  assumes "Mpi \<in> H" "audio_flags \<inter> H = {}"
  shows "triple (st_is H own) (initialize_audio_input env sizes cfg)
     (\<lambda>st. \<exists>V \<subseteq> {Vqe}. st_is (insert Ai_channel (V \<union> insert Ai_device H)) own st) (within H (H \<union> audio_flags) own)"
proof -
  let ?R = "within H (H \<union> audio_flags) own" let ?H1 = "insert Ai_device H"
  have new: "f \<notin> H" if "f \<in> audio_flags" for f using that assms(2) by blast
  note fresh = new [unfolded audio_flags_def, simplified]
  have R: "?R st" if "st_is H' own st" "H \<subseteq> H'" "H' \<subseteq> H \<union> audio_flags" for st H' using that by (rule withinI)
  let ?vqe = "\<lambda>x y. reading x (\<lambda>vqe. only_if (vqe \<noteq> (0 :: int))
      (reading y (\<lambda>attr. seqs [require_ok env (Ai (Ai_vqe_attr attr)), require_ok env (Ai Ai_enable_vqe), set_flag Vqe])))"
  have vqe: "triple (st_is ?H1 own) (?vqe x y) (\<lambda>st. \<exists>V \<subseteq> {Vqe}. st_is (V \<union> ?H1) own st) ?R" for x y
  proof (rule triple_reading, rule triple_only_if, rule triple_reading, rule triple_Cons)
    fix attr
    show "triple (st_is ?H1 own) (require_ok env (Ai (Ai_vqe_attr attr))) (st_is ?H1 own) ?R"
      by (rule triple_require) (auto intro!: withinI simp: audio_flags_def)
    have "triple (st_is ?H1 own) (seqs [require_ok env (Ai Ai_enable_vqe), set_flag Vqe]) (st_is (insert Vqe ?H1) own) ?R"
      by (intro triple_acquire triple_Nil) (use fresh in \<open>auto intro!: withinI simp: audio_flags_def\<close>)
    then show "triple (st_is ?H1 own) (seqs [require_ok env (Ai Ai_enable_vqe), set_flag Vqe])
        (\<lambda>st. \<exists>V \<subseteq> {Vqe}. st_is (V \<union> ?H1) own st) ?R"
      by (rule triple_weaken) (auto simp: insert_commute intro!: exI [of _ "{Vqe}"])
  qed (auto intro!: exI [of _ "{}"])
  have rest: "triple (st_is (V \<union> ?H1) own)
      (seqs [require_ok env (Ai Ai_enable_chn), set_flag Ai_channel,
             reading x (\<lambda>volume. ignore env (Ai (Ai_volume volume))),
             reading y (\<lambda>channels. only_if (channels = (1 :: int)) (ignore env (Ai Ai_track_left)))])
      (\<lambda>st. \<exists>V \<subseteq> {Vqe}. st_is (insert Ai_channel (V \<union> ?H1)) own st) ?R" if "V \<subseteq> {Vqe}" for V x y
  proof (rule triple_acquire)
    let ?H3 = "insert Ai_channel (V \<union> ?H1)"
    have volume: "triple (st_is ?H3 own) (reading x (\<lambda>volume. ignore env (Ai (Ai_volume volume)))) (st_is ?H3 own) ?R"
      by (rule triple_reading, rule triple_ignore) simp_all
    have track: "triple (st_is ?H3 own) (reading y (\<lambda>channels. only_if (channels = 1) (ignore env (Ai Ai_track_left))))
        (st_is ?H3 own) ?R"
      by (rule triple_reading, rule triple_only_if, rule triple_ignore) simp_all
    show "triple (st_is ?H3 own)
        (seqs [reading x (\<lambda>volume. ignore env (Ai (Ai_volume volume))),
               reading y (\<lambda>channels. only_if (channels = 1) (ignore env (Ai Ai_track_left)))])
        (\<lambda>st. \<exists>V \<subseteq> {Vqe}. st_is (insert Ai_channel (V \<union> ?H1)) own st) ?R"
      by (rule triple_Cons [OF volume], rule triple_weaken [OF triple_Cons [OF track triple_Nil]]) (use that in auto)
  qed (use that assms fresh in \<open>auto intro!: withinI simp: audio_flags_def\<close>)
  show ?thesis
    unfolding initialize_audio_input_def
  proof (rule triple_reading, rule triple_Cons)
    fix ai
    show "triple (st_is H own) (require_ok env (Ai (Ai_pub_attr ai))) (st_is H own) ?R"
      by (rule triple_require) (use assms(1) in \<open>auto intro!: R\<close>)
    have later: "triple (\<lambda>st. \<exists>V \<subseteq> {Vqe}. st_is (V \<union> ?H1) own st)
      (seqs [require_ok env (Ai Ai_enable_chn), set_flag Ai_channel,
             reading x (\<lambda>volume. ignore env (Ai (Ai_volume volume))),
             reading y (\<lambda>channels. only_if (channels = (1 :: int)) (ignore env (Ai Ai_track_left)))])
      (\<lambda>st. \<exists>V \<subseteq> {Vqe}. st_is (insert Ai_channel (V \<union> ?H1)) own st) ?R" for x y
      using rest unfolding triple_def by blast
    show "triple (st_is H own)
        (seqs [require_ok env (Ai Ai_enable), set_flag Ai_device, ?vqe (audio_value cfg ''enable_vqe'' 1)
                 (vqe_attr_of (as_vqe_file sizes) cfg (aia_sample_rate ai)),
               require_ok env (Ai Ai_enable_chn), set_flag Ai_channel,
               reading (audio_value cfg ''volume'' 50) (\<lambda>volume. ignore env (Ai (Ai_volume volume))),
               reading (audio_value cfg ''channels'' 1) (\<lambda>channels. only_if (channels = 1) (ignore env (Ai Ai_track_left)))])
        (\<lambda>st. \<exists>V \<subseteq> {Vqe}. st_is (insert Ai_channel (V \<union> ?H1)) own st) ?R"
      by (rule triple_acquire [OF _ _ _ _ _ _ triple_Cons [OF vqe later]]) (use assms fresh in \<open>auto intro!: R\<close>)
  qed
qed

lemma audio_new_triple:
  assumes "Mpi \<in> H" "Publisher \<in> H" "audio_flags \<inter> H = {}" "H \<subseteq> set all_flags"
  shows "triple (st_is H own) (audio_new env sizes cfg) (within H (H \<union> audio_flags) own) (st_is H own)"
proof -
  let ?R = "within H (H \<union> audio_flags) own"
  have new: "f \<notin> H" if "f \<in> audio_flags" for f using that assms(3) by blast
  note fresh = new [unfolded audio_flags_def, simplified]
  have R: "?R st" if "st_is H' own st" "H \<subseteq> H'" "H' \<subseteq> H \<union> audio_flags" for st H' using that by (rule withinI)
  have 1: "triple (st_is H own) (validate_configuration cfg) (st_is H own) ?R"
    unfolding validate_configuration_def
    by (rule triple_reading) (auto simp: triple_def intro: R)
  have tail: "triple (st_is (insert Ai_channel (V \<union> insert Ai_device H)) own)
      (seqs [create_encoder env cfg, bind_input_to_encoder env, start_worker env Audio_capture]) ?R ?R"
    if "V \<subseteq> {Vqe}" for V
  proof -
    let ?H0 = "insert Ai_channel (V \<union> insert Ai_device H)"
    let ?H1 = "insert Aenc ?H0" let ?H2 = "insert Audio_bound ?H1" let ?H3 = "insert (Thread Audio_capture) ?H2"
    have V: "Aenc \<notin> V" "Audio_bound \<notin> V" "Thread Audio_capture \<notin> V" "V \<subseteq> audio_flags"
      using that by (auto simp: audio_flags_def)
    have a: "triple (st_is ?H0 own) (create_encoder env cfg) (st_is ?H1 own) ?R"
      unfolding create_encoder_def
      by (intro triple_reading triple_acquire triple_Nil) (use assms V fresh in \<open>auto intro!: withinI simp: audio_flags_def\<close>)
    have b: "triple (st_is ?H1 own) (bind_input_to_encoder env) (st_is ?H2 own) ?R"
      unfolding bind_input_to_encoder_def
      by (intro triple_acquire triple_Nil) (use assms V fresh in \<open>auto intro!: withinI simp: audio_flags_def\<close>)
    have c: "triple (st_is ?H2 own) (start_worker env Audio_capture) (st_is ?H3 own) ?R"
      by (rule start_worker_triple) (use assms V fresh in \<open>auto simp: audio_flags_def\<close>)
    have d: "?R st" if "st_is ?H3 own st" for st
      using that by (rule R) (use V in \<open>auto simp: audio_flags_def\<close>)
    show ?thesis
      by (rule triple_Cons [OF a], rule triple_Cons [OF b], rule triple_weaken [OF triple_Cons [OF c triple_Nil] _ d]) simp_all
  qed
  have "triple (\<lambda>st. \<exists>V \<subseteq> {Vqe}. st_is (insert Ai_channel (V \<union> insert Ai_device H)) own st)
      (seqs [create_encoder env cfg, bind_input_to_encoder env, start_worker env Audio_capture]) ?R ?R"
    using tail unfolding triple_def by blast
  from triple_Cons [OF 1 triple_Cons [OF initialize_audio_triple [OF assms(1,3)] this]]
  have body: "triple (st_is H own)
      (seqs [validate_configuration cfg, initialize_audio_input env sizes cfg, create_encoder env cfg,
             bind_input_to_encoder env, start_worker env Audio_capture]) ?R ?R" .
  have undo: "st_is H own (audio_shutdown env st)" if partial: "?R st" for st
  proof -
    from partial obtain H' where h: "H \<subseteq> H'" "H' \<subseteq> H \<union> audio_flags" "st_is H' own st" by (auto simp: within_def)
    have "H' \<subseteq> set all_flags" using h(2) assms(4) audio_flag_facts(3) all_flags_sets(1) by blast
    from cleanups_good [OF h(3) audio_flag_facts(1) this] have "st_is (H' - audio_flags) own (audio_shutdown env st)"
      by (simp add: audio_shutdown_def audio_flag_facts(2))
    moreover have "H' - audio_flags = H" using h(1,2) assms(3) by blast
    ultimately show ?thesis by simp
  qed
  show ?thesis unfolding audio_new_def by (rule triple_or_cleanup [OF body]) (rule undo)
qed

section \<open>The whole pipeline\<close>

definition core_flags :: "flag set" where
  "core_flags = {Isp, Rockiva, Mpi, Publisher}"

lemma core_facts:
  "core_flags \<inter> audio_flags = {}" "core_flags \<subseteq> set base_flags" "core_flags \<inter> video_flags = {}"
  by (auto simp: core_flags_def audio_flags_def base_flags_def flag_sets)

text \<open>What is held while the pipeline is built: global resources \<open>C\<close>, some of the audio, some of the video.\<close>

definition media_partial :: "media_st \<Rightarrow> bool" where
  "media_partial st \<longleftrightarrow>
     (\<exists>C A video audio. C \<subseteq> core_flags \<and> A \<subseteq> audio_flags \<and> (\<not> audio \<longrightarrow> A = {}) \<and>
        (if video then video_partial (C \<union> A) True audio st else st_is (C \<union> A) (False, False, audio) st))"

lemma sdk_neutral_is:
  assumes "st_is H own st" "releases c = None" "acquires c = None" "set (works_on c) \<subseteq> H"
  shows "st_is H own (snd (sdk env c st))"
  using assms good_neutral [OF _ assms(2-4)] by (simp add: st_is_def)

lemma media_shutdown_good:
  assumes "media_partial st"
  shows "st_is {} (False, False, False) (media_shutdown env st)"
proof -
  from assms obtain C A video audio where ca: "C \<subseteq> core_flags" "A \<subseteq> audio_flags" "\<not> audio \<longrightarrow> A = {}"
    and st: "if video then video_partial (C \<union> A) True audio st else st_is (C \<union> A) (False, False, audio) st"
    unfolding media_partial_def by blast
  have base: "C \<union> A \<subseteq> set base_flags" using ca core_facts(2) audio_flag_facts(3) by blast
  let ?int = "\<lambda>st. if held Publisher st then snd (sdk env (App Publisher_interrupt) st) else st"
  have int: "st_is H own (?int st)" if "st_is H own st" for H own st
    using that sdk_neutral_is [OF that, of "App Publisher_interrupt" env] by (auto simp: held_def st_is_def good_def)
  have int_video: "video_partial H v a (?int st)" if "video_partial H v a st" for H v a st
    using that int unfolding video_partial_def within_def by blast
  define st1 where "st1 = ?int st"
  let ?st2 = "if ms_video st1 then (video_shutdown env st1)\<lparr>ms_video := False\<rparr> else st1"
  have 2: "st_is (C \<union> A) (False, False, audio) ?st2"
  proof (cases video)
    case True
    from True st have "video_partial (C \<union> A) True audio st" by simp
    then have v: "video_partial (C \<union> A) True audio st1" unfolding st1_def by (rule int_video)
    then have "ms_video st1" by (auto simp: video_partial_def within_def st_is_def owners_def)
    moreover have "st_is (C \<union> A) (False, True, audio) (video_shutdown env st1)" by (rule video_shutdown_good [OF v base])
    ultimately show ?thesis by (simp add: st_is_def owners_def)
  next
    case False
    from False st have "st_is (C \<union> A) (False, False, audio) st" by simp
    then have "st_is (C \<union> A) (False, False, audio) st1" unfolding st1_def by (rule int)
    then show ?thesis by (simp add: st_is_def owners_def)
  qed
  let ?st3 = "cleanups env [(Isp, [App Isp_deinit])] ?st2"
  have order1: "orderly base_flags [(Isp, [App Isp_deinit])]" by code_simp
  from cleanups_good [OF 2 order1 base] have 3: "st_is (C \<union> A - {Isp}) (False, False, audio) ?st3" by simp
  let ?st4 = "if ms_audio ?st3 then (audio_shutdown env ?st3)\<lparr>ms_audio := False\<rparr> else ?st3"
  have 4: "st_is (C \<union> A - {Isp} - audio_flags) (False, False, False) ?st4"
  proof (cases audio)
    case True
    have "C \<union> A - {Isp} \<subseteq> set all_flags" using base all_flags_sets(1) by blast
    from cleanups_good [OF 3 audio_flag_facts(1) this]
    have "st_is (C \<union> A - {Isp} - audio_flags) (False, False, audio) (audio_shutdown env ?st3)"
      by (simp add: audio_shutdown_def audio_flag_facts(2))
    with 3 True show ?thesis by (simp add: st_is_def owners_def)
  next
    case False
    have "C \<union> A - {Isp} - audio_flags = C \<union> A - {Isp}" using False ca core_facts(1) by blast
    with 3 False show ?thesis by (simp add: st_is_def owners_def)
  qed
  have order2: "orderly [Isp, Rockiva, Mpi, Publisher] [(Publisher, [App Publisher_deinit]), (Mpi, [App Mpi_exit]), (Rockiva, [App Iva_deinit])]"
    by code_simp
  have "C \<union> A - {Isp} - audio_flags \<subseteq> set [Isp, Rockiva, Mpi, Publisher]" using ca by (auto simp: core_flags_def)
  note last = cleanups_good [OF 4 order2 this]
  have "C \<union> A - {Isp} - audio_flags -
      fst ` set [(Publisher, [App Publisher_deinit]), (Mpi, [App Mpi_exit]), (Rockiva, [App Iva_deinit])] = {}"
    using ca by (auto simp: core_flags_def)
  moreover have "media_shutdown env st =
      cleanups env [(Publisher, [App Publisher_deinit]), (Mpi, [App Mpi_exit]), (Rockiva, [App Iva_deinit])] ?st4"
    by (simp only: media_shutdown_def Let_def st1_def)
  ultimately show ?thesis using last by (simp only:)
qed

lemma partial_core: "st_is C (False, False, False) st \<Longrightarrow> C \<subseteq> core_flags \<Longrightarrow> media_partial st"
  unfolding media_partial_def by (intro exI [of _ C] exI [of _ "{}"] exI [of _ False]) simp

lemma triple_bex: "(\<And>x. x \<subseteq> X \<Longrightarrow> triple (P x) a Q R) \<Longrightarrow> triple (\<lambda>st. \<exists>x \<subseteq> X. P x st) a Q R"
  unfolding triple_def by blast

text \<open>From the video pipeline, which holds \<open>C\<close> besides its own, to the audio pipeline on top of it.\<close>

lemma audio_on_video:
  assumes "C \<subseteq> core_flags" "Mpi \<in> C" "Publisher \<in> C"
  shows "triple (video_partial C True False) (seqs [audio_new env sizes cfg, set_audio True]) media_partial media_partial"
proof -
  have "triple (st_is H (fps, True, False)) (seqs [audio_new env sizes cfg, set_audio True]) media_partial media_partial"
    if H: "C \<subseteq> H" "H \<subseteq> C \<union> worker_flags \<union> channel_flags \<union> overlay_flags \<union> (if fps then fps_flags else {})" for H fps
  proof -
    let ?own = "(fps, True, False)"
    have vid: "H \<subseteq> C \<union> video_flags" using H(2) by (auto simp: video_flags_def split: if_splits)
    then have "audio_flags \<inter> H = {}" using assms(1) core_facts(1) audio_flag_facts(4) by blast
    moreover have "H \<subseteq> set all_flags" using vid assms(1) core_facts(2) all_flags_sets(1) by blast
    ultimately have new: "triple (st_is H ?own) (audio_new env sizes cfg) (within H (H \<union> audio_flags) ?own) (st_is H ?own)"
      using assms H(1) by (intro audio_new_triple) auto
    have failed: "media_partial st" if "st_is H ?own st" for st
    proof -
      have "video_partial C True False st"
        unfolding video_partial_def by (rule exI [of _ fps], rule withinI [OF that H])
      then show ?thesis
        unfolding media_partial_def using assms(1)
        by (intro exI [of _ C] exI [of _ "{}"] exI [of _ True] exI [of _ False]) simp
    qed
    have grown: "triple (within H (H \<union> audio_flags) ?own) (set_audio True) media_partial media_partial"
      unfolding triple_def
    proof (intro allI impI)
      fix st
      assume "within H (H \<union> audio_flags) ?own st"
      then obtain H' where h: "H \<subseteq> H'" "H' \<subseteq> H \<union> audio_flags" "st_is H' ?own st" by (auto simp: within_def)
      let ?A = "H' \<inter> audio_flags"
      have "st_is H' (fps, True, True) (st\<lparr>ms_audio := True\<rparr>)" using h(3) by (simp add: st_is_def owners_def)
      moreover have "C \<union> ?A \<subseteq> H'" using h(1) H(1) by blast
      moreover have "H' \<subseteq> C \<union> ?A \<union> worker_flags \<union> channel_flags \<union> overlay_flags \<union> (if fps then fps_flags else {})"
        using h(2) H(2) by blast
      ultimately have "video_partial (C \<union> ?A) True True (st\<lparr>ms_audio := True\<rparr>)"
        unfolding video_partial_def within_def by blast
      then have "media_partial (st\<lparr>ms_audio := True\<rparr>)"
        unfolding media_partial_def using assms(1)
        by (intro exI [of _ C] exI [of _ ?A] exI [of _ True]) simp
      then show "case set_audio True st of None \<Rightarrow> True | Some (ok, st') \<Rightarrow> if ok then media_partial st' else media_partial st'"
        by (simp add: set_audio_def)
    qed
    show ?thesis
      by (rule triple_Cons [OF triple_weaken [OF new _ _ failed]], assumption, assumption, assumption)
        (rule triple_Cons [OF grown triple_Nil])
  qed
  then show ?thesis
    unfolding triple_def video_partial_def within_def by blast
qed

lemma initialize_capture_triple:
  assumes "pipe_binds env" "C \<subseteq> core_flags" "Mpi \<in> C" "Publisher \<in> C"
    and "\<And>npu. rk_param_get_int cfg ''video.source:enable_npu'' 1 = Some npu \<Longrightarrow> npu \<noteq> 0 \<Longrightarrow> Rockiva \<in> C"
  shows "triple (st_is C (False, False, False)) (initialize_capture env sizes cfg) media_partial media_partial"
  unfolding initialize_capture_def
proof (rule triple_Cons)
  have "C \<subseteq> set base_flags" using assms(2) core_facts(2) by blast
  then show "triple (st_is C (False, False, False)) (video_new env cfg) (video_partial C False False) media_partial"
    by (intro triple_weaken [OF video_new_triple [where v = False and a = False, OF assms(1) _ assms(3-5)]])
      (auto intro: partial_core [OF _ assms(2)])
  have set_v: "triple (video_partial C False False) (set_video True) (video_partial C True False) media_partial"
    by (auto simp: triple_def set_video_def video_partial_def within_def st_is_def owners_def)
  have stay: "media_partial st" if "video_partial C True False st" for st
    unfolding media_partial_def using assms(2) that
    by (intro exI [of _ C] exI [of _ "{}"] exI [of _ True] exI [of _ False]) simp
  have "triple (video_partial C True False)
      (reading x (\<lambda>audio. only_if (audio \<noteq> (0 :: int)) (seqs [audio_new env sizes cfg, set_audio True]))) media_partial media_partial" for x
    by (rule triple_reading, rule triple_only_if [OF audio_on_video [OF assms(2-4)]]) (auto intro: stay)
  from triple_Cons [OF set_v triple_Cons [OF this triple_Nil]]
  show "triple (video_partial C False False)
      (seqs [set_video True, reading (rk_param_get_int cfg ''audio.0:enable'' 1)
         (\<lambda>audio. only_if (audio \<noteq> 0) (seqs [audio_new env sizes cfg, set_audio True]))]) media_partial media_partial" .
qed

text \<open>A part of the construction up to the publisher: the global resources grow.\<close>

lemma triple_partial:
  assumes "triple (st_is C (False, False, False)) a (\<lambda>st. \<exists>E \<subseteq> F. st_is (C \<union> E) (False, False, False) st)
      (within C (C \<union> F) (False, False, False))" "C \<union> F \<subseteq> core_flags"
  shows "triple (st_is C (False, False, False)) a (\<lambda>st. \<exists>E \<subseteq> F. st_is (C \<union> E) (False, False, False) st) media_partial"
  by (rule triple_weaken [OF assms(1)]) (use assms(2) in \<open>auto simp: within_def intro!: partial_core\<close>)

lemma acquire_core:
  assumes "acquires c = Some f" "releases c = None" "works_on c = []" "f \<notin> C" "needs f = []"
    and "\<And>st. st_is C own st \<Longrightarrow> R st"
  shows "triple (st_is C own) (seqs [require_ok env c, set_flag f]) (st_is (insert f C) own) R"
  by (rule triple_acquire [OF assms(1-4) _ _ triple_Nil]) (use assms(5,6) in auto)

lemma media_new_triple:
  assumes "pipe_binds env"
  shows "triple (st_is {} (False, False, False)) (media_new env sizes cfg iq_dir) media_partial (st_is {} (False, False, False))"
proof -
  let ?own = "(False, False, False)"
  have core: "media_partial st" if "st_is C ?own st" "C \<subseteq> core_flags" for C st using that by (rule partial_core)
  have isp: "triple (st_is {} ?own) (initialize_isp env cfg iq_dir)
      (\<lambda>st. \<exists>C \<subseteq> {Isp}. st_is C ?own st) media_partial"
    unfolding initialize_isp_def
  proof (rule triple_reading, rule triple_only_if)
    have ini: "triple (st_is {Isp} ?own) (reading x (\<lambda>ini. only_if (ini \<noteq> (0 :: int)) (require_ok env (App Isp_set_from_ini))))
        (st_is {Isp} ?own) media_partial" for x
      by (rule triple_reading, rule triple_only_if, rule triple_require) (auto intro!: core simp: core_flags_def)
    have "triple (st_is {} ?own) (seqs [require_ok env (App (Isp_init iq_dir)), set_flag Isp,
        reading x (\<lambda>ini. only_if (ini \<noteq> (0 :: int)) (require_ok env (App Isp_set_from_ini)))]) (st_is {Isp} ?own) media_partial" for x
      by (rule triple_acquire [OF _ _ _ _ _ _ triple_Cons [OF ini triple_Nil]]) (auto intro: core)
    then show "triple (st_is {} ?own) (seqs [require_ok env (App (Isp_init iq_dir)), set_flag Isp,
        reading (rk_param_get_int cfg ''isp:init_form_ini'' 1)
          (\<lambda>ini. only_if (ini \<noteq> 0) (require_ok env (App Isp_set_from_ini)))]) (\<lambda>st. \<exists>C \<subseteq> {Isp}. st_is C ?own st) media_partial"
      by (rule triple_weaken) auto
  qed (auto intro!: exI [of _ "{}"])
  define npu where "npu = (\<exists>v. rk_param_get_int cfg ''video.source:enable_npu'' 1 = Some v \<and> v \<noteq> 0)"
  have rockiva: "triple (st_is C ?own) (initialize_rockiva env cfg)
      (st_is (C \<union> (if npu then {Rockiva} else {})) ?own) media_partial" if "C \<subseteq> {Isp}" for C
    unfolding initialize_rockiva_def
  proof (rule triple_reading_eq, rule triple_only_if)
    fix v
    assume v: "rk_param_get_int cfg ''video.source:enable_npu'' 1 = Some v" "v \<noteq> 0"
    have "Rockiva \<notin> C" using that by auto
    then have "triple (st_is C ?own) (seqs [require_ok env (App Iva_init), set_flag Rockiva])
        (st_is (insert Rockiva C) ?own) media_partial"
      by (intro acquire_core) (use that in \<open>auto intro!: core simp: core_flags_def\<close>)
    with v show "triple (st_is C ?own) (seqs [require_ok env (App Iva_init), set_flag Rockiva])
        (st_is (C \<union> (if npu then {Rockiva} else {})) ?own) media_partial" by (auto simp: npu_def)
  qed (auto simp: npu_def)
  have rest: "triple (st_is D ?own)
      (seqs [initialize_mpi env, initialize_publisher env, initialize_capture env sizes cfg]) media_partial media_partial"
    if D: "D \<subseteq> {Isp, Rockiva}" "npu \<longrightarrow> Rockiva \<in> D" for D
  proof -
    have "Mpi \<notin> D" "Publisher \<notin> insert Mpi D" using D by auto
    then have mpi: "triple (st_is D ?own) (initialize_mpi env) (st_is (insert Mpi D) ?own) media_partial"
      and pub: "triple (st_is (insert Mpi D) ?own) (initialize_publisher env) (st_is (insert Publisher (insert Mpi D)) ?own) media_partial"
      unfolding initialize_mpi_def initialize_publisher_def
      by (intro acquire_core; use D in \<open>auto intro!: core simp: core_flags_def\<close>)+
    have "triple (st_is (insert Publisher (insert Mpi D)) ?own) (initialize_capture env sizes cfg) media_partial media_partial"
      by (rule initialize_capture_triple [OF assms]) (use D in \<open>auto simp: core_flags_def npu_def\<close>)
    from triple_Cons [OF mpi triple_Cons [OF pub triple_Cons [OF this triple_Nil]]] show ?thesis .
  qed
  have "triple (\<lambda>st. \<exists>C \<subseteq> {Isp}. st_is C ?own st)
      (seqs [initialize_rockiva env cfg, initialize_mpi env, initialize_publisher env, initialize_capture env sizes cfg])
      media_partial media_partial"
    by (rule triple_bex, rule triple_Cons [OF rockiva], assumption, rule rest) auto
  from triple_Cons [OF isp this]
  have body: "triple (st_is {} ?own) (seqs [initialize_isp env cfg iq_dir, initialize_rockiva env cfg, initialize_mpi env,
      initialize_publisher env, initialize_capture env sizes cfg]) media_partial media_partial" .
  show ?thesis unfolding media_new_def by (rule triple_or_cleanup [OF body]) (rule media_shutdown_good)
qed

section \<open>Construction comes to its end\<close>

text \<open>No value the pipeline reads is NULL; only the entries of sections themselves are, and their keys have no colon.\<close>

definition cfg_readable :: "param_state \<Rightarrow> bool" where
  "cfg_readable cfg \<longleftrightarrow>
     (\<forall>key fb. CHR '':'' \<in> set key \<longrightarrow> rk_param_get_int cfg key fb \<noteq> None \<and> media_text cfg key [] \<noteq> None)"

definition all_calls_succeed :: "media_env \<Rightarrow> bool" where
  "all_calls_succeed env \<longleftrightarrow> (\<forall>log c. me_result env log c = 0)"

text \<open>A step that returns, and goes on if \<open>c\<close> holds.\<close>

definition returns :: "bool \<Rightarrow> act \<Rightarrow> bool" where
  "returns c a \<longleftrightarrow> (\<forall>st. \<exists>ok st'. a st = Some (ok, st') \<and> (c \<longrightarrow> ok))"

named_theorems returns_rules "steps that return"

lemma returns_seqs [returns_rules]:
  "returns c (seqs [])" "returns c a \<Longrightarrow> returns c (seqs as) \<Longrightarrow> returns c (seqs (a # as))"
proof -
  show "returns c (seqs [])" by (auto simp: returns_def)
  assume a: "returns c a" "returns c (seqs as)"
  show "returns c (seqs (a # as))"
    unfolding returns_def
  proof
    fix st
    obtain ok st' where 1: "a st = Some (ok, st')" "c \<longrightarrow> ok" using a(1) unfolding returns_def by blast
    obtain ok2 st2 where "seqs as st' = Some (ok2, st2)" "c \<longrightarrow> ok2" using a(2) unfolding returns_def by blast
    with 1 show "\<exists>ok st'. seqs (a # as) st = Some (ok, st') \<and> (c \<longrightarrow> ok)" by (cases ok) auto
  qed
qed

lemma returnsI: "(\<And>st. \<exists>st'. a st = Some (True, st')) \<Longrightarrow> returns c a"
  unfolding returns_def by blast

lemma returns_flags [returns_rules]:
  "returns c (set_flag f)" "returns c (set_fps b)" "returns c (set_video b)" "returns c (set_audio b)" "returns c (ignore env k)"
  by (rule returnsI, simp add: set_flag_def set_fps_def set_video_def set_audio_def ignore_def)+

lemma returns_fps_update [returns_rules]: "returns c (fps_update env i)"
  by (rule returnsI) (simp add: fps_update_def Let_def ignore_def split: prod.splits)

lemma returns_require [returns_rules]: "returns (all_calls_succeed env) (require_ok env k)"
  by (simp add: returns_def require_ok_def all_calls_succeed_def sdk_log)

lemma returns_only_if [returns_rules]: "returns c a \<Longrightarrow> returns c (only_if b a)"
  by (cases b) (auto simp: returns_def only_if_def)

lemma returns_or_cleanup [returns_rules]: "returns c a \<Longrightarrow> returns c (or_cleanup undo a)"
  unfolding returns_def or_cleanup_def
proof
  fix st
  assume "\<forall>st. \<exists>ok st'. a st = Some (ok, st') \<and> (c \<longrightarrow> ok)"
  then obtain ok st' where "a st = Some (ok, st')" "c \<longrightarrow> ok" by blast
  then show "\<exists>ok st'. (case a st of None \<Rightarrow> None | Some (ok, st') \<Rightarrow> if ok then Some (True, st') else Some (False, undo st'))
      = Some (ok, st') \<and> (c \<longrightarrow> ok)" by (cases ok) auto
qed

lemma returns_reading [returns_rules]: "x \<noteq> None \<Longrightarrow> (\<And>v. returns c (f v)) \<Longrightarrow> returns c (reading x f)"
  by (auto simp: returns_def reading_def)

lemma returns_device [returns_rules]: "returns (all_calls_succeed env) (init_device env)"
proof -
  have "returns (all_calls_succeed env)
      (seqs [only_if b (require_ok env (Vi Set_dev_attr)),
             (\<lambda>st. let (enabled, st') = sdk env (Vi Get_dev_is_enable) st
                   in only_if (enabled \<noteq> 0) (seqs [require_ok env (Vi Enable_dev), require_ok env (Vi Set_dev_bind_pipe)]) st'),
             set_flag Device])" for b
  proof (intro returns_rules)
    have "returns (all_calls_succeed env) (only_if b (seqs [require_ok env (Vi Enable_dev), require_ok env (Vi Set_dev_bind_pipe)]))" for b
      by (intro returns_rules)
    then show "returns (all_calls_succeed env)
        (\<lambda>st. let (enabled, st') = sdk env (Vi Get_dev_is_enable) st
              in only_if (enabled \<noteq> 0) (seqs [require_ok env (Vi Enable_dev), require_ok env (Vi Set_dev_bind_pipe)]) st')"
      by (simp add: returns_def case_prod_unfold Let_def)
  qed
  then show ?thesis unfolding returns_def init_device_def by (simp add: Let_def case_prod_unfold)
qed

lemma readable_int [returns_rules]: "cfg_readable cfg \<Longrightarrow> CHR '':'' \<in> set key \<Longrightarrow> rk_param_get_int cfg key fb \<noteq> None"
  by (simp add: cfg_readable_def)

lemma readable_text [returns_rules]:
  assumes "cfg_readable cfg" "CHR '':'' \<in> set key"
  shows "media_text cfg key fb \<noteq> None"
proof -
  have "media_text cfg key [] \<noteq> None" using assms by (simp add: cfg_readable_def)
  then show ?thesis
    by (auto simp: media_text_def rk_param_get_string_def iniparser_getstring_def dictionary_get_def
        split: cptr.splits option.splits)
qed

lemma media_key_colon [returns_rules]: "i < 10 \<Longrightarrow> CHR '':'' \<in> set (media_key i name)"
  by (simp add: media_key_def show_nat.simps [of i])

lemma readable_value [returns_rules]: "cfg_readable cfg \<Longrightarrow> i < 10 \<Longrightarrow> media_value cfg i name fb \<noteq> None"
  unfolding media_value_def by (intro readable_int media_key_colon)

lemma readable_h265 [returns_rules]: "cfg_readable cfg \<Longrightarrow> i < 10 \<Longrightarrow> media_h265 cfg i \<noteq> None"
  unfolding media_h265_def using readable_text [OF _ media_key_colon] by (metis option.map_disc_iff)

lemma bind_not_None: "x \<noteq> None \<Longrightarrow> (\<And>v. f v \<noteq> None) \<Longrightarrow> Option.bind x f \<noteq> None"
  by (cases x) simp_all

lemma map_not_None: "x \<noteq> None \<Longrightarrow> map_option f x \<noteq> None"
  by simp

lemma Some_not_None: "Some x \<noteq> None"
  by simp

lemma if_not_None: "x \<noteq> None \<Longrightarrow> y \<noteq> None \<Longrightarrow> (if c then x else y) \<noteq> None"
  by simp

lemmas reads = bind_not_None map_not_None Some_not_None if_not_None readable_value readable_h265 readable_text readable_int media_key_colon

lemma set_rate_reads: "cfg_readable cfg \<Longrightarrow> i < 10 \<Longrightarrow> set_rate cfg i h cbr \<noteq> None"
  unfolding set_rate_def Let_def by (intro reads)

lemma attr_reads [returns_rules]:
  assumes "cfg_readable cfg"
  shows "i < 10 \<Longrightarrow> vi_attr_of cfg npu i \<noteq> None" "i < 10 \<Longrightarrow> venc_attr_of cfg i \<noteq> None"
    "i < 10 \<Longrightarrow> rc_param_of cfg i h qp \<noteq> None" "overlay_attr_of cfg \<noteq> None"
    "ai_attr_of n cfg \<noteq> None" "vqe_attr_of n cfg rate \<noteq> None" "audio_value cfg name fb \<noteq> None"
    "audio_text cfg name t \<noteq> None"
proof -
  have audio: "audio_value cfg name fb \<noteq> None" "audio_text cfg name t \<noteq> None" for name fb t
    unfolding audio_value_def audio_text_def by (intro readable_int readable_text assms, simp)+
  show "i < 10 \<Longrightarrow> vi_attr_of cfg npu i \<noteq> None" unfolding vi_attr_of_def by (intro reads assms) simp_all
  show "i < 10 \<Longrightarrow> venc_attr_of cfg i \<noteq> None"
    unfolding venc_attr_of_def Let_def by (intro reads set_rate_reads assms) simp_all
  show "i < 10 \<Longrightarrow> rc_param_of cfg i h qp \<noteq> None" unfolding rc_param_of_def by (intro reads assms) simp_all
  show "overlay_attr_of cfg \<noteq> None" unfolding overlay_attr_of_def kAi_def by (intro reads assms) simp_all
  show "ai_attr_of n cfg \<noteq> None" unfolding ai_attr_of_def by (intro bind_not_None Some_not_None audio)
  show "vqe_attr_of n cfg rate \<noteq> None" unfolding vqe_attr_of_def by (intro bind_not_None Some_not_None audio)
  show "audio_value cfg name fb \<noteq> None" "audio_text cfg name t \<noteq> None" by (rule audio)+
qed

lemma returns_mono: "returns c a \<Longrightarrow> (c' \<Longrightarrow> c) \<Longrightarrow> returns c' a"
  unfolding returns_def by blast

lemma video_returns:
  assumes "cfg_readable cfg"
  shows "returns (all_calls_succeed env) (video_new env cfg)"
proof -
  let ?S = "all_calls_succeed env"
  note rules = returns_rules assms
  have vi: "returns ?S (create_vi env cfg npu i)" if "i < 10" for npu i
    unfolding create_vi_def by (intro rules that)
  have quality: "returns ?S (apply_quality env cfg i h)" if "i < 10" for i h
    unfolding apply_quality_def by (intro rules that)
  have venc: "returns ?S (create_venc env cfg i)" if "i < 10" for i
    unfolding create_venc_def by (intro rules that quality)
  have bind: "returns ?S (bind_video env i)" for i
    unfolding bind_video_def by (intro rules)
  have overlay: "returns ?S (create_overlay env cfg)"
    unfolding create_overlay_def by (intro rules)
  have create: "returns ?S (fps_create env i)" for i
    unfolding fps_create_def by (intro rules)
  have fps: "returns ?S (fps_new env)"
    unfolding fps_new_def by (intro rules create)
  have ids: "kMain < 10" "kAi < 10" by (simp_all add: kMain_def kAi_def)
  have channels: "returns ?S (initialize_channels env cfg npu)" for npu
    unfolding initialize_channels_def by (intro rules vi venc bind overlay fps ids) simp
  have worker: "returns ?S (start_worker env w)" for w
    unfolding start_worker_def by (intro rules)
  have workers: "returns ?S (start_workers env npu)" for npu
    unfolding start_workers_def by (intro rules worker)
  show ?thesis
    unfolding video_new_def by (intro rules channels workers) simp
qed

lemma media_returns:
  assumes "cfg_readable cfg"
  shows "returns (all_calls_succeed env \<and> audio_text cfg ''encode_type'' ''G711A'' = Some ''G711A'') (media_new env sizes cfg iq_dir)"
proof -
  let ?C = "all_calls_succeed env \<and> audio_text cfg ''encode_type'' ''G711A'' = Some ''G711A''"
  note rules = returns_rules assms
  have require: "returns ?C (require_ok env c)" for c
    by (rule returns_mono [OF returns_require]) simp
  have codec: "returns ?C (validate_configuration cfg)"
    using attr_reads(8) [OF assms, of "''encode_type''" "''G711A''"]
    by (auto simp: returns_def validate_configuration_def reading_def)
  have input: "returns ?C (initialize_audio_input env sizes cfg)"
    unfolding initialize_audio_input_def by (intro rules require)
  have encoder: "returns ?C (create_encoder env cfg)"
    unfolding create_encoder_def by (intro rules require bind_not_None Some_not_None)
  have bind: "returns ?C (bind_input_to_encoder env)"
    unfolding bind_input_to_encoder_def by (intro rules require)
  have worker: "returns ?C (start_worker env w)" for w
    unfolding start_worker_def by (intro rules require)
  have audio: "returns ?C (audio_new env sizes cfg)"
    unfolding audio_new_def by (intro rules codec input encoder bind worker)
  have video: "returns ?C (video_new env cfg)"
    by (rule returns_mono [OF video_returns [OF assms]]) simp
  have isp: "returns ?C (initialize_isp env cfg iq_dir)"
    unfolding initialize_isp_def by (intro rules require) simp_all
  have rockiva: "returns ?C (initialize_rockiva env cfg)"
    unfolding initialize_rockiva_def by (intro rules require) simp_all
  have mpi: "returns ?C (initialize_mpi env)" "returns ?C (initialize_publisher env)"
    unfolding initialize_mpi_def initialize_publisher_def by (intro rules require)+
  have capture: "returns ?C (initialize_capture env sizes cfg)"
    unfolding initialize_capture_def by (intro rules video audio) simp_all
  show ?thesis
    unfolding media_new_def by (intro rules isp rockiva mpi capture)
qed


definition no_config :: param_state where
  "no_config = \<lparr>g_ini_path = [], g_ini_d = None\<rparr>"

definition example_sizes :: audio_sizes where
  "example_sizes = \<lparr>as_card = 64, as_vqe_file = 256\<rparr>"

definition working_env :: media_env where
  "working_env = \<lparr>me_result = \<lambda>_ _. 0, me_mapped = \<lambda>_. True, me_not_config = 1\<rparr>"

lemma no_config_readable: "cfg_readable no_config"
  by (simp add: cfg_readable_def no_config_def rk_param_get_int_def media_text_def rk_param_get_string_def
      iniparser_getint_def iniparser_getlongint_def iniparser_getstring_def)


lemma plain_sections_readable:
  assumes "g_ini_d cfg = Some d" "dict_map d = map_of kvs"
    and "\<forall>(k, v) \<in> set kvs. v = None \<longrightarrow> CHR '':'' \<notin> set k \<and> length k < ASCIILINESZ"
  shows "cfg_readable cfg"
proof -
  have get: "iniparser_getstring (Some d) (Some key) fb = cfg_lookup kvs key fb" for key fb
    by (rule getstring_entries [OF assms(2)])
  have "cfg_lookup kvs key fb = fb \<or> (\<exists>s. cfg_lookup kvs key fb = Str s)" if "CHR '':'' \<in> set key" for key fb
  proof (cases "map_of kvs (map c_tolower (take ASCIILINESZ key))")
    case (Some v)
    have "v \<noteq> None"
    proof
      assume "v = None"
      with Some assms(3) have low: "CHR '':'' \<notin> c_tolower ` set (take ASCIILINESZ key)" "length key < ASCIILINESZ"
        by (auto dest!: map_of_SomeD)
      moreover have "c_tolower CHR '':'' = CHR '':''" by code_simp
      ultimately show False using that by (metis imageI take_all_iff less_imp_le)
    qed
    with Some show ?thesis by (auto simp: cfg_lookup_def)
  qed (simp add: cfg_lookup_def)
  then show ?thesis
    unfolding cfg_readable_def rk_param_get_int_def media_text_def rk_param_get_string_def assms(1)
      iniparser_getint_def iniparser_getlongint_def get
    by (metis (no_types, lifting) cptr.case(2,3) not_None_eq)
qed

lemma all_given_readable:
  assumes "g_ini_d cfg = Some d" "dict_map d = map_of kvs" "\<forall>(k, v) \<in> set kvs. v \<noteq> None"
  shows "cfg_readable cfg"
  by (rule plain_sections_readable [OF assms(1,2)]) (use assms(3) in auto)

lemma no_config_values:
  "rk_param_get_int no_config key fb = Some fb" "media_text no_config key t = Some t"
  by (simp_all add: no_config_def rk_param_get_int_def media_text_def rk_param_get_string_def
      iniparser_getint_def iniparser_getlongint_def iniparser_getstring_def)

text \<open>The case left out: when the pipe cannot be bound, the device that was just enabled is live, but its flag
  is not set, so that no cleanup disables it.\<close>

lemma unbound_device_leaks:
  assumes "st_is H own st" "Mpi \<in> H" "Device \<notin> H"
    and "\<And>log. me_result env log (Vi Set_dev_attr) = 0" "\<And>log. me_result env log (Vi Get_dev_is_enable) \<noteq> 0"
    and "\<And>log. me_result env log (Vi Enable_dev) = 0" "\<And>log. me_result env log (Vi Set_dev_bind_pipe) \<noteq> 0"
  shows "\<exists>st' live. init_device env st = Some (False, st') \<and> \<not> held Device st' \<and>
     live_after (ms_log st') [] = Some live \<and> Device \<in> set live"
proof -
  from assms(1) obtain live where live: "live_after (ms_log st) [] = Some live" "set live = H" "set (ms_held st) = H"
    unfolding st_is_def by (blast elim: goodE)
  have attr: "after_call (Vi Get_dev_attr, r) live = Some live" "after_call (Vi Set_dev_attr, r) live = Some live" for r
    using assms(2) live(2) by (simp_all add: after_call_def)
  have dev: "after_call (Vi Get_dev_is_enable, me_result env log (Vi Get_dev_is_enable)) live = Some live"
    "after_call (Vi Enable_dev, 0) live = Some (Device # live)" "after_call (Vi Set_dev_bind_pipe, r) (Device # live) = Some (Device # live)"
    for r log
    using assms(2,3,5) live(2) by (simp_all add: after_call_def)
  show ?thesis
    using assms(3-7) live
    by (auto simp: init_device_def sdk_log only_if_def require_ok_def Let_def live_after_append attr dev held_def)
qed

end
