(* ===== verification/OverlayCanvas.thy ===== *)
theory OverlayCanvas
  imports MediaSdk
begin

unbundle bit_operations_syntax

text \<open>
  Drawing into the 2-bit canvases: the hollow rectangles of the detection overlay (\<^verbatim>\<open>rectangle\<close> and one refresh in
  \<^verbatim>\<open>src/media/video.cpp\<close>) and the frame-rate text of \<^verbatim>\<open>src/osd/fps_text.hpp\<close>. A canvas is its
  list of bytes, four pixels each; a write outside of it, and an overflow of an \<^verbatim>\<open>int\<close>, is \<open>None\<close>.
\<close>

section \<open>Rectangles\<close>

definition int_ok :: "int \<Rightarrow> bool" where
  "int_ok v \<longleftrightarrow> - (2 ^ 31) \<le> v \<and> v < 2 ^ 31"

text \<open>\<^verbatim>\<open>memset\<close> of \<open>n\<close> bytes at an offset.\<close>

definition canvas_set :: "nat \<Rightarrow> nat \<Rightarrow> byte \<Rightarrow> byte list \<Rightarrow> byte list option" where
  "canvas_set at n color buf =
     (if at + n \<le> length buf then Some (take at buf @ replicate n color @ drop (at + n) buf) else None)"

definition rectangle_row ::
  "int \<Rightarrow> int \<Rightarrow> int \<Rightarrow> int \<Rightarrow> int \<Rightarrow> byte \<Rightarrow> int \<Rightarrow> byte list \<Rightarrow> byte list option" where
  "rectangle_row bytes_per_row left right y rect_height color row buf =
     (if \<not> int_ok ((y + row) * bytes_per_row) then None
      else
        (let line = nat ((y + row) * bytes_per_row)
         in if row < 4 \<or> row \<ge> rect_height - 4
            then canvas_set (line + nat left) (nat (right - left + 1)) color buf
            else (case canvas_set (line + nat left) 1 color buf of
                    None \<Rightarrow> None
                  | Some buf' \<Rightarrow> canvas_set (line + nat right) 1 color buf')))"

fun rows :: "(int \<Rightarrow> byte list \<Rightarrow> byte list option) \<Rightarrow> nat \<Rightarrow> byte list \<Rightarrow> byte list option" where
  "rows f 0 buf = Some buf"
| "rows f (Suc n) buf = (case rows f n buf of None \<Rightarrow> None | Some buf' \<Rightarrow> f (int n) buf')"

definition rectangle ::
  "byte list \<Rightarrow> int \<Rightarrow> int \<Rightarrow> int \<Rightarrow> int \<Rightarrow> int \<Rightarrow> int \<Rightarrow> byte \<Rightarrow> byte list option" where
  "rectangle buf stride height x0 y0 width0 rect_height0 color =
     (if \<not> int_ok (width0 + 3) then None
      else
        (let x = max 0 (x0 AND NOT 3); y = max 0 y0
         in if \<not> int_ok (stride - x) \<or> \<not> int_ok (height - y) then None
            else
              (let width = min ((width0 + 3) AND NOT 3) (stride - x);
                   rect_height = min rect_height0 (height - y)
               in if width < 8 \<or> rect_height < 8 then Some buf
                  else
                    (let bytes_per_row = stride div 4; left = x div 4; right = (x + width) div 4 - 1
                     in rows (rectangle_row bytes_per_row left right y rect_height color) (nat rect_height) buf))))"

text \<open>The detected objects, whose coordinates are ten-thousandths of the picture; division truncates.\<close>

record detected =
  de_left :: int
  de_top :: int
  de_right :: int
  de_bottom :: int
  de_person :: bool

definition draw_object :: "int \<Rightarrow> int \<Rightarrow> int \<Rightarrow> int \<Rightarrow> detected \<Rightarrow> byte list \<Rightarrow> byte list option" where
  "draw_object width height vir_width vir_height ob buf =
     (if \<not> (int_ok (width * de_left ob) \<and> int_ok (height * de_top ob) \<and> int_ok (width * (de_right ob - de_left ob)) \<and>
            int_ok (height * (de_bottom ob - de_top ob)))
      then None
      else rectangle buf vir_width vir_height
             (width * de_left ob sdiv 10000) (height * de_top ob sdiv 10000)
             (width * (de_right ob - de_left ob) sdiv 10000) (height * (de_bottom ob - de_top ob) sdiv 10000)
             (if de_person ob then 0xff else 0xaa))"

fun draw_objects :: "int \<Rightarrow> int \<Rightarrow> int \<Rightarrow> int \<Rightarrow> detected list \<Rightarrow> byte list \<Rightarrow> byte list option" where
  "draw_objects width height vir_width vir_height [] buf = Some buf"
| "draw_objects width height vir_width vir_height (ob # obs) buf =
     (case draw_object width height vir_width vir_height ob buf of
        None \<Rightarrow> None | Some buf' \<Rightarrow> draw_objects width height vir_width vir_height obs buf')"

text \<open>One refresh: the latest result, kept for 300 ms (times are nanoseconds of the steady clock), on a cleared canvas of \<open>vir_width * vir_height / 4\<close> bytes.\<close>

record overlay_st =
  ov_latest :: "detected list"
  ov_last :: "int option"

definition overlay_update :: "detected list option \<Rightarrow> int \<Rightarrow> overlay_st \<Rightarrow> overlay_st" where
  "overlay_update result now st =
     (case result of
        Some obs \<Rightarrow> \<lparr>ov_latest = obs, ov_last = Some now\<rparr>
      | None \<Rightarrow>
          (case ov_last st of
             Some t \<Rightarrow> if now - t > 300 * 1000000 then st\<lparr>ov_latest := []\<rparr> else st
           | None \<Rightarrow> st))"

definition overlay_refresh :: "int \<Rightarrow> int \<Rightarrow> nat \<Rightarrow> nat \<Rightarrow> overlay_st \<Rightarrow> byte list option" where
  "overlay_refresh width height vir_width vir_height st =
     draw_objects width height (int vir_width) (int vir_height) (ov_latest st) (replicate (vir_width * vir_height div 4) 0)"

section \<open>What a rectangle draws\<close>

lemma canvas_set_ok:
  assumes "at + n \<le> length buf"
  obtains buf' where "canvas_set at n color buf = Some buf'" "length buf' = length buf"
    "\<And>i. i < length buf \<Longrightarrow> buf' ! i = (if at \<le> i \<and> i < at + n then color else buf ! i)"
proof -
  let ?b = "take at buf @ replicate n color @ drop (at + n) buf"
  have "canvas_set at n color buf = Some ?b" using assms by (simp add: canvas_set_def)
  moreover have "length ?b = length buf" using assms by simp
  moreover have "?b ! i = (if at \<le> i \<and> i < at + n then color else buf ! i)" if "i < length buf" for i
    using that assms by (auto simp: nth_append)
  ultimately show ?thesis using that by blast
qed

lemma cell_index:
  fixes bpr r c r' c' :: nat
  assumes "c < bpr" "c' < bpr"
  shows "r * bpr + c = r' * bpr + c' \<longleftrightarrow> r = r' \<and> c = c'"
proof
  assume eq: "r * bpr + c = r' * bpr + c'"
  have "r = r'" using assms arg_cong [OF eq, of "\<lambda>i. i div bpr"] by simp
  with eq show "r = r' \<and> c = c'" by simp
qed simp

text \<open>The bytes of one row of the frame that is \<open>h\<close> rows high.\<close>

definition row_bytes :: "nat \<Rightarrow> nat \<Rightarrow> nat \<Rightarrow> nat \<Rightarrow> nat \<Rightarrow> bool" where
  "row_bytes l r h k c \<longleftrightarrow> l \<le> c \<and> c \<le> r \<and> (k < 4 \<or> k + 4 \<ge> h \<or> c = l \<or> c = r)"

lemma rectangle_row_ok:
  assumes "l \<le> r" "r < bpr" "(t + k + 1) * bpr \<le> length buf" "(t + k) * bpr < 2 ^ 31"
  obtains buf' where
    "rectangle_row (int bpr) (int l) (int r) (int t) (int h) color (int k) buf = Some buf'" "length buf' = length buf"
    "\<And>R C. C < bpr \<Longrightarrow> R * bpr + C < length buf \<Longrightarrow>
       buf' ! (R * bpr + C) = (if R = t + k \<and> row_bytes l r h k C then color else buf ! (R * bpr + C))"
proof -
  let ?line = "(t + k) * bpr"
  have line: "(int t + int k) * int bpr = int ?line" by simp
  have fits: "int_ok (int ?line)" using assms(4) by (simp add: int_ok_def del: of_nat_mult)
  have room: "?line + bpr \<le> length buf" using assms(3) by (simp add: algebra_simps)
  have at: "R * bpr + C = ?line + c \<longleftrightarrow> R = t + k \<and> C = c" if "C < bpr" "c < bpr" for R C c
    using cell_index [OF that] .
  have row: "rectangle_row (int bpr) (int l) (int r) (int t) (int h) color (int k) buf =
      (if k < 4 \<or> k + 4 \<ge> h then canvas_set (?line + l) (r - l + 1) color buf
       else (case canvas_set (?line + l) 1 color buf of None \<Rightarrow> None | Some buf' \<Rightarrow> canvas_set (?line + r) 1 color buf'))"
  proof -
    have conv: "nat (int l) = l" "nat (int r) = r" "nat (int r - int l + 1) = r - l + 1"
      "(int k < 4) = (k < 4)" "(int h - 4 \<le> int k) = (k + 4 \<ge> h)"
      using assms(1) by auto
    show ?thesis unfolding rectangle_row_def line Let_def using fits by (simp only: conv nat_int [of ?line] not_True_eq_False if_False)
  qed
  show ?thesis
  proof (cases "k < 4 \<or> k + 4 \<ge> h")
    case True
    have "?line + l + (r - l + 1) \<le> length buf" using room assms(1,2) by simp
    then obtain buf' where b: "canvas_set (?line + l) (r - l + 1) color buf = Some buf'" "length buf' = length buf"
      "\<And>i. i < length buf \<Longrightarrow> buf' ! i = (if ?line + l \<le> i \<and> i < ?line + l + (r - l + 1) then color else buf ! i)"
      using canvas_set_ok [of "?line + l" "r - l + 1" buf color] by blast
    have span: "?line + l \<le> R * bpr + C \<and> R * bpr + C < ?line + l + (r - l + 1) \<longleftrightarrow> R = t + k \<and> l \<le> C \<and> C \<le> r"
      if "C < bpr" for R C
    proof
      assume h: "?line + l \<le> R * bpr + C \<and> R * bpr + C < ?line + l + (r - l + 1)"
      then obtain c where c: "R * bpr + C = ?line + c" "l \<le> c" "c \<le> r"
        using assms(1) by (intro that [of "R * bpr + C - ?line"]) auto
      with at [of C c R] that assms(2) show "R = t + k \<and> l \<le> C \<and> C \<le> r" by auto
    qed (use assms(1) in auto)
    have "buf' ! (R * bpr + C) = (if R = t + k \<and> row_bytes l r h k C then color else buf ! (R * bpr + C))"
      if "C < bpr" "R * bpr + C < length buf" for R C
      unfolding b(3) [OF that(2)] span [OF that(1)] row_bytes_def using True by auto
    with that [of buf'] row True b(1,2) show ?thesis by simp
  next
    case False
    have "?line + l + 1 \<le> length buf" using room assms(1,2) by simp
    then obtain b1 where b1: "canvas_set (?line + l) 1 color buf = Some b1" "length b1 = length buf"
      "\<And>i. i < length buf \<Longrightarrow> b1 ! i = (if ?line + l \<le> i \<and> i < ?line + l + 1 then color else buf ! i)"
      using canvas_set_ok [of "?line + l" 1 buf color] by blast
    have "?line + r + 1 \<le> length b1" using room assms(2) b1(2) by simp
    then obtain b2 where b2: "canvas_set (?line + r) 1 color b1 = Some b2" "length b2 = length b1"
      "\<And>i. i < length b1 \<Longrightarrow> b2 ! i = (if ?line + r \<le> i \<and> i < ?line + r + 1 then color else b1 ! i)"
      using canvas_set_ok [of "?line + r" 1 b1 color] by blast
    have one: "a \<le> i \<and> i < a + 1 \<longleftrightarrow> i = a" for a i :: nat by auto
    have "b2 ! (R * bpr + C) = (if R = t + k \<and> row_bytes l r h k C then color else buf ! (R * bpr + C))"
      if "C < bpr" "R * bpr + C < length buf" for R C
      using b2(3) [of "R * bpr + C"] b1(3) [of "R * bpr + C"] that b1(2) False assms(1,2) at [of C l R] at [of C r R]
      unfolding one row_bytes_def by auto
    with that [of b2] row False b1 b2 show ?thesis by simp
  qed
qed

lemma rows_ok:
  assumes "l \<le> r" "r < bpr" "(t + n) * bpr \<le> length buf" "(t + n) * bpr < 2 ^ 31"
  shows "\<exists>buf'. rows (rectangle_row (int bpr) (int l) (int r) (int t) (int h) color) n buf = Some buf' \<and>
    length buf' = length buf \<and>
    (\<forall>R C. C < bpr \<longrightarrow> R * bpr + C < length buf \<longrightarrow>
       buf' ! (R * bpr + C) =
         (if t \<le> R \<and> R < t + n \<and> row_bytes l r h (R - t) C then color else buf ! (R * bpr + C)))"
  using assms
proof (induction n)
  case (Suc n)
  have "(t + n) * bpr \<le> (t + Suc n) * bpr" by simp
  with Suc.prems have "(t + n) * bpr \<le> length buf" "(t + n) * bpr < 2 ^ 31" by linarith+
  with Suc.IH Suc.prems(1,2) obtain b1 where b1:
    "rows (rectangle_row (int bpr) (int l) (int r) (int t) (int h) color) n buf = Some b1" "length b1 = length buf"
    "\<And>R C. C < bpr \<Longrightarrow> R * bpr + C < length buf \<Longrightarrow> b1 ! (R * bpr + C) =
       (if t \<le> R \<and> R < t + n \<and> row_bytes l r h (R - t) C then color else buf ! (R * bpr + C))" by blast
  have "(t + n + 1) * bpr \<le> length b1" using Suc.prems(3) b1(2) by simp
  then obtain b2 where b2: "rectangle_row (int bpr) (int l) (int r) (int t) (int h) color (int n) b1 = Some b2"
    "length b2 = length b1"
    "\<And>R C. C < bpr \<Longrightarrow> R * bpr + C < length b1 \<Longrightarrow>
       b2 ! (R * bpr + C) = (if R = t + n \<and> row_bytes l r h n C then color else b1 ! (R * bpr + C))"
    using rectangle_row_ok [OF Suc.prems(1,2) _ \<open>(t + n) * bpr < 2 ^ 31\<close>] by blast
  have "b2 ! (R * bpr + C) = (if t \<le> R \<and> R < t + Suc n \<and> row_bytes l r h (R - t) C then color else buf ! (R * bpr + C))"
    if "C < bpr" "R * bpr + C < length buf" for R C
    using b2(3) [OF that(1)] b1(3) [OF that] that b1(2) by (auto simp: less_Suc_eq)
  with b1 b2 show ?case by auto
qed auto

lemma and_not_3: "(x :: int) AND NOT 3 = 4 * (x div 4)"
proof -
  have mask: "(3 :: int) = mask 2" by (simp add: mask_eq_exp_minus_1)
  have "x AND NOT (mask 2) = push_bit 2 (drop_bit 2 x)"
  proof (rule bit_eqI)
    fix n
    have "2 \<le> n \<Longrightarrow> Suc (Suc (n - 2)) = n" by simp
    then show "bit (x AND NOT (mask 2)) n \<longleftrightarrow> bit (push_bit 2 (drop_bit 2 x)) n"
      by (auto simp: bit_simps)
  qed
  then show ?thesis unfolding mask by (simp add: push_bit_eq_mult drop_bit_eq_div)
qed

text \<open>Offsets of the frame: \<open>l\<close> and \<open>w\<close> are its left byte and its width in pixels, \<open>t\<close> and \<open>h\<close> its first row and height.\<close>

lemma frame_rows:
  fixes l t w h stride height :: int
  assumes big: "8 \<le> w" "8 \<le> h"
    and canvas: "0 \<le> stride" "0 \<le> height" "stride * height < 2 ^ 31" "length buf = nat (stride * height) div 4"
    and fits: "0 \<le> l" "0 \<le> t" "w \<le> stride - 4 * l" "h \<le> height - t"
  shows "\<exists>buf'. rows (rectangle_row (stride div 4) l (l + w div 4 - 1) t h color) (nat h) buf = Some buf' \<and>
    length buf' = length buf \<and>
    (\<forall>R C. C < nat (stride div 4) \<longrightarrow> R * nat (stride div 4) + C < length buf \<longrightarrow>
       buf' ! (R * nat (stride div 4) + C) =
         (if t \<le> int R \<and> int R < t + h \<and> l \<le> int C \<and> int C \<le> l + w div 4 - 1 \<and>
             (int R - t < 4 \<or> h - 4 \<le> int R - t \<or> int C = l \<or> int C = l + w div 4 - 1)
          then color else buf ! (R * nat (stride div 4) + C)))"
proof -
  define L T H B r where "L = nat l" and "T = nat t" and "H = nat h" and "B = nat (stride div 4)" and "r = nat (l + w div 4 - 1)"
  have "0 \<le> l + w div 4 - 1" "2 \<le> w div 4" using big(1) fits(1) by linarith+
  with fits canvas big have ints: "l = int L" "t = int T" "h = int H" "stride div 4 = int B" "l + w div 4 - 1 = int r"
    by (simp_all add: L_def T_def H_def B_def r_def)
  have lr: "L \<le> r" using ints \<open>2 \<le> w div 4\<close> by linarith
  have "l + w div 4 \<le> stride div 4" using fits(3) by linarith
  with ints have rB: "r < B" by linarith
  have "T + H \<le> nat height" using fits(4) ints canvas(2) by linarith
  then have "(T + H) * B \<le> nat height * B" by (rule mult_le_mono1)
  also have "\<dots> \<le> nat (stride * height) div 4"
  proof -
    have "B * 4 \<le> nat stride" unfolding B_def using canvas(1) by linarith
    then have "nat height * (B * 4) \<le> nat height * nat stride" by (rule mult_le_mono2)
    also have "\<dots> = nat (stride * height)" using canvas(1,2) by (simp add: nat_mult_distrib mult.commute)
    finally show ?thesis by (simp add: less_eq_div_iff_mult_less_eq mult.assoc)
  qed
  finally have room: "(T + H) * B \<le> length buf" unfolding canvas(4) .
  have "nat (stride * height) < 2 ^ 31" using canvas(3) by simp
  with room canvas(4) have small: "(T + H) * B < 2 ^ 31" by linarith
  have frame: "T \<le> R \<and> R < T + H \<and> row_bytes L r H (R - T) C \<longleftrightarrow>
      int T \<le> int R \<and> int R < int T + int H \<and> int L \<le> int C \<and> int C \<le> int r \<and>
      (int R - int T < 4 \<or> int H - 4 \<le> int R - int T \<or> int C = int L \<or> int C = int r)" for R C
    by (auto simp: row_bytes_def)
  from rows_ok [OF lr rB room small, of H color]
  show ?thesis unfolding ints(5) unfolding ints(1-4) nat_int frame .
qed

text \<open>On a canvas that fits its size, whatever rectangle is asked for, drawing stays inside the canvas and no
  arithmetic overflows; it changes exactly the bytes of the frame of the rectangle clipped to the canvas, and nothing when
  less than eight pixels are left of it.\<close>

lemma rectangle_draws_frame:
  assumes "0 \<le> stride" "0 \<le> height" "stride * height < 2 ^ 31" "length buf = nat (stride * height) div 4"
    and "\<bar>x0\<bar> < 2 ^ 30" "\<bar>y0\<bar> < 2 ^ 30" "\<bar>w0\<bar> < 2 ^ 30" "stride < 2 ^ 30" "height < 2 ^ 30"
  shows "\<exists>buf'. rectangle buf stride height x0 y0 w0 h0 color = Some buf' \<and> length buf' = length buf \<and>
     (let bpr = nat (stride div 4); l = max 0 (x0 div 4); t = max 0 y0;
          w = min (4 * ((w0 + 3) div 4)) (stride - 4 * l); h = min h0 (height - t); r = l + w div 4 - 1
      in \<forall>R C. C < bpr \<longrightarrow> R * bpr + C < length buf \<longrightarrow>
           buf' ! (R * bpr + C) =
             (if 8 \<le> w \<and> 8 \<le> h \<and> t \<le> int R \<and> int R < t + h \<and> l \<le> int C \<and> int C \<le> r \<and>
                 (int R - t < 4 \<or> h - 4 \<le> int R - t \<or> int C = l \<or> int C = r)
              then color else buf ! (R * bpr + C)))"
proof -
  define l where "l = max 0 (x0 div 4)"
  define t where "t = max 0 y0"
  define w where "w = min (4 * ((w0 + 3) div 4)) (stride - 4 * l)"
  define h where "h = min h0 (height - t)"
  have x: "max 0 (4 * (x0 div 4)) = 4 * l" unfolding l_def by (simp add: max_def)
  have lt: "0 \<le> l" "0 \<le> t" "l < 2 ^ 30" "t < 2 ^ 30" unfolding l_def t_def using assms(5,6) by simp_all
  have lx: "4 * l \<le> max 0 x0"
  proof -
    have "4 * (x0 div 4) \<le> x0" by linarith
    then show ?thesis unfolding x [symmetric] by (simp add: max_def)
  qed
  have wh: "w \<le> stride - 4 * l" "h \<le> height - t" "w = 4 * ((w0 + 3) div 4) \<or> w = stride - 4 * l"
    unfolding w_def h_def by (simp, simp) (simp only: min_def split: if_splits, blast)
  have ok: "int_ok (w0 + 3)" "int_ok (stride - 4 * l)" "int_ok (height - t)"
    using assms(1,2,5-9) lt lx by (simp_all add: int_ok_def max_def abs_less_iff split: if_splits)
  have div4: "4 * k div 4 = k" for k :: int by simp
  have rect: "rectangle buf stride height x0 y0 w0 h0 color =
      (if w < 8 \<or> h < 8 then Some buf
       else rows (rectangle_row (stride div 4) l ((4 * l + w) div 4 - 1) t h color) (nat h) buf)"
    unfolding rectangle_def Let_def and_not_3 x div4 t_def [symmetric] w_def [symmetric] h_def [symmetric]
    by (simp only: ok not_True_eq_False if_False simp_thms)
  let ?new = "\<lambda>R C. 8 \<le> w \<and> 8 \<le> h \<and> t \<le> int R \<and> int R < t + h \<and> l \<le> int C \<and> int C \<le> l + w div 4 - 1 \<and>
    (int R - t < 4 \<or> h - 4 \<le> int R - t \<or> int C = l \<or> int C = l + w div 4 - 1)"
  have "\<exists>buf'. rectangle buf stride height x0 y0 w0 h0 color = Some buf' \<and> length buf' = length buf \<and>
      (\<forall>R C. C < nat (stride div 4) \<longrightarrow> R * nat (stride div 4) + C < length buf \<longrightarrow>
        buf' ! (R * nat (stride div 4) + C) = (if ?new R C then color else buf ! (R * nat (stride div 4) + C)))"
  proof (cases "w < 8 \<or> h < 8")
    case True
    then have "\<not> ?new R C" for R C by auto
    with rect True show ?thesis by auto
  next
    case False
    then have "8 \<le> w" "8 \<le> h" by simp_all
    from frame_rows [OF this assms(1-4) lt(1,2) wh(1,2), of color] this obtain buf' where
      "rows (rectangle_row (stride div 4) l (l + w div 4 - 1) t h color) (nat h) buf = Some buf'" "length buf' = length buf"
      "\<And>R C. C < nat (stride div 4) \<Longrightarrow> R * nat (stride div 4) + C < length buf \<Longrightarrow>
        buf' ! (R * nat (stride div 4) + C) = (if ?new R C then color else buf ! (R * nat (stride div 4) + C))" by auto
    with rect False show ?thesis by auto
  qed
  then show ?thesis unfolding Let_def l_def t_def w_def h_def .
qed

text \<open>The hypotheses hold for a rectangle that starts above and left of a 16 by 16 canvas.\<close>

lemma rectangle_draws_frame_example:
  "\<exists>buf'. rectangle (replicate 64 0) 16 16 (- 5) (- 3) 12 20 0xff = Some buf' \<and> length buf' = 64 \<and>
     buf' ! 0 = 0xff \<and> buf' ! 3 = 0 \<and> buf' ! 17 = 0"
proof -
  have "length (replicate 64 (0 :: byte)) = nat (16 * 16) div 4" by simp
  from rectangle_draws_frame [of 16 16, OF _ _ _ this, of "- 5" "- 3" 12 20 "0xff"] obtain buf' where
    b: "rectangle (replicate 64 0) 16 16 (- 5) (- 3) 12 20 0xff = Some buf'" "length buf' = 64"
    "\<And>R C. C < 4 \<Longrightarrow> R * 4 + C < 64 \<Longrightarrow> buf' ! (R * 4 + C) =
      (if R < 16 \<and> C \<le> 2 \<and> (R < 4 \<or> 12 \<le> R \<or> C = 0 \<or> C = 2) then 0xff else 0)"
    by (force simp: Let_def)
  from b(3) [of 0 0] b(3) [of 3 0] b(3) [of 1 4] b(1,2) show ?thesis by simp
qed

end
