(* ===== verification/OverlayThread.thy ===== *)
theory OverlayThread
  imports OverlayCanvas PublisherManager
begin

text \<open>
  The thread that refreshes the detection overlay, \<^verbatim>\<open>refresh_detection_overlay\<close> of \<^verbatim>\<open>src/media/video.cpp\<close>, over the
  answers of the detection wrapper, of the clock and of the region library, and what it shows at any time.
\<close>

section \<open>The thread\<close>

text \<open>What one turn gets: a new result, the clock, and the size of the canvas.\<close>

record overlay_answer =
  oa_result :: "detected list option"
  oa_now :: int
  oa_canvas :: "(nat \<times> nat) option"

text \<open>A turn returns the canvas it hands over, if it got one.\<close>

definition overlay_turn :: "int \<Rightarrow> int \<Rightarrow> overlay_answer \<Rightarrow> overlay_st \<Rightarrow> (byte list option \<times> overlay_st) option" where
  "overlay_turn width height a st =
     (let st = overlay_update (oa_result a) (oa_now a) st
      in case oa_canvas a of
           None \<Rightarrow> Some (None, st)
         | Some (vir_width, vir_height) \<Rightarrow>
             map_option (\<lambda>buf. (Some buf, st)) (overlay_refresh width height vir_width vir_height st))"

fun overlay_turns :: "int \<Rightarrow> int \<Rightarrow> overlay_answer list \<Rightarrow> overlay_st \<Rightarrow> byte list option list option" where
  "overlay_turns width height [] st = Some []"
| "overlay_turns width height (a # as) st =
     (case overlay_turn width height a st of
        None \<Rightarrow> None
      | Some (canvas, st') \<Rightarrow> map_option (\<lambda>canvases. canvas # canvases) (overlay_turns width height as st'))"

definition refresh_detection_overlay :: "param_state \<Rightarrow> overlay_answer list \<Rightarrow> byte list option list option" where
  "refresh_detection_overlay cfg as =
     do {
       width \<leftarrow> media_value cfg 1 ''width'' 640;
       height \<leftarrow> media_value cfg 1 ''height'' 360;
       overlay_turns width height as \<lparr>ov_latest = [], ov_last = None\<rparr>
     }"

section \<open>What is drawn\<close>

text \<open>Whether the frame of a rectangle, clipped to the canvas, has the byte of row \<open>R\<close> and column \<open>C\<close>.\<close>

definition frame_covers :: "int \<Rightarrow> int \<Rightarrow> int \<Rightarrow> int \<Rightarrow> int \<Rightarrow> int \<Rightarrow> nat \<Rightarrow> nat \<Rightarrow> bool" where
  "frame_covers stride height x0 y0 w0 h0 R C \<longleftrightarrow>
     (let l = max 0 (x0 div 4); t = max 0 y0;
          w = min (4 * ((w0 + 3) div 4)) (stride - 4 * l); h = min h0 (height - t); r = l + w div 4 - 1
      in 8 \<le> w \<and> 8 \<le> h \<and> t \<le> int R \<and> int R < t + h \<and> l \<le> int C \<and> int C \<le> r \<and>
         (int R - t < 4 \<or> h - 4 \<le> int R - t \<or> int C = l \<or> int C = r))"

definition object_covers :: "int \<Rightarrow> int \<Rightarrow> int \<Rightarrow> int \<Rightarrow> nat \<Rightarrow> nat \<Rightarrow> detected \<Rightarrow> bool" where
  "object_covers width height stride vh R C ob \<longleftrightarrow>
     frame_covers stride vh (width * de_left ob sdiv 10000) (height * de_top ob sdiv 10000)
       (width * (de_right ob - de_left ob) sdiv 10000) (height * (de_bottom ob - de_top ob) sdiv 10000) R C"

text \<open>The last object drawn over a byte wins; persons have another colour.\<close>

definition shown_byte :: "int \<Rightarrow> int \<Rightarrow> int \<Rightarrow> int \<Rightarrow> detected list \<Rightarrow> byte \<Rightarrow> nat \<Rightarrow> nat \<Rightarrow> byte" where
  "shown_byte width height stride vh obs background R C =
     (case find (object_covers width height stride vh R C) (rev obs) of
        None \<Rightarrow> background | Some ob \<Rightarrow> if de_person ob then 0xff else 0xaa)"

text \<open>The coordinates the detection library documents.\<close>

definition coordinates_ok :: "detected \<Rightarrow> bool" where
  "coordinates_ok ob \<longleftrightarrow> list_all (\<lambda>c. 0 \<le> c \<and> c \<le> 10000) [de_left ob, de_top ob, de_right ob, de_bottom ob]"

lemma small_int_ok: "\<bar>v\<bar> < 2 ^ 30 \<Longrightarrow> int_ok v"
  by (auto simp: int_ok_def)

lemma find_append: "find P (xs @ ys) = (case find P xs of None \<Rightarrow> find P ys | Some x \<Rightarrow> Some x)"
  by (induction xs) auto

lemma sdiv_small: "\<bar>a\<bar> < 2 ^ 30 \<Longrightarrow> \<bar>(a :: int) sdiv 10000\<bar> < 2 ^ 30"
  by (auto simp: signed_divide_int_def sgn_if abs_if split: if_splits)

lemma scaled:
  assumes "0 \<le> w" "w \<le> 8192" "0 \<le> a" "a \<le> 10000" "0 \<le> b" "b \<le> (10000 :: int)"
  shows "0 \<le> w * a" "\<bar>w * a\<bar> < 2 ^ 30" "\<bar>w * (b - a)\<bar> < 2 ^ 30"
proof -
  have m: "\<bar>w * k\<bar> \<le> 8192 * 10000" if "\<bar>k\<bar> \<le> 10000" for k
    unfolding abs_mult using assms(1,2) that by (intro mult_mono) auto
  show "0 \<le> w * a" using assms by simp
  show "\<bar>w * a\<bar> < 2 ^ 30" using m [of a] assms(3,4) by simp
  have "\<bar>b - a\<bar> \<le> 10000" using assms(3-6) by linarith
  then show "\<bar>w * (b - a)\<bar> < 2 ^ 30" using m [of "b - a"] by simp
qed

lemma draw_object_ok:
  assumes "0 \<le> width" "width \<le> 8192" "0 \<le> height" "height \<le> 8192" "coordinates_ok ob"
    and "vw \<le> 16384" "vh \<le> 16384" "length buf = vw * vh div 4"
  shows "\<exists>buf'. draw_object width height (int vw) (int vh) ob buf = Some buf' \<and> length buf' = length buf \<and>
     (\<forall>R C. C < vw div 4 \<longrightarrow> R * (vw div 4) + C < length buf \<longrightarrow>
        buf' ! (R * (vw div 4) + C) =
          (if object_covers width height (int vw) (int vh) R C ob then (if de_person ob then 0xff else 0xaa)
           else buf ! (R * (vw div 4) + C)))"
proof -
  let ?x = "width * de_left ob" and ?y = "height * de_top ob"
  let ?w = "width * (de_right ob - de_left ob)" and ?h = "height * (de_bottom ob - de_top ob)"
  have c: "0 \<le> de_left ob" "de_left ob \<le> 10000" "0 \<le> de_top ob" "de_top ob \<le> 10000" "0 \<le> de_right ob" "de_right ob \<le> 10000"
    "0 \<le> de_bottom ob" "de_bottom ob \<le> 10000"
    using assms(5) by (simp_all add: coordinates_ok_def)
  note sx = scaled [OF assms(1,2) c(1,2,5,6)] and sy = scaled [OF assms(3,4) c(3,4,7,8)]
  have ok: "int_ok ?x" "int_ok ?y" "int_ok ?w" "int_ok ?h"
    using sx(2,3) sy(2,3) by (simp_all only: small_int_ok)
  have "int vw * int vh \<le> 16384 * 16384" using assms(6,7) by (intro mult_mono) simp_all
  then have size: "int vw * int vh < 2 ^ 31" by simp
  have len: "length buf = nat (int vw * int vh) div 4" using assms(8) by (simp add: nat_mult_distrib)
  have big: "int vw < 2 ^ 30" "int vh < 2 ^ 30" using assms(6,7) by simp_all
  have bpr: "nat (int vw div 4) = vw div 4" by simp
  let ?color = "if de_person ob then 0xff else (0xaa :: byte)"
  from rectangle_draws_frame [OF _ _ size len sdiv_small [OF sx(2)] sdiv_small [OF sy(2)] sdiv_small [OF sx(3)] big,
      where color = ?color and ?h0.0 = "?h sdiv 10000"]
  obtain buf' where
    "rectangle buf (int vw) (int vh) (?x sdiv 10000) (?y sdiv 10000) (?w sdiv 10000) (?h sdiv 10000) ?color = Some buf'"
    "length buf' = length buf"
    "\<forall>R C. C < vw div 4 \<longrightarrow> R * (vw div 4) + C < length buf \<longrightarrow> buf' ! (R * (vw div 4) + C) =
       (if frame_covers (int vw) (int vh) (?x sdiv 10000) (?y sdiv 10000) (?w sdiv 10000) (?h sdiv 10000) R C
        then ?color else buf ! (R * (vw div 4) + C))"
    unfolding frame_covers_def Let_def bpr by auto
  then show ?thesis
    using ok by (simp add: draw_object_def object_covers_def)
qed

lemma draw_objects_ok:
  assumes "0 \<le> width" "width \<le> 8192" "0 \<le> height" "height \<le> 8192" "list_all coordinates_ok obs"
    and "vw \<le> 16384" "vh \<le> 16384" "length buf = vw * vh div 4"
  shows "\<exists>buf'. draw_objects width height (int vw) (int vh) obs buf = Some buf' \<and> length buf' = length buf \<and>
     (\<forall>R C. C < vw div 4 \<longrightarrow> R * (vw div 4) + C < length buf \<longrightarrow>
        buf' ! (R * (vw div 4) + C) =
          shown_byte width height (int vw) (int vh) obs (buf ! (R * (vw div 4) + C)) R C)"
  using assms(5,8)
proof (induction obs arbitrary: buf)
  case Nil
  then show ?case by (simp add: shown_byte_def)
next
  case (Cons ob obs)
  then have "coordinates_ok ob" "length buf = vw * vh div 4" by simp_all
  from draw_object_ok [OF assms(1-4) this(1) assms(6,7) this(2)] obtain b1 where
    b1: "draw_object width height (int vw) (int vh) ob buf = Some b1" "length b1 = length buf"
    "\<forall>R C. C < vw div 4 \<longrightarrow> R * (vw div 4) + C < length buf \<longrightarrow> b1 ! (R * (vw div 4) + C) =
       (if object_covers width height (int vw) (int vh) R C ob then (if de_person ob then 0xff else 0xaa)
        else buf ! (R * (vw div 4) + C))"
    by blast
  from Cons.IH [of b1] Cons.prems b1(2) obtain b2 where
    b2: "draw_objects width height (int vw) (int vh) obs b1 = Some b2" "length b2 = length b1"
    "\<forall>R C. C < vw div 4 \<longrightarrow> R * (vw div 4) + C < length b1 \<longrightarrow> b2 ! (R * (vw div 4) + C) =
       shown_byte width height (int vw) (int vh) obs (b1 ! (R * (vw div 4) + C)) R C" by auto
  have "shown_byte width height (int vw) (int vh) (ob # obs) x R C =
      shown_byte width height (int vw) (int vh) obs
        (if object_covers width height (int vw) (int vh) R C ob then (if de_person ob then 0xff else 0xaa) else x) R C" for x R C
    by (auto simp: shown_byte_def find_append split: option.split)
  with b1 b2 show ?case by simp
qed

section \<open>What is shown at any time\<close>

text \<open>The objects of the last result, if it is not older than 300 ms.\<close>

definition current_result :: "overlay_answer list \<Rightarrow> detected list" where
  "current_result as =
     (case find (\<lambda>a. oa_result a \<noteq> None) (rev as) of
        None \<Rightarrow> []
      | Some a \<Rightarrow> if oa_now (last as) - oa_now a > 300 * 1000000 then [] else the (oa_result a))"

definition overlay_after :: "overlay_answer list \<Rightarrow> overlay_st" where
  "overlay_after as = fold (\<lambda>a. overlay_update (oa_result a) (oa_now a)) as \<lparr>ov_latest = [], ov_last = None\<rparr>"

lemma overlay_after_snoc: "overlay_after (as @ [a]) = overlay_update (oa_result a) (oa_now a) (overlay_after as)"
  by (simp add: overlay_after_def)

lemma overlay_after_current:
  assumes "sorted (map oa_now as)"
  shows "ov_latest (overlay_after as) = current_result as \<and>
     ov_last (overlay_after as) = map_option oa_now (find (\<lambda>a. oa_result a \<noteq> None) (rev as))"
  using assms
proof (induction as rule: rev_induct)
  case Nil
  then show ?case by (simp add: overlay_after_def current_result_def)
next
  case (snoc a as)
  then have IH: "ov_latest (overlay_after as) = current_result as"
    "ov_last (overlay_after as) = map_option oa_now (find (\<lambda>a. oa_result a \<noteq> None) (rev as))"
    by (simp_all add: sorted_append)
  have later: "oa_now (last as) \<le> oa_now a" if "as \<noteq> []"
    using snoc.prems that by (simp add: sorted_append)
  show ?case
  proof (cases "oa_result a")
    case (Some obs)
    then show ?thesis by (simp add: overlay_after_snoc overlay_update_def current_result_def)
  next
    case None
    show ?thesis
    proof (cases "find (\<lambda>a. oa_result a \<noteq> None) (rev as)")
      case None
      with \<open>oa_result a = None\<close> IH show ?thesis
        by (simp add: overlay_after_snoc overlay_update_def current_result_def)
    next
      case (Some b)
      then have "as \<noteq> []" by auto
      with later Some None IH show ?thesis
        by (auto simp: overlay_after_snoc overlay_update_def current_result_def)
    qed
  qed
qed

definition answers_ok :: "overlay_answer list \<Rightarrow> bool" where
  "answers_ok as \<longleftrightarrow>
     list_all (\<lambda>a. (case oa_result a of None \<Rightarrow> True | Some obs \<Rightarrow> list_all coordinates_ok obs) \<and>
                   (case oa_canvas a of None \<Rightarrow> True | Some (vw, vh) \<Rightarrow> vw \<le> 16384 \<and> vh \<le> 16384)) as"

lemma current_ok:
  assumes "answers_ok as"
  shows "list_all coordinates_ok (current_result as)"
proof (cases "find (\<lambda>a. oa_result a \<noteq> None) (rev as)")
  case (Some a)
  then have "a \<in> set as" "oa_result a \<noteq> None" by (auto simp: find_Some_iff) (metis length_rev nth_mem set_rev)
  with assms Some show ?thesis by (auto simp: answers_ok_def list_all_iff current_result_def)
qed (simp add: current_result_def)

text \<open>What a turn after the given answers hands over.\<close>

definition shows_current :: "int \<Rightarrow> int \<Rightarrow> overlay_answer list \<Rightarrow> byte list option \<Rightarrow> bool" where
  "shows_current width height as canvas \<longleftrightarrow>
     (case oa_canvas (last as) of
        None \<Rightarrow> canvas = None
      | Some (vw, vh) \<Rightarrow>
          (\<exists>buf. canvas = Some buf \<and> length buf = vw * vh div 4 \<and>
             (\<forall>R C. C < vw div 4 \<longrightarrow> R * (vw div 4) + C < length buf \<longrightarrow>
                buf ! (R * (vw div 4) + C) = shown_byte width height (int vw) (int vh) (current_result as) 0 R C)))"

lemma overlay_turns_shown:
  assumes "0 \<le> width" "width \<le> 8192" "0 \<le> height" "height \<le> 8192" "answers_ok (before @ as)" "sorted (map oa_now (before @ as))"
  shows "\<exists>canvases. overlay_turns width height as (overlay_after before) = Some canvases \<and> length canvases = length as \<and>
     (\<forall>k < length as. shows_current width height (before @ take (Suc k) as) (canvases ! k))"
  using assms(5,6)
proof (induction as arbitrary: before)
  case (Cons a as)
  let ?now = "before @ [a]"
  have ok: "answers_ok ?now" "sorted (map oa_now ?now)"
    using Cons.prems by (simp_all add: answers_ok_def sorted_append)
  have latest: "ov_latest (overlay_after ?now) = current_result ?now" using overlay_after_current [OF ok(2)] by blast
  obtain canvas where c: "overlay_turn width height a (overlay_after before) = Some (canvas, overlay_after ?now)"
    "shows_current width height ?now canvas"
  proof (cases "oa_canvas a")
    case None
    then show ?thesis using that [of None] by (simp add: overlay_turn_def shows_current_def overlay_after_snoc)
  next
    case (Some size)
    obtain vw vh where v: "size = (vw, vh)" by fastforce
    with ok(1) Some have "vw \<le> 16384" "vh \<le> 16384" by (simp_all add: answers_ok_def)
    from draw_objects_ok [OF assms(1-4) current_ok [OF ok(1)] this, of "replicate (vw * vh div 4) 0"] obtain buf where
      b: "draw_objects width height (int vw) (int vh) (current_result ?now) (replicate (vw * vh div 4) 0) = Some buf"
      "length buf = vw * vh div 4"
      "\<forall>R C. C < vw div 4 \<longrightarrow> R * (vw div 4) + C < length buf \<longrightarrow>
         buf ! (R * (vw div 4) + C) = shown_byte width height (int vw) (int vh) (current_result ?now) 0 R C"
      by auto
    with Some v latest show ?thesis
      by (intro that [of "Some buf"])
        (simp_all add: overlay_turn_def overlay_refresh_def shows_current_def overlay_after_snoc [symmetric])
  qed
  from Cons.IH [of ?now] Cons.prems obtain canvases where
    r: "overlay_turns width height as (overlay_after ?now) = Some canvases" "length canvases = length as"
    "\<forall>k < length as. shows_current width height (?now @ take (Suc k) as) (canvases ! k)" by auto
  have "shows_current width height (before @ take (Suc k) (a # as)) ((canvas # canvases) ! k)" if "k < length (a # as)" for k
    using that c(2) r(3) by (cases k) simp_all
  with c(1) r(1,2) show ?case by simp
qed simp

text \<open>C20. For a configuration that passed the start-up check and any results within the coordinates of the detection library, in any
  order of turns: the overlay thread never computes out of range and never writes outside its canvas, and the canvas it hands over shows
  at every byte the frame of the last object of the newest result that covers it, clipped to the canvas and in the colour of its
  kind, and nothing else; 300 ms after the last result nothing is shown any more.\<close>

theorem overlay_shows_current:
  assumes "cfg_validate pton4 pton6 (g_ini_d cfg) = Inr ()" and "answers_ok as" and "sorted (map oa_now as)"
  shows "\<exists>width height canvases. media_value cfg 1 ''width'' 640 = Some width \<and> media_value cfg 1 ''height'' 360 = Some height \<and>
     refresh_detection_overlay cfg as = Some canvases \<and> length canvases = length as \<and>
     (\<forall>k < length as. shows_current width height (take (Suc k) as) (canvases ! k))"
proof -
  obtain path d where cfg: "cfg = \<lparr>g_ini_path = path, g_ini_d = d\<rparr>" by (cases cfg) auto
  from assms(1) obtain rtmp isp where "cfg_video d rtmp isp 1 = Inr ()"
    by (auto simp: cfg cfg_validate_def cfg_fail_def bindE_Inr split: if_splits)
  then obtain w h where
    "cfg_number d ((''video.'' @ show_nat 1 @ '':'') @ ''width'') 2 8192 Null = Inr w"
    "cfg_number d ((''video.'' @ show_nat 1 @ '':'') @ ''height'') 2 8192 Null = Inr h"
    unfolding cfg_video_def Let_def by (elim iffD1 [OF bindE_Inr, THEN exE] conjE) auto
  then have n: "cfg_number d ''video.1:width'' 2 8192 Null = Inr w" "cfg_number d ''video.1:height'' 2 8192 Null = Inr h"
    by (simp_all add: show_nat_one)
  note size = checked_number [OF n(1), of 640 path] checked_number [OF n(2), of 360 path]
  have size_values: "media_value cfg 1 ''width'' 640 = Some w" "media_value cfg 1 ''height'' 360 = Some h"
    using size by (simp_all add: media_value_def media_key_def cfg show_nat_one)
  have range: "0 \<le> w" "w \<le> 8192" "0 \<le> h" "h \<le> 8192" using size by simp_all
  have "overlay_after [] = \<lparr>ov_latest = [], ov_last = None\<rparr>" by (simp add: overlay_after_def)
  with overlay_turns_shown [OF range, of "[]" as] assms(2,3) size_values show ?thesis
    by (simp add: refresh_detection_overlay_def)
qed

text \<open>A person is reported, and nothing for 400 ms after that.\<close>

definition example_answers :: "overlay_answer list" where
  "example_answers =
     [\<lparr>oa_result = Some [\<lparr>de_left = 1000, de_top = 1000, de_right = 9000, de_bottom = 9000, de_person = True\<rparr>], oa_now = 1,
       oa_canvas = Some (64, 64)\<rparr>,
      \<lparr>oa_result = None, oa_now = 400000001, oa_canvas = Some (64, 64)\<rparr>]"

theorem overlay_shows_current_witness:
  "\<exists>d canvases buf. dict_map d = map_of example_config \<and>
     refresh_detection_overlay \<lparr>g_ini_path = [], g_ini_d = Some d\<rparr> example_answers = Some canvases \<and>
     canvases ! 1 = Some buf \<and> length buf = 1024 \<and> buf ! 0 = 0"
proof -
  obtain d where d: "dict_map d = map_of example_config" using example_dict by blast
  let ?cfg = "\<lparr>g_ini_path = [], g_ini_d = Some d\<rparr>"
  have "cfg_validate (\<lambda>_. False) (\<lambda>_. False) (g_ini_d ?cfg) = Inr ()" using example_validates [OF d] by simp
  moreover have "answers_ok example_answers" "sorted (map oa_now example_answers)" "length example_answers = 2"
    by (simp_all add: answers_ok_def example_answers_def coordinates_ok_def)
  ultimately obtain w h canvases where c: "refresh_detection_overlay ?cfg example_answers = Some canvases"
    "shows_current w h (take (Suc 1) example_answers) (canvases ! 1)"
    using overlay_shows_current [of _ _ ?cfg example_answers] by (metis one_less_numeral_iff semiring_norm(76))
  have "current_result (take (Suc 1) example_answers) = []" by (simp add: example_answers_def current_result_def)
  with c(2) obtain buf where b: "canvases ! 1 = Some buf" "length buf = 1024"
    "\<And>R C. C < 16 \<Longrightarrow> R * 16 + C < 1024 \<Longrightarrow> buf ! (R * 16 + C) = 0"
    by (auto simp: shows_current_def example_answers_def shown_byte_def)
  with b(3) [of 0 0] c(1) d show ?thesis by auto
qed

end
