(* ===== verification/FpsText.thy ===== *)
theory FpsText
  imports OverlayCanvas
begin

unbundle bit_operations_syntax

text \<open>
  The frame-rate text of \<^verbatim>\<open>src/osd/fps_text.hpp\<close>: glyphs of five by seven points, each two pixels wide and two rows high,
  on a canvas of four pixels to a byte. \<open>None\<close> is a write outside the canvas.
\<close>

section \<open>Drawing\<close>

definition glyphs :: "nat list list" where
  "glyphs =
    [[14,17,19,21,25,17,14], [4,12,4,4,4,4,14],
     [14,17,1,2,4,8,31], [30,1,1,14,1,1,30],
     [2,6,10,18,31,2,2], [31,16,16,30,1,1,30],
     [14,16,16,30,17,17,14], [31,1,2,4,8,8,8],
     [14,17,17,14,17,17,14], [14,17,17,15,1,1,14],
     [31,16,16,30,16,16,16],
     [30,17,17,30,16,16,16],
     [15,16,16,14,1,1,30],
     [0,4,4,0,4,4,0],
     [0,0,0,0,0,4,4]]"

definition glyph_index :: "char \<Rightarrow> nat option" where
  "glyph_index ch =
     (if 48 \<le> ccode ch \<and> ccode ch \<le> 57 then Some (ccode ch - 48)
      else if ch = CHR ''F'' then Some 10 else if ch = CHR ''P'' then Some 11 else if ch = CHR ''S'' then Some 12
      else if ch = CHR '':'' then Some 13 else if ch = CHR ''.'' then Some 14 else None)"

definition glyph_point :: "nat \<Rightarrow> nat \<Rightarrow> nat \<Rightarrow> bool" where
  "glyph_point index y x \<longleftrightarrow> bit (glyphs ! index ! y) (4 - x)"

text \<open>The mask of two pixels: the high half of the byte is the left one. Columns are even.\<close>

definition pair_mask :: "nat \<Rightarrow> byte" where
  "pair_mask col = ucast (push_bit (4 - col mod 4 * 2) (0x0f :: u32))"

definition draw_pair :: "nat \<Rightarrow> nat \<Rightarrow> nat \<times> nat \<Rightarrow> byte list \<Rightarrow> byte list option" where
  "draw_pair width height p buf =
     (case p of (row, col) \<Rightarrow>
        if row < height \<and> col + 1 < width
        then (let i = row * (width div 4) + col div 4
              in if i < length buf then Some (buf[i := buf ! i OR pair_mask col]) else None)
        else Some buf)"

definition glyph_pairs :: "nat \<Rightarrow> nat \<Rightarrow> (nat \<times> nat) list" where
  "glyph_pairs n index =
     concat (map (\<lambda>y. concat (map (\<lambda>x.
       if glyph_point index y x then map (\<lambda>dy. (4 + y * 2 + dy, 4 + n * 12 + x * 2)) [0, 1] else []) [0..<5])) [0..<7])"

fun draw_pairs :: "nat \<Rightarrow> nat \<Rightarrow> (nat \<times> nat) list \<Rightarrow> byte list \<Rightarrow> byte list option" where
  "draw_pairs width height [] buf = Some buf"
| "draw_pairs width height (p # ps) buf =
     (case draw_pair width height p buf of None \<Rightarrow> None | Some buf' \<Rightarrow> draw_pairs width height ps buf')"

fun draw_chars :: "nat \<Rightarrow> nat \<Rightarrow> nat \<Rightarrow> string \<Rightarrow> byte list \<Rightarrow> byte list option" where
  "draw_chars width height n [] buf = Some buf"
| "draw_chars width height n (ch # cs) buf =
     (if n < width div 12
      then (case (case glyph_index ch of None \<Rightarrow> Some buf | Some index \<Rightarrow> draw_pairs width height (glyph_pairs n index) buf) of
              None \<Rightarrow> None
            | Some buf' \<Rightarrow> draw_chars width height (Suc n) cs buf')
      else Some buf)"

definition fps_draw :: "byte list option \<Rightarrow> nat \<Rightarrow> nat \<Rightarrow> string option \<Rightarrow> byte list option option" where
  "fps_draw pixels width height txt =
     (case (pixels, txt) of
        (Some buf, Some s) \<Rightarrow>
          if width = 0 \<or> width mod 4 \<noteq> 0 \<or> height = 0 then Some (Some buf)
          else (case canvas_set 0 (width div 4 * height) 0 buf of
                  None \<Rightarrow> None
                | Some buf' \<Rightarrow> map_option Some (draw_chars width height 0 s buf'))
      | _ \<Rightarrow> Some pixels)"

section \<open>What is drawn\<close>

text \<open>A byte of a canvas on which the pairs of \<open>P\<close> are white.\<close>

definition pairs_byte :: "(nat \<times> nat) set \<Rightarrow> nat \<Rightarrow> nat \<Rightarrow> byte" where
  "pairs_byte P row c = (if (row, 4 * c) \<in> P then 0xf0 else 0) OR (if (row, 4 * c + 2) \<in> P then 0x0f else 0)"

definition shows_pairs :: "nat \<Rightarrow> nat \<Rightarrow> (nat \<times> nat) set \<Rightarrow> byte list \<Rightarrow> bool" where
  "shows_pairs width height P buf \<longleftrightarrow>
     length buf = width div 4 * height \<and>
     (\<forall>row < height. \<forall>c < width div 4. buf ! (row * (width div 4) + c) = pairs_byte P row c)"

lemma pair_masks: "col mod 4 = 0 \<Longrightarrow> pair_mask col = 0xf0" "col mod 4 = 2 \<Longrightarrow> pair_mask col = 0x0f"
  by (simp_all add: pair_mask_def)

lemma row_byte:
  assumes "row < height" "(c :: nat) < w"
  shows "row * w + c < w * height"
proof -
  have "row * w + c < Suc row * w" using assms(2) by simp
  also have "\<dots> \<le> height * w" using assms(1) by (intro mult_le_mono1) simp
  finally show ?thesis by (simp add: mult.commute)
qed

lemma draw_pair_shows:
  assumes "shows_pairs width height P buf" "even col" "width mod 4 = 0"
  shows "\<exists>buf'. draw_pair width height (row, col) buf = Some buf' \<and>
     shows_pairs width height (if row < height \<and> col + 1 < width then insert (row, col) P else P) buf'"
proof (cases "row < height \<and> col + 1 < width")
  case False
  then show ?thesis using assms(1) by (auto simp: draw_pair_def)
next
  case True
  let ?w = "width div 4" let ?i = "row * (width div 4) + col div 4"
  have c: "col div 4 < ?w" using True assms(3) by presburger
  have i: "?i < length buf" using assms(1) row_byte [of row height "col div 4" ?w] c True by (simp add: shows_pairs_def)
  have half: "col mod 4 = 0 \<and> col = 4 * (col div 4) \<or> col mod 4 = 2 \<and> col = 4 * (col div 4) + 2"
    using assms(2) by presburger
  have byte: "pairs_byte (insert (row, col) P) r k = (if r = row \<and> k = col div 4 then pairs_byte P r k OR pair_mask col else pairs_byte P r k)"
    for r k
    using half
  proof
    assume h: "col mod 4 = 0 \<and> col = 4 * (col div 4)"
    then obtain q where q: "col = 4 * q" "col div 4 = q" by blast
    have "4 * k + 2 \<noteq> 4 * q" by presburger
    then show ?thesis using h q by (auto simp: pairs_byte_def pair_masks or.assoc or.commute or.left_commute)
  next
    assume h: "col mod 4 = 2 \<and> col = 4 * (col div 4) + 2"
    then obtain q where q: "col = 4 * q + 2" "col div 4 = q" by blast
    have "4 * k \<noteq> 4 * q + 2" by presburger
    then show ?thesis using h q by (auto simp: pairs_byte_def pair_masks or.assoc or.commute or.left_commute)
  qed
  have "buf[?i := buf ! ?i OR pair_mask col] ! (r * ?w + k) = pairs_byte (insert (row, col) P) r k"
    if "r < height" "k < ?w" for r k
    using that assms(1) i c True cell_index [OF that(2) c, of r row] unfolding byte
    by (auto simp: shows_pairs_def nth_list_update)
  then have "shows_pairs width height (insert (row, col) P) (buf[?i := buf ! ?i OR pair_mask col])"
    using assms(1) by (simp add: shows_pairs_def)
  then show ?thesis using True i by (simp add: draw_pair_def Let_def)
qed

definition inside :: "nat \<Rightarrow> nat \<Rightarrow> (nat \<times> nat) set" where
  "inside width height = {(row, col). row < height \<and> col + 1 < width}"

lemma draw_pairs_shows:
  assumes "shows_pairs width height P buf" "\<forall>(row, col) \<in> set ps. even col" "width mod 4 = 0"
  shows "\<exists>buf'. draw_pairs width height ps buf = Some buf' \<and>
     shows_pairs width height (P \<union> (set ps \<inter> inside width height)) buf'"
  using assms(1,2)
proof (induction ps arbitrary: P buf)
  case (Cons p ps)
  obtain row col where p: "p = (row, col)" by fastforce
  with Cons.prems have "even col" by simp
  from draw_pair_shows [OF Cons.prems(1) this assms(3), of row] obtain b where
    b: "draw_pair width height p buf = Some b"
      "shows_pairs width height (if row < height \<and> col + 1 < width then insert (row, col) P else P) b"
    unfolding p by blast
  have "(if row < height \<and> col + 1 < width then insert (row, col) P else P) \<union> (set ps \<inter> inside width height) =
      P \<union> (set (p # ps) \<inter> inside width height)"
    by (auto simp: p inside_def)
  with Cons.IH [OF b(2)] Cons.prems(2) b(1) show ?case by simp
qed simp

text \<open>The pairs of the character at position \<open>n\<close>.\<close>

definition char_pairs :: "nat \<Rightarrow> char \<Rightarrow> (nat \<times> nat) set" where
  "char_pairs n ch =
     {(row, col). \<exists>index y x dy. glyph_index ch = Some index \<and> y < 7 \<and> x < 5 \<and> dy < 2 \<and> glyph_point index y x \<and>
        row = 4 + 2 * y + dy \<and> col = 4 + 12 * n + 2 * x}"

lemma set_glyph_pairs:
  "glyph_index ch = Some index \<Longrightarrow> set (glyph_pairs n index) = char_pairs n ch"
  by (auto simp: glyph_pairs_def char_pairs_def less_2_cases_iff mult.commute split: if_splits)

definition text_pairs :: "nat \<Rightarrow> nat \<Rightarrow> string \<Rightarrow> (nat \<times> nat) set" where
  "text_pairs width n s = (\<Union>k \<in> {k. k < length s \<and> n + k < width div 12}. char_pairs (n + k) (s ! k))"

lemma text_pairs_Cons:
  "text_pairs width n (ch # cs) = (if n < width div 12 then char_pairs n ch \<union> text_pairs width (Suc n) cs else {})"
proof -
  have "{k. k < length (ch # cs) \<and> n + k < width div 12} =
      (if n < width div 12 then insert 0 (Suc ` {k. k < length cs \<and> Suc n + k < width div 12}) else {})"
  proof (rule set_eqI)
    fix k
    show "k \<in> {k. k < length (ch # cs) \<and> n + k < width div 12} \<longleftrightarrow>
        k \<in> (if n < width div 12 then insert 0 (Suc ` {k. k < length cs \<and> Suc n + k < width div 12}) else {})"
      by (cases k) auto
  qed
  then show ?thesis by (simp add: text_pairs_def)
qed

lemma draw_chars_shows:
  assumes "shows_pairs width height P buf" "width mod 4 = 0"
  shows "\<exists>buf'. draw_chars width height n s buf = Some buf' \<and>
     shows_pairs width height (P \<union> (text_pairs width n s \<inter> inside width height)) buf'"
  using assms(1)
proof (induction s arbitrary: n P buf)
  case Nil
  then show ?case by (simp add: text_pairs_def)
next
  case (Cons ch cs)
  show ?case
  proof (cases "n < width div 12")
    case False
    with Cons.prems show ?thesis by (simp add: text_pairs_Cons)
  next
    case True
    obtain b where b: "(case glyph_index ch of None \<Rightarrow> Some buf | Some index \<Rightarrow> draw_pairs width height (glyph_pairs n index) buf) = Some b"
      "shows_pairs width height (P \<union> (char_pairs n ch \<inter> inside width height)) b"
    proof (cases "glyph_index ch")
      case None
      then have "char_pairs n ch = {}" by (simp add: char_pairs_def)
      with None Cons.prems that show thesis by simp
    next
      case (Some index)
      have "\<forall>(row, col) \<in> set (glyph_pairs n index). even col"
        unfolding set_glyph_pairs [OF Some] by (auto simp: char_pairs_def)
      from draw_pairs_shows [OF Cons.prems this assms(2)] Some that show thesis by (auto simp: set_glyph_pairs [OF Some])
    qed
    have "P \<union> (char_pairs n ch \<inter> inside width height) \<union> (text_pairs width (Suc n) cs \<inter> inside width height) =
        P \<union> (text_pairs width n (ch # cs) \<inter> inside width height)"
      using True by (auto simp: text_pairs_Cons)
    with Cons.IH [OF b(2), of "Suc n"] True b(1) show ?thesis by simp
  qed
qed

text \<open>On a canvas of \<open>width / 4 * height\<close> bytes, drawing any text writes inside the canvas only and leaves it with exactly
  the points of the glyphs of the characters that fit white and everything else transparent; a pair that is partly
  outside is left out, other characters are blanks.\<close>

lemma fps_draw_shows:
  assumes "0 < width" "width mod 4 = 0" "0 < height" "length buf = width div 4 * height"
  shows "\<exists>buf'. fps_draw (Some buf) width height (Some s) = Some (Some buf') \<and> length buf' = length buf \<and>
     (\<forall>row < height. \<forall>c < width div 4.
        buf' ! (row * (width div 4) + c) = pairs_byte (text_pairs width 0 s \<inter> inside width height) row c)"
proof -
  have cleared: "canvas_set 0 (width div 4 * height) 0 buf = Some (replicate (width div 4 * height) 0)"
    using assms(4) by (simp add: canvas_set_def)
  have "shows_pairs width height {} (replicate (width div 4 * height) 0)"
    by (auto simp: shows_pairs_def pairs_byte_def row_byte)
  from draw_chars_shows [OF this assms(2), of 0 s] obtain buf' where
    "draw_chars width height 0 s (replicate (width div 4 * height) 0) = Some buf'"
    "shows_pairs width height (text_pairs width 0 s \<inter> inside width height) buf'" by auto
  with cleared assms show ?thesis by (simp add: fps_draw_def shows_pairs_def)
qed

lemma dot_pairs: "glyph_pairs 0 14 = [(14, 8), (15, 8), (16, 8), (17, 8)]"
proof -
  have "[0..<7] = [0, 1, 2, 3, 4, 5, 6 :: nat]" "[0..<5] = [0, 1, 2, 3, 4 :: nat]" by code_simp+
  moreover have "glyphs ! 14 = [0,0,0,0,0,4,4]" by (simp add: glyphs_def)
  ultimately show ?thesis by (simp add: glyph_pairs_def glyph_point_def bit_0)
qed

text \<open>The canvas of the program, with a single dot: its two points are four rows of eight bytes below the top.\<close>

lemma fps_draw_shows_example:
  "\<exists>buf'. fps_draw (Some (replicate 128 0)) 16 32 (Some ''.'') = Some (Some buf') \<and> length buf' = 128 \<and> buf' ! (14 * 4 + 2) = 0xf0 \<and>
     buf' ! (13 * 4 + 2) = 0"
proof -
  have "glyph_index (CHR ''.'') = Some 14" by code_simp
  moreover have "glyph_pairs 0 14 = [(14, 8), (15, 8), (16, 8), (17, 8)]" by (rule dot_pairs)
  ultimately have chars: "char_pairs 0 (CHR ''.'') = {(14, 8), (15, 8), (16, 8), (17, 8)}" using set_glyph_pairs [of "CHR ''.''" 14 0] by simp
  have "text_pairs w n [] = {}" for w n by (simp add: text_pairs_def)
  then have "text_pairs 16 0 ''.'' = {(14, 8), (15, 8), (16, 8), (17, 8)}" unfolding text_pairs_Cons chars by simp
  moreover have "{(14, 8), (15, 8), (16, 8), (17, 8)} \<inter> inside 16 32 = {(14, 8), (15, 8), (16, 8), (17, 8)}"
    by (simp add: inside_def)
  ultimately have dot: "text_pairs 16 0 ''.'' \<inter> inside 16 32 = {(14, 8), (15, 8), (16, 8), (17, 8)}" by simp
  from fps_draw_shows [of 16 32 "replicate 128 0" "''.''"] obtain buf' where
    b: "fps_draw (Some (replicate 128 0)) 16 32 (Some ''.'') = Some (Some buf')" "length buf' = 128"
      "\<forall>row < 32. \<forall>c < 4. buf' ! (row * 4 + c) = pairs_byte {(14, 8), (15, 8), (16, 8), (17, 8)} row c"
    unfolding dot by auto
  have "buf' ! (14 * 4 + 2) = 0xf0" using b(3) [rule_format, of 14 2] by (simp add: pairs_byte_def)
  moreover have "buf' ! (13 * 4 + 2) = 0" using b(3) [rule_format, of 13 2] by (simp add: pairs_byte_def)
  ultimately show ?thesis using b by blast
qed

end
