(* ===== verification/CaptureLoops.thy ===== *)
theory CaptureLoops
  imports MediaSdk
begin

text \<open>
  The loops of the capture threads in \<^verbatim>\<open>src/media/video.cpp\<close> and \<^verbatim>\<open>audio.cpp\<close>, one turn at a time: take a buffer from the
  hardware, hand it on, give it back. The results of the hardware are arguments; what a turn calls is a list. The frame
  counters of \<^verbatim>\<open>src/osd/fps_overlay.hpp\<close> are here too.
\<close>

section \<open>Turns\<close>

datatype capture_source = Venc_stream nat | Aenc_stream | Vi_frame

datatype capture_call =
    Take capture_source int | Give_back capture_source
  | Health nat | Count_frame nat
  | Deliver_video nat "byte list" u64 bool | Deliver_audio "byte list" u64
  | Submit_iva "16 word" "16 word" u32 int

datatype nalu = Nalu_idr | Nalu_i | Nalu_other

text \<open>What the hardware answers: the code, the mapped bytes (\<open>None\<close> is a NULL address), the time and the two readings of the type union.\<close>

record video_answer =
  va_ret :: int
  va_data :: "byte list option"
  va_pts :: u64
  va_h264 :: nalu
  va_h265 :: nalu

definition key_frame :: "param_state \<Rightarrow> nat \<Rightarrow> video_answer \<Rightarrow> bool option" where
  "key_frame cfg i a =
     map_option (\<lambda>hevc. if hevc then va_h265 a = Nalu_idr \<or> va_h265 a = Nalu_i else va_h264 a = Nalu_idr \<or> va_h264 a = Nalu_i)
       (media_h265 cfg i)"

definition capture_encoded_video :: "param_state \<Rightarrow> bool \<Rightarrow> nat \<Rightarrow> video_answer \<Rightarrow> capture_call list option" where
  "capture_encoded_video cfg fps i a =
     (if va_ret a \<noteq> 0 then Some [Take (Venc_stream i) (va_ret a)]
      else (case va_data a of
              None \<Rightarrow> Some [Take (Venc_stream i) 0, Give_back (Venc_stream i)]
            | Some bytes \<Rightarrow>
                if bytes = [] then Some [Take (Venc_stream i) 0, Give_back (Venc_stream i)]
                else map_option (\<lambda>key.
                       [Take (Venc_stream i) 0, Health i] @ (if fps then [Count_frame i] else []) @
                       [Deliver_video i bytes (va_pts a) key, Give_back (Venc_stream i)])
                     (key_frame cfg i a)))"

record audio_answer =
  aa_ret :: int
  aa_data :: "byte list option"
  aa_pts :: u64

definition capture_encoded_audio :: "audio_answer \<Rightarrow> capture_call list" where
  "capture_encoded_audio a =
     (if aa_ret a \<noteq> 0 then [Take Aenc_stream (aa_ret a)]
      else [Take Aenc_stream 0] @
        (case aa_data a of None \<Rightarrow> [] | Some bytes \<Rightarrow> if bytes = [] then [] else [Health 2, Deliver_audio bytes (aa_pts a)]) @
        [Give_back Aenc_stream])"

text \<open>A frame for the detection; the frame number counts the frames taken. The result of the submission is an argument.\<close>

record iva_answer =
  ia_ret :: int
  ia_width :: u32
  ia_height :: u32
  ia_fd :: int
  ia_write :: int

definition submit_frames_to_rockiva :: "u32 \<Rightarrow> iva_answer \<Rightarrow> capture_call list \<times> u32" where
  "submit_frames_to_rockiva frame_id a =
     (if ia_ret a \<noteq> 0 then ([Take Vi_frame (ia_ret a)], frame_id)
      else ([Take Vi_frame 0, Submit_iva (ucast (ia_width a)) (ucast (ia_height a)) frame_id (ia_fd a), Give_back Vi_frame] @
            (if ia_write a = 0 then [Health 3] else []), frame_id + 1))"

text \<open>The pause in milliseconds that keeps the detection at its configured rate.\<close>

definition iva_period :: "param_state \<Rightarrow> int option" where
  "iva_period cfg = map_option (\<lambda>fps. 1000 sdiv max 1 fps) (rk_param_get_int cfg ''video.source:npu_fps'' 10)"

definition iva_pause :: "int \<Rightarrow> int \<Rightarrow> int" where
  "iva_pause period spent = (if spent < period then period - spent else 0)"

fun submit_turns :: "u32 \<Rightarrow> iva_answer list \<Rightarrow> capture_call list" where
  "submit_turns frame_id [] = []"
| "submit_turns frame_id (a # as) =
     (case submit_frames_to_rockiva frame_id a of (calls, next_id) \<Rightarrow> calls @ submit_turns next_id as)"

section \<open>Frame counters\<close>

definition fps_record :: "int \<Rightarrow> u32 \<times> u32 \<Rightarrow> u32 \<times> u32" where
  "fps_record i frames =
     (case frames of (a, b) \<Rightarrow> if i = 0 then (a + 1, b) else if i = 1 then (a, b + 1) else (a, b))"

text \<open>Once a second both counters are read and cleared.\<close>

definition fps_run :: "u32 \<times> u32 \<Rightarrow> (u32 \<times> u32) \<times> (u32 \<times> u32)" where
  "fps_run frames = (frames, (0, 0))"

lemma fps_records:
  "fold fps_record is (a, b) = (a + of_nat (length (filter (\<lambda>i. i = 0) is)), b + of_nat (length (filter (\<lambda>i. i = 1) is)))"
  by (induction "is" arbitrary: a b) (auto simp: fps_record_def)

section \<open>Buffers\<close>

text \<open>
  The contract of a thread with the hardware: a buffer is given back after it was taken and before the next is taken,
  and what is in it is handed on only in between. \<open>held\<close> tells whether a buffer is held.
\<close>

fun hands_on :: "capture_call \<Rightarrow> bool" where
  "hands_on (Deliver_video i bytes pts key) \<longleftrightarrow> True"
| "hands_on (Deliver_audio bytes pts) \<longleftrightarrow> True"
| "hands_on (Submit_iva w h i fd) \<longleftrightarrow> True"
| "hands_on _ \<longleftrightarrow> False"

fun buffer_after :: "capture_source \<Rightarrow> bool \<Rightarrow> capture_call \<Rightarrow> bool option" where
  "buffer_after src have (Take s r) = (if s = src \<and> \<not> have then Some (r = 0) else None)"
| "buffer_after src have (Give_back s) = (if s = src \<and> have then Some False else None)"
| "buffer_after src have c = (if hands_on c \<longrightarrow> have then Some have else None)"

fun buffer_run :: "capture_source \<Rightarrow> bool \<Rightarrow> capture_call list \<Rightarrow> bool option" where
  "buffer_run src have [] = Some have"
| "buffer_run src have (c # cs) = (case buffer_after src have c of None \<Rightarrow> None | Some have' \<Rightarrow> buffer_run src have' cs)"

lemma buffer_run_append:
  "buffer_run src have (cs @ ds) = (case buffer_run src have cs of None \<Rightarrow> None | Some have' \<Rightarrow> buffer_run src have' ds)"
  by (induction cs arbitrary: "have") (auto split: option.splits)

lemma buffer_run_concat:
  "\<forall>cs \<in> set css. buffer_run src False cs = Some False \<Longrightarrow> buffer_run src False (concat css) = Some False"
  by (induction css) (auto simp: buffer_run_append)

definition frames_of :: "capture_call list \<Rightarrow> capture_call list" where
  "frames_of calls = filter hands_on calls"

lemma video_turn_buffers:
  "capture_encoded_video cfg fps i a = Some calls \<Longrightarrow> buffer_run (Venc_stream i) False calls = Some False"
  by (auto simp: capture_encoded_video_def split: if_splits option.splits)

lemma audio_turn_buffers: "buffer_run Aenc_stream False (capture_encoded_audio a) = Some False"
  by (auto simp: capture_encoded_audio_def split: option.splits)

lemma submit_turn_buffers: "buffer_run Vi_frame False (fst (submit_frames_to_rockiva frame_id a)) = Some False"
  by (simp add: submit_frames_to_rockiva_def)

lemma submit_turns_buffers: "buffer_run Vi_frame False (submit_turns frame_id as) = Some False"
proof (induction "as" arbitrary: frame_id)
  case (Cons a "as")
  then show ?case
    using submit_turn_buffers [of frame_id a]
    by (cases "submit_frames_to_rockiva frame_id a") (simp add: buffer_run_append)
qed simp


definition example_answer :: video_answer where
  "example_answer = \<lparr>va_ret = 0, va_data = Some [0, 0, 0, 1, 0x65], va_pts = 40000, va_h264 = Nalu_idr, va_h265 = Nalu_other\<rparr>"


end
