(* ===== verification/FpsRun.thy ===== *)
theory FpsRun
  imports Complex_Main FpsText CaptureLoops
begin

text \<open>
  The thread of the frame-rate overlay, \<^verbatim>\<open>FpsOverlay::run\<close> and \<^verbatim>\<open>update\<close> of \<^verbatim>\<open>src/osd/fps_overlay.cpp\<close>, with the
  capture threads that count frames at any time. A finite \<^verbatim>\<open>double\<close> is the rational number it stands for; the processor's
  division of the count by the elapsed time is an argument.
\<close>

section \<open>The text\<close>

datatype c_double = Finite rat | Infinite | Not_a_number

text \<open>The \<^verbatim>\<open>double\<close> nearest to 999.9.\<close>

definition double_9999 :: rat where
  "double_9999 = 8795213412905779 / 8796093022208"

text \<open>\<^verbatim>\<open>std::min(999.9, fps)\<close>: the second operand only if it compares as smaller.\<close>

definition fps_cap :: "c_double \<Rightarrow> rat" where
  "fps_cap fps = (case fps of Finite x \<Rightarrow> if x < double_9999 then x else double_9999 | _ \<Rightarrow> double_9999)"

text \<open>\<^verbatim>\<open>%.1f\<close> rounds the exact value to the nearest tenth, ties to even.\<close>

definition round_half_even :: "rat \<Rightarrow> int" where
  "round_half_even x =
     (let n = \<lfloor>x\<rfloor>; d = x - of_int n
      in if d < 1 / 2 then n else if d > 1 / 2 then n + 1 else if even n then n else n + 1)"

definition tenths_text :: "nat \<Rightarrow> string" where
  "tenths_text n = ''FPS: '' @ show_nat (n div 10) @ ''.'' @ show_nat (n mod 10)"

definition fps_text :: "c_double \<Rightarrow> string" where
  "fps_text fps = take 15 (tenths_text (nat (round_half_even (10 * fps_cap fps))))"

section \<open>The thread\<close>

text \<open>What the region library answers: the size and the bytes of the canvas, unless it fails or gives no address.\<close>

type_synonym fps_answer = "(nat \<times> nat \<times> byte list) option"

text \<open>The canvas handed over, if there is one. \<open>None\<close> outside is a write outside of it.\<close>

definition fps_show :: "c_double \<Rightarrow> fps_answer \<Rightarrow> byte list option option" where
  "fps_show fps a =
     (case a of
        None \<Rightarrow> Some None
      | Some (width, height, pixels) \<Rightarrow> fps_draw (Some pixels) width height (Some (fps_text fps)))"

datatype fps_event = Frame int | Second int fps_answer fps_answer

definition fps_step ::
  "(u32 \<Rightarrow> int \<Rightarrow> c_double) \<Rightarrow> fps_event \<Rightarrow> u32 \<times> u32 \<Rightarrow> ((u32 \<times> u32) \<times> (byte list option \<times> byte list option) list) option" where
  "fps_step rate e frames =
     (case e of
        Frame i \<Rightarrow> Some (fps_record i frames, [])
      | Second elapsed a0 a1 \<Rightarrow>
          (case fps_run frames of
             ((n0, n1), frames') \<Rightarrow>
               (case (fps_show (rate n0 elapsed) a0, fps_show (rate n1 elapsed) a1) of
                  (Some c0, Some c1) \<Rightarrow> Some (frames', [(c0, c1)])
                | _ \<Rightarrow> None)))"

fun fps_events ::
  "(u32 \<Rightarrow> int \<Rightarrow> c_double) \<Rightarrow> fps_event list \<Rightarrow> u32 \<times> u32 \<Rightarrow> ((u32 \<times> u32) \<times> (byte list option \<times> byte list option) list) option" where
  "fps_events rate [] frames = Some (frames, [])"
| "fps_events rate (e # es) frames =
     (case fps_step rate e frames of
        None \<Rightarrow> None
      | Some (frames', shown) \<Rightarrow> map_option (\<lambda>(frames'', rest). (frames'', shown @ rest)) (fps_events rate es frames'))"

section \<open>Rounding\<close>

lemma round_half_even_near: "\<bar>of_int (round_half_even x) - x\<bar> \<le> 1 / 2"
proof -
  have "of_int \<lfloor>x\<rfloor> \<le> x" "x < of_int \<lfloor>x\<rfloor> + 1" by linarith+
  then show ?thesis by (auto simp: round_half_even_def Let_def abs_le_iff)
qed

lemma fps_cap_range: "(\<And>x. fps = Finite x \<Longrightarrow> 0 \<le> x) \<Longrightarrow> 0 \<le> fps_cap fps \<and> fps_cap fps \<le> double_9999"
  by (cases fps) (auto simp: fps_cap_def double_9999_def)

lemma tenths_range:
  assumes "\<And>x. fps = Finite x \<Longrightarrow> 0 \<le> x"
  shows "0 \<le> round_half_even (10 * fps_cap fps)" "round_half_even (10 * fps_cap fps) \<le> 9999"
proof -
  let ?t = "round_half_even (10 * fps_cap fps)"
  note near = round_half_even_near [of "10 * fps_cap fps"]
  have cap: "0 \<le> fps_cap fps" "fps_cap fps \<le> double_9999" using fps_cap_range assms by blast+
  have "- (1 / 2) \<le> (of_int ?t :: rat)" using near cap by linarith
  then have "(-1 :: rat) < of_int ?t" by linarith
  then show "0 \<le> ?t" by linarith
  have "10 * double_9999 < 9999 + 1 / 2" by (simp add: double_9999_def)
  then have "(of_int ?t :: rat) < 10000" using near cap by linarith
  then show "?t \<le> 9999" by linarith
qed

lemma tenths_text_length: "n \<le> 9999 \<Longrightarrow> length (tenths_text n) \<le> 10"
proof -
  assume "n \<le> 9999"
  then have "n div 10 < 10 ^ 3" "n mod 10 < 10 ^ 1" by simp_all
  then show "length (tenths_text n) \<le> 10"
    using length_show_nat [of "n div 10" 3] length_show_nat [of "n mod 10" 1] by (simp add: tenths_text_def)
qed

text \<open>What the text says of a rate.\<close>

definition says_rate :: "nat \<Rightarrow> c_double \<Rightarrow> bool" where
  "says_rate n fps \<longleftrightarrow>
     (case fps of
        Finite x \<Rightarrow> if x < double_9999 then \<bar>of_nat n / 10 - x\<bar> \<le> 1 / 20 else n = 9999
      | _ \<Rightarrow> n = 9999)"

lemma fps_text_says:
  assumes "\<And>x. fps = Finite x \<Longrightarrow> 0 \<le> x"
  shows "\<exists>n \<le> 9999. fps_text fps = tenths_text n \<and> says_rate n fps"
proof -
  let ?t = "round_half_even (10 * fps_cap fps)"
  note range = tenths_range [where fps = fps, OF assms]
  have top: "round_half_even (10 * double_9999) = 9999"
  proof -
    have "\<lfloor>10 * double_9999\<rfloor> = 9998" by (simp add: floor_eq_iff double_9999_def)
    then show ?thesis unfolding round_half_even_def Let_def by (simp add: double_9999_def)
  qed
  have "of_nat (nat ?t) = (of_int ?t :: rat)" using range(1) by simp
  then have "\<bar>of_nat (nat ?t) / 10 - fps_cap fps\<bar> \<le> 1 / 20"
    using round_half_even_near [of "10 * fps_cap fps"] unfolding abs_le_iff by (elim conjE, intro conjI; linarith)
  then have "says_rate (nat ?t) fps"
    by (cases fps) (auto simp: says_rate_def fps_cap_def top)
  moreover have "nat ?t \<le> 9999" using range by simp
  ultimately show ?thesis
    using tenths_text_length [of "nat ?t"] by (intro exI [of _ "nat ?t"]) (simp add: fps_text_def)
qed

section \<open>What the canvas shows\<close>

text \<open>All points of a text, each pair of pixels of each character.\<close>

definition all_pairs :: "string \<Rightarrow> (nat \<times> nat) set" where
  "all_pairs s = (\<Union>k < length s. char_pairs k (s ! k))"

text \<open>A text of ten characters fits the canvas of 128 by 32 pixels the program asks for.\<close>

lemma text_fits:
  assumes "length s \<le> 10" "128 \<le> width" "32 \<le> height"
  shows "text_pairs width 0 s \<inter> inside width height = all_pairs s"
proof -
  have "k < width div 12" if "k < length s" for k using that assms(1,2) by linarith
  then have "{k. k < length s \<and> 0 + k < width div 12} = {..<length s}" by auto
  moreover have "char_pairs k c \<subseteq> inside width height" if "k < length s" for k c
    using that assms by (auto simp: char_pairs_def inside_def)
  ultimately show ?thesis unfolding text_pairs_def all_pairs_def by auto
qed

definition canvas_ok :: "fps_answer \<Rightarrow> bool" where
  "canvas_ok a \<longleftrightarrow>
     (case a of None \<Rightarrow> True
      | Some (width, height, pixels) \<Rightarrow>
          128 \<le> width \<and> width mod 4 = 0 \<and> 32 \<le> height \<and> length pixels = width div 4 * height)"

text \<open>The canvas of a channel shows exactly the text of the rate.\<close>

definition shows_rate :: "c_double \<Rightarrow> fps_answer \<Rightarrow> byte list option \<Rightarrow> bool" where
  "shows_rate fps a canvas \<longleftrightarrow>
     (case a of
        None \<Rightarrow> canvas = None
      | Some (width, height, pixels) \<Rightarrow>
          (\<exists>buf n. canvas = Some buf \<and> n \<le> 9999 \<and> says_rate n fps \<and>
             (\<forall>row < height. \<forall>c < width div 4. buf ! (row * (width div 4) + c) = pairs_byte (all_pairs (tenths_text n)) row c)))"

lemma fps_show_ok:
  assumes "\<And>x. fps = Finite x \<Longrightarrow> 0 \<le> x" "canvas_ok a"
  shows "\<exists>canvas. fps_show fps a = Some canvas \<and> shows_rate fps a canvas"
proof (cases a)
  case (Some answer)
  obtain width height pixels where a: "answer = (width, height, pixels)" by (cases answer) auto
  from assms(2) have ok: "128 \<le> width" "width mod 4 = 0" "32 \<le> height" "length pixels = width div 4 * height"
    by (simp_all add: canvas_ok_def Some a)
  from fps_text_says [OF assms(1)] obtain n where n: "n \<le> 9999" "fps_text fps = tenths_text n" "says_rate n fps" by blast
  from fps_draw_shows [OF _ ok(2) _ ok(4), of "tenths_text n"] ok(1,3) obtain buf where
    "fps_draw (Some pixels) width height (Some (tenths_text n)) = Some (Some buf)"
    "\<forall>row < height. \<forall>c < width div 4.
       buf ! (row * (width div 4) + c) = pairs_byte (text_pairs width 0 (tenths_text n) \<inter> inside width height) row c" by auto
  with n text_fits [OF tenths_text_length [OF n(1)] ok(1,3)] show ?thesis
    by (auto simp: Some a fps_show_def shows_rate_def)
qed (simp add: fps_show_def shows_rate_def)

text \<open>The frames counted for a channel since the last second.\<close>

fun frames_counted :: "int \<Rightarrow> fps_event list \<Rightarrow> nat \<Rightarrow> nat" where
  "frames_counted i [] n = n"
| "frames_counted i (Frame j # es) n = frames_counted i es (if j = i then Suc n else n)"
| "frames_counted i (Second e a0 a1 # es) n = frames_counted i es 0"

definition rates_nonneg :: "(u32 \<Rightarrow> int \<Rightarrow> c_double) \<Rightarrow> bool" where
  "rates_nonneg rate \<longleftrightarrow> (\<forall>n t x. 0 < t \<longrightarrow> rate n t = Finite x \<longrightarrow> 0 \<le> x)"

fun second_ok :: "fps_event \<Rightarrow> bool" where
  "second_ok (Frame i) \<longleftrightarrow> True"
| "second_ok (Second elapsed a0 a1) \<longleftrightarrow> 0 < elapsed \<and> canvas_ok a0 \<and> canvas_ok a1"

lemma fps_second_ok:
  assumes "rates_nonneg rate" "second_ok (Second elapsed a0 a1)"
  shows "\<exists>c0 c1. fps_step rate (Second elapsed a0 a1) (n0, n1) = Some ((0, 0), [(c0, c1)]) \<and>
     shows_rate (rate n0 elapsed) a0 c0 \<and> shows_rate (rate n1 elapsed) a1 c1"
proof -
  have "0 \<le> x" if "rate n elapsed = Finite x" for n x
    using assms that by (auto simp: rates_nonneg_def)
  with assms(2) fps_show_ok [of "rate n0 elapsed" a0] fps_show_ok [of "rate n1 elapsed" a1]
  show ?thesis by (auto simp: fps_step_def fps_run_def)
qed

lemma fps_events_count:
  assumes "rates_nonneg rate" "list_all second_ok es"
  shows "\<exists>shown. fps_events rate es (of_nat m0, of_nat m1) =
     Some ((of_nat (frames_counted 0 es m0), of_nat (frames_counted 1 es m1)), shown)"
  using assms(2)
proof (induction es arbitrary: m0 m1)
  case (Cons e es)
  show ?case
  proof (cases e)
    case (Frame i)
    let ?m0 = "if i = 0 then Suc m0 else m0" and ?m1 = "if i = 1 then Suc m1 else m1"
    have "fps_step rate e (of_nat m0, of_nat m1) = Some ((of_nat ?m0, of_nat ?m1), [])"
      by (simp add: Frame fps_step_def fps_record_def)
    with Cons.IH [of ?m0 ?m1] Cons.prems show ?thesis by (auto simp: Frame)
  next
    case (Second elapsed a0 a1)
    with Cons.prems fps_second_ok [OF assms(1), of elapsed a0 a1 "of_nat m0" "of_nat m1"] obtain shown where
      "fps_step rate e (of_nat m0, of_nat m1) = Some ((of_nat 0, of_nat 0), shown)" by auto
    with Cons.IH [of 0 0] Cons.prems show ?thesis by (auto simp: Second)
  qed
qed simp

lemma fps_events_snoc:
  "fps_events rate (es @ [e]) frames =
     (case fps_events rate es frames of
        None \<Rightarrow> None
      | Some (frames', shown) \<Rightarrow> map_option (\<lambda>(frames'', more). (frames'', shown @ more)) (fps_step rate e frames'))"
proof (induction es arbitrary: frames)
  case Nil
  then show ?case by (cases "fps_step rate e frames") (auto split: prod.split)
next
  case (Cons a es)
  then show ?case
    by (cases "fps_step rate a frames") (auto simp: option.map_comp comp_def case_prod_unfold split: option.split)
qed


text \<open>The processor's division, exact for this example: three frames in a fifth of a second.\<close>

definition example_rate :: "u32 \<Rightarrow> int \<Rightarrow> c_double" where
  "example_rate n elapsed = Finite (of_nat (unat n) * 1000000000 / of_int elapsed)"


end
