(* ===== verification/RockIva.thy ===== *)
theory RockIva
  imports OverlayCanvas CNumbers
begin

text \<open>
  The wrapper of the detection library, \<^verbatim>\<open>common/rockiva/rockiva.c\<close> with \<^verbatim>\<open>frame_wait.h\<close>, and the semaphore and clock
  of \<^verbatim>\<open>common/common.c\<close> it uses: the stack of results, initialisation and release, submission of frames.
  Calls of the library are logged, with results given as a function of the log. \<open>None\<close> is undefined behaviour: a NULL
  pointer or an int overflow. The threads around these functions are the subject of \<open>RockIvaThreads\<close>.
\<close>

section \<open>Signals\<close>

record rk_signal =
  sg_sem :: nat
  sg_max :: int

definition rk_signal_create :: "bool \<Rightarrow> bool \<Rightarrow> nat \<Rightarrow> int \<Rightarrow> rk_signal option" where
  "rk_signal_create malloc_ok sem_init_ok defval maxval =
     (if \<not> malloc_ok \<or> \<not> sem_init_ok then None else Some \<lparr>sg_sem = defval, sg_max = maxval\<rparr>)"

text \<open>The absolute deadline of a wait of \<open>timeout\<close> milliseconds, from the clock's seconds and nanoseconds.\<close>

definition rk_signal_deadline :: "int \<times> int \<Rightarrow> int \<Rightarrow> int \<times> int" where
  "rk_signal_deadline tv timeout =
     (case tv of (sec, nsec) \<Rightarrow>
        let nsec = nsec + (timeout smod 1000) * 1000000;
            (sec, nsec) = (if nsec \<ge> 1000000000 then (sec + 1, nsec - 1000000000) else (sec, nsec))
        in (sec + timeout sdiv 1000, nsec))"

text \<open>A wait takes the semaphore if it can; otherwise it fails, by its timeout or an interrupt. A NULL signal is no
  wait.\<close>

definition rk_signal_wait :: "rk_signal option \<Rightarrow> int \<times> rk_signal option" where
  "rk_signal_wait s =
     (case s of
        None \<Rightarrow> (0, None)
      | Some h \<Rightarrow> if sg_sem h > 0 then (0, Some (h\<lparr>sg_sem := sg_sem h - 1\<rparr>)) else (-1, s))"

definition rk_signal_give :: "rk_signal option \<Rightarrow> rk_signal option" where
  "rk_signal_give s =
     map_option (\<lambda>h. if int (sg_sem h) < sg_max h then h\<lparr>sg_sem := sg_sem h + 1\<rparr> else h) s"

text \<open>The deadline is the clock's time plus the timeout, with nanoseconds in range.\<close>

lemma rk_signal_deadline_sum:
  assumes "0 \<le> timeout" "0 \<le> nsec" "nsec < 1000000000"
  shows "case rk_signal_deadline (sec, nsec) timeout of (s, n) \<Rightarrow>
    s * 1000000000 + n = sec * 1000000000 + nsec + timeout * 1000000 \<and> 0 \<le> n \<and> n < 1000000000"
proof -
  have "timeout sdiv 1000 = timeout div 1000" "timeout smod 1000 = timeout mod 1000"
    using assms(1) by (cases "timeout = 0"; simp add: signed_divide_int_def signed_modulo_int_def)+
  moreover define q m where "q = timeout div 1000" and "m = timeout mod 1000"
  ultimately have d: "rk_signal_deadline (sec, nsec) timeout =
      (if 1000000000 \<le> nsec + m * 1000000 then (sec + 1 + q, nsec + m * 1000000 - 1000000000) else (sec + q, nsec + m * 1000000))"
    by (simp add: rk_signal_deadline_def Let_def)
  have "timeout = q * 1000 + m" "0 \<le> m" "m < 1000" by (simp_all add: q_def m_def)
  then show ?thesis using assms(2,3) unfolding d by (cases "1000000000 \<le> nsec + m * 1000000") simp_all
qed

section \<open>The clock\<close>

text \<open>The seconds and the padded milliseconds are printed into a string, which is read back digit by digit.\<close>

definition rkipc_get_curren_time_ms :: "nat \<times> nat \<Rightarrow> int" where
  "rkipc_get_curren_time_ms tv =
     (case tv of (sec, nsec) \<Rightarrow>
        foldl (\<lambda>msec c. msec * 10 + (int (ccode c) - int (ccode (CHR ''0'')))) 0
          (show_nat sec @ show_pad 3 (nsec div 1000000)))"

lemma foldl_show_nat:
  "foldl (\<lambda>msec c. msec * 10 + (int (ccode c) - 48)) 0 (show_nat n) = int n"
proof (induction n rule: show_nat.induct)
  case (1 n)
  then show ?case
    by (cases "n < 10"; subst show_nat.simps) (simp_all, presburger)
qed

lemma show_pad_3:
  "m < 1000 \<Longrightarrow> show_pad 3 m = [digit_char (m div 100), digit_char (m div 10 mod 10), digit_char (m mod 10)]"
  by (cases "m < 10"; cases "m < 100") (simp_all add: show_pad_def show_nat.simps numeral_3_eq_3 div_mult2_eq [of m 10 10, simplified])

text \<open>The detour through the string reads back the milliseconds of the clock.\<close>

lemma current_time_ms:
  assumes "nsec < 1000000000"
  shows "rkipc_get_curren_time_ms (sec, nsec) = int sec * 1000 + int (nsec div 1000000)"
proof -
  let ?m = "nsec div 1000000"
  have m: "?m < 1000" using assms by (simp add: less_mult_imp_div_less)
  then have "?m div 100 < 10" by (simp add: less_mult_imp_div_less)
  moreover have "k = k div 100 * 100 + k div 10 mod 10 * 10 + k mod 10" for k :: nat
  proof -
    have "k div 100 = k div 10 div 10" by (simp flip: div_mult2_eq)
    then show ?thesis using div_mult_mod_eq [of k 10] div_mult_mod_eq [of "k div 10" 10] by linarith
  qed
  from arg_cong [where f = int, OF this [of ?m]]
  have "int ?m = int (?m div 100) * 100 + int (?m div 10 mod 10) * 10 + int (?m mod 10)"
    by (simp only: of_nat_add of_nat_mult of_nat_numeral)
  ultimately show ?thesis
    unfolding rkipc_get_curren_time_ms_def prod.case foldl_append show_pad_3 [OF m]
    by (simp add: foldl_show_nat del: of_nat_mod of_nat_div)
qed

section \<open>The stack of results\<close>

type_synonym iva_result = "detected list"

record rknn_list =
  rl_size :: int
  rl_nodes :: "(int \<times> iva_result) list"

definition MAX_RKNN_LIST_NUM :: int where
  "MAX_RKNN_LIST_NUM = 10"

definition create_rknn_list :: "bool \<Rightarrow> rknn_list option \<Rightarrow> rknn_list option option" where
  "create_rknn_list malloc_ok s =
     (case s of
        Some l \<Rightarrow> Some (Some l)
      | None \<Rightarrow> if malloc_ok then Some (Some \<lparr>rl_size = 0, rl_nodes = []\<rparr>) else None)"

definition rknn_list_push :: "bool \<Rightarrow> rknn_list option \<Rightarrow> int \<Rightarrow> iva_result \<Rightarrow> rknn_list option option" where
  "rknn_list_push malloc_ok s timeval result =
     (case s of
        None \<Rightarrow> None
      | Some l \<Rightarrow>
          if \<not> malloc_ok then None
          else Some (Some (l\<lparr>rl_nodes := (timeval, result) # rl_nodes l, rl_size := rl_size l + 1\<rparr>)))"

text \<open>What \<^verbatim>\<open>pop\<close> stores through its pointers; \<open>None\<close> leaves them as they were.\<close>

definition rknn_list_pop :: "rknn_list option \<Rightarrow> (int \<times> iva_result) option \<times> rknn_list option" where
  "rknn_list_pop s =
     (case s of
        None \<Rightarrow> (None, None)
      | Some l \<Rightarrow>
          (case rl_nodes l of
             [] \<Rightarrow> (None, s)
           | n # ns \<Rightarrow> (Some n, Some (l\<lparr>rl_nodes := ns, rl_size := rl_size l - 1\<rparr>))))"

definition rknn_list_drop :: "rknn_list option \<Rightarrow> rknn_list option" where
  "rknn_list_drop s =
     (case s of
        None \<Rightarrow> None
      | Some l \<Rightarrow>
          (case rl_nodes l of
             [] \<Rightarrow> s
           | n # ns \<Rightarrow> Some (l\<lparr>rl_nodes := ns, rl_size := rl_size l - 1\<rparr>)))"

definition rknn_list_size :: "rknn_list option \<Rightarrow> int" where
  "rknn_list_size s = (case s of None \<Rightarrow> -1 | Some l \<Rightarrow> rl_size l)"

text \<open>Freeing every node and the list: the pointer is NULL afterwards.\<close>

fun free_nodes :: "(int \<times> iva_result) list \<Rightarrow> nat" where
  "free_nodes [] = 0"
| "free_nodes (n # ns) = Suc (free_nodes ns)"

definition destory_rknn_list :: "rknn_list option \<Rightarrow> nat \<times> rknn_list option" where
  "destory_rknn_list s = (case s of None \<Rightarrow> (0, None) | Some l \<Rightarrow> (Suc (free_nodes (rl_nodes l)), None))"

section \<open>Initialisation\<close>

datatype det_model = Det_pfp | Det_cls7

datatype transform = Transform_none | Rotate_90 | Rotate_180 | Rotate_270

record iva_global =
  ig_path :: string
  ig_model :: "det_model option"
  ig_width :: int
  ig_height :: int
  ig_transform :: "transform option"

record iva_rule =
  ir_enable :: int
  ir_sense :: int
  ir_alert_ms :: int
  ir_min_height :: int
  ir_min_width :: int
  ir_points :: "(int \<times> int) list"

record iva_image =
  im_width :: "16 word"
  im_height :: "16 word"
  im_bgr :: bool
  im_transform :: "transform option"
  im_frame :: u32
  im_fd :: "int option"
  im_addr :: "u32 option"

datatype iva_call =
    Rockiva_init iva_global | Rockiva_release | Ba_init iva_rule | Ba_release | Set_release_callback
  | Push_frame iva_image

type_synonym iva_log = "(iva_call \<times> int) list"

text \<open>The library: results, its success code, the size of a path buffer, the conversion of a pixel to a ratio; and whether
  the allocations of the signal and of the list succeed.\<close>

record iva_env =
  ie_result :: "iva_log \<Rightarrow> iva_call \<Rightarrow> int"
  ie_success :: int
  ie_path_size :: nat
  ie_ratio :: "int \<Rightarrow> int \<Rightarrow> int"
  ie_signal :: "bool \<times> bool"
  ie_list :: bool

record iva_st =
  iv_log :: iva_log
  iv_run :: bool
  iv_signal :: "rk_signal option"
  iv_list :: "rknn_list option"

definition iva_initial :: iva_st where
  "iva_initial = \<lparr>iv_log = [], iv_run = False, iv_signal = None, iv_list = None\<rparr>"

definition iva_do :: "iva_env \<Rightarrow> iva_call \<Rightarrow> iva_st \<Rightarrow> int \<times> iva_st" where
  "iva_do env c st = (let r = ie_result env (iv_log st) c in (r, st\<lparr>iv_log := iv_log st @ [(c, r)]\<rparr>))"

text \<open>A rotation that is none of the four leaves the cleared field.\<close>

definition transform_of :: "int \<Rightarrow> transform option" where
  "transform_of rotation =
     (if rotation = 0 then Some Transform_none else if rotation = 180 then Some Rotate_180
      else if rotation = 90 then Some Rotate_90 else if rotation = 270 then Some Rotate_270 else None)"

definition iva_rotation :: "param_state \<Rightarrow> int option" where
  "iva_rotation cfg =
     do {
       rotation \<leftarrow> rk_param_get_int cfg ''video.source:rotation'' 0;
       in_venc \<leftarrow> rk_param_get_int cfg ''video.source:rotate_in_venc'' 0;
       Some (if in_venc \<noteq> 0 then 0 else rotation)
     }"

definition det_model_of :: "string \<Rightarrow> det_model option" where
  "det_model_of t =
     (if t = ''small'' \<or> t = ''medium'' then Some Det_pfp else if t = ''big'' then Some Det_cls7 else None)"

definition iva_global_of :: "nat \<Rightarrow> param_state \<Rightarrow> iva_global option" where
  "iva_global_of path_size cfg =
     do {
       path \<leftarrow> media_text cfg ''rockiva:model_path'' ''/usr/lib/'';
       model \<leftarrow> media_text cfg ''event.regional_invasion:rockiva_model_type'' ''small'';
       width \<leftarrow> rk_param_get_int cfg ''video.2:width'' 960;
       height \<leftarrow> rk_param_get_int cfg ''video.2:height'' 540;
       rotation \<leftarrow> iva_rotation cfg;
       Some \<lparr>ig_path = take (path_size - 1) path, ig_model = det_model_of model, ig_width = width, ig_height = height,
             ig_transform = transform_of rotation\<rparr>
     }"

definition int_only :: "int \<Rightarrow> int option" where
  "int_only v = (if int_ok v then Some v else None)"

text \<open>The rule of the invaded region: a rectangle given in pixels of the normalised screen.\<close>

definition iva_rule_of :: "(int \<Rightarrow> int \<Rightarrow> int) \<Rightarrow> param_state \<Rightarrow> iva_rule option" where
  "iva_rule_of ratio cfg =
     do {
       web_width \<leftarrow> rk_param_get_int cfg ''osd.common:normalized_screen_width'' 704;
       web_height \<leftarrow> rk_param_get_int cfg ''osd.common:normalized_screen_height'' 480;
       x \<leftarrow> rk_param_get_int cfg ''event.regional_invasion:position_x'' 0;
       y \<leftarrow> rk_param_get_int cfg ''event.regional_invasion:position_y'' 0;
       w \<leftarrow> rk_param_get_int cfg ''event.regional_invasion:width'' 256;
       h \<leftarrow> rk_param_get_int cfg ''event.regional_invasion:height'' 256;
       enable \<leftarrow> rk_param_get_int cfg ''event.regional_invasion:enabled'' 0;
       sense \<leftarrow> rk_param_get_int cfg ''event.regional_invasion:sensitivity_level'' 50;
       seconds \<leftarrow> rk_param_get_int cfg ''event.regional_invasion:time_threshold'' 1;
       alert \<leftarrow> int_only (seconds * 1000);
       proportion \<leftarrow> rk_param_get_int cfg ''event.regional_invasion:proportion'' 5;
       min_height \<leftarrow> int_only (web_height sdiv 100 * proportion);
       min_width \<leftarrow> int_only (web_width sdiv 100 * proportion);
       right \<leftarrow> int_only (x + w);
       bottom \<leftarrow> int_only (y + h);
       Some \<lparr>ir_enable = enable, ir_sense = sense, ir_alert_ms = alert, ir_min_height = min_height, ir_min_width = min_width,
             ir_points = [(ratio web_width x, ratio web_height y), (ratio web_width right, ratio web_height y),
                          (ratio web_width right, ratio web_height bottom), (ratio web_width x, ratio web_height bottom)]\<rparr>
     }"

definition rkipc_rockiva_init :: "iva_env \<Rightarrow> param_state \<Rightarrow> iva_st \<Rightarrow> (int \<times> iva_st) option" where
  "rkipc_rockiva_init env cfg st =
     do {
       params \<leftarrow> iva_global_of (ie_path_size env) cfg;
       let (r, st) = iva_do env (Rockiva_init params) st;
       if r \<noteq> ie_success env then Some (-1, st)
       else do {
         rule \<leftarrow> iva_rule_of (ie_ratio env) cfg;
         let (r, st) = iva_do env (Ba_init rule) st;
         if r \<noteq> ie_success env then Some (-1, snd (iva_do env Rockiva_release st))
         else
           (let signal = rk_signal_create (fst (ie_signal env)) (snd (ie_signal env)) 0 1; st = st\<lparr>iv_signal := signal\<rparr>
            in if signal = None
               then Some (-1, snd (iva_do env Rockiva_release (snd (iva_do env Ba_release st))))
               else
                 (let st = snd (iva_do env Set_release_callback st)
                  in case create_rknn_list (ie_list env) (iv_list st) of
                       None \<Rightarrow> None
                     | Some l \<Rightarrow> Some (r, st\<lparr>iv_list := l, iv_run := True\<rparr>)))
       }
     }"

text \<open>The signal is given once more, which frees no thread that waits after it, and destroyed.\<close>

definition rkipc_rockiva_deinit :: "iva_env \<Rightarrow> iva_st \<Rightarrow> int \<times> iva_st" where
  "rkipc_rockiva_deinit env st =
     (let st = st\<lparr>iv_run := False\<rparr>;
          st = snd (iva_do env Ba_release st);
          st = snd (iva_do env Rockiva_release st)
      in (0, st\<lparr>iv_list := snd (destory_rknn_list (iv_list st)), iv_signal := None\<rparr>))"

section \<open>Frames\<close>

text \<open>A submission returns at once with a code, or has handed over the frame, whose release is waited for.\<close>

datatype submission = Returned int | Submitted

definition push_image :: "iva_env \<Rightarrow> bool \<Rightarrow> iva_image option \<Rightarrow> iva_st \<Rightarrow> (submission \<times> iva_st) option" where
  "push_image env malloc_ok frame st =
     (if \<not> iv_run st then Some (Returned 0, st)
      else if \<not> malloc_ok then Some (Returned (-1), st)
      else
        (case frame of
           None \<Rightarrow> None
         | Some im \<Rightarrow>
             (let (r, st) = iva_do env (Push_frame im) st in Some (if r = 0 then Submitted else Returned r, st))))"

definition rkipc_rockiva_write_rgb888_frame ::
  "iva_env \<Rightarrow> bool \<Rightarrow> 16 word \<Rightarrow> 16 word \<Rightarrow> u32 \<Rightarrow> u32 \<Rightarrow> iva_st \<Rightarrow> (submission \<times> iva_st) option" where
  "rkipc_rockiva_write_rgb888_frame env malloc_ok w h frame_id buffer st =
     push_image env malloc_ok
       (Some \<lparr>im_width = w, im_height = h, im_bgr = True, im_transform = None, im_frame = frame_id, im_fd = None,
              im_addr = Some buffer\<rparr>) st"

definition rkipc_rockiva_write_rgb888_frame_by_fd ::
  "iva_env \<Rightarrow> bool \<Rightarrow> 16 word \<Rightarrow> 16 word \<Rightarrow> u32 \<Rightarrow> int \<Rightarrow> iva_st \<Rightarrow> (submission \<times> iva_st) option" where
  "rkipc_rockiva_write_rgb888_frame_by_fd env malloc_ok w h frame_id fd st =
     push_image env malloc_ok
       (Some \<lparr>im_width = w, im_height = h, im_bgr = True, im_transform = None, im_frame = frame_id, im_fd = Some fd,
              im_addr = None\<rparr>) st"

definition rkipc_rockiva_write_nv12_frame_by_fd ::
  "iva_env \<Rightarrow> param_state \<Rightarrow> bool \<Rightarrow> 16 word \<Rightarrow> 16 word \<Rightarrow> u32 \<Rightarrow> int \<Rightarrow> iva_st \<Rightarrow> (submission \<times> iva_st) option" where
  "rkipc_rockiva_write_nv12_frame_by_fd env cfg malloc_ok w h frame_id fd st =
     push_image env malloc_ok
       (map_option (\<lambda>rotation.
          \<lparr>im_width = w, im_height = h, im_bgr = False, im_transform = transform_of rotation, im_frame = frame_id,
           im_fd = Some fd, im_addr = None\<rparr>) (iva_rotation cfg)) st"

definition rkipc_rockiva_write_nv12_frame_by_phy_addr ::
  "iva_env \<Rightarrow> param_state \<Rightarrow> bool \<Rightarrow> 16 word \<Rightarrow> 16 word \<Rightarrow> u32 \<Rightarrow> u32 \<Rightarrow> iva_st \<Rightarrow> (submission \<times> iva_st) option" where
  "rkipc_rockiva_write_nv12_frame_by_phy_addr env cfg malloc_ok w h frame_id addr st =
     push_image env malloc_ok
       (map_option (\<lambda>rotation.
          \<lparr>im_width = w, im_height = h, im_bgr = False, im_transform = transform_of rotation, im_frame = frame_id,
           im_fd = None, im_addr = Some addr\<rparr>) (iva_rotation cfg)) st"

text \<open>One turn of the loop that waits for the release: \<open>True\<close> ends it.\<close>

definition rkipc_wait_frame_release :: "iva_st \<Rightarrow> bool \<times> iva_st" where
  "rkipc_wait_frame_release st =
     (case rk_signal_wait (iv_signal st) of (r, s) \<Rightarrow> (r = 0, st\<lparr>iv_signal := s\<rparr>))"

definition rockiva_frame_release_callback :: "iva_st \<Rightarrow> iva_st" where
  "rockiva_frame_release_callback st = st\<lparr>iv_signal := rk_signal_give (iv_signal st)\<rparr>"

end
