(* ===== verification/RockIvaThreads.thy ===== *)
theory RockIvaThreads
  imports RockIva "HOL-Library.Multiset"
begin

text \<open>
  The threads around \<^verbatim>\<open>rockiva.c\<close>: the callbacks of the library, the overlay thread that takes results and the thread
  that submits frames. Each step is one region under the list's mutex or one semaphore operation, in any order.
\<close>

section \<open>The system\<close>

text \<open>Where \<^verbatim>\<open>rkba_callback\<close>, \<^verbatim>\<open>rkipc_rknn_object_get\<close> and a frame's submission are.\<close>

datatype callback_pc = Cb_idle | Cb_pushed | Cb_sized int

datatype get_pc = Get_idle | Get_sized

datatype writer_pc = W_idle | W_waiting

text \<open>The last four fields only record: frames taken and released by the library, results reported and gets.\<close>

record iva_sys =
  sy_iva :: iva_st
  sy_cb :: callback_pc
  sy_get :: get_pc
  sy_wr :: writer_pc
  sy_pushed :: nat
  sy_released :: nat
  sy_reports :: "(int \<times> iva_result) list"
  sy_gets :: "(int \<times> (int \<times> iva_result) option) list"

definition iva_start :: "iva_st \<Rightarrow> iva_sys" where
  "iva_start st = \<lparr>sy_iva = st, sy_cb = Cb_idle, sy_get = Get_idle, sy_wr = W_idle, sy_pushed = 0, sy_released = 0,
     sy_reports = [], sy_gets = []\<rparr>"

section \<open>The callback of results\<close>

definition callback_push :: "int \<Rightarrow> iva_result \<Rightarrow> iva_sys \<Rightarrow> iva_sys option" where
  "callback_push time result s =
     (if result = [] then Some s
      else map_option (\<lambda>l. s\<lparr>sy_iva := (sy_iva s)\<lparr>iv_list := l\<rparr>, sy_cb := Cb_pushed,
                             sy_reports := sy_reports s @ [(time, result)]\<rparr>)
             (rknn_list_push True (iv_list (sy_iva s)) time result))"

definition callback_size :: "iva_sys \<Rightarrow> iva_sys" where
  "callback_size s = s\<lparr>sy_cb := Cb_sized (rknn_list_size (iv_list (sy_iva s)))\<rparr>"

definition callback_drop :: "int \<Rightarrow> iva_sys \<Rightarrow> iva_sys" where
  "callback_drop n s =
     s\<lparr>sy_iva := (sy_iva s)\<lparr>iv_list := (if n \<ge> MAX_RKNN_LIST_NUM then rknn_list_drop (iv_list (sy_iva s))
                                        else iv_list (sy_iva s))\<rparr>,
       sy_cb := Cb_idle\<rparr>"

text \<open>The callback when nothing comes between.\<close>

definition rkba_callback :: "int \<Rightarrow> iva_result \<Rightarrow> iva_sys \<Rightarrow> iva_sys option" where
  "rkba_callback time result s =
     (if result = [] then Some s
      else map_option (\<lambda>s. let s = callback_size s in
             case sy_cb s of Cb_sized n \<Rightarrow> callback_drop n s | _ \<Rightarrow> s) (callback_push time result s))"

section \<open>Taking a result\<close>

definition get_size :: "iva_sys \<Rightarrow> iva_sys" where
  "get_size s =
     (if rknn_list_size (iv_list (sy_iva s)) \<noteq> 0 then s\<lparr>sy_get := Get_sized\<rparr>
      else s\<lparr>sy_gets := sy_gets s @ [(-1, None)]\<rparr>)"

definition get_pop :: "iva_sys \<Rightarrow> iva_sys" where
  "get_pop s =
     (case rknn_list_pop (iv_list (sy_iva s)) of
        (r, l) \<Rightarrow> s\<lparr>sy_iva := (sy_iva s)\<lparr>iv_list := l\<rparr>, sy_get := Get_idle, sy_gets := sy_gets s @ [(0, r)]\<rparr>)"

definition rkipc_rknn_object_get :: "iva_sys \<Rightarrow> iva_sys" where
  "rkipc_rknn_object_get s = (let s = get_size s in if sy_get s = Get_sized then get_pop s else s)"

section \<open>Frames\<close>

definition write_submit ::
  "iva_env \<Rightarrow> param_state \<Rightarrow> bool \<Rightarrow> 16 word \<Rightarrow> 16 word \<Rightarrow> u32 \<Rightarrow> int \<Rightarrow> iva_sys \<Rightarrow> iva_sys option" where
  "write_submit env cfg malloc_ok w h frame_id fd s =
     map_option (\<lambda>(p, st).
        case p of
          Submitted \<Rightarrow> s\<lparr>sy_iva := st, sy_wr := W_waiting, sy_pushed := sy_pushed s + 1\<rparr>
        | Returned r \<Rightarrow> s\<lparr>sy_iva := st\<rparr>)
       (rkipc_rockiva_write_nv12_frame_by_fd env cfg malloc_ok w h frame_id fd (sy_iva s))"

definition write_wait :: "iva_sys \<Rightarrow> iva_sys" where
  "write_wait s =
     (case rkipc_wait_frame_release (sy_iva s) of
        (ended, st) \<Rightarrow> s\<lparr>sy_iva := st, sy_wr := (if ended then W_idle else W_waiting)\<rparr>)"

definition frame_released :: "iva_sys \<Rightarrow> iva_sys" where
  "frame_released s =
     s\<lparr>sy_iva := rockiva_frame_release_callback (sy_iva s), sy_released := sy_released s + 1\<rparr>"

section \<open>Steps\<close>

text \<open>The library reports a release once for each frame it took, from one thread, as it does its results.\<close>

inductive iva_step :: "iva_env \<Rightarrow> param_state \<Rightarrow> iva_sys \<Rightarrow> iva_sys \<Rightarrow> bool" for env cfg where
  report: "sy_cb s = Cb_idle \<Longrightarrow> callback_push time result s = Some s' \<Longrightarrow> iva_step env cfg s s'"
| report_size: "sy_cb s = Cb_pushed \<Longrightarrow> iva_step env cfg s (callback_size s)"
| report_drop: "sy_cb s = Cb_sized n \<Longrightarrow> iva_step env cfg s (callback_drop n s)"
| take_size: "sy_get s = Get_idle \<Longrightarrow> iva_step env cfg s (get_size s)"
| take_pop: "sy_get s = Get_sized \<Longrightarrow> iva_step env cfg s (get_pop s)"
| submit: "sy_wr s = W_idle \<Longrightarrow> write_submit env cfg malloc_ok w h frame_id fd s = Some s' \<Longrightarrow> iva_step env cfg s s'"
| await: "sy_wr s = W_waiting \<Longrightarrow> iva_step env cfg s (write_wait s)"
| released: "sy_released s < sy_pushed s \<Longrightarrow> iva_step env cfg s (frame_released s)"

inductive iva_reach :: "iva_env \<Rightarrow> param_state \<Rightarrow> iva_sys \<Rightarrow> bool" for env cfg where
  start: "rkipc_rockiva_init env cfg iva_initial = Some (r, st) \<Longrightarrow> r \<noteq> -1 \<Longrightarrow> iva_reach env cfg (iva_start st)"
| step: "iva_reach env cfg s \<Longrightarrow> iva_step env cfg s s' \<Longrightarrow> iva_reach env cfg s'"

section \<open>Invariants\<close>

text \<open>The nodes of the stack that may be there while the callback is at each point.\<close>

definition waiting_limit :: "callback_pc \<Rightarrow> nat" where
  "waiting_limit pc = (case pc of Cb_idle \<Rightarrow> 9 | Cb_pushed \<Rightarrow> 10 | Cb_sized n \<Rightarrow> if n \<ge> 10 then 10 else 9)"

definition delivered :: "(int \<times> (int \<times> iva_result) option) list \<Rightarrow> (int \<times> iva_result) list" where
  "delivered gets = concat (map (\<lambda>(r, x). case x of None \<Rightarrow> [] | Some n \<Rightarrow> [n]) gets)"

definition list_inv :: "iva_sys \<Rightarrow> bool" where
  "list_inv s \<longleftrightarrow>
     (\<exists>l. iv_list (sy_iva s) = Some l \<and> rl_size l = int (length (rl_nodes l)) \<and>
        length (rl_nodes l) \<le> waiting_limit (sy_cb s) \<and>
        mset (rl_nodes l) + mset (delivered (sy_gets s)) \<subseteq># mset (sy_reports s) \<and> subseq (rev (rl_nodes l)) (sy_reports s))"

fun frames_ok :: "writer_pc \<Rightarrow> nat \<Rightarrow> nat \<Rightarrow> nat \<Rightarrow> bool" where
  "frames_ok W_idle sem pushed freed \<longleftrightarrow> sem = 0 \<and> pushed = freed"
| "frames_ok W_waiting sem pushed freed \<longleftrightarrow> sem = 0 \<and> pushed = freed + 1 \<or> sem = 1 \<and> pushed = freed"

definition frame_inv :: "iva_sys \<Rightarrow> bool" where
  "frame_inv s \<longleftrightarrow>
     (\<exists>sem. iv_signal (sy_iva s) = Some \<lparr>sg_sem = sem, sg_max = 1\<rparr> \<and>
        frames_ok (sy_wr s) sem (sy_pushed s) (sy_released s))"

lemmas list_defs = callback_push_def callback_size_def callback_drop_def get_size_def get_pop_def
  rknn_list_push_def rknn_list_pop_def rknn_list_drop_def rknn_list_size_def

lemma delivered_simps [simp]:
  "delivered [] = []" "delivered (gets @ [(r, None)]) = delivered gets" "delivered (gets @ [(r, Some n)]) = delivered gets @ [n]"
  by (simp_all add: delivered_def)

lemma subseq_prefix: "subseq (xs @ [n]) rs \<Longrightarrow> subseq xs rs"
  by (metis prefixI prefix_imp_subseq subseq_order.order_trans)

text \<open>The steps of the library and of the writer leave the list alone, those of the list the signal.\<close>

lemma push_image_fields:
  assumes "push_image env ok im st = Some (p, st')"
  shows "iv_list st' = iv_list st" "iv_signal st' = iv_signal st"
  using assms by (auto simp: push_image_def iva_do_def Let_def split: if_splits option.splits)

lemma write_submitted:
  assumes "write_submit env cfg ok w h frame_id fd s = Some s'"
  obtains im p st where "push_image env ok im (sy_iva s) = Some (p, st)"
    "s' = s\<lparr>sy_iva := st, sy_wr := W_waiting, sy_pushed := sy_pushed s + 1\<rparr> \<or> s' = s\<lparr>sy_iva := st\<rparr>"
proof -
  from assms obtain p st where w: "rkipc_rockiva_write_nv12_frame_by_fd env cfg ok w h frame_id fd (sy_iva s) = Some (p, st)"
    "s' = (case p of Submitted \<Rightarrow> s\<lparr>sy_iva := st, sy_wr := W_waiting, sy_pushed := sy_pushed s + 1\<rparr>
                   | Returned r \<Rightarrow> s\<lparr>sy_iva := st\<rparr>)"
    by (auto simp: write_submit_def)
  show ?thesis
    by (rule that [OF w(1) [unfolded rkipc_rockiva_write_nv12_frame_by_fd_def]]) (use w(2) in \<open>cases p; simp\<close>)
qed

lemma list_inv_same:
  assumes "list_inv s" "iv_list (sy_iva s') = iv_list (sy_iva s)" "sy_cb s' = sy_cb s" "sy_gets s' = sy_gets s"
    "sy_reports s' = sy_reports s"
  shows "list_inv s'"
  using assms by (simp add: list_inv_def delivered_def)

lemma list_invI:
  assumes "iv_list (sy_iva s) = Some l" "rl_size l = int (length (rl_nodes l))" "length (rl_nodes l) \<le> waiting_limit (sy_cb s)"
    "mset (rl_nodes l) + mset (delivered (sy_gets s)) \<subseteq># mset (sy_reports s)" "subseq (rev (rl_nodes l)) (sy_reports s)"
  shows "list_inv s"
  using assms by (auto simp: list_inv_def)

lemma list_inv_step:
  assumes "iva_step env cfg s s'" "list_inv s"
  shows "list_inv s'"
proof -
  from assms(2) obtain l where l: "iv_list (sy_iva s) = Some l" "rl_size l = int (length (rl_nodes l))"
    "length (rl_nodes l) \<le> waiting_limit (sy_cb s)"
    "mset (rl_nodes l) + mset (delivered (sy_gets s)) \<subseteq># mset (sy_reports s)" "subseq (rev (rl_nodes l)) (sy_reports s)"
    by (auto simp: list_inv_def)
  have fewer: "mset ns + mset (delivered (sy_gets s)) \<subseteq># mset (sy_reports s)" if "rl_nodes l = n # ns" for n ns
    using l(4) that by (simp add: mset_subset_eq_insertD subset_mset.less_imp_le)
  show ?thesis
    using assms(1)
  proof cases
    case (report time result)
    with l assms(2) show ?thesis
      by (auto simp: list_defs waiting_limit_def split: if_splits intro!: list_invI)
  next
    case report_size
    with l show ?thesis by (auto simp: list_defs waiting_limit_def intro!: list_invI)
  next
    case (report_drop n)
    with l fewer show ?thesis
      by (auto simp: list_defs waiting_limit_def MAX_RKNN_LIST_NUM_def split: if_splits list.splits
          intro!: list_invI dest: subseq_prefix)
  next
    case take_size
    with l show ?thesis by (auto simp: list_defs intro!: list_invI)
  next
    case take_pop
    with l show ?thesis
      by (auto simp: list_defs split: list.splits intro!: list_invI dest: subseq_prefix)
  next
    case (submit ok w h frame_id fd)
    from write_submitted [OF submit(2)] obtain im p st where st: "push_image env ok im (sy_iva s) = Some (p, st)"
      "s' = s\<lparr>sy_iva := st, sy_wr := W_waiting, sy_pushed := sy_pushed s + 1\<rparr> \<or> s' = s\<lparr>sy_iva := st\<rparr>" by blast
    with push_image_fields(1) [OF st(1)] show ?thesis by (intro list_inv_same [OF assms(2)]) auto
  next
    case await
    then show ?thesis
      by (auto simp: write_wait_def rkipc_wait_frame_release_def split: prod.splits intro: list_inv_same [OF assms(2)])
  next
    case released
    then show ?thesis
      by (auto simp: frame_released_def rockiva_frame_release_callback_def intro: list_inv_same [OF assms(2)])
  qed
qed

lemma frame_inv_same:
  assumes "frame_inv s" "iv_signal (sy_iva s') = iv_signal (sy_iva s)" "sy_wr s' = sy_wr s" "sy_pushed s' = sy_pushed s"
    "sy_released s' = sy_released s"
  shows "frame_inv s'"
  using assms by (simp add: frame_inv_def)

lemma frame_inv_step:
  assumes "iva_step env cfg s s'" "frame_inv s"
  shows "frame_inv s'"
  using assms(1)
proof cases
  case (submit ok w h frame_id fd)
  from write_submitted [OF submit(2)] obtain im p st where st: "push_image env ok im (sy_iva s) = Some (p, st)"
    "s' = s\<lparr>sy_iva := st, sy_wr := W_waiting, sy_pushed := sy_pushed s + 1\<rparr> \<or> s' = s\<lparr>sy_iva := st\<rparr>" by blast
  with push_image_fields(2) [OF st(1)] submit(1) assms(2) show ?thesis by (auto simp: frame_inv_def)
next
  case await
  with assms(2) show ?thesis
    by (auto simp: frame_inv_def write_wait_def rkipc_wait_frame_release_def rk_signal_wait_def)
next
  case released
  with assms(2) have "iv_signal (sy_iva s) = Some \<lparr>sg_sem = 0, sg_max = 1\<rparr>" "sy_wr s = W_waiting"
    "sy_pushed s = sy_released s + 1"
    by (cases "sy_wr s"; auto simp: frame_inv_def)+
  with released show ?thesis
    by (simp add: frame_inv_def frame_released_def rockiva_frame_release_callback_def rk_signal_give_def)
qed (use assms(2) in \<open>auto simp: list_defs split: if_splits option.splits prod.splits intro: frame_inv_same\<close>)

text \<open>An uninterrupted callback keeps the result unless nine are waiting: then it is the new one that is dropped.\<close>

lemma rkba_callback_keeps:
  assumes "iv_list (sy_iva s) = Some l" "rl_size l = int (length (rl_nodes l))" "result \<noteq> []"
  shows "\<exists>s' l'. rkba_callback time result s = Some s' \<and> iv_list (sy_iva s') = Some l' \<and> sy_cb s' = Cb_idle \<and>
     rl_nodes l' = (if length (rl_nodes l) < 9 then (time, result) # rl_nodes l else rl_nodes l)"
  using assms by (auto simp: rkba_callback_def list_defs MAX_RKNN_LIST_NUM_def)

end
