(* ===== verification/RockIvaProperties.thy ===== *)
theory RockIvaProperties
  imports RockIvaThreads MediaProperties
begin

text \<open>
  What the detection wrapper guarantees: its handles are acquired all or none and released once, its stack of
  results is bounded and hands out what was reported, and a frame goes back to its owner only when the library has released it.
\<close>

section \<open>Handles\<close>

text \<open>Which of the base and the analysis handle live after a call; \<open>None\<close> when the call was not allowed.\<close>

fun iva_after :: "int \<Rightarrow> iva_call \<times> int \<Rightarrow> bool \<times> bool \<Rightarrow> (bool \<times> bool) option" where
  "iva_after ok (Rockiva_init p, r) (base, ba) = (if base then None else Some (r = ok, ba))"
| "iva_after ok (Ba_init p, r) (base, ba) = (if base \<and> \<not> ba then Some (base, r = ok) else None)"
| "iva_after ok (Ba_release, r) (base, ba) = (if base \<and> ba then Some (base, False) else None)"
| "iva_after ok (Rockiva_release, r) (base, ba) = (if base \<and> \<not> ba then Some (False, ba) else None)"
| "iva_after ok (Set_release_callback, r) (base, ba) = (if base then Some (base, ba) else None)"
| "iva_after ok (Push_frame im, r) (base, ba) = (if base \<and> ba then Some (base, ba) else None)"

fun iva_live :: "int \<Rightarrow> iva_log \<Rightarrow> bool \<times> bool \<Rightarrow> (bool \<times> bool) option" where
  "iva_live ok [] h = Some h"
| "iva_live ok (c # cs) h = (case iva_after ok c h of None \<Rightarrow> None | Some h' \<Rightarrow> iva_live ok cs h')"

lemma iva_live_append:
  "iva_live ok (cs @ ds) h = (case iva_live ok cs h of None \<Rightarrow> None | Some h' \<Rightarrow> iva_live ok ds h')"
  by (induction cs arbitrary: h) (auto split: option.splits)

definition handles :: "iva_env \<Rightarrow> iva_st \<Rightarrow> (bool \<times> bool) option" where
  "handles env st = iva_live (ie_success env) (iv_log st) (False, False)"

lemma handles_do:
  "handles env (snd (iva_do env c st)) =
     (case handles env st of None \<Rightarrow> None | Some h \<Rightarrow> iva_after (ie_success env) (c, fst (iva_do env c st)) h)"
  by (auto simp: handles_def iva_do_def Let_def iva_live_append split: option.splits)

lemma iva_do_fields:
  assumes "iva_do env c st = (r, st')"
  shows "iv_run st' = iv_run st" "iv_signal st' = iv_signal st" "iv_list st' = iv_list st"
    "handles env st' = (case handles env st of None \<Rightarrow> None | Some h \<Rightarrow> iva_after (ie_success env) (c, r) h)"
proof -
  from assms have "st' = snd (iva_do env c st)" "r = fst (iva_do env c st)" by simp_all
  then show "handles env st' = (case handles env st of None \<Rightarrow> None | Some h \<Rightarrow> iva_after (ie_success env) (c, r) h)"
    by (simp only: handles_do)
qed (use assms in \<open>auto simp: iva_do_def Let_def\<close>)

lemma handles_fields [simp]:
  "handles env (st\<lparr>iv_run := b\<rparr>) = handles env st" "handles env (st\<lparr>iv_signal := s\<rparr>) = handles env st"
  "handles env (st\<lparr>iv_list := l\<rparr>) = handles env st"
  by (simp_all add: handles_def)

text \<open>Every outcome of the initialisation.\<close>

lemma rockiva_init_outcome:
  assumes "rkipc_rockiva_init env cfg iva_initial = Some (r, st)"
  shows "handles env st = Some (False, False) \<and> r = -1 \<and> \<not> iv_run st \<and> iv_list st = None \<and> iv_signal st = None \<or>
     handles env st = Some (True, True) \<and> r = ie_success env \<and> iv_run st \<and>
     iv_list st = Some \<lparr>rl_size = 0, rl_nodes = []\<rparr> \<and> iv_signal st = Some \<lparr>sg_sem = 0, sg_max = 1\<rparr>"
proof -
  have start: "handles env iva_initial = Some (False, False)" "\<not> iv_run iva_initial" "iv_list iva_initial = None"
    "iv_signal iva_initial = None"
    by (simp_all add: handles_def iva_initial_def)
  from assms obtain p where p: "iva_global_of (ie_path_size env) cfg = Some p"
    unfolding rkipc_rockiva_init_def by (cases "iva_global_of (ie_path_size env) cfg") auto
  obtain r1 st1 where d1: "iva_do env (Rockiva_init p) iva_initial = (r1, st1)" by fastforce
  note f1 = iva_do_fields [OF d1] start
  show ?thesis
  proof (cases "r1 = ie_success env")
    case False
    with assms p d1 f1 show ?thesis by (simp add: rkipc_rockiva_init_def)
  next
    case True
    with assms p d1 obtain rule where rule: "iva_rule_of (ie_ratio env) cfg = Some rule"
      by (cases "iva_rule_of (ie_ratio env) cfg") (auto simp: rkipc_rockiva_init_def)
    obtain r2 st2 where d2: "iva_do env (Ba_init rule) st1 = (r2, st2)" by fastforce
    note f2 = iva_do_fields [OF d2]
    obtain r3 st3 where d3: "iva_do env Rockiva_release st2 = (r3, st3)" by fastforce
    note f3 = iva_do_fields [OF d3]
    show ?thesis
    proof (cases "r2 = ie_success env")
      case False
      with assms p d1 True rule d2 d3 have "r = -1" "st = st3" by (simp_all add: rkipc_rockiva_init_def)
      with f1 f2 f3 True False show ?thesis by simp
    next
      case ok: True
      define sg where "sg = rk_signal_create (fst (ie_signal env)) (snd (ie_signal env)) 0 1"
      obtain r4 st4 where d4: "iva_do env Ba_release (st2\<lparr>iv_signal := sg\<rparr>) = (r4, st4)" by fastforce
      note f4 = iva_do_fields [OF d4]
      obtain r5 st5 where d5: "iva_do env Rockiva_release st4 = (r5, st5)" by fastforce
      note f5 = iva_do_fields [OF d5]
      obtain r6 st6 where d6: "iva_do env Set_release_callback (st2\<lparr>iv_signal := sg\<rparr>) = (r6, st6)" by fastforce
      note f6 = iva_do_fields [OF d6]
      show ?thesis
      proof (cases "sg = None")
        case none: True
        with assms p d1 True rule d2 ok d4 d5 have "r = -1" "st = st5"
          by (simp_all add: rkipc_rockiva_init_def Let_def sg_def)
        with f1 f2 f4 f5 True ok none show ?thesis by simp
      next
        case False
        then have sg: "sg = Some \<lparr>sg_sem = 0, sg_max = 1\<rparr>" by (auto simp: sg_def rk_signal_create_def split: if_splits)
        with assms p d1 True rule d2 ok d6 f1 f2 f6
        have "r = ie_success env" "st = st6\<lparr>iv_list := Some \<lparr>rl_size = 0, rl_nodes = []\<rparr>, iv_run := True\<rparr>"
          by (simp_all add: rkipc_rockiva_init_def Let_def sg_def create_rknn_list_def split: if_splits)
        with f1 f2 f6 True ok sg show ?thesis by simp
      qed
    qed
  qed
qed

lemma deinit_handles:
  assumes "handles env st = Some (True, True)" "rkipc_rockiva_deinit env st = (r, st')"
  shows "handles env st' = Some (False, False)" "iv_list st' = None" "iv_signal st' = None" "\<not> iv_run st'"
proof -
  obtain r1 st1 where d1: "iva_do env Ba_release (st\<lparr>iv_run := False\<rparr>) = (r1, st1)" by fastforce
  obtain r2 st2 where d2: "iva_do env Rockiva_release st1 = (r2, st2)" by fastforce
  note f = iva_do_fields [OF d1] iva_do_fields [OF d2]
  from assms(2) d1 d2 have "st' = st2\<lparr>iv_list := snd (destory_rknn_list (iv_list st2)), iv_signal := None\<rparr>"
    by (simp add: rkipc_rockiva_deinit_def Let_def)
  with f assms(1) show "handles env st' = Some (False, False)" "iv_list st' = None" "iv_signal st' = None" "\<not> iv_run st'"
    by (auto simp: destory_rknn_list_def split: option.splits)
qed

section \<open>Initialisation with a checked configuration\<close>

text \<open>The check of the configuration says nothing of the region's position and size.\<close>

definition region_fits :: "param_state \<Rightarrow> bool" where
  "region_fits cfg \<longleftrightarrow>
     (\<forall>p s. rk_param_get_int cfg ''event.regional_invasion:position_x'' 0 = Some p \<longrightarrow>
            rk_param_get_int cfg ''event.regional_invasion:width'' 256 = Some s \<longrightarrow> OverlayCanvas.int_ok (p + s)) \<and>
     (\<forall>p s. rk_param_get_int cfg ''event.regional_invasion:position_y'' 0 = Some p \<longrightarrow>
            rk_param_get_int cfg ''event.regional_invasion:height'' 256 = Some s \<longrightarrow> OverlayCanvas.int_ok (p + s))"

lemma checked_int:
  assumes "cfg_number (g_ini_d cfg) key low high fb = Inr n" "fb = Null \<or> fb = Str (show_int dflt)" "0 \<le> dflt" "dflt \<le> 1000"
  shows "\<exists>n. rk_param_get_int cfg key dflt = Some n \<and> low \<le> n \<and> n \<le> high"
  using cfg_number_runtime [OF assms(1,2)] assms(3,4)
  by (auto simp: rk_param_get_int_def LONG_MIN_def LONG_MAX_def)

lemma percent_fits:
  assumes "1 \<le> n" "n \<le> 8192" "0 \<le> p" "p \<le> 100"
  shows "OverlayCanvas.int_ok (n sdiv 100 * p)"
proof -
  have "n sdiv 100 = n div 100" using assms(1) by (simp add: signed_divide_int_def)
  moreover have "0 \<le> n div 100" "n div 100 \<le> 81" using assms(1,2) by linarith+
  then have "0 \<le> n div 100 * p" "n div 100 * p \<le> 81 * 100"
    using assms(3,4) mult_mono [of "n div 100" 81 p 100] by simp_all
  ultimately show ?thesis by (simp add: OverlayCanvas.int_ok_def)
qed

lemma checked_rule_returns:
  assumes "cfg_npu (g_ini_d cfg) True = Inr ()" "cfg_readable cfg" "region_fits cfg"
  shows "iva_rule_of ratio cfg \<noteq> None"
proof -
  from assms(1) obtain n1 n2 n3 n4 where
    n: "cfg_number (g_ini_d cfg) ''osd.common:normalized_screen_width'' 1 8192 Null = Inr n1"
      "cfg_number (g_ini_d cfg) ''osd.common:normalized_screen_height'' 1 8192 Null = Inr n2"
      "cfg_number (g_ini_d cfg) ''event.regional_invasion:time_threshold'' 0 (2147483647 div 1000) (Str ''1'') = Inr n3"
      "cfg_number (g_ini_d cfg) ''event.regional_invasion:proportion'' 0 100 (Str ''5'') = Inr n4"
    by (auto simp: cfg_npu_def bindE_Inr)
  have show_fb: "''1'' = show_int 1" "''5'' = show_int 5" by code_simp+
  obtain ww wh t pr where checked:
    "rk_param_get_int cfg ''osd.common:normalized_screen_width'' 704 = Some ww" "1 \<le> ww" "ww \<le> 8192"
    "rk_param_get_int cfg ''osd.common:normalized_screen_height'' 480 = Some wh" "1 \<le> wh" "wh \<le> 8192"
    "rk_param_get_int cfg ''event.regional_invasion:time_threshold'' 1 = Some t" "0 \<le> t" "t \<le> 2147483"
    "rk_param_get_int cfg ''event.regional_invasion:proportion'' 5 = Some pr" "0 \<le> pr" "pr \<le> 100"
    using checked_int [OF n(1), of 704] checked_int [OF n(2), of 480] checked_int [OF n(3), of 1] checked_int [OF n(4), of 5]
    unfolding show_fb by auto
  have read: "\<exists>n. rk_param_get_int cfg key fb = Some n" if "CHR '':'' \<in> set key" for key fb
    using readable_int [OF assms(2) that] by blast
  obtain x y w h where region:
    "rk_param_get_int cfg ''event.regional_invasion:position_x'' 0 = Some x"
    "rk_param_get_int cfg ''event.regional_invasion:position_y'' 0 = Some y"
    "rk_param_get_int cfg ''event.regional_invasion:width'' 256 = Some w"
    "rk_param_get_int cfg ''event.regional_invasion:height'' 256 = Some h"
    using read [of "''event.regional_invasion:position_x''" 0] read [of "''event.regional_invasion:position_y''" 0]
      read [of "''event.regional_invasion:width''" 256] read [of "''event.regional_invasion:height''" 256] by auto
  obtain e sn where rest: "rk_param_get_int cfg ''event.regional_invasion:enabled'' 0 = Some e"
    "rk_param_get_int cfg ''event.regional_invasion:sensitivity_level'' 50 = Some sn"
    using read [of "''event.regional_invasion:enabled''" 0] read [of "''event.regional_invasion:sensitivity_level''" 50] by auto
  have "OverlayCanvas.int_ok (x + w)" "OverlayCanvas.int_ok (y + h)"
    using assms(3) region by (auto simp: region_fits_def)
  moreover have "OverlayCanvas.int_ok (t * 1000)" using checked(8,9) by (simp add: OverlayCanvas.int_ok_def)
  moreover note percent_fits [OF checked(2,3,11,12)] percent_fits [OF checked(5,6,11,12)]
  ultimately show ?thesis
    using region rest by (simp add: iva_rule_of_def checked(1,4,7,10) int_only_def)
qed

lemma global_returns:
  assumes "cfg_readable cfg"
  shows "iva_global_of n cfg \<noteq> None" "iva_rotation cfg \<noteq> None"
proof -
  show rot: "iva_rotation cfg \<noteq> None"
    unfolding iva_rotation_def by (intro reads assms) simp_all
  show "iva_global_of n cfg \<noteq> None"
    unfolding iva_global_of_def by (intro reads assms rot) simp_all
qed

lemma rockiva_init_returns:
  assumes "iva_global_of (ie_path_size env) cfg \<noteq> None" "iva_rule_of (ie_ratio env) cfg \<noteq> None" "ie_list env"
  shows "\<exists>r st. rkipc_rockiva_init env cfg iva_initial = Some (r, st) \<and>
     ((\<forall>log c. ie_result env log c = ie_success env) \<and> ie_signal env = (True, True) \<longrightarrow> r = ie_success env)"
  using assms
  by (auto simp: rkipc_rockiva_init_def iva_do_def Let_def create_rknn_list_def rk_signal_create_def split: option.splits)


definition example_iva :: iva_env where
  "example_iva = \<lparr>ie_result = \<lambda>_ _. 0, ie_success = 0, ie_path_size = 256, ie_ratio = \<lambda>_ p. p, ie_signal = (True, True),
     ie_list = True\<rparr>"

text \<open>A configuration with only the values the detection part requires.\<close>

definition npu_config :: "(string \<times> string option) list" where
  "npu_config =
    [(''osd.common:normalized_screen_width'', Some ''704''), (''osd.common:normalized_screen_height'', Some ''480''),
     (''video.1:width'', Some ''640''), (''video.1:height'', Some ''360''),
     (''video.2:width'', Some ''640''), (''video.2:height'', Some ''360''), (''rockiva:model_path'', Some ''/usr/lib/'')]"

lemma npu_lookup:
  "cfg_lookup npu_config ''video.source:npu_fps'' (Str ''10'') = Str ''10''"
  "cfg_lookup npu_config ''video.1:width'' Null = Str ''640''"
  "cfg_lookup npu_config ''video.2:width'' Null = Str ''640''"
  "cfg_lookup npu_config ''video.1:height'' Null = Str ''360''"
  "cfg_lookup npu_config ''video.2:height'' Null = Str ''360''"
  "cfg_lookup npu_config ''osd.common:normalized_screen_width'' Null = Str ''704''"
  "cfg_lookup npu_config ''osd.common:normalized_screen_height'' Null = Str ''480''"
  "cfg_lookup npu_config ''event.regional_invasion:rockiva_model_type'' (Str ''small'') = Str ''small''"
  "cfg_lookup npu_config ''event.regional_invasion:enabled'' (Str ''0'') = Str ''0''"
  "cfg_lookup npu_config ''event.regional_invasion:sensitivity_level'' (Str ''50'') = Str ''50''"
  "cfg_lookup npu_config ''event.regional_invasion:time_threshold'' (Str ''1'') = Str ''1''"
  "cfg_lookup npu_config ''event.regional_invasion:proportion'' (Str ''5'') = Str ''5''"
  "cfg_lookup npu_config ''rockiva:model_path'' Null = Str ''/usr/lib/''"
  "cfg_lookup npu_config ''event.regional_invasion:position_x'' Invalid_key = Invalid_key"
  "cfg_lookup npu_config ''event.regional_invasion:position_y'' Invalid_key = Invalid_key"
  "cfg_lookup npu_config ''event.regional_invasion:width'' Invalid_key = Invalid_key"
  "cfg_lookup npu_config ''event.regional_invasion:height'' Invalid_key = Invalid_key"
  by code_simp+

lemma npu_integer:
  "cfg_integer ''10'' ''video.source:npu_fps'' 1 120 = Inr 10"
  "cfg_integer ''640'' ''video.1:width'' 2 8192 = Inr 640" "cfg_integer ''640'' ''video.2:width'' 640 640 = Inr 640"
  "cfg_integer ''360'' ''video.1:height'' 2 8192 = Inr 360" "cfg_integer ''360'' ''video.2:height'' 360 360 = Inr 360"
  "cfg_integer ''704'' ''osd.common:normalized_screen_width'' 1 8192 = Inr 704"
  "cfg_integer ''480'' ''osd.common:normalized_screen_height'' 1 8192 = Inr 480"
  "cfg_integer ''0'' ''event.regional_invasion:enabled'' 0 1 = Inr 0"
  "cfg_integer ''50'' ''event.regional_invasion:sensitivity_level'' 1 100 = Inr 50"
  "cfg_integer ''1'' ''event.regional_invasion:time_threshold'' 0 2147483 = Inr 1"
  "cfg_integer ''5'' ''event.regional_invasion:proportion'' 0 100 = Inr 5"
  by (simp_all add: eval_integer)

lemma npu_config_checked:
  assumes "dict_map d = map_of npu_config"
  shows "cfg_npu (Some d) True = Inr ()"
  by (simp add: cfg_npu_def cfg_number_def cfg_same_axis_def cfg_choice_def cfg_text_def getstring_entries [OF assms]
      npu_lookup npu_integer)


section \<open>The threads\<close>

definition running_inv :: "iva_env \<Rightarrow> iva_sys \<Rightarrow> bool" where
  "running_inv env s \<longleftrightarrow> handles env (sy_iva s) = Some (True, True) \<and> iv_run (sy_iva s)"

lemma push_image_running:
  assumes "push_image env ok im st = Some (p, st')" "handles env st = Some (True, True)" "iv_run st"
  shows "handles env st' = Some (True, True) \<and> iv_run st'"
  using assms iva_do_fields [of env "Push_frame frame" st for frame]
  by (auto simp: push_image_def split: if_splits option.splits prod.splits)

lemma running_inv_step:
  assumes "iva_step env cfg s s'" "running_inv env s"
  shows "running_inv env s'"
  using assms(1)
proof cases
  case (submit ok w h frame_id fd)
  from write_submitted [OF submit(2)] obtain im p st where st: "push_image env ok im (sy_iva s) = Some (p, st)"
    "s' = s\<lparr>sy_iva := st, sy_wr := W_waiting, sy_pushed := sy_pushed s + 1\<rparr> \<or> s' = s\<lparr>sy_iva := st\<rparr>" by blast
  with push_image_running [OF st(1)] assms(2) show ?thesis by (auto simp: running_inv_def)
next
  case await
  with assms(2) show ?thesis
    by (auto simp: running_inv_def write_wait_def rkipc_wait_frame_release_def split: prod.splits)
qed (use assms(2) in \<open>auto simp: running_inv_def list_defs frame_released_def rockiva_frame_release_callback_def
      split: if_splits option.splits prod.splits\<close>)

lemma reach_inv:
  assumes "iva_reach env cfg s"
  shows "list_inv s \<and> frame_inv s \<and> running_inv env s"
  using assms
proof induction
  case (start r st)
  with rockiva_init_outcome [OF start(1)] show ?case
    by (auto simp: list_inv_def frame_inv_def running_inv_def iva_start_def waiting_limit_def)
next
  case (step s s')
  then show ?case by (blast intro: list_inv_step frame_inv_step running_inv_step)
qed

text \<open>C23. Whatever the order of the steps of the callbacks, the overlay thread and the submitting thread: the stack
  of results is as long as its counter says and holds at most ten results, nine when no callback is running; they are reported
  results, the newest on top; and no result is handed out twice or invented.\<close>

theorem iva_results_bounded:
  assumes "iva_reach env cfg s"
  shows "\<exists>l. iv_list (sy_iva s) = Some l \<and> rl_size l = int (length (rl_nodes l)) \<and> length (rl_nodes l) \<le> 10 \<and>
     (sy_cb s = Cb_idle \<longrightarrow> length (rl_nodes l) \<le> 9) \<and> subseq (rev (rl_nodes l)) (sy_reports s) \<and>
     mset (rl_nodes l) + mset (delivered (sy_gets s)) \<subseteq># mset (sy_reports s)"
proof -
  from reach_inv [OF assms] obtain l where l: "iv_list (sy_iva s) = Some l" "rl_size l = int (length (rl_nodes l))"
    "length (rl_nodes l) \<le> waiting_limit (sy_cb s)" "subseq (rev (rl_nodes l)) (sy_reports s)"
    "mset (rl_nodes l) + mset (delivered (sy_gets s)) \<subseteq># mset (sy_reports s)"
    by (auto simp: list_inv_def)
  have "waiting_limit pc \<le> 10" for pc by (cases pc) (simp_all add: waiting_limit_def)
  then have "length (rl_nodes l) \<le> 10" using l(3) le_trans by blast
  moreover have "sy_cb s = Cb_idle \<longrightarrow> length (rl_nodes l) \<le> 9" using l(3) by (auto simp: waiting_limit_def)
  ultimately show ?thesis using l by (intro exI [of _ l] conjI)
qed

text \<open>C9. While the library runs, a frame is pending exactly when the submitting thread waits: it is back only when the
  library has released every frame it took, a release that came is never missed, and stopping then leaves no
  handle, list or signal.\<close>

theorem iva_frames_retained:
  assumes "iva_reach env cfg s"
  shows "(sy_wr s = W_idle \<longrightarrow> sy_released s = sy_pushed s) \<and>
     (sy_wr s = W_waiting \<longrightarrow> sy_pushed s \<le> sy_released s + 1 \<and>
        (sy_released s = sy_pushed s \<longleftrightarrow> sy_wr (write_wait s) = W_idle)) \<and>
     (case rkipc_rockiva_deinit env (sy_iva s) of (r, st) \<Rightarrow>
        handles env st = Some (False, False) \<and> iv_list st = None \<and> iv_signal st = None)"
proof -
  from reach_inv [OF assms] obtain sem where sem: "iv_signal (sy_iva s) = Some \<lparr>sg_sem = sem, sg_max = 1\<rparr>"
    "frames_ok (sy_wr s) sem (sy_pushed s) (sy_released s)" and run: "handles env (sy_iva s) = Some (True, True)"
    by (auto simp: frame_inv_def running_inv_def)
  have "sy_wr s = W_idle \<longrightarrow> sy_released s = sy_pushed s"
    and "sy_wr s = W_waiting \<longrightarrow> sy_pushed s \<le> sy_released s + 1"
    using sem(2) by auto
  moreover have "sy_wr s = W_waiting \<longrightarrow> sy_released s = sy_pushed s \<longleftrightarrow> sy_wr (write_wait s) = W_idle"
    using sem by (auto simp: write_wait_def rkipc_wait_frame_release_def rk_signal_wait_def)
  ultimately show ?thesis using deinit_handles [OF run] by (auto split: prod.splits)
qed

text \<open>A system with a working library: one result is reported and one frame submitted.\<close>

lemma example_iva_starts: "\<exists>st. rkipc_rockiva_init example_iva no_config iva_initial = Some (0, st)"
  by (simp add: rkipc_rockiva_init_def iva_global_of_def iva_rule_of_def iva_rotation_def no_config_values int_only_def
      OverlayCanvas.int_ok_def iva_do_def example_iva_def rk_signal_create_def create_rknn_list_def iva_initial_def
      signed_divide_int_def)

definition example_result :: iva_result where
  "example_result = [\<lparr>de_left = 0, de_top = 0, de_right = 5000, de_bottom = 5000, de_person = True\<rparr>]"

lemma example_iva_reach:
  "\<exists>s. iva_reach example_iva no_config s \<and> sy_reports s = [(7, example_result)] \<and> sy_cb s = Cb_idle \<and> sy_gets s = [] \<and>
     sy_wr s = W_waiting \<and> sy_pushed s = 1 \<and> sy_released s = 1"
proof -
  obtain st where st: "rkipc_rockiva_init example_iva no_config iva_initial = Some (0, st)" using example_iva_starts by blast
  from rockiva_init_outcome [OF this] have lib: "iv_run st" "iv_list st = Some \<lparr>rl_size = 0, rl_nodes = []\<rparr>" by auto
  have s0: "iva_reach example_iva no_config (iva_start st)" by (rule iva_reach.start [OF st]) simp
  obtain s1 where s1: "callback_push 7 example_result (iva_start st) = Some s1" "sy_cb s1 = Cb_pushed"
    "sy_reports s1 = [(7, example_result)]" "sy_gets s1 = []" "sy_wr s1 = W_idle" "sy_pushed s1 = 0" "sy_released s1 = 0"
    "iv_run (sy_iva s1)" "iv_list (sy_iva s1) = Some \<lparr>rl_size = 1, rl_nodes = [(7, example_result)]\<rparr>"
    using lib by (auto simp: callback_push_def rknn_list_push_def iva_start_def example_result_def)
  have r1: "iva_reach example_iva no_config s1"
    by (rule iva_reach.step [OF s0 iva_step.report [OF _ s1(1)]]) (simp add: iva_start_def)
  note r2 = iva_reach.step [OF r1 iva_step.report_size [OF s1(2)]]
  define s3 where "s3 = callback_drop 1 (callback_size s1)"
  have "sy_cb (callback_size s1) = Cb_sized 1" using s1 by (simp add: callback_size_def rknn_list_size_def)
  from iva_reach.step [OF r2 iva_step.report_drop [OF this]] have r3: "iva_reach example_iva no_config s3" by (simp add: s3_def)
  have s3: "sy_cb s3 = Cb_idle" "sy_reports s3 = [(7, example_result)]" "sy_gets s3 = []" "sy_wr s3 = W_idle" "sy_pushed s3 = 0"
    "sy_released s3 = 0" "iv_run (sy_iva s3)"
    using s1 by (simp_all add: s3_def callback_drop_def callback_size_def)
  obtain s4 where s4: "write_submit example_iva no_config True 640 360 0 5 s3 = Some s4" "sy_wr s4 = W_waiting"
    "sy_pushed s4 = 1" "sy_released s4 = 0" "sy_cb s4 = Cb_idle" "sy_reports s4 = [(7, example_result)]" "sy_gets s4 = []"
    using s3 by (auto simp: write_submit_def rkipc_rockiva_write_nv12_frame_by_fd_def push_image_def iva_rotation_def
        no_config_values iva_do_def Let_def example_iva_def)
  note r4 = iva_reach.step [OF r3 iva_step.submit [OF s3(4) s4(1)]]
  have "iva_reach example_iva no_config (frame_released s4)"
    by (rule iva_reach.step [OF r4 iva_step.released]) (simp add: s4)
  then show ?thesis
    by (intro exI [of _ "frame_released s4"]) (simp add: s4 frame_released_def)
qed

theorem iva_results_bounded_witness:
  "\<exists>s l. iva_reach example_iva no_config s \<and> sy_reports s = [(7, example_result)] \<and> iv_list (sy_iva s) = Some l \<and>
     length (rl_nodes l) \<le> 9 \<and> mset (rl_nodes l) \<subseteq># {#(7, example_result)#}"
proof -
  obtain s where s: "iva_reach example_iva no_config s" "sy_reports s = [(7, example_result)]" "sy_cb s = Cb_idle" "sy_gets s = []"
    using example_iva_reach by blast
  from iva_results_bounded [OF s(1)] s show ?thesis by auto
qed

theorem iva_frames_retained_witness:
  "\<exists>s. iva_reach example_iva no_config s \<and> sy_pushed s = 1 \<and> sy_wr s = W_waiting \<and> sy_wr (write_wait s) = W_idle"
proof -
  obtain s where s: "iva_reach example_iva no_config s" "sy_wr s = W_waiting" "sy_pushed s = 1" "sy_released s = 1"
    using example_iva_reach by blast
  from iva_frames_retained [OF s(1)] s show ?thesis by auto
qed

end
