(* ===== verification/ShippedConfig.thy ===== *)
theory ShippedConfig
  imports RockIvaProperties IspSafety
begin

text \<open>
  The configuration file the repository ships, \<^verbatim>\<open>src/rv1106_sc3336.ini\<close>, line by line, loaded by the model of the
  parser and checked by the model of the start-up check. It shows that the hypotheses the properties of the
  components have on a configuration hold for the one the program is delivered with.
\<close>

section \<open>The file\<close>

definition shipped_lines_1 :: "string list" where
  "shipped_lines_1 =
    [''; RV1106 + SC3336, based on the official 300W RKIPC profile.'',
     ''; Change every 192.168.0.101 below to the wired-LAN address of the PC running MediaMTX.'',
     [],
     ''[log]'',
     ''level = 2 ; error=0, warn=1, info=2, debug=3'',
     [],
     ''[stream]'',
     ''enable_rtsp = 1'',
     ''enable_rtmp = 1'',
     ''rtsp_transport = tcp'',
     ''io_timeout_ms = 5000'',
     ''rtsp_main_url = rtsp://192.168.0.101:8554/main_rtsp'',
     ''rtmp_main_url = rtmp://192.168.0.101:1935/main_rtmp'',
     ''rtsp_ai_url = rtsp://192.168.0.101:8554/ai_rtsp'',
     ''rtmp_ai_url = rtmp://192.168.0.101:1935/ai_rtmp'',
     [],
     ''; '' @ [CHR 0xE4, CHR 0xBB, CHR 0x85, CHR 0xE7, CHR 0xAE, CHR 0xA1, CHR 0xE7, CHR 0x90, CHR 0x86, CHR 0xE5, CHR 0x90, CHR 0x8C, CHR 0xE7, CHR 0xBD, CHR 0x91, CHR 0xE6, CHR 0xAE, CHR 0xB5] @ '' MediaMTX IPv4 '' @ [CHR 0xE7, CHR 0x9A, CHR 0x84, CHR 0xE4, CHR 0xB8, CHR 0xB4, CHR 0xE6, CHR 0x97, CHR 0xB6] @ '' /32 '' @ [CHR 0xE8, CHR 0xB7, CHR 0xAF, CHR 0xE7, CHR 0x94, CHR 0xB1, CHR 0xEF, CHR 0xBC, CHR 0x9B] @ ''0 '' @ [CHR 0xE8, CHR 0xA1, CHR 0xA8, CHR 0xE7, CHR 0xA4, CHR 0xBA, CHR 0xE6, CHR 0xB2, CHR 0xBF, CHR 0xE7, CHR 0x94, CHR 0xA8, CHR 0xE7, CHR 0xB3, CHR 0xBB, CHR 0xE7, CHR 0xBB, CHR 0x9F, CHR 0xE8, CHR 0xB7, CHR 0xAF, CHR 0xE7, CHR 0x94, CHR 0xB1, CHR 0xE3, CHR 0x80, CHR 0x82],
     ''[network]'',
     ''enable_failover = 1'',
     [],
     ''[osd]'',
     ''enable_fps = 1'',
     []]"

definition shipped_lines_2 :: "string list" where
  "shipped_lines_2 =
    [''[audio.0]'',
     ''enable = 1'',
     ''card_name = hw:0,0'',
     ''encode_type = G711A'',
     ''format = S16'',
     ''sample_rate = 8000'',
     ''channels = 1'',
     ''frame_size = 1152'',
     ''bit_rate = 64000'',
     ''input = mic_in'',
     ''volume = 50'',
     ''enable_aed = 0'',
     ''enable_bcd = 0'',
     ''enable_vqe = 1'',
     ''vqe_cfg = /oem/usr/share/vqefiles/config_aivqe.json'',
     [],
     ''[video.source]'',
     ''enable_aiq = 1'',
     ''enable_vo = 0'',
     ''enable_npu = 1'',
     ''npu_fps = 10'',
     []]"

definition shipped_lines_3 :: "string list" where
  "shipped_lines_3 =
    [''[video.0]'',
     ''stream_type = mainStream'',
     ''max_width = 1920'',
     ''max_height = 1080'',
     ''width = 1920'',
     ''height = 1080'',
     ''input_buffer_count = 2'',
     ''buffer_count = 4'',
     ''buffer_size = 1048576'',
     ''enable_refer_buffer_share = 1'',
     ''rc_mode = CBR'',
     ''rc_quality = high'',
     ''src_frame_rate_den = 1'',
     ''src_frame_rate_num = 25'',
     ''dst_frame_rate_den = 1'',
     ''dst_frame_rate_num = 25'',
     ''mid_rate = 2048'',
     ''max_rate = 4096'',
     ''min_rate = 0'',
     ''output_data_type = H.264 ; H.264 or H.265; H.265 requires enable_rtmp=0 with FFmpeg 4.x'',
     ''h264_profile = high'',
     ''gop = 50'',
     ''gop_mode = normalP'',
     []]"

definition shipped_lines_4 :: "string list" where
  "shipped_lines_4 =
    [''[video.1]'',
     ''stream_type = subStream'',
     ''max_width = 704'',
     ''max_height = 576'',
     ''width = 704'',
     ''height = 576'',
     ''input_buffer_count = 3'',
     ''buffer_count = 4'',
     ''buffer_size = 202752'',
     ''enable_refer_buffer_share = 1'',
     ''rc_mode = CBR'',
     ''rc_quality = high'',
     ''src_frame_rate_den = 1'',
     ''src_frame_rate_num = 25'',
     ''dst_frame_rate_den = 1'',
     ''dst_frame_rate_num = 25'',
     ''mid_rate = 256'',
     ''max_rate = 512'',
     ''min_rate = 0'',
     ''output_data_type = H.264'',
     ''h264_profile = high'',
     ''gop = 50'',
     ''gop_mode = normalP'',
     [],
     ''; The reused official RockIVA wrapper reads its input geometry from video.2.'',
     ''; No third VI channel is created: these values mirror VI channel 1 only.'']"

definition shipped_lines_5 :: "string list" where
  "shipped_lines_5 =
    [''[video.2]'',
     ''width = 704'',
     ''height = 576'',
     [],
     ''[rockiva]'',
     ''model_path = /usr/lib/'',
     [],
     ''[event.regional_invasion]'',
     ''enabled = 1'',
     ''position_x = 0'',
     ''position_y = 0'',
     ''width = 704'',
     ''height = 576'',
     ''proportion = 1'',
     ''sensitivity_level = 90'',
     ''time_threshold = 1'',
     ''rockiva_model_type = small'',
     [],
     ''[osd.common]'',
     ''normalized_screen_width = 704'',
     ''normalized_screen_height = 576'',
     []]"

definition shipped_lines_6 :: "string list" where
  "shipped_lines_6 =
    [''[isp]'',
     ''scenario = normal'',
     ''init_form_ini = 1'',
     ''normal_scene = day'',
     ''custom1_scene = night'',
     ''ircut_open_gpio = 36'',
     ''ircut_close_gpio = 35'',
     [],
     ''[isp.0.adjustment]'',
     ''contrast = 50'',
     ''brightness = 50'',
     ''saturation = 50'',
     ''sharpness = 50'',
     ''fps = 25'',
     ''hue = 50'',
     [],
     ''[isp.0.exposure]'',
     ''iris_type = auto'',
     ''exposure_mode = auto'',
     ''gain_mode = auto'',
     ''auto_iris_level = 5'',
     ''auto_exposure_enabled = 1'',
     ''audo_gain_enabled = 1'',
     ''exposure_time = 1/6'',
     ''exposure_gain = 1'',
     []]"

definition shipped_lines_7 :: "string list" where
  "shipped_lines_7 =
    [''[isp.0.night_to_day]'',
     ''night_to_day = day'',
     ''night_to_day_filter_level = 5'',
     ''night_to_day_filter_time = 5'',
     ''dawn_time = 07:00:00'',
     ''dusk_time = 18:00:00'',
     ''ircut_filter_action = day'',
     ''over_exposure_suppress = open'',
     ''over_exposure_suppress_type = auto'',
     ''fill_light_mode = IR'',
     ''brightness_adjustment_mode = auto'',
     ''light_brightness = 1'',
     ''distance_level = 1'',
     [],
     ''[isp.0.blc]'',
     ''blc_region = close'',
     ''blc_strength = 1'',
     ''wdr = close'',
     ''wdr_level = 0'',
     ''hdr = close'',
     ''hdr_level = 1'',
     ''hlc = close'',
     ''hlc_level = 0'',
     ''dark_boost_level = 0'',
     ''position_x = 0'',
     ''position_y = 0'',
     ''blc_region_width = 120'',
     ''blc_region_high = 92'',
     []]"

definition shipped_lines_8 :: "string list" where
  "shipped_lines_8 =
    [''[isp.0.white_blance]'',
     ''white_blance_style = autoWhiteBalance'',
     ''white_blance_red = 50'',
     ''white_blance_green = 50'',
     ''white_blance_blue = 50'',
     [],
     ''[isp.0.enhancement]'',
     ''noise_reduce_mode = close'',
     ''denoise_level = 50'',
     ''spatial_denoise_level = 50'',
     ''temporal_denoise_level = 50'',
     ''dehaze = close'',
     ''dehaze_level = 0'',
     ''dis = close'',
     ''gray_scale_mode = [0-255]'',
     ''distortion_correction = close'',
     ''ldch_level = 0'',
     [],
     ''[isp.0.video_adjustment]'',
     ''image_flip = close'',
     ''scene_mode = indoor'',
     ''power_line_frequency_mode = PAL(50HZ)'']"

definition shipped_ini :: "string list" where
  "shipped_ini =
     shipped_lines_1 @ shipped_lines_2 @ shipped_lines_3 @ shipped_lines_4 @ shipped_lines_5 @ shipped_lines_6 @
     shipped_lines_7 @ shipped_lines_8"

section \<open>Its sections\<close>

text \<open>The assignments section by section.\<close>

type_synonym ini_sections = "(string \<times> (string \<times> string) list) list"

definition shipped_sections_1 :: ini_sections where
  "shipped_sections_1 =
    [(''log'',
      [(''level'', ''2'')]),
     (''stream'',
      [(''enable_rtsp'', ''1''), (''enable_rtmp'', ''1''), (''rtsp_transport'', ''tcp''),
       (''io_timeout_ms'', ''5000''), (''rtsp_main_url'', ''rtsp://192.168.0.101:8554/main_rtsp''),
       (''rtmp_main_url'', ''rtmp://192.168.0.101:1935/main_rtmp''),
       (''rtsp_ai_url'', ''rtsp://192.168.0.101:8554/ai_rtsp''),
       (''rtmp_ai_url'', ''rtmp://192.168.0.101:1935/ai_rtmp'')]),
     (''network'',
      [(''enable_failover'', ''1'')]),
     (''osd'',
      [(''enable_fps'', ''1'')])]"

definition shipped_sections_2 :: ini_sections where
  "shipped_sections_2 =
    [(''audio.0'',
      [(''enable'', ''1''), (''card_name'', ''hw:0,0''), (''encode_type'', ''G711A''), (''format'', ''S16''),
       (''sample_rate'', ''8000''), (''channels'', ''1''), (''frame_size'', ''1152''), (''bit_rate'', ''64000''),
       (''input'', ''mic_in''), (''volume'', ''50''), (''enable_aed'', ''0''), (''enable_bcd'', ''0''),
       (''enable_vqe'', ''1''), (''vqe_cfg'', ''/oem/usr/share/vqefiles/config_aivqe.json'')]),
     (''video.source'',
      [(''enable_aiq'', ''1''), (''enable_vo'', ''0''), (''enable_npu'', ''1''), (''npu_fps'', ''10'')])]"

definition shipped_sections_3 :: ini_sections where
  "shipped_sections_3 =
    [(''video.0'',
      [(''stream_type'', ''mainStream''), (''max_width'', ''1920''), (''max_height'', ''1080''),
       (''width'', ''1920''), (''height'', ''1080''), (''input_buffer_count'', ''2''), (''buffer_count'', ''4''),
       (''buffer_size'', ''1048576''), (''enable_refer_buffer_share'', ''1''), (''rc_mode'', ''CBR''),
       (''rc_quality'', ''high''), (''src_frame_rate_den'', ''1''), (''src_frame_rate_num'', ''25''),
       (''dst_frame_rate_den'', ''1''), (''dst_frame_rate_num'', ''25''), (''mid_rate'', ''2048''),
       (''max_rate'', ''4096''), (''min_rate'', ''0''), (''output_data_type'', ''H.264''),
       (''h264_profile'', ''high''), (''gop'', ''50''), (''gop_mode'', ''normalP'')])]"

definition shipped_sections_4 :: ini_sections where
  "shipped_sections_4 =
    [(''video.1'',
      [(''stream_type'', ''subStream''), (''max_width'', ''704''), (''max_height'', ''576''), (''width'', ''704''),
       (''height'', ''576''), (''input_buffer_count'', ''3''), (''buffer_count'', ''4''),
       (''buffer_size'', ''202752''), (''enable_refer_buffer_share'', ''1''), (''rc_mode'', ''CBR''),
       (''rc_quality'', ''high''), (''src_frame_rate_den'', ''1''), (''src_frame_rate_num'', ''25''),
       (''dst_frame_rate_den'', ''1''), (''dst_frame_rate_num'', ''25''), (''mid_rate'', ''256''),
       (''max_rate'', ''512''), (''min_rate'', ''0''), (''output_data_type'', ''H.264''),
       (''h264_profile'', ''high''), (''gop'', ''50''), (''gop_mode'', ''normalP'')])]"

definition shipped_sections_5 :: ini_sections where
  "shipped_sections_5 =
    [(''video.2'',
      [(''width'', ''704''), (''height'', ''576'')]),
     (''rockiva'',
      [(''model_path'', ''/usr/lib/'')]),
     (''event.regional_invasion'',
      [(''enabled'', ''1''), (''position_x'', ''0''), (''position_y'', ''0''), (''width'', ''704''),
       (''height'', ''576''), (''proportion'', ''1''), (''sensitivity_level'', ''90''), (''time_threshold'', ''1''),
       (''rockiva_model_type'', ''small'')]),
     (''osd.common'',
      [(''normalized_screen_width'', ''704''), (''normalized_screen_height'', ''576'')])]"

definition shipped_sections_6 :: ini_sections where
  "shipped_sections_6 =
    [(''isp'',
      [(''scenario'', ''normal''), (''init_form_ini'', ''1''), (''normal_scene'', ''day''),
       (''custom1_scene'', ''night''), (''ircut_open_gpio'', ''36''), (''ircut_close_gpio'', ''35'')]),
     (''isp.0.adjustment'',
      [(''contrast'', ''50''), (''brightness'', ''50''), (''saturation'', ''50''), (''sharpness'', ''50''),
       (''fps'', ''25''), (''hue'', ''50'')]),
     (''isp.0.exposure'',
      [(''iris_type'', ''auto''), (''exposure_mode'', ''auto''), (''gain_mode'', ''auto''),
       (''auto_iris_level'', ''5''), (''auto_exposure_enabled'', ''1''), (''audo_gain_enabled'', ''1''),
       (''exposure_time'', ''1/6''), (''exposure_gain'', ''1'')])]"

definition shipped_sections_7 :: ini_sections where
  "shipped_sections_7 =
    [(''isp.0.night_to_day'',
      [(''night_to_day'', ''day''), (''night_to_day_filter_level'', ''5''), (''night_to_day_filter_time'', ''5''),
       (''dawn_time'', ''07:00:00''), (''dusk_time'', ''18:00:00''), (''ircut_filter_action'', ''day''),
       (''over_exposure_suppress'', ''open''), (''over_exposure_suppress_type'', ''auto''),
       (''fill_light_mode'', ''IR''), (''brightness_adjustment_mode'', ''auto''), (''light_brightness'', ''1''),
       (''distance_level'', ''1'')]),
     (''isp.0.blc'',
      [(''blc_region'', ''close''), (''blc_strength'', ''1''), (''wdr'', ''close''), (''wdr_level'', ''0''),
       (''hdr'', ''close''), (''hdr_level'', ''1''), (''hlc'', ''close''), (''hlc_level'', ''0''),
       (''dark_boost_level'', ''0''), (''position_x'', ''0''), (''position_y'', ''0''),
       (''blc_region_width'', ''120''), (''blc_region_high'', ''92'')])]"

definition shipped_sections_8 :: ini_sections where
  "shipped_sections_8 =
    [(''isp.0.white_blance'',
      [(''white_blance_style'', ''autoWhiteBalance''), (''white_blance_red'', ''50''),
       (''white_blance_green'', ''50''), (''white_blance_blue'', ''50'')]),
     (''isp.0.enhancement'',
      [(''noise_reduce_mode'', ''close''), (''denoise_level'', ''50''), (''spatial_denoise_level'', ''50''),
       (''temporal_denoise_level'', ''50''), (''dehaze'', ''close''), (''dehaze_level'', ''0''),
       (''dis'', ''close''), (''gray_scale_mode'', ''[0-255]''), (''distortion_correction'', ''close''),
       (''ldch_level'', ''0'')]),
     (''isp.0.video_adjustment'',
      [(''image_flip'', ''close''), (''scene_mode'', ''indoor''), (''power_line_frequency_mode'', ''PAL(50HZ)'')])]"

definition shipped_sections :: ini_sections where
  "shipped_sections =
     shipped_sections_1 @ shipped_sections_2 @ shipped_sections_3 @ shipped_sections_4 @ shipped_sections_5 @
     shipped_sections_6 @ shipped_sections_7 @ shipped_sections_8"

definition flatten :: "ini_sections \<Rightarrow> (string \<times> string option) list" where
  "flatten secs = concat (map (\<lambda>(s, es). (s, None) # map (\<lambda>(k, v). (s @ '':'' @ k, Some v)) es) secs)"

lemma flatten_simps:
  "flatten [] = []"
  "flatten ((s, es) # secs) = (s, None) # map (\<lambda>(k, v). (s @ '':'' @ k, Some v)) es @ flatten secs"
  "flatten (secs @ secs') = flatten secs @ flatten secs'"
  by (simp_all add: flatten_def)

section \<open>Loading\<close>

text \<open>Parts that begin with a section header can be read one after the other.\<close>

lemma ini_denote_append:
  "ini_denote sec xs = Some a \<Longrightarrow> (\<And>sec. ini_denote sec ys = Some b) \<Longrightarrow> ini_denote sec (xs @ ys) = Some (a @ b)"
  by (induction sec xs arbitrary: a rule: ini_denote.induct) (auto split: line_status.splits)

lemma denotes_1: "ini_denote [] shipped_lines_1 = Some (flatten shipped_sections_1)"
  by code_simp

lemma denotes_2: "ini_denote sec shipped_lines_2 = Some (flatten shipped_sections_2)"
  by code_simp

lemma denotes_3: "ini_denote sec shipped_lines_3 = Some (flatten shipped_sections_3)"
  by code_simp

lemma denotes_4: "ini_denote sec shipped_lines_4 = Some (flatten shipped_sections_4)"
  by code_simp

lemma denotes_5: "ini_denote sec shipped_lines_5 = Some (flatten shipped_sections_5)"
  by code_simp

lemma denotes_6: "ini_denote sec shipped_lines_6 = Some (flatten shipped_sections_6)"
  by code_simp

lemma denotes_7: "ini_denote sec shipped_lines_7 = Some (flatten shipped_sections_7)"
  by code_simp

lemma denotes_8: "ini_denote sec shipped_lines_8 = Some (flatten shipped_sections_8)"
  by code_simp

lemma shipped_denotes: "ini_denote [] shipped_ini = Some (flatten shipped_sections)"
  unfolding shipped_ini_def shipped_sections_def flatten_simps
  by (intro ini_denote_append denotes_1 denotes_2 denotes_3 denotes_4 denotes_5 denotes_6 denotes_7 denotes_8)

lemma lines_ok:
  "list_all ini_line_ok shipped_lines_1"
  "list_all ini_line_ok shipped_lines_2"
  "list_all ini_line_ok shipped_lines_3"
  "list_all ini_line_ok shipped_lines_4"
  "list_all ini_line_ok shipped_lines_5"
  "list_all ini_line_ok shipped_lines_6"
  "list_all ini_line_ok shipped_lines_7"
  "list_all ini_line_ok shipped_lines_8"
  by code_simp+

lemma shipped_line_ok: "\<forall>l \<in> set shipped_ini. ini_line_ok l"
  using lines_ok by (simp add: shipped_ini_def list_all_iff ball_Un)

section \<open>Reading\<close>

text \<open>Reading a key of the form section, colon, name: first the section, then the name.\<close>

definition section_lookup :: "ini_sections \<Rightarrow> string \<Rightarrow> cptr \<Rightarrow> cptr" where
  "section_lookup secs key fb =
     (let low = map c_tolower key
      in case map_of secs (takeWhile (\<lambda>c. c \<noteq> CHR '':'') low) of
           None \<Rightarrow> fb
         | Some es \<Rightarrow>
             (case map_of es (tl (dropWhile (\<lambda>c. c \<noteq> CHR '':'') low)) of None \<Rightarrow> fb | Some v \<Rightarrow> Str v))"

definition sections_ok :: "ini_sections \<Rightarrow> bool" where
  "sections_ok secs \<longleftrightarrow>
     distinct (map fst secs) \<and> (\<forall>(s, es) \<in> set secs. CHR '':'' \<notin> set s \<and> distinct (map fst es))"

lemma colon_split:
  "CHR '':'' \<notin> set s \<Longrightarrow> CHR '':'' \<notin> set t \<Longrightarrow> s @ CHR '':'' # k = t @ CHR '':'' # l \<longleftrightarrow> s = t \<and> k = l"
proof (induction s arbitrary: t)
  case Nil
  then show ?case by (cases t) auto
next
  case (Cons c s)
  then show ?case by (cases t) auto
qed

lemma map_of_entries:
  assumes "CHR '':'' \<notin> set s" "CHR '':'' \<notin> set t"
  shows "map_of (map (\<lambda>(k, v). (t @ CHR '':'' # k, Some v)) es) (s @ CHR '':'' # k) =
     (if s = t then map_option Some (map_of es k) else None)"
  using assms by (induction es) (auto simp: colon_split)

lemma map_of_flatten:
  assumes "sections_ok secs" "CHR '':'' \<notin> set s"
  shows "map_of (flatten secs) (s @ CHR '':'' # k) =
     (case map_of secs s of None \<Rightarrow> None | Some es \<Rightarrow> map_option Some (map_of es k))"
  using assms(1)
proof (induction secs)
  case Nil
  then show ?case by (simp add: flatten_simps)
next
  case (Cons p secs)
  obtain t es where p: "p = (t, es)" by fastforce
  have t: "CHR '':'' \<notin> set t" "t \<notin> fst ` set secs" "sections_ok secs" using Cons.prems by (auto simp: p sections_ok_def)
  then have "s @ CHR '':'' # k \<noteq> t" by auto
  moreover have "map_of secs t = None" using t(2) by (simp add: map_of_eq_None_iff)
  ultimately show ?case
    using Cons.IH [OF t(3)] t(1) assms(2)
    by (auto simp: p flatten_simps map_add_def map_of_entries split: option.splits)
qed

lemma flatten_keys:
  "x \<in> fst ` set (flatten secs) \<Longrightarrow> \<exists>s \<in> fst ` set secs. x = s \<or> (\<exists>k. x = s @ CHR '':'' # k)"
  by (auto simp: flatten_def) force+

lemma distinct_flatten:
  assumes "sections_ok secs"
  shows "distinct (map fst (flatten secs))"
  using assms
proof (induction secs)
  case Nil
  then show ?case by (simp add: flatten_simps)
next
  case (Cons p secs)
  obtain t es where p: "p = (t, es)" by fastforce
  have t: "CHR '':'' \<notin> set t" "t \<notin> fst ` set secs" "sections_ok secs" "distinct (map fst es)"
    "\<forall>s \<in> fst ` set secs. CHR '':'' \<notin> set s"
    using Cons.prems by (auto simp: p sections_ok_def)
  have "map fst (map (\<lambda>(k, v). (t @ '':'' @ k, Some v)) es) = map (\<lambda>k. t @ CHR '':'' # k) (map fst es)"
    by auto
  then have "distinct (map fst (map (\<lambda>(k, v). (t @ '':'' @ k, Some v)) es))"
    using t(4) by (simp only: distinct_map inj_on_def) auto
  moreover have other: "x \<noteq> t \<and> x \<noteq> t @ CHR '':'' # k" if x: "x \<in> fst ` set (flatten secs)" for x k
  proof -
    from flatten_keys [OF x] obtain s where s: "s \<in> fst ` set secs" "x = s \<or> (\<exists>l. x = s @ CHR '':'' # l)" by blast
    then have "CHR '':'' \<notin> set s" "s \<noteq> t" using t(2,5) by auto
    with s(2) t(1) show ?thesis using colon_split [of s t] by auto
  qed
  moreover have "set (map fst (map (\<lambda>(k, v). (t @ '':'' @ k, Some v)) es)) \<inter> set (map fst (flatten secs)) = {}"
    using other by fastforce
  moreover have "t \<notin> set (map fst (flatten secs))" "t \<notin> set (map fst (map (\<lambda>(k, v). (t @ '':'' @ k, Some v)) es))"
    using other by auto
  ultimately show ?case
    using Cons.IH [OF t(3)] unfolding p flatten_simps by (simp only: list.map map_append distinct_append distinct.simps fst_conv set_append Un_iff) simp
qed

text \<open>A dictionary with these assignments, in whatever order they were made, reads like the sections.\<close>

lemma section_lookup:
  assumes "dict_map d = map_of (rev (flatten secs))" "sections_ok secs"
    and "CHR '':'' \<in> set key" "length key \<le> ASCIILINESZ"
  shows "iniparser_getstring (Some d) (Some key) fb = section_lookup secs key fb"
proof -
  let ?low = "map c_tolower key"
  let ?s = "takeWhile (\<lambda>c. c \<noteq> CHR '':'') ?low" and ?k = "tl (dropWhile (\<lambda>c. c \<noteq> CHR '':'') ?low)"
  have "c_tolower CHR '':'' = CHR '':''" by code_simp
  with assms(3) have c: "CHR '':'' \<in> set ?low" by force
  have "x \<in> set xs \<Longrightarrow> dropWhile (\<lambda>c. c \<noteq> x) xs = x # tl (dropWhile (\<lambda>c. c \<noteq> x) xs)" for x :: char and xs
    by (induction xs) auto
  from this [OF c] have low: "?low = ?s @ CHR '':'' # ?k" by (metis takeWhile_dropWhile_id)
  have "CHR '':'' \<notin> set ?s" by (auto dest: set_takeWhileD)
  from map_of_flatten [OF assms(2) this, of ?k]
  have "map_of (flatten secs) ?low = (case map_of secs ?s of None \<Rightarrow> None | Some es \<Rightarrow> map_option Some (map_of es ?k))"
    using low by simp
  moreover have "dict_map d = map_of (flatten secs)"
    using distinct_flatten [OF assms(2)] unfolding assms(1)
    by (subst map_of_inject_set) (auto simp: rev_map [symmetric])
  ultimately show ?thesis
    using assms(4) unfolding section_lookup_def Let_def
    by (simp add: iniparser_getstring_def strlwc_def dict_simps del: takeWhile_map dropWhile_map split: option.split)
qed


section \<open>The values\<close>

lemma shipped_sections_ok: "sections_ok shipped_sections"
  by code_simp

lemma lower_chars:
  "c_tolower CHR ''a'' = CHR ''a''" "c_tolower CHR ''b'' = CHR ''b''" "c_tolower CHR ''c'' = CHR ''c''"
  "c_tolower CHR ''d'' = CHR ''d''" "c_tolower CHR ''e'' = CHR ''e''" "c_tolower CHR ''f'' = CHR ''f''"
  "c_tolower CHR ''g'' = CHR ''g''" "c_tolower CHR ''h'' = CHR ''h''" "c_tolower CHR ''i'' = CHR ''i''"
  "c_tolower CHR ''j'' = CHR ''j''" "c_tolower CHR ''k'' = CHR ''k''" "c_tolower CHR ''l'' = CHR ''l''"
  "c_tolower CHR ''m'' = CHR ''m''" "c_tolower CHR ''n'' = CHR ''n''" "c_tolower CHR ''o'' = CHR ''o''"
  "c_tolower CHR ''p'' = CHR ''p''" "c_tolower CHR ''q'' = CHR ''q''" "c_tolower CHR ''r'' = CHR ''r''"
  "c_tolower CHR ''s'' = CHR ''s''" "c_tolower CHR ''t'' = CHR ''t''" "c_tolower CHR ''u'' = CHR ''u''"
  "c_tolower CHR ''v'' = CHR ''v''" "c_tolower CHR ''w'' = CHR ''w''" "c_tolower CHR ''x'' = CHR ''x''"
  "c_tolower CHR ''y'' = CHR ''y''" "c_tolower CHR ''z'' = CHR ''z''" "c_tolower CHR ''0'' = CHR ''0''"
  "c_tolower CHR ''1'' = CHR ''1''" "c_tolower CHR ''2'' = CHR ''2''" "c_tolower CHR ''3'' = CHR ''3''"
  "c_tolower CHR ''4'' = CHR ''4''" "c_tolower CHR ''5'' = CHR ''5''" "c_tolower CHR ''6'' = CHR ''6''"
  "c_tolower CHR ''7'' = CHR ''7''" "c_tolower CHR ''8'' = CHR ''8''" "c_tolower CHR ''9'' = CHR ''9''"
  "c_tolower CHR ''.'' = CHR ''.''" "c_tolower CHR ''_'' = CHR ''_''" "c_tolower CHR '':'' = CHR '':''"
  by code_simp+

lemmas shipped_defs = section_lookup_def shipped_sections_def lower_chars
  shipped_sections_1_def shipped_sections_2_def shipped_sections_3_def shipped_sections_4_def shipped_sections_5_def shipped_sections_6_def shipped_sections_7_def shipped_sections_8_def

lemma lookup_core:
  "section_lookup shipped_sections ''log:level'' fb = Str ''2''"
  "section_lookup shipped_sections ''stream:enable_rtsp'' fb = Str ''1''"
  "section_lookup shipped_sections ''stream:enable_rtmp'' fb = Str ''1''"
  "section_lookup shipped_sections ''network:enable_failover'' fb = Str ''1''"
  "section_lookup shipped_sections ''stream:io_timeout_ms'' fb = Str ''5000''"
  "section_lookup shipped_sections ''video.source:enable_aiq'' fb = Str ''1''"
  "section_lookup shipped_sections ''video.source:enable_vo'' fb = Str ''0''"
  "section_lookup shipped_sections ''video.source:enable_npu'' fb = Str ''1''"
  "section_lookup shipped_sections ''osd:enable_fps'' fb = Str ''1''"
  "section_lookup shipped_sections ''isp.0.adjustment:fps'' fb = Str ''25''"
  "section_lookup shipped_sections ''stream:rtsp_transport'' fb = Str ''tcp''"
  "section_lookup shipped_sections ''stream:rtsp_main_url'' fb = Str ''rtsp://192.168.0.101:8554/main_rtsp''"
  "section_lookup shipped_sections ''stream:rtsp_ai_url'' fb = Str ''rtsp://192.168.0.101:8554/ai_rtsp''"
  "section_lookup shipped_sections ''stream:rtmp_main_url'' fb = Str ''rtmp://192.168.0.101:1935/main_rtmp''"
  "section_lookup shipped_sections ''stream:rtmp_ai_url'' fb = Str ''rtmp://192.168.0.101:1935/ai_rtmp''"
  by (simp_all add: shipped_defs)

lemma integer_core:
  "cfg_integer ''2'' ''log:level'' 0 3 = Inr 2"
  "cfg_integer ''1'' ''stream:enable_rtsp'' 0 1 = Inr 1"
  "cfg_integer ''1'' ''stream:enable_rtmp'' 0 1 = Inr 1"
  "cfg_integer ''1'' ''network:enable_failover'' 0 1 = Inr 1"
  "cfg_integer ''5000'' ''stream:io_timeout_ms'' 100 60000 = Inr 5000"
  "cfg_integer ''1'' ''video.source:enable_aiq'' 0 1 = Inr 1"
  "cfg_integer ''0'' ''video.source:enable_vo'' 0 0 = Inr 0"
  "cfg_integer ''1'' ''video.source:enable_npu'' 0 1 = Inr 1"
  "cfg_integer ''1'' ''osd:enable_fps'' 0 1 = Inr 1"
  "cfg_integer ''25'' ''isp.0.adjustment:fps'' 1 120 = Inr 25"
  by (simp_all add: eval_integer)

lemma lookup_video_0:
  "section_lookup shipped_sections ''video.0:width'' fb = Str ''1920''"
  "section_lookup shipped_sections ''video.0:height'' fb = Str ''1080''"
  "section_lookup shipped_sections ''video.0:max_width'' fb = Str ''1920''"
  "section_lookup shipped_sections ''video.0:max_height'' fb = Str ''1080''"
  "section_lookup shipped_sections ''video.0:enable_refer_buffer_share'' fb = Str ''1''"
  "section_lookup shipped_sections ''video.0:src_frame_rate_num'' fb = Str ''25''"
  "section_lookup shipped_sections ''video.0:src_frame_rate_den'' fb = Str ''1''"
  "section_lookup shipped_sections ''video.0:dst_frame_rate_num'' fb = Str ''25''"
  "section_lookup shipped_sections ''video.0:dst_frame_rate_den'' fb = Str ''1''"
  "section_lookup shipped_sections ''video.0:gop'' fb = Str ''50''"
  "section_lookup shipped_sections ''video.0:input_buffer_count'' fb = Str ''2''"
  "section_lookup shipped_sections ''video.0:buffer_count'' fb = Str ''4''"
  "section_lookup shipped_sections ''video.0:buffer_size'' fb = Str ''1048576''"
  "section_lookup shipped_sections ''video.0:max_rate'' fb = Str ''4096''"
  "section_lookup shipped_sections ''video.0:mid_rate'' fb = Str ''2048''"
  "section_lookup shipped_sections ''video.0:min_rate'' fb = Str ''0''"
  "section_lookup shipped_sections ''video.0:output_data_type'' fb = Str ''H.264''"
  "section_lookup shipped_sections ''video.0:rc_mode'' fb = Str ''CBR''"
  "section_lookup shipped_sections ''video.0:rc_quality'' fb = Str ''high''"
  "section_lookup shipped_sections ''video.0:h264_profile'' fb = Str ''high''"
  by (simp_all add: shipped_defs)

lemma integer_video_0:
  "cfg_integer ''1920'' ''video.0:width'' 2 8192 = Inr 1920"
  "cfg_integer ''1080'' ''video.0:height'' 2 8192 = Inr 1080"
  "cfg_integer ''1920'' ''video.0:max_width'' 1920 8192 = Inr 1920"
  "cfg_integer ''1080'' ''video.0:max_height'' 1080 8192 = Inr 1080"
  "cfg_integer ''1'' ''video.0:enable_refer_buffer_share'' 0 1 = Inr 1"
  "cfg_integer ''25'' ''video.0:src_frame_rate_num'' 1 120 = Inr 25"
  "cfg_integer ''1'' ''video.0:src_frame_rate_den'' 1 120 = Inr 1"
  "cfg_integer ''25'' ''video.0:dst_frame_rate_num'' 1 120 = Inr 25"
  "cfg_integer ''1'' ''video.0:dst_frame_rate_den'' 1 120 = Inr 1"
  "cfg_integer ''50'' ''video.0:gop'' 1 10000 = Inr 50"
  "cfg_integer ''2'' ''video.0:input_buffer_count'' 1 32 = Inr 2"
  "cfg_integer ''4'' ''video.0:buffer_count'' 1 32 = Inr 4"
  "cfg_integer ''1048576'' ''video.0:buffer_size'' 1024 67108864 = Inr 1048576"
  "cfg_integer ''4096'' ''video.0:max_rate'' 1 1000000 = Inr 4096"
  "cfg_integer ''2048'' ''video.0:mid_rate'' 1 4096 = Inr 2048"
  "cfg_integer ''0'' ''video.0:min_rate'' 0 2048 = Inr 0"
  by (simp_all add: eval_integer)

lemma lookup_video_1:
  "section_lookup shipped_sections ''video.1:width'' fb = Str ''704''"
  "section_lookup shipped_sections ''video.1:height'' fb = Str ''576''"
  "section_lookup shipped_sections ''video.1:max_width'' fb = Str ''704''"
  "section_lookup shipped_sections ''video.1:max_height'' fb = Str ''576''"
  "section_lookup shipped_sections ''video.1:enable_refer_buffer_share'' fb = Str ''1''"
  "section_lookup shipped_sections ''video.1:src_frame_rate_num'' fb = Str ''25''"
  "section_lookup shipped_sections ''video.1:src_frame_rate_den'' fb = Str ''1''"
  "section_lookup shipped_sections ''video.1:dst_frame_rate_num'' fb = Str ''25''"
  "section_lookup shipped_sections ''video.1:dst_frame_rate_den'' fb = Str ''1''"
  "section_lookup shipped_sections ''video.1:gop'' fb = Str ''50''"
  "section_lookup shipped_sections ''video.1:input_buffer_count'' fb = Str ''3''"
  "section_lookup shipped_sections ''video.1:buffer_count'' fb = Str ''4''"
  "section_lookup shipped_sections ''video.1:buffer_size'' fb = Str ''202752''"
  "section_lookup shipped_sections ''video.1:max_rate'' fb = Str ''512''"
  "section_lookup shipped_sections ''video.1:mid_rate'' fb = Str ''256''"
  "section_lookup shipped_sections ''video.1:min_rate'' fb = Str ''0''"
  "section_lookup shipped_sections ''video.1:output_data_type'' fb = Str ''H.264''"
  "section_lookup shipped_sections ''video.1:rc_mode'' fb = Str ''CBR''"
  "section_lookup shipped_sections ''video.1:rc_quality'' fb = Str ''high''"
  "section_lookup shipped_sections ''video.1:h264_profile'' fb = Str ''high''"
  by (simp_all add: shipped_defs)

lemma integer_video_1:
  "cfg_integer ''704'' ''video.1:width'' 2 8192 = Inr 704"
  "cfg_integer ''576'' ''video.1:height'' 2 8192 = Inr 576"
  "cfg_integer ''704'' ''video.1:max_width'' 704 8192 = Inr 704"
  "cfg_integer ''576'' ''video.1:max_height'' 576 8192 = Inr 576"
  "cfg_integer ''1'' ''video.1:enable_refer_buffer_share'' 0 1 = Inr 1"
  "cfg_integer ''25'' ''video.1:src_frame_rate_num'' 1 120 = Inr 25"
  "cfg_integer ''1'' ''video.1:src_frame_rate_den'' 1 120 = Inr 1"
  "cfg_integer ''25'' ''video.1:dst_frame_rate_num'' 1 120 = Inr 25"
  "cfg_integer ''1'' ''video.1:dst_frame_rate_den'' 1 120 = Inr 1"
  "cfg_integer ''50'' ''video.1:gop'' 1 10000 = Inr 50"
  "cfg_integer ''3'' ''video.1:input_buffer_count'' 1 32 = Inr 3"
  "cfg_integer ''4'' ''video.1:buffer_count'' 1 32 = Inr 4"
  "cfg_integer ''202752'' ''video.1:buffer_size'' 1024 67108864 = Inr 202752"
  "cfg_integer ''512'' ''video.1:max_rate'' 1 1000000 = Inr 512"
  "cfg_integer ''256'' ''video.1:mid_rate'' 1 512 = Inr 256"
  "cfg_integer ''0'' ''video.1:min_rate'' 0 256 = Inr 0"
  by (simp_all add: eval_integer)

lemma lookup_audio:
  "section_lookup shipped_sections ''audio.0:enable'' fb = Str ''1''"
  "section_lookup shipped_sections ''audio.0:sample_rate'' fb = Str ''8000''"
  "section_lookup shipped_sections ''audio.0:channels'' fb = Str ''1''"
  "section_lookup shipped_sections ''audio.0:frame_size'' fb = Str ''1152''"
  "section_lookup shipped_sections ''audio.0:volume'' fb = Str ''50''"
  "section_lookup shipped_sections ''audio.0:enable_vqe'' fb = Str ''1''"
  "section_lookup shipped_sections ''audio.0:encode_type'' fb = Str ''G711A''"
  "section_lookup shipped_sections ''audio.0:format'' fb = Str ''S16''"
  "section_lookup shipped_sections ''audio.0:vqe_cfg'' fb = Str ''/oem/usr/share/vqefiles/config_aivqe.json''"
  by (simp_all add: shipped_defs)

lemma integer_audio:
  "cfg_integer ''1'' ''audio.0:enable'' 0 1 = Inr 1"
  "cfg_integer ''8000'' ''audio.0:sample_rate'' 8000 8000 = Inr 8000"
  "cfg_integer ''1'' ''audio.0:channels'' 1 1 = Inr 1"
  "cfg_integer ''1152'' ''audio.0:frame_size'' 1152 1152 = Inr 1152"
  "cfg_integer ''50'' ''audio.0:volume'' 0 100 = Inr 50"
  "cfg_integer ''1'' ''audio.0:enable_vqe'' 0 1 = Inr 1"
  by (simp_all add: eval_integer)

lemma lookup_npu:
  "section_lookup shipped_sections ''video.source:npu_fps'' fb = Str ''10''"
  "section_lookup shipped_sections ''video.1:width'' fb = Str ''704''"
  "section_lookup shipped_sections ''video.2:width'' fb = Str ''704''"
  "section_lookup shipped_sections ''video.1:height'' fb = Str ''576''"
  "section_lookup shipped_sections ''video.2:height'' fb = Str ''576''"
  "section_lookup shipped_sections ''osd.common:normalized_screen_width'' fb = Str ''704''"
  "section_lookup shipped_sections ''osd.common:normalized_screen_height'' fb = Str ''576''"
  "section_lookup shipped_sections ''event.regional_invasion:enabled'' fb = Str ''1''"
  "section_lookup shipped_sections ''event.regional_invasion:sensitivity_level'' fb = Str ''90''"
  "section_lookup shipped_sections ''event.regional_invasion:time_threshold'' fb = Str ''1''"
  "section_lookup shipped_sections ''event.regional_invasion:proportion'' fb = Str ''1''"
  "section_lookup shipped_sections ''event.regional_invasion:rockiva_model_type'' fb = Str ''small''"
  "section_lookup shipped_sections ''rockiva:model_path'' fb = Str ''/usr/lib/''"
  "section_lookup shipped_sections ''event.regional_invasion:position_x'' fb = Str ''0''"
  "section_lookup shipped_sections ''event.regional_invasion:position_y'' fb = Str ''0''"
  "section_lookup shipped_sections ''event.regional_invasion:width'' fb = Str ''704''"
  "section_lookup shipped_sections ''event.regional_invasion:height'' fb = Str ''576''"
  by (simp_all add: shipped_defs)

lemma integer_npu:
  "cfg_integer ''10'' ''video.source:npu_fps'' 1 120 = Inr 10"
  "cfg_integer ''704'' ''video.1:width'' 2 8192 = Inr 704"
  "cfg_integer ''704'' ''video.2:width'' 704 704 = Inr 704"
  "cfg_integer ''576'' ''video.1:height'' 2 8192 = Inr 576"
  "cfg_integer ''576'' ''video.2:height'' 576 576 = Inr 576"
  "cfg_integer ''704'' ''osd.common:normalized_screen_width'' 1 8192 = Inr 704"
  "cfg_integer ''576'' ''osd.common:normalized_screen_height'' 1 8192 = Inr 576"
  "cfg_integer ''1'' ''event.regional_invasion:enabled'' 0 1 = Inr 1"
  "cfg_integer ''90'' ''event.regional_invasion:sensitivity_level'' 1 100 = Inr 90"
  "cfg_integer ''1'' ''event.regional_invasion:time_threshold'' 0 2147483 = Inr 1"
  "cfg_integer ''1'' ''event.regional_invasion:proportion'' 0 100 = Inr 1"
  by (simp_all add: eval_integer)

lemma shipped_ports:
  "cfg_integer ''8554'' ''stream:rtsp_main_url'' 1 65535 = Inr 8554"
  "cfg_integer ''8554'' ''stream:rtsp_ai_url'' 1 65535 = Inr 8554"
  "cfg_integer ''1935'' ''stream:rtmp_main_url'' 1 65535 = Inr 1935"
  "cfg_integer ''1935'' ''stream:rtmp_ai_url'' 1 65535 = Inr 1935"
  by (simp_all add: eval_integer)

section \<open>The check\<close>

text \<open>A dictionary that reads like the file.\<close>

definition reads_shipped :: "dictionary \<Rightarrow> bool" where
  "reads_shipped d \<longleftrightarrow> dict_map d = map_of (rev (flatten shipped_sections))"

lemma shipped_get:
  "reads_shipped d \<Longrightarrow> CHR '':'' \<in> set key \<Longrightarrow> length key \<le> 1024 \<Longrightarrow>
   iniparser_getstring (Some d) (Some key) fb = section_lookup shipped_sections key fb"
  using section_lookup [OF _ shipped_sections_ok] by (simp add: reads_shipped_def ASCIILINESZ_def)

lemma shipped_videos:
  assumes "reads_shipped d"
  shows "cfg_video (Some d) True 25 0 = Inr ()" "cfg_video (Some d) True 25 (Suc 0) = Inr ()"
  by (simp_all add: cfg_video_def cfg_number_def cfg_choice_def cfg_text_def shipped_get [OF assms] lookup_video_0
      integer_video_0 lookup_video_1 integer_video_1 show_nat_one cfg_even_def cfg_rates_def)

lemma shipped_protocols:
  assumes "reads_shipped d" "pton4 ''192.168.0.101''"
  shows "cfg_protocol pton4 pton6 (Some d) True ''rtsp'' True [] = Inr ''192.168.0.101''"
    "cfg_protocol pton4 pton6 (Some d) True ''rtmp'' True ''192.168.0.101'' = Inr ''192.168.0.101''"
  using assms(2)
  by (simp_all add: cfg_protocol_def cfg_url_def cfg_url_key_def cfg_host_def cfg_text_def shipped_get [OF assms(1)]
      lookup_core shipped_ports str_starts_def Let_def)

lemma shipped_audio: "reads_shipped d \<Longrightarrow> cfg_audio (Some d) = Inr ()"
  by (simp add: cfg_audio_def cfg_number_def cfg_choice_def cfg_text_def shipped_get lookup_audio integer_audio)

lemma shipped_npu: "reads_shipped d \<Longrightarrow> cfg_npu (Some d) True = Inr ()"
  by (simp add: cfg_npu_def cfg_same_axis_def cfg_number_def cfg_choice_def cfg_text_def shipped_get lookup_npu integer_npu)

lemma shipped_validates:
  fixes pton4 pton6 :: "string \<Rightarrow> bool"
  assumes "reads_shipped d" "pton4 ''192.168.0.101''"
  shows "cfg_validate pton4 pton6 (Some d) = Inr ()"
proof -
  have p: "cfg_protocol pton4 pton6 (Some d) True ''rtsp'' True [] = Inr ''192.168.0.101''"
    "cfg_protocol pton4 pton6 (Some d) True ''rtmp'' True ''192.168.0.101'' = Inr ''192.168.0.101''"
    using shipped_protocols assms by blast+
  show ?thesis
  by (simp add: cfg_validate_def cfg_number_def cfg_choice_def cfg_text_def shipped_get [OF assms(1)] lookup_core
      integer_core shipped_videos [OF assms(1)] p shipped_audio [OF assms(1)]
      shipped_npu [OF assms(1)])
qed

section \<open>The properties' hypotheses\<close>

definition plain_entry :: "string \<times> string option \<Rightarrow> bool" where
  "plain_entry e \<longleftrightarrow> (case snd e of None \<Rightarrow> list_all (\<lambda>c. c \<noteq> CHR '':'') (fst e) \<and> length (fst e) < ASCIILINESZ
     | Some t \<Rightarrow> length t < 128)"

lemma plain_parts:
  "list_all plain_entry (flatten shipped_sections_1)"
  "list_all plain_entry (flatten shipped_sections_2)"
  "list_all plain_entry (flatten shipped_sections_3)"
  "list_all plain_entry (flatten shipped_sections_4)"
  "list_all plain_entry (flatten shipped_sections_5)"
  "list_all plain_entry (flatten shipped_sections_6)"
  "list_all plain_entry (flatten shipped_sections_7)"
  "list_all plain_entry (flatten shipped_sections_8)"
  by code_simp+

lemma all_plain: "list_all plain_entry (flatten shipped_sections)"
  unfolding shipped_sections_def flatten_simps list_all_append using plain_parts by blast

lemma shipped_plain:
  assumes "(k, v) \<in> set (flatten shipped_sections)"
  shows "v = None \<Longrightarrow> CHR '':'' \<notin> set k \<and> length k < ASCIILINESZ" "v = Some t \<Longrightarrow> length t < 128"
proof -
  have "plain_entry (k, v)"
    using all_plain assms unfolding list_all_iff by (rule bspec)
  then show "v = None \<Longrightarrow> CHR '':'' \<notin> set k \<and> length k < ASCIILINESZ" "v = Some t \<Longrightarrow> length t < 128"
    by (auto simp: plain_entry_def list_all_iff)
qed

lemma shipped_loads:
  "\<exists>d. iniparser_load (\<lambda>_. alloc_ok) True False (Some (IniFormat.ini_text shipped_ini)) = Some (Some d) \<and> dict_inv d \<and> reads_shipped d"
  using load_denotes_map [OF shipped_line_ok shipped_denotes] by (auto simp: reads_shipped_def)

lemma shipped_readable:
  assumes "reads_shipped d"
  shows "cfg_readable \<lparr>g_ini_path = path, g_ini_d = Some d\<rparr>"
proof (rule plain_sections_readable)
  show "g_ini_d \<lparr>g_ini_path = path, g_ini_d = Some d\<rparr> = Some d" by simp
  show "dict_map d = map_of (rev (flatten shipped_sections))" using assms by (simp only: reads_shipped_def)
  show "\<forall>(k, v) \<in> set (rev (flatten shipped_sections)). v = None \<longrightarrow> CHR '':'' \<notin> set k \<and> length k < ASCIILINESZ"
    using shipped_plain(1) by (auto simp only: set_rev)
qed

lemma shipped_texts:
  assumes "reads_shipped d"
  shows "texts_ok (dict_map d)"
  unfolding texts_ok_def
proof (intro allI impI)
  fix k v
  assume k: "CHR '':'' \<in> set k" and "dict_map d k = Some v"
  then have "(k, v) \<in> set (flatten shipped_sections)"
    using map_of_SomeD assms by (metis reads_shipped_def set_rev)
  note plain = shipped_plain [OF this]
  with k show "\<exists>t. v = Some t \<and> length t < 128" by (cases v) auto
qed

lemma shipped_region:
  assumes "reads_shipped d"
  shows "region_fits \<lparr>g_ini_path = path, g_ini_d = Some d\<rparr>"
proof -
  have n: "c_strtol 0 ''0'' = (0, [], False)" "c_strtol 0 ''704'' = (704, [], False)" "c_strtol 0 ''576'' = (576, [], False)"
    by code_simp+
  show ?thesis
    by (simp add: region_fits_def rk_param_get_int_def iniparser_getint_def iniparser_getlongint_def
        shipped_get [OF assms] lookup_npu n OverlayCanvas.int_ok_def)
qed

lemma shipped_endpoints:
  assumes "reads_shipped d"
  shows "\<exists>cfgs. manager_endpoints \<lparr>g_ini_path = path, g_ini_d = Some d\<rparr> = Some cfgs \<and>
     map ec_name cfgs = [''rtsp-main'', ''rtmp-main'', ''rtsp-ai'', ''rtmp-ai'']"
proof -
  let ?st = "\<lparr>g_ini_path = path, g_ini_d = Some d\<rparr>"
  have "c_strtol 0 ''1'' = (1, [], False)" by code_simp
  then have "rk_param_get_int ?st ''stream:enable_rtsp'' 0 = Some (if True then 1 else 0)"
    "rk_param_get_int ?st ''stream:enable_rtmp'' 0 = Some (if True then 1 else 0)" "urls_given ?st True True"
    by (simp_all add: rk_param_get_int_def iniparser_getint_def iniparser_getlongint_def urls_given_def url_given_def
        rk_param_get_string_def shipped_get [OF assms] lookup_core)
  from manager_endpoints_created [OF this] show ?thesis by simp
qed

text \<open>The configuration file the repository ships loads, passes the start-up check, and meets what the other
  properties ask of a configuration: no value is read through NULL, the texts fit the buffers of the tuning layer, the
  invaded region fits its integers; it makes the publisher create the four endpoints. The only
  assumption is that \<^verbatim>\<open>inet_pton\<close> accepts the address in it.\<close>

theorem shipped_config_accepted:
  assumes "pton4 ''192.168.0.101''"
  shows "\<exists>d cfgs. iniparser_load (\<lambda>_. alloc_ok) True False (Some (IniFormat.ini_text shipped_ini)) = Some (Some d) \<and>
     cfg_validate pton4 pton6 (Some d) = Inr () \<and> texts_ok (dict_map d) \<and>
     cfg_readable \<lparr>g_ini_path = path, g_ini_d = Some d\<rparr> \<and> region_fits \<lparr>g_ini_path = path, g_ini_d = Some d\<rparr> \<and>
     manager_endpoints \<lparr>g_ini_path = path, g_ini_d = Some d\<rparr> = Some cfgs \<and>
     map ec_name cfgs = [''rtsp-main'', ''rtmp-main'', ''rtsp-ai'', ''rtmp-ai'']"
proof -
  from shipped_loads obtain d where
    d: "iniparser_load (\<lambda>_. alloc_ok) True False (Some (IniFormat.ini_text shipped_ini)) = Some (Some d)" "reads_shipped d" by blast
  from shipped_endpoints [where path = path, OF d(2)] obtain cfgs where
    e: "manager_endpoints \<lparr>g_ini_path = path, g_ini_d = Some d\<rparr> = Some cfgs"
    "map ec_name cfgs = [''rtsp-main'', ''rtmp-main'', ''rtsp-ai'', ''rtmp-ai'']" by (elim exE conjE) (rule that)
  show ?thesis
    by (rule exI [of _ d], rule exI [of _ cfgs], intro conjI)
      (rule d(1), rule shipped_validates, rule d(2), rule assms, rule shipped_texts [OF d(2)], rule shipped_readable [OF d(2)],
       rule shipped_region [OF d(2)], rule e(1), rule e(2))
qed

theorem shipped_config_accepted_witness:
  "\<exists>d. iniparser_load (\<lambda>_. alloc_ok) True False (Some (IniFormat.ini_text shipped_ini)) = Some (Some d) \<and>
     cfg_validate (\<lambda>a. a = ''192.168.0.101'') (\<lambda>_. False) (Some d) = Inr ()"
proof -
  have "(\<lambda>a. a = ''192.168.0.101'') ''192.168.0.101''" by (rule refl)
  then show ?thesis
    by (rule ex_forward [OF shipped_config_accepted [where path = "[]"]]) (elim exE conjE, intro conjI, assumption, assumption)
qed

end
