(* ===== verification/ServiceMain.thy ===== *)
theory ServiceMain
  imports MediaProperties ConfigExample
begin

text \<open>
  The program around the components: \<^verbatim>\<open>src/main.cpp\<close>, the instance lock and state file of
  \<^verbatim>\<open>src/service/service_state.hpp\<close> and the progress watchdog of \<^verbatim>\<open>src/media/media_health.hpp\<close>. Command line, system calls and
  the passing of time are arguments; the parameter store, the start-up check and the media pipeline are the models of
  their own theories. \<open>None\<close> is a read through a NULL value. A thrown exception is \<open>Inl\<close>.
\<close>

section \<open>Progress of the channels\<close>

record media_health =
  mh_enabled :: "bool list"
  mh_last :: "int list"

definition mh_reset :: "bool \<Rightarrow> bool \<Rightarrow> int \<Rightarrow> media_health" where
  "mh_reset audio iva time = \<lparr>mh_enabled = [True, True, audio, iva], mh_last = replicate 4 time\<rparr>"

definition mh_record :: "nat \<Rightarrow> int \<Rightarrow> media_health \<Rightarrow> media_health" where
  "mh_record channel time h = (if channel < 4 then h\<lparr>mh_last := (mh_last h)[channel := time]\<rparr> else h)"

definition channel_names :: "string list" where
  "channel_names = [''VENC0'', ''VENC1'', ''AENC0'', ''IVA'']"

definition mh_stalled :: "int \<Rightarrow> media_health \<Rightarrow> string option" where
  "mh_stalled time h =
     map_option (\<lambda>i. channel_names ! i) (find (\<lambda>i. mh_enabled h ! i \<and> time - mh_last h ! i \<ge> 60) [0, 1, 2, 3])"

section \<open>The state file\<close>

text \<open>One update: the monotonic clock, how much \<^verbatim>\<open>pwrite\<close> wrote once it was not interrupted, and \<^verbatim>\<open>ftruncate\<close>.\<close>

record set_env =
  se_clock :: "int option"
  se_pwrite :: "nat option"
  se_truncate :: bool

datatype main_error =
    Open_state | Already_running | Lock_failed | Clock_failed | Invalid_state | Write_failed
  | Logger_failed | Load_failed | Config_error cfg_error | Media_failed

datatype main_event =
    Locked | Unlocked | Published string | Logger_up | Logger_down | Params_up | Params_down | Media_up | Media_down

record main_world =
  w_file :: string
  w_locked :: bool
  w_level :: int
  w_params :: param_state
  w_media :: media_st
  w_health :: media_health
  w_trace :: "main_event list"

definition trace :: "main_event \<Rightarrow> main_world \<Rightarrow> main_world" where
  "trace e w = w\<lparr>w_trace := w_trace w @ [e]\<rparr>"

definition state_text :: "int \<Rightarrow> string \<Rightarrow> int \<Rightarrow> string" where
  "state_text pid state sec = show_int pid @ '' '' @ state @ '' '' @ show_int sec @ [NL]"

definition service_set :: "int \<Rightarrow> set_env \<Rightarrow> string \<Rightarrow> main_world \<Rightarrow> (main_error + unit) \<times> main_world" where
  "service_set pid env state w =
     (case se_clock env of
        None \<Rightarrow> (Inl Clock_failed, w)
      | Some sec \<Rightarrow>
          let line = state_text pid state sec
          in if length line \<ge> 64 then (Inl Invalid_state, w)
             else (case se_pwrite env of
                     None \<Rightarrow> (Inl Write_failed, w)
                   | Some n \<Rightarrow>
                       let n = min n (length line); w1 = w\<lparr>w_file := take n line @ drop n (w_file w)\<rparr>
                       in if n \<noteq> length line \<or> \<not> se_truncate env then (Inl Write_failed, w1)
                          else (Inr (), trace (Published state) (w1\<lparr>w_file := take (length line) (w_file w1)\<rparr>))))"

text \<open>Constructor: open, lock without waiting, publish \<^verbatim>\<open>starting\<close>. Closing the file gives the lock back.\<close>

record lock_env =
  le_open :: bool
  le_flock :: "bool option"

definition service_new :: "int \<Rightarrow> lock_env \<Rightarrow> set_env \<Rightarrow> main_world \<Rightarrow> (main_error + unit) \<times> main_world" where
  "service_new pid le se w =
     (if \<not> le_open le then (Inl Open_state, w)
      else (case le_flock le of
              None \<Rightarrow> (Inl Lock_failed, w)
            | Some False \<Rightarrow> (Inl Already_running, w)
            | Some True \<Rightarrow>
                (case service_set pid se ''starting'' (trace Locked (w\<lparr>w_locked := True\<rparr>)) of
                   (Inr _, w1) \<Rightarrow> (Inr (), w1)
                 | (Inl e, w1) \<Rightarrow> (Inl e, trace Unlocked (w1\<lparr>w_locked := False\<rparr>)))))"

definition service_delete :: "bool \<Rightarrow> main_world \<Rightarrow> main_world" where
  "service_delete truncated w =
     trace Unlocked (w\<lparr>w_file := (if truncated then [] else w_file w), w_locked := False\<rparr>)"

section \<open>Command line\<close>

datatype option_arg = Opt_c string | Opt_a string | Opt_l string | Opt_t | Opt_h | Opt_unknown

record main_args =
  ma_ini :: string
  ma_iq :: string
  ma_level :: int
  ma_check :: bool

definition default_args :: main_args where
  "default_args = \<lparr>ma_ini = ''/oem/usr/share/rv1106_sc3336.ini'', ma_iq = ''/etc/iqfiles'', ma_level = -1, ma_check = False\<rparr>"

text \<open>The options \<^verbatim>\<open>getopt\<close> returns in turn; \<open>Inl\<close> is the exit code of an early return.\<close>

fun parse_options :: "option_arg list \<Rightarrow> main_args \<Rightarrow> int + main_args" where
  "parse_options [] a = Inr a"
| "parse_options (Opt_c s # os) a = parse_options os (a\<lparr>ma_ini := s\<rparr>)"
| "parse_options (Opt_a s # os) a = parse_options os (a\<lparr>ma_iq := s\<rparr>)"
| "parse_options (Opt_l s # os) a =
     (case cfg_integer s ''-l'' 0 3 of Inl e \<Rightarrow> Inl 2 | Inr n \<Rightarrow> parse_options os (a\<lparr>ma_level := n\<rparr>))"
| "parse_options (Opt_t # os) a = parse_options os (a\<lparr>ma_check := True\<rparr>)"
| "parse_options (Opt_h # os) a = Inl 0"
| "parse_options (Opt_unknown # os) a = Inl 2"

definition main_arguments :: "option_arg list \<Rightarrow> bool \<Rightarrow> int + main_args" where
  "main_arguments os operands =
     (case parse_options os default_args of
        Inl code \<Rightarrow> Inl code
      | Inr a \<Rightarrow> if operands \<or> ma_ini a = [] \<or> length (ma_ini a) \<ge> 256 \<or> ma_iq a = [] then Inl 2 else Inr a)"

section \<open>The main loop\<close>

text \<open>One turn: the flag the signal handler clears, the state update, what the media threads recorded since the last
  turn, and the clock at the check.\<close>

record tick =
  tk_running :: bool
  tk_set :: set_env
  tk_records :: "(nat \<times> int) list"
  tk_now :: int

text \<open>An end with an exit code or an exception, or still waiting after the given turns.\<close>

datatype main_result = Ended "main_error + int" | Waiting

definition mh_records :: "(nat \<times> int) list \<Rightarrow> media_health \<Rightarrow> media_health" where
  "mh_records rs h = fold (\<lambda>(channel, time). mh_record channel time) rs h"

fun main_loop :: "int \<Rightarrow> tick list \<Rightarrow> main_world \<Rightarrow> main_result \<times> main_world" where
  "main_loop pid [] w = (Waiting, w)"
| "main_loop pid (t # ts) w =
     (let w = w\<lparr>w_health := mh_records (tk_records t) (w_health w)\<rparr>
      in if \<not> tk_running t then (Ended (Inr 0), w)
         else (case service_set pid (tk_set t) ''ready'' w of
                 (Inl e, w1) \<Rightarrow> (Ended (Inl e), w1)
               | (Inr _, w1) \<Rightarrow>
                   if mh_stalled (tk_now t) (w_health w1) \<noteq> None then (Ended (Inr 1), w1) else main_loop pid ts w1))"

section \<open>The program\<close>

record main_env =
  mn_pid :: int
  mn_lock :: lock_env
  mn_starting :: set_env
  mn_ready :: set_env
  mn_stopping :: set_env
  mn_cleared :: bool
  mn_logger :: bool
  mn_files :: files
  mn_load :: load_env
  mn_pton4 :: "string \<Rightarrow> bool"
  mn_pton6 :: "string \<Rightarrow> bool"
  mn_media :: media_env
  mn_sizes :: audio_sizes
  mn_time :: int
  mn_ticks :: "tick list"

text \<open>The destructor of an object runs when its scope ends, whatever ended it.\<close>

definition leave :: "(main_world \<Rightarrow> main_world) \<Rightarrow> (main_result \<times> main_world) \<Rightarrow> main_result \<times> main_world" where
  "leave undo rw = (case rw of (Waiting, w) \<Rightarrow> (Waiting, w) | (Ended r, w) \<Rightarrow> (Ended r, undo w))"

definition main_wait :: "main_env \<Rightarrow> main_world \<Rightarrow> main_result \<times> main_world" where
  "main_wait env w =
     (case service_set (mn_pid env) (mn_ready env) ''ready'' w of
        (Inl e, w1) \<Rightarrow> (Ended (Inl e), w1)
      | (Inr _, w1) \<Rightarrow>
          (case main_loop (mn_pid env) (mn_ticks env) w1 of
             (Ended (Inr code), w2) \<Rightarrow>
               (case service_set (mn_pid env) (mn_stopping env) ''stopping'' w2 of
                  (Inl e, w3) \<Rightarrow> (Ended (Inl e), w3)
                | (Inr _, w3) \<Rightarrow> (Ended (Inr code), w3))
           | rw \<Rightarrow> rw))"

definition main_media :: "main_env \<Rightarrow> string \<Rightarrow> main_world \<Rightarrow> (main_result \<times> main_world) option" where
  "main_media env iq w =
     (case media_new (mn_media env) (mn_sizes env) (w_params w) iq (w_media w) of
        None \<Rightarrow> None
      | Some (False, st) \<Rightarrow> Some (Ended (Inl Media_failed), w\<lparr>w_media := st\<rparr>)
      | Some (True, st) \<Rightarrow>
          Some (leave (\<lambda>w. trace Media_down (w\<lparr>w_media := media_shutdown (mn_media env) (w_media w)\<rparr>))
                  (main_wait env (trace Media_up (w\<lparr>w_media := st\<rparr>)))))"

definition main_configured :: "main_env \<Rightarrow> main_args \<Rightarrow> main_world \<Rightarrow> (main_result \<times> main_world) option" where
  "main_configured env a w =
     (case cfg_validate (mn_pton4 env) (mn_pton6 env) (g_ini_d (w_params w)) of
        Inl e \<Rightarrow> Some (Ended (Inl (Config_error e)), w)
      | Inr _ \<Rightarrow>
          do {
            level \<leftarrow> (if ma_level a \<ge> 0 then Some (ma_level a) else rk_param_get_int (w_params w) ''log:level'' 2);
            audio \<leftarrow> rk_param_get_int (w_params w) ''audio.0:enable'' 1;
            npu \<leftarrow> rk_param_get_int (w_params w) ''video.source:enable_npu'' 1;
            main_media env (ma_iq a)
              (w\<lparr>w_level := level, w_health := mh_reset (audio \<noteq> 0) (npu \<noteq> 0) (mn_time env)\<rparr>)
          })"

definition main_parameters :: "main_env \<Rightarrow> main_args \<Rightarrow> main_world \<Rightarrow> (main_result \<times> main_world) option" where
  "main_parameters env a w =
     (case rk_param_init (mn_load env) (mn_files env) (Some (ma_ini a)) (w_params w) of
        None \<Rightarrow> None
      | Some (rc, params) \<Rightarrow>
          if rc \<noteq> 0 then Some (Ended (Inl Load_failed), w\<lparr>w_params := params\<rparr>)
          else map_option (leave (\<lambda>w. trace Params_down (w\<lparr>w_params := snd (rk_param_deinit (w_params w))\<rparr>)))
                 (main_configured env a (trace Params_up (w\<lparr>w_params := params\<rparr>))))"

definition main_service :: "main_env \<Rightarrow> main_args \<Rightarrow> main_world \<Rightarrow> (main_result \<times> main_world) option" where
  "main_service env a w =
     (case service_new (mn_pid env) (mn_lock env) (mn_starting env) w of
        (Inl e, w1) \<Rightarrow> Some (Ended (Inl e), w1)
      | (Inr _, w1) \<Rightarrow>
          map_option (leave (service_delete (mn_cleared env)))
            (if \<not> mn_logger env then Some (Ended (Inl Logger_failed), w1)
             else map_option (leave (trace Logger_down)) (main_parameters env a (trace Logger_up w1))))"

text \<open>The check of \<^verbatim>\<open>-t\<close> touches nothing but the file it reads.\<close>

definition main_check :: "main_env \<Rightarrow> main_args \<Rightarrow> (main_error + int) option" where
  "main_check env a =
     (case load_file (mn_load env) (mn_files env) (ma_ini a) of
        None \<Rightarrow> None
      | Some d \<Rightarrow>
          (case cfg_validate (mn_pton4 env) (mn_pton6 env) d of
             Inl e \<Rightarrow> Some (Inl (Config_error e))
           | Inr _ \<Rightarrow> Some (Inr 0)))"

text \<open>The exit code, or \<open>None\<close> inside while the program still waits.\<close>

definition exit_code :: "main_result \<Rightarrow> int option" where
  "exit_code r = (case r of Waiting \<Rightarrow> None | Ended (Inl e) \<Rightarrow> Some 1 | Ended (Inr code) \<Rightarrow> Some code)"

definition gzh_ipc_main ::
  "main_env \<Rightarrow> option_arg list \<Rightarrow> bool \<Rightarrow> main_world \<Rightarrow> (int option \<times> main_world) option" where
  "gzh_ipc_main env os operands w =
     (case main_arguments os operands of
        Inl code \<Rightarrow> Some (Some code, w)
      | Inr a \<Rightarrow>
          if ma_check a then map_option (\<lambda>r. (exit_code (Ended r), w)) (main_check env a)
          else map_option (\<lambda>(r, w'). (exit_code r, w')) (main_service env a w))"

end
