(* ===== verification/ServiceProperties.thy ===== *)
theory ServiceProperties
  imports ServiceMain
begin

text \<open>
  The watchdog and the life of the program: what the loop observes of the channels, and in which order the lock, the logger, the
  parameters and the media pipeline come and go on every path.
\<close>

section \<open>The watchdog\<close>

text \<open>Whether channel \<open>i\<close> is watched, and whether it progressed within 60 seconds, after the given records.\<close>

definition watched :: "bool \<Rightarrow> bool \<Rightarrow> nat \<Rightarrow> bool" where
  "watched audio iva i \<longleftrightarrow> [True, True, audio, iva] ! i"

definition progressed :: "int \<Rightarrow> (nat \<times> int) list \<Rightarrow> int \<Rightarrow> nat \<Rightarrow> bool" where
  "progressed start rs now i \<longleftrightarrow> now - start < 60 \<or> (\<exists>t. (i, t) \<in> set rs \<and> now - t < 60)"

definition all_progressed :: "bool \<Rightarrow> bool \<Rightarrow> int \<Rightarrow> (nat \<times> int) list \<Rightarrow> int \<Rightarrow> bool" where
  "all_progressed audio iva start rs now \<longleftrightarrow> (\<forall>i < 4. watched audio iva i \<longrightarrow> progressed start rs now i)"

lemma mh_record_fields [simp]:
  "mh_enabled (mh_record c t h) = mh_enabled h" "length (mh_last (mh_record c t h)) = length (mh_last h)"
  by (simp_all add: mh_record_def)

lemma mh_records_snoc: "mh_records (rs @ [(c, t)]) h = mh_record c t (mh_records rs h)"
  by (simp add: mh_records_def)

lemma mh_records_append: "mh_records (rs @ rs') h = mh_records rs' (mh_records rs h)"
  by (simp add: mh_records_def)

lemma mh_records_reset:
  "mh_enabled (mh_records rs (mh_reset audio iva start)) = [True, True, audio, iva]"
  "length (mh_last (mh_records rs (mh_reset audio iva start))) = 4"
  by (induction rs rule: rev_induct) (auto simp: mh_records_snoc, auto simp: mh_records_def mh_reset_def)

text \<open>The stamp of a channel is the start or its latest record.\<close>

lemma mh_last_latest:
  fixes audio iva :: bool
  assumes "sorted (start # map snd rs)" "i < 4"
  defines "stamp \<equiv> mh_last (mh_records rs (mh_reset audio iva start)) ! i"
  shows "stamp = start \<or> (i, stamp) \<in> set rs" "start \<le> stamp" "(i, t) \<in> set rs \<Longrightarrow> t \<le> stamp"
proof -
  have "(stamp = start \<or> (i, stamp) \<in> set rs) \<and> start \<le> stamp \<and> (\<forall>t. (i, t) \<in> set rs \<longrightarrow> t \<le> stamp)"
    unfolding stamp_def using assms(1)
  proof (induction rs rule: rev_induct)
    case Nil
    then show ?case using assms(2) by (simp add: mh_records_def mh_reset_def)
  next
    case (snoc r rs)
    obtain c u where r: "r = (c, u)" by fastforce
    let ?s = "mh_last (mh_records rs (mh_reset audio iva start)) ! i"
    have sorted: "sorted (start # map snd rs)" "start \<le> u" "\<forall>t \<in> set (map snd rs). t \<le> u"
      using snoc.prems r by (auto simp: sorted_append)
    note IH = snoc.IH [OF sorted(1)]
    have stamp: "mh_last (mh_records (rs @ [r]) (mh_reset audio iva start)) ! i = (if c = i then u else ?s)"
      using assms(2) mh_records_reset(2) [of rs audio iva start] by (simp add: r mh_records_snoc mh_record_def)
    show ?case
    proof (cases "c = i")
      case True
      then show ?thesis using stamp r sorted by force
    next
      case False
      then show ?thesis using stamp r IH by auto
    qed
  qed
  then show "stamp = start \<or> (i, stamp) \<in> set rs" "start \<le> stamp" "(i, t) \<in> set rs \<Longrightarrow> t \<le> stamp" by blast+
qed

lemma mh_stalled_exact:
  assumes "sorted (start # map snd rs)"
  shows "mh_stalled now (mh_records rs (mh_reset audio iva start)) = None \<longleftrightarrow> all_progressed audio iva start rs now"
proof -
  let ?h = "mh_records rs (mh_reset audio iva start)"
  have "mh_stalled now ?h = None \<longleftrightarrow> (\<forall>i \<in> set [0, 1, 2, 3]. \<not> (mh_enabled ?h ! i \<and> now - mh_last ?h ! i \<ge> 60))"
    unfolding mh_stalled_def option.map_disc_iff find_None_iff by blast
  also have "\<dots> \<longleftrightarrow> (\<forall>i < 4. watched audio iva i \<longrightarrow> now - mh_last ?h ! i < 60)"
  proof -
    have "set [0, 1, 2, 3 :: nat] = {..<4}" by auto
    then show ?thesis unfolding mh_records_reset(1) watched_def by (metis (no_types) lessThan_iff not_le)
  qed
  also have "\<dots> \<longleftrightarrow> all_progressed audio iva start rs now"
  proof -
    have "now - mh_last ?h ! i < 60 \<longleftrightarrow> progressed start rs now i" if "i < 4" for i
      using mh_last_latest [OF assms that, where audio = audio and iva = iva] unfolding progressed_def by fastforce
    then show ?thesis unfolding all_progressed_def by blast
  qed
  finally show ?thesis .
qed

lemma service_set_health:
  "service_set pid se s w = (r, w') \<Longrightarrow> w_health w' = w_health w"
  by (auto simp: service_set_def trace_def Let_def split: option.splits if_splits)

text \<open>The turns that came to the check: the records of the first \<open>k + 1\<close> turns, at the time of turn \<open>k\<close>.\<close>

definition turn_progress :: "bool \<Rightarrow> bool \<Rightarrow> int \<Rightarrow> (nat \<times> int) list \<Rightarrow> tick list \<Rightarrow> nat \<Rightarrow> bool" where
  "turn_progress audio iva start rs ts k \<longleftrightarrow>
     all_progressed audio iva start (rs @ concat (map tk_records (take (Suc k) ts))) (tk_now (ts ! k))"

lemma main_loop_watches:
  assumes "main_loop pid ts w = (res, w')" "w_health w = mh_records rs (mh_reset audio iva start)"
    and "sorted (start # map snd (rs @ concat (map tk_records ts)))"
  shows "case res of
       Waiting \<Rightarrow> \<forall>k < length ts. tk_running (ts ! k) \<and> turn_progress audio iva start rs ts k
     | Ended (Inl e) \<Rightarrow> \<exists>k < length ts. \<forall>j < k. tk_running (ts ! j) \<and> turn_progress audio iva start rs ts j
     | Ended (Inr code) \<Rightarrow> \<exists>k < length ts. (\<forall>j < k. tk_running (ts ! j) \<and> turn_progress audio iva start rs ts j) \<and>
         (code = 0 \<and> \<not> tk_running (ts ! k) \<or> code = 1 \<and> tk_running (ts ! k) \<and> \<not> turn_progress audio iva start rs ts k)"
  using assms
proof (induction ts arbitrary: w rs)
  case Nil
  then show ?case by auto
next
  case (Cons t ts)
  define w1 where "w1 = w\<lparr>w_health := mh_records (tk_records t) (w_health w)\<rparr>"
  let ?rs = "rs @ tk_records t"
  have h1: "w_health w1 = mh_records ?rs (mh_reset audio iva start)"
    using Cons.prems(2) by (simp add: w1_def mh_records_append)
  have sorted: "sorted (start # map snd ?rs)" "sorted (start # map snd (?rs @ concat (map tk_records ts)))"
    using Cons.prems(3) by (auto simp: sorted_append)
  have first: "turn_progress audio iva start rs (t # ts) 0 \<longleftrightarrow> all_progressed audio iva start ?rs (tk_now t)"
    by (simp add: turn_progress_def)
  have later: "turn_progress audio iva start rs (t # ts) (Suc k) \<longleftrightarrow> turn_progress audio iva start ?rs ts k" for k
    by (simp add: turn_progress_def)
  show ?case
  proof (cases "tk_running t")
    case False
    with Cons.prems(1) have "res = Ended (Inr 0)" by (simp add: Let_def)
    with False show ?thesis by (auto intro!: exI [of _ 0])
  next
    case run: True
    obtain r w2 where set: "service_set pid (tk_set t) ''ready'' w1 = (r, w2)" by fastforce
    note h2 = service_set_health [OF set]
    show ?thesis
    proof (cases r)
      case (Inl e)
      with Cons.prems(1) run set have "res = Ended (Inl e)" by (simp add: Let_def w1_def)
      then show ?thesis by (auto intro!: exI [of _ 0])
    next
      case (Inr u)
      have stalled: "mh_stalled (tk_now t) (w_health w2) = None \<longleftrightarrow> turn_progress audio iva start rs (t # ts) 0"
        unfolding first h2 h1 by (rule mh_stalled_exact [OF sorted(1)])
      show ?thesis
      proof (cases "turn_progress audio iva start rs (t # ts) 0")
        case False
        with Cons.prems(1) run set Inr stalled have "res = Ended (Inr 1)" by (simp add: Let_def w1_def)
        with False run show ?thesis by (auto intro!: exI [of _ 0])
      next
        case True
        with Cons.prems(1) run set Inr stalled have rest: "main_loop pid ts w2 = (res, w')" by (simp add: Let_def w1_def)
        have "w_health w2 = mh_records ?rs (mh_reset audio iva start)" using h1 h2 by simp
        note IH = Cons.IH [OF rest this sorted(2)]
        have all: "(\<forall>j < Suc k. tk_running ((t # ts) ! j) \<and> turn_progress audio iva start rs (t # ts) j) \<longleftrightarrow>
            (\<forall>j < k. tk_running (ts ! j) \<and> turn_progress audio iva start ?rs ts j)" for k
          using True run by (auto simp: All_less_Suc2 later)
        show ?thesis
        proof (cases res)
          case Waiting
          with IH all [of "length ts"] show ?thesis by simp
        next
          case (Ended x)
          show ?thesis
          proof (cases x)
            case (Inl e)
            with IH Ended obtain k where "k < length ts" "\<forall>j < k. tk_running (ts ! j) \<and> turn_progress audio iva start ?rs ts j"
              by auto
            with Ended Inl all [of k] show ?thesis by (auto intro!: exI [of _ "Suc k"])
          next
            case (Inr code)
            with IH Ended obtain k where "k < length ts" "\<forall>j < k. tk_running (ts ! j) \<and> turn_progress audio iva start ?rs ts j"
              "code = 0 \<and> \<not> tk_running (ts ! k) \<or> code = 1 \<and> tk_running (ts ! k) \<and> \<not> turn_progress audio iva start ?rs ts k"
              by auto
            with Ended Inr all [of k] later show ?thesis by (auto intro!: exI [of _ "Suc k"])
          qed
        qed
      qed
    qed
  qed
qed

text \<open>C11. The main loop acts on the health of the channels exactly: while it waits, no signal came and at every turn
  each watched channel had progressed within 60 seconds; it ends with code 1 at the first turn where one had not, with
  code 0 at the first turn that finds the flag cleared, and otherwise only because a state update failed.\<close>

theorem main_watchdog:
  assumes "main_loop pid ts w = (res, w')" and "w_health w = mh_reset audio iva start"
    and "sorted (start # map snd (concat (map tk_records ts)))"
  shows "case res of
       Waiting \<Rightarrow> \<forall>k < length ts. tk_running (ts ! k) \<and> turn_progress audio iva start [] ts k
     | Ended (Inl e) \<Rightarrow> \<exists>k < length ts. \<forall>j < k. tk_running (ts ! j) \<and> turn_progress audio iva start [] ts j
     | Ended (Inr code) \<Rightarrow> \<exists>k < length ts. (\<forall>j < k. tk_running (ts ! j) \<and> turn_progress audio iva start [] ts j) \<and>
         (code = 0 \<and> \<not> tk_running (ts ! k) \<or> code = 1 \<and> tk_running (ts ! k) \<and> \<not> turn_progress audio iva start [] ts k)"
  by (rule main_loop_watches [OF assms(1)]) (use assms(2,3) in \<open>simp_all add: mh_records_def\<close>)

definition set_ok :: set_env where
  "set_ok = \<lparr>se_clock = Some 100, se_pwrite = Some 64, se_truncate = True\<rparr>"

definition no_world :: main_world where
  "no_world = \<lparr>w_file = [], w_locked = False, w_level = 2, w_params = no_config, w_media = media_initial,
     w_health = mh_reset True True 0, w_trace = []\<rparr>"

text \<open>Two turns: at the first every channel has delivered, at the second the detection has been silent for 60 seconds.\<close>

definition silent_ticks :: "tick list" where
  "silent_ticks =
    [\<lparr>tk_running = True, tk_set = set_ok, tk_records = [(0, 1), (1, 1), (2, 1), (3, 1)], tk_now = 1\<rparr>,
     \<lparr>tk_running = True, tk_set = set_ok, tk_records = [(0, 60), (1, 60), (2, 60)], tk_now = 61\<rparr>]"

theorem main_watchdog_witness:
  "\<exists>res w'. main_loop 7 silent_ticks no_world = (res, w') \<and> res \<noteq> Waiting \<and> res \<noteq> Ended (Inr 0) \<and>
     turn_progress True True 0 [] silent_ticks 0 \<and> \<not> turn_progress True True 0 [] silent_ticks 1"
proof -
  obtain res w' where run: "main_loop 7 silent_ticks no_world = (res, w')" by fastforce
  have progress: "turn_progress True True 0 [] silent_ticks 0" "\<not> turn_progress True True 0 [] silent_ticks 1"
    by (simp_all add: turn_progress_def silent_ticks_def all_progressed_def watched_def progressed_def)
      (auto intro: exI [of _ "3 :: nat"])
  have "sorted (0 # map snd (concat (map tk_records silent_ticks)))" by (simp add: silent_ticks_def)
  note outcome = main_watchdog [OF run _ this, of True True]
  have "length silent_ticks = 2" "\<forall>k < 2. tk_running (silent_ticks ! k)" by (auto simp: silent_ticks_def less_2_cases_iff)
  with outcome progress have "res \<noteq> Waiting" "res \<noteq> Ended (Inr 0)" by (auto simp: no_world_def)
  with run progress show ?thesis by blast
qed

section \<open>The life of the program\<close>

datatype stage = Off | Service | Logging | Loaded | Live

text \<open>Each object is created inside the scope of the one before and destroyed before it; the published states tell where the program
  is.\<close>

fun life_step :: "main_event \<Rightarrow> stage \<Rightarrow> stage option" where
  "life_step Locked Off = Some Service"
| "life_step Unlocked Service = Some Off"
| "life_step Logger_up Service = Some Logging"
| "life_step Logger_down Logging = Some Service"
| "life_step Params_up Logging = Some Loaded"
| "life_step Params_down Loaded = Some Logging"
| "life_step Media_up Loaded = Some Live"
| "life_step Media_down Live = Some Loaded"
| "life_step (Published s) Service = (if s = ''starting'' then Some Service else None)"
| "life_step (Published s) Live = (if s = ''ready'' \<or> s = ''stopping'' then Some Live else None)"
| "life_step _ _ = None"

fun life :: "main_event list \<Rightarrow> stage \<Rightarrow> stage option" where
  "life [] st = Some st"
| "life (e # es) st = (case life_step e st of None \<Rightarrow> None | Some st' \<Rightarrow> life es st')"

lemma life_append: "life (es @ fs) st = (case life es st of None \<Rightarrow> None | Some st' \<Rightarrow> life fs st')"
  by (induction es arbitrary: st) (auto split: option.splits)

definition at_stage :: "stage \<Rightarrow> main_world \<Rightarrow> bool" where
  "at_stage st w \<longleftrightarrow> life (w_trace w) Off = Some st"

lemma at_trace: "at_stage st w \<Longrightarrow> life_step e st = Some st' \<Longrightarrow> at_stage st' (trace e w)"
  by (simp add: at_stage_def trace_def life_append)

lemma trace_fields [simp]:
  "w_params (trace e w) = w_params w" "w_media (trace e w) = w_media w" "w_locked (trace e w) = w_locked w"
  by (simp_all add: trace_def)

text \<open>What a part of the program leaves alone.\<close>

definition same :: "main_world \<Rightarrow> main_world \<Rightarrow> bool" where
  "same w w' \<longleftrightarrow> w_params w' = w_params w \<and> w_media w' = w_media w \<and> w_locked w' = w_locked w"

lemma service_set_at:
  assumes "service_set pid se s w = (r, w')" "at_stage st w" "life_step (Published s) st = Some st"
  shows "same w w' \<and> at_stage st w'"
proof -
  have set: "at_stage st (trace (Published s) v)" if "w_trace v = w_trace w" for v
    using assms(2,3) that by (intro at_trace [where st = st]) (simp_all add: at_stage_def)
  show ?thesis
    using assms(1,2) by (auto simp: service_set_def same_def Let_def at_stage_def intro!: set [unfolded at_stage_def]
        split: option.splits if_splits)
qed

definition code_ok :: "main_result \<Rightarrow> bool" where
  "code_ok r \<longleftrightarrow> exit_code r \<in> {None, Some 0, Some 1}"

lemma code_ok_simps [simp]: "code_ok Waiting" "code_ok (Ended (Inl e))" "code_ok (Ended (Inr 0))" "code_ok (Ended (Inr 1))"
  by (simp_all add: code_ok_def exit_code_def)

lemma main_loop_at:
  assumes "main_loop pid ts w = (r, w')" "at_stage Live w"
  shows "same w w' \<and> at_stage Live w' \<and> code_ok r"
  using assms
proof (induction ts arbitrary: w)
  case Nil
  then show ?case by (simp add: same_def)
next
  case (Cons t ts)
  let ?w = "w\<lparr>w_health := mh_records (tk_records t) (w_health w)\<rparr>"
  obtain x w1 where set: "service_set pid (tk_set t) ''ready'' ?w = (x, w1)" by fastforce
  have "at_stage Live ?w" using Cons.prems(2) by (simp add: at_stage_def)
  from service_set_at [OF set this] have w1: "same w w1" "at_stage Live w1" by (simp_all add: same_def)
  show ?case
    using Cons.prems set w1 Cons.IH [of w1]
    by (auto simp: Let_def same_def at_stage_def split: if_splits sum.splits)
qed

lemma main_wait_at:
  assumes "main_wait env w = (r, w')" "at_stage Live w"
  shows "same w w' \<and> at_stage Live w' \<and> code_ok r"
proof -
  obtain x w1 where set: "service_set (mn_pid env) (mn_ready env) ''ready'' w = (x, w1)" by fastforce
  from service_set_at [OF set assms(2)] have w1: "same w w1" "at_stage Live w1" by simp_all
  obtain y w2 where loop: "main_loop (mn_pid env) (mn_ticks env) w1 = (y, w2)" by fastforce
  from main_loop_at [OF loop w1(2)] have w2: "same w1 w2" "at_stage Live w2" "code_ok y" by simp_all
  obtain z w3 where stop: "service_set (mn_pid env) (mn_stopping env) ''stopping'' w2 = (z, w3)" by fastforce
  from service_set_at [OF stop w2(2)] have w3: "same w2 w3" "at_stage Live w3" by simp_all
  show ?thesis
    using assms(1) set loop stop w1 w2 w3
    by (auto simp: main_wait_def same_def split: sum.splits main_result.splits)
qed

abbreviation no_media :: "media_st \<Rightarrow> bool" where
  "no_media \<equiv> st_is {} (False, False, False)"

lemma leave_result:
  "leave undo (r, w) = (r, if r = Waiting then w else undo w)"
  by (cases r) (simp_all add: leave_def)

text \<open>What a scope that starts at stage \<open>st\<close> guarantees when it is left, or while the program waits in it.\<close>

definition scope_ok :: "stage \<Rightarrow> main_world \<Rightarrow> main_result \<Rightarrow> main_world \<Rightarrow> bool" where
  "scope_ok st w r w' \<longleftrightarrow>
     at_stage (if r = Waiting then Live else st) w' \<and> w_locked w' = w_locked w \<and> code_ok r \<and> (r \<noteq> Waiting \<longrightarrow> no_media (w_media w'))"

lemma scope_leave:
  assumes "scope_ok st w r w'" "life_step e st = Some st'" "w_locked v = w_locked w"
  shows "scope_ok st' v r (if r = Waiting then w' else trace e w')"
  using assms at_trace [OF _ assms(2)] by (auto simp: scope_ok_def)

lemma main_media_scope:
  assumes "pipe_binds (mn_media env)" "cfg_readable (w_params w)" "at_stage Loaded w" "no_media (w_media w)"
  shows "\<exists>r w'. main_media env iq w = Some (r, w') \<and> scope_ok Loaded w r w' \<and> w_params w' = w_params w"
proof -
  obtain ok st where new: "media_new (mn_media env) (mn_sizes env) (w_params w) iq (w_media w) = Some (ok, st)"
    using media_returns [OF assms(2)] unfolding returns_def by blast
  have "triple no_media (media_new (mn_media env) (mn_sizes env) (w_params w) iq) media_partial no_media"
    by (rule media_new_triple [OF assms(1)])
  with new assms(4) have st: "if ok then media_partial st else no_media st"
    unfolding triple_def by (metis (no_types, lifting) case_prod_conv option.case(2))
  show ?thesis
  proof (cases ok)
    case False
    with new st assms(3) show ?thesis by (simp add: main_media_def scope_ok_def at_stage_def)
  next
    case True
    let ?w = "trace Media_up (w\<lparr>w_media := st\<rparr>)"
    obtain r w' where wait: "main_wait env ?w = (r, w')" by fastforce
    have "at_stage Live ?w" using assms(3) by (intro at_trace [where st = Loaded]) (simp_all add: at_stage_def)
    from main_wait_at [OF wait this] have w': "same ?w w'" "at_stage Live w'" "code_ok r" by simp_all
    have down: "at_stage Loaded (trace Media_down (w'\<lparr>w_media := m\<rparr>))" for m
      using w'(2) by (intro at_trace [where st = Live]) (simp_all add: at_stage_def)
    have "no_media (media_shutdown (mn_media env) (w_media w'))"
      using w'(1) st True by (simp add: same_def media_shutdown_good)
    with new True wait w' down show ?thesis
      by (cases "r = Waiting") (auto simp: main_media_def leave_result scope_ok_def same_def)
  qed
qed

text \<open>No value of the configuration file is NULL: it has no section header with a colon in its name.\<close>

definition file_readable :: "main_env \<Rightarrow> string \<Rightarrow> bool" where
  "file_readable env ini \<longleftrightarrow>
     (\<forall>d path. load_file (mn_load env) (mn_files env) ini = Some (Some d) \<longrightarrow> cfg_readable \<lparr>g_ini_path = path, g_ini_d = Some d\<rparr>)"

definition accepted :: "main_env \<Rightarrow> dictionary option \<Rightarrow> bool" where
  "accepted env d \<longleftrightarrow> cfg_validate (mn_pton4 env) (mn_pton6 env) d = Inr ()"

lemma main_configured_scope:
  assumes "pipe_binds (mn_media env)" "cfg_readable (w_params w)" "at_stage Loaded w" "no_media (w_media w)"
  shows "\<exists>r w'. main_configured env a w = Some (r, w') \<and> scope_ok Loaded w r w' \<and> w_params w' = w_params w \<and>
     (w_media w' \<noteq> w_media w \<longrightarrow> accepted env (g_ini_d (w_params w)))"
proof (cases "cfg_validate (mn_pton4 env) (mn_pton6 env) (g_ini_d (w_params w))")
  case (Inl e)
  with assms(3,4) show ?thesis by (simp add: main_configured_def scope_ok_def)
next
  case (Inr u)
  have read: "\<exists>n. rk_param_get_int (w_params w) key fb = Some n" if "CHR '':'' \<in> set key" for key fb
    using readable_int [OF assms(2) that] by blast
  obtain l audio npu where vals: "rk_param_get_int (w_params w) ''log:level'' 2 = Some l"
    "rk_param_get_int (w_params w) ''audio.0:enable'' 1 = Some audio"
    "rk_param_get_int (w_params w) ''video.source:enable_npu'' 1 = Some npu"
    using read [of "''log:level''" 2] read [of "''audio.0:enable''" 1] read [of "''video.source:enable_npu''" 1] by auto
  define w1 where "w1 = w\<lparr>w_level := (if ma_level a \<ge> 0 then ma_level a else l),
      w_health := mh_reset (audio \<noteq> 0) (npu \<noteq> 0) (mn_time env)\<rparr>"
  have w1: "cfg_readable (w_params w1)" "at_stage Loaded w1" "no_media (w_media w1)"
    using assms by (simp_all add: w1_def at_stage_def)
  from main_media_scope [OF assms(1) w1, of "ma_iq a"] obtain r w' where
    m: "main_media env (ma_iq a) w1 = Some (r, w')" "scope_ok Loaded w1 r w'" "w_params w' = w_params w1" by blast
  have "main_configured env a w = Some (r, w')"
    using Inr vals m(1) by (cases "0 \<le> ma_level a") (simp_all add: main_configured_def w1_def)
  with m Inr show ?thesis by (auto simp: scope_ok_def w1_def accepted_def)
qed

lemma main_parameters_scope:
  assumes "pipe_binds (mn_media env)" "file_readable env (ma_ini a)" "at_stage Logging w" "no_media (w_media w)" "g_ini_d (w_params w) = None"
  shows "\<exists>r w'. main_parameters env a w = Some (r, w') \<and> scope_ok Logging w r w' \<and>
     (r \<noteq> Waiting \<longrightarrow> g_ini_d (w_params w') = None) \<and>
     (w_media w' \<noteq> w_media w \<longrightarrow>
        (\<exists>d. load_file (mn_load env) (mn_files env) (ma_ini a) = Some (Some d) \<and> accepted env (Some d)))"
proof -
  let ?load = "load_file (mn_load env) (mn_files env) (ma_ini a)"
  let ?init = "rk_param_init (mn_load env) (mn_files env) (Some (ma_ini a)) (w_params w)"
  consider "?init = Some (-1, w_params w)"
    | d path where "?load = Some (Some d)" "?init = Some (0, \<lparr>g_ini_path = path, g_ini_d = Some d\<rparr>)"
  proof (cases "?init = Some (-1, w_params w)")
    case False
    with load_file_cases [of "mn_load env" "mn_files env" "ma_ini a"] assms(5) obtain d where
      d: "?load = Some (Some d)" "?init = Some (0, (w_params w)\<lparr>g_ini_path := take 255 (ma_ini a), g_ini_d := Some d\<rparr>)"
      by (auto simp: rk_param_init_def Let_def split: if_splits)
    have "(w_params w)\<lparr>g_ini_path := p, g_ini_d := Some d\<rparr> = \<lparr>g_ini_path = p, g_ini_d = Some d\<rparr>" for p
      by (cases "w_params w") simp
    with d show thesis using that(2) by metis
  qed (use that in blast)
  then show ?thesis
  proof cases
    case 1
    then show ?thesis using assms(3-5) by (simp add: main_parameters_def scope_ok_def at_stage_def)
  next
    case (2 d path)
    let ?w = "trace Params_up (w\<lparr>w_params := \<lparr>g_ini_path = path, g_ini_d = Some d\<rparr>\<rparr>)"
    have w: "cfg_readable (w_params ?w)" "at_stage Loaded ?w" "no_media (w_media ?w)"
      using assms(2-4) 2(1) at_trace [of Logging _ Params_up Loaded] by (auto simp: file_readable_def at_stage_def)
    from main_configured_scope [OF assms(1) w, of a] obtain r w' where
      c: "main_configured env a ?w = Some (r, w')" "scope_ok Loaded ?w r w'" "w_params w' = w_params ?w"
        "w_media w' \<noteq> w_media ?w \<longrightarrow> accepted env (g_ini_d (w_params ?w))" by blast
    have down: "at_stage Logging (trace Params_down (v\<lparr>w_params := p\<rparr>))" if "at_stage Loaded v" for v p
      using that by (intro at_trace [where st = Loaded]) (simp_all add: at_stage_def)
    have "main_parameters env a w =
        Some (r, if r = Waiting then w' else trace Params_down (w'\<lparr>w_params := snd (rk_param_deinit (w_params w'))\<rparr>))"
      using 2(2) c(1) by (simp add: main_parameters_def leave_result)
    moreover have "scope_ok Logging w r
        (if r = Waiting then w' else trace Params_down (w'\<lparr>w_params := snd (rk_param_deinit (w_params w'))\<rparr>))"
      using c(2) down by (auto simp: scope_ok_def)
    ultimately show ?thesis using 2(1) c(4) by (auto simp: rk_param_deinit_def)
  qed
qed

definition not_started :: "main_world \<Rightarrow> bool" where
  "not_started w \<longleftrightarrow> at_stage Off w \<and> \<not> w_locked w \<and> w_media w = media_initial \<and> g_ini_d (w_params w) = None"

lemma no_media_initial: "no_media media_initial"
  by (simp add: st_is_def good_def owners_def media_initial_def)

lemma main_service_scope:
  assumes "pipe_binds (mn_media env)" "file_readable env (ma_ini a)" "not_started w"
  shows "\<exists>r w'. main_service env a w = Some (r, w') \<and> at_stage (if r = Waiting then Live else Off) w' \<and> code_ok r \<and>
     (w_locked w' \<longleftrightarrow> r = Waiting) \<and> (r \<noteq> Waiting \<longrightarrow> no_media (w_media w') \<and> g_ini_d (w_params w') = None) \<and>
     (w_media w' \<noteq> media_initial \<longrightarrow> le_open (mn_lock env) \<and> le_flock (mn_lock env) = Some True \<and>
        (\<exists>d. load_file (mn_load env) (mn_files env) (ma_ini a) = Some (Some d) \<and> accepted env (Some d)))"
proof -
  note w = assms(3) [unfolded not_started_def]
  let ?l = "trace Locked (w\<lparr>w_locked := True\<rparr>)"
  obtain x w1 where new: "service_new (mn_pid env) (mn_lock env) (mn_starting env) w = (x, w1)" by fastforce
  obtain y v where set: "service_set (mn_pid env) (mn_starting env) ''starting'' ?l = (y, v)" by fastforce
  have "at_stage Service ?l" using w by (intro at_trace [where st = Off]) (simp_all add: at_stage_def)
  from service_set_at [OF set this] have v: "same ?l v" "at_stage Service v" by simp_all
  have unlock: "at_stage Off (trace Unlocked (u\<lparr>w_file := f, w_locked := b\<rparr>))" "at_stage Off (trace Unlocked (u\<lparr>w_locked := b\<rparr>))"
    if "at_stage Service u" for u f b
    by (rule at_trace [where st = Service]; use that in \<open>simp add: at_stage_def\<close>)+
  show ?thesis
  proof (cases x)
    case (Inl e)
    have "at_stage Off w1 \<and> \<not> w_locked w1 \<and> w_media w1 = media_initial \<and> g_ini_d (w_params w1) = None"
      using new set Inl w v unlock(2) [OF v(2)]
      by (auto simp: service_new_def same_def split: if_splits option.splits bool.splits sum.splits)
    with new Inl show ?thesis by (simp add: main_service_def no_media_initial)
  next
    case (Inr u)
    have lock: "le_open (mn_lock env)" "le_flock (mn_lock env) = Some True" and w1: "w1 = v"
      using new set Inr by (auto simp: service_new_def split: if_splits option.splits bool.splits sum.splits)
    have fields: "w_locked v" "w_media v = media_initial" "g_ini_d (w_params v) = None"
      using v(1) w by (simp_all add: same_def)
    show ?thesis
    proof (cases "mn_logger env")
      case False
      with new Inr w1 fields unlock(1) [OF v(2)] show ?thesis
        by (simp add: main_service_def leave_result service_delete_def no_media_initial)
    next
      case True
      let ?w = "trace Logger_up v"
      have up: "at_stage Logging ?w" using v(2) by (rule at_trace) simp
      obtain r w' where p: "main_parameters env a ?w = Some (r, w')" "scope_ok Logging ?w r w'"
        "r \<noteq> Waiting \<longrightarrow> g_ini_d (w_params w') = None"
        "w_media w' \<noteq> w_media ?w \<longrightarrow>
          (\<exists>d. load_file (mn_load env) (mn_files env) (ma_ini a) = Some (Some d) \<and> accepted env (Some d))"
        using main_parameters_scope [OF assms(1,2) up] fields by (auto simp: no_media_initial)
      have down: "at_stage Service (trace Logger_down w')" if "r \<noteq> Waiting"
        using p(2) that by (intro at_trace [where st = Logging]) (simp_all add: scope_ok_def)
      define w2 where "w2 = (if r = Waiting then w' else service_delete (mn_cleared env) (trace Logger_down w'))"
      have "main_service env a w = Some (r, w2)"
        using new Inr w1 True p(1) by (simp add: main_service_def leave_result w2_def)
      moreover have "at_stage (if r = Waiting then Live else Off) w2" "w_locked w2 \<longleftrightarrow> r = Waiting" "code_ok r"
        "r \<noteq> Waiting \<longrightarrow> no_media (w_media w2) \<and> g_ini_d (w_params w2) = None" "w_media w2 = w_media w'"
        using p(2,3) fields unlock(1) [OF down] by (auto simp: w2_def scope_ok_def service_delete_def)
      ultimately show ?thesis using lock p(4) fields by auto
    qed
  qed
qed

lemma parse_options_codes: "parse_options os a = Inl code \<Longrightarrow> code \<in> {0, 2}"
  by (induction os a rule: parse_options.induct) (auto split: sum.splits)


text \<open>An empty configuration file: nothing is NULL, and nothing is accepted.\<close>

definition empty_file_env :: main_env where
  "empty_file_env = \<lparr>mn_pid = 7, mn_lock = \<lparr>le_open = True, le_flock = Some True\<rparr>, mn_starting = set_ok, mn_ready = set_ok,
     mn_stopping = set_ok, mn_cleared = True, mn_logger = True, mn_files = (\<lambda>_. Some []), mn_load = load_ok,
     mn_pton4 = \<lambda>_. True, mn_pton6 = \<lambda>_. True, mn_media = working_env, mn_sizes = example_sizes, mn_time = 0, mn_ticks = []\<rparr>"

lemma empty_file_loads:
  assumes "load_file (mn_load empty_file_env) (mn_files empty_file_env) ini = Some (Some d)"
  shows "dict_map d = Map.empty"
  using load_denotes_map [of "[]" "[]"] assms by (auto simp: load_file_def empty_file_env_def load_ok_def)


end
