(* ===== verification/ShippedProgram.thy ===== *)
theory ShippedProgram
  imports ShippedConfig ServiceProperties
begin

text \<open>
  The delivered program: \<^verbatim>\<open>main\<close> with the configuration file the repository ships, on a device whose calls succeed. The
  parser, the start-up check, the parameter store, the media pipeline, the instance lock and the main loop of
  the other theories are put together.
\<close>

section \<open>A device that works\<close>

definition set_succeeds :: "int \<Rightarrow> string \<Rightarrow> set_env \<Rightarrow> bool" where
  "set_succeeds pid state env \<longleftrightarrow>
     (case (se_clock env, se_pwrite env) of
        (Some sec, Some n) \<Rightarrow> length (state_text pid state sec) < 64 \<and> length (state_text pid state sec) \<le> n \<and> se_truncate env
      | _ \<Rightarrow> False)"

lemma service_set_succeeds:
  "set_succeeds pid state env \<Longrightarrow> \<exists>w'. service_set pid env state w = (Inr (), w') \<and> w_level w' = w_level w"
  by (auto simp: set_succeeds_def service_set_def trace_def Let_def split: option.splits)

text \<open>The delivered file is in its place, the lock is free, every call succeeds.\<close>

definition delivered :: "main_env \<Rightarrow> bool" where
  "delivered env \<longleftrightarrow>
     mn_files env (ma_ini default_args) = Some (IniFormat.ini_text shipped_ini) \<and> mn_load env = load_ok \<and>
     mn_pton4 env ''192.168.0.101'' \<and> mn_lock env = \<lparr>le_open = True, le_flock = Some True\<rparr> \<and> mn_logger env \<and>
     all_calls_succeed (mn_media env) \<and>
     set_succeeds (mn_pid env) ''starting'' (mn_starting env) \<and> set_succeeds (mn_pid env) ''ready'' (mn_ready env) \<and>
     set_succeeds (mn_pid env) ''stopping'' (mn_stopping env) \<and>
     list_all (\<lambda>t. set_succeeds (mn_pid env) ''ready'' (tk_set t)) (mn_ticks env)"

section \<open>The main loop\<close>

text \<open>The turns before a signal, and the turn that sees it.\<close>

lemma main_loop_runs:
  assumes "list_all (\<lambda>t. set_succeeds pid ''ready'' (tk_set t)) (ts @ stop)"
    and "\<forall>t \<in> set ts. tk_running t" "list_all (\<lambda>t. \<not> tk_running t) stop"
    and "w_health w = mh_records rs (mh_reset audio iva start)"
    and "sorted (start # map snd (rs @ concat (map tk_records ts)))"
    and "\<forall>k < length ts. turn_progress audio iva start rs ts k"
  shows "\<exists>w'. main_loop pid (ts @ stop) w = (if stop = [] then Waiting else Ended (Inr 0), w') \<and> w_level w' = w_level w"
  using assms
proof (induction ts arbitrary: w rs)
  case Nil
  then show ?case by (cases stop) (auto simp: Let_def)
next
  case (Cons t ts)
  define w1 where "w1 = w\<lparr>w_health := mh_records (tk_records t) (w_health w)\<rparr>"
  let ?rs = "rs @ tk_records t"
  from Cons.prems(1) obtain w2 where w2: "service_set pid (tk_set t) ''ready'' w1 = (Inr (), w2)" "w_level w2 = w_level w1"
    using service_set_succeeds by fastforce
  have h: "w_health w2 = mh_records ?rs (mh_reset audio iva start)"
    using service_set_health [OF w2(1)] Cons.prems(4) by (simp add: w1_def mh_records_append)
  have sorted: "sorted (start # map snd ?rs)" "sorted (start # map snd (?rs @ concat (map tk_records ts)))"
    using Cons.prems(5) by (auto simp: sorted_append)
  have "turn_progress audio iva start rs (t # ts) 0" using Cons.prems(6) by auto
  then have "mh_stalled (tk_now t) (w_health w2) = None"
    unfolding h mh_stalled_exact [OF sorted(1)] by (simp add: turn_progress_def)
  with w2 Cons.prems(2) have step: "main_loop pid ((t # ts) @ stop) w = main_loop pid (ts @ stop) w2"
    by (simp add: Let_def w1_def)
  have later: "turn_progress audio iva start ?rs ts k" if "k < length ts" for k
    using Cons.prems(6) that by (auto simp: turn_progress_def dest!: spec [of _ "Suc k"])
  have "\<exists>w'. main_loop pid (ts @ stop) w2 = (if stop = [] then Waiting else Ended (Inr 0), w') \<and> w_level w' = w_level w2"
    using Cons.prems(1,2,3) h sorted(2) later by (intro Cons.IH [of w2 ?rs]) auto
  with step w2(2) show ?case by (simp add: w1_def)
qed

lemma main_wait_runs:
  assumes "delivered env" "mn_ticks env = ts @ stop" "\<forall>t \<in> set ts. tk_running t" "list_all (\<lambda>t. \<not> tk_running t) stop"
    and "w_health w = mh_reset audio iva (mn_time env)"
    and "sorted (mn_time env # map snd (concat (map tk_records ts)))"
    and "\<forall>k < length ts. turn_progress audio iva (mn_time env) [] ts k"
  shows "\<exists>w'. main_wait env w = (if stop = [] then Waiting else Ended (Inr 0), w') \<and> w_level w' = w_level w"
proof -
  obtain w1 where w1: "service_set (mn_pid env) (mn_ready env) ''ready'' w = (Inr (), w1)" "w_level w1 = w_level w"
    using service_set_succeeds assms(1) by (metis delivered_def)
  have h: "w_health w1 = mh_records [] (mh_reset audio iva (mn_time env))"
    using service_set_health [OF w1(1)] assms(5) by (simp add: mh_records_def)
  have "list_all (\<lambda>t. set_succeeds (mn_pid env) ''ready'' (tk_set t)) (ts @ stop)" "sorted (mn_time env # map snd ([] @ concat (map tk_records ts)))"
    using assms(1,2,6) by (simp_all add: delivered_def)
  from main_loop_runs [OF this(1) assms(3,4) h this(2) assms(7)] obtain w2 where
    w2: "main_loop (mn_pid env) (ts @ stop) w1 = (if stop = [] then Waiting else Ended (Inr 0), w2)" "w_level w2 = w_level w1"
    by blast
  obtain w3 where w3: "service_set (mn_pid env) (mn_stopping env) ''stopping'' w2 = (Inr (), w3)" "w_level w3 = w_level w2"
    using service_set_succeeds assms(1) by (metis delivered_def)
  show ?thesis
    using assms(2) w1 w2 w3 by (cases "stop = []") (auto simp: main_wait_def)
qed

section \<open>The whole program\<close>

lemma works_binds: "all_calls_succeed env \<Longrightarrow> pipe_binds env"
  by (simp add: all_calls_succeed_def pipe_binds_def)

lemma shipped_values:
  assumes "reads_shipped d"
  shows "rk_param_get_int \<lparr>g_ini_path = path, g_ini_d = Some d\<rparr> ''log:level'' 2 = Some 2"
    "rk_param_get_int \<lparr>g_ini_path = path, g_ini_d = Some d\<rparr> ''audio.0:enable'' 1 = Some 1"
    "rk_param_get_int \<lparr>g_ini_path = path, g_ini_d = Some d\<rparr> ''video.source:enable_npu'' 1 = Some 1"
    "audio_text \<lparr>g_ini_path = path, g_ini_d = Some d\<rparr> ''encode_type'' ''G711A'' = Some ''G711A''"
proof -
  have "c_strtol 0 ''1'' = (1, [], False)" "c_strtol 0 ''2'' = (2, [], False)" by code_simp+
  then show "rk_param_get_int \<lparr>g_ini_path = path, g_ini_d = Some d\<rparr> ''log:level'' 2 = Some 2"
    "rk_param_get_int \<lparr>g_ini_path = path, g_ini_d = Some d\<rparr> ''audio.0:enable'' 1 = Some 1"
    "rk_param_get_int \<lparr>g_ini_path = path, g_ini_d = Some d\<rparr> ''video.source:enable_npu'' 1 = Some 1"
    by (simp_all add: rk_param_get_int_def iniparser_getint_def iniparser_getlongint_def shipped_get [OF assms]
        lookup_core lookup_audio)
  show "audio_text \<lparr>g_ini_path = path, g_ini_d = Some d\<rparr> ''encode_type'' ''G711A'' = Some ''G711A''"
    by (simp add: audio_text_def media_text_def rk_param_get_string_def shipped_get [OF assms] lookup_audio)
qed

lemma delivered_loads:
  assumes "delivered env"
  shows "\<exists>d. load_file (mn_load env) (mn_files env) (ma_ini default_args) = Some (Some d) \<and> reads_shipped d"
  using shipped_loads assms by (auto simp: delivered_def load_file_def load_ok_def)

text \<open>The program up to the main loop, from a world in which it has not started.\<close>

lemma delivered_service:
  assumes "delivered env" "not_started w" "mn_ticks env = ts @ stop" "\<forall>t \<in> set ts. tk_running t" "list_all (\<lambda>t. \<not> tk_running t) stop"
    and "sorted (mn_time env # map snd (concat (map tk_records ts)))"
    and "\<forall>k < length ts. turn_progress True True (mn_time env) [] ts k"
  shows "\<exists>w'. main_service env default_args w = Some (if stop = [] then Waiting else Ended (Inr 0), w') \<and> w_level w' = 2"
proof -
  let ?r = "if stop = [] then Waiting else Ended (Inr 0)"
  note env = assms(1) [unfolded delivered_def]
  obtain w1 where w1: "service_new (mn_pid env) (mn_lock env) (mn_starting env) w = (Inr (), w1)" "same (w\<lparr>w_locked := True\<rparr>) w1"
  proof -
    obtain w1 where s: "service_set (mn_pid env) (mn_starting env) ''starting'' (trace Locked (w\<lparr>w_locked := True\<rparr>)) = (Inr (), w1)"
      using service_set_succeeds env by metis
    have "at_stage Service (trace Locked (w\<lparr>w_locked := True\<rparr>))"
      using assms(2) by (intro at_trace [where st = Off]) (simp_all add: at_stage_def not_started_def)
    from service_set_at [OF s this] have "same (w\<lparr>w_locked := True\<rparr>) w1" by (simp add: same_def)
    with s show thesis using env by (intro that) (simp_all add: service_new_def)
  qed
  obtain d where d: "load_file (mn_load env) (mn_files env) (ma_ini default_args) = Some (Some d)" "reads_shipped d"
    using delivered_loads [OF assms(1)] by blast
  define cfg where "cfg = \<lparr>g_ini_path = take 255 (ma_ini default_args), g_ini_d = Some d\<rparr>"
  have init: "rk_param_init (mn_load env) (mn_files env) (Some (ma_ini default_args)) (w_params (trace Logger_up w1)) = Some (0, cfg)"
    using d(1) w1(2) assms(2) by (simp add: rk_param_init_def default_args_def same_def not_started_def cfg_def)
  let ?w2 = "trace Params_up ((trace Logger_up w1)\<lparr>w_params := cfg\<rparr>)"
  have valid: "cfg_validate (mn_pton4 env) (mn_pton6 env) (g_ini_d cfg) = Inr ()"
    using shipped_validates [OF d(2)] env by (simp add: cfg_def)
  note vals = shipped_values [OF d(2), of "take 255 (ma_ini default_args)", folded cfg_def]
  let ?w3 = "?w2\<lparr>w_level := 2, w_health := mh_reset True True (mn_time env)\<rparr>"
  have readable: "cfg_readable cfg" unfolding cfg_def by (rule shipped_readable [OF d(2)])
  have works: "all_calls_succeed (mn_media env) \<and> audio_text cfg ''encode_type'' ''G711A'' = Some ''G711A''"
    using vals(4) env by simp
  obtain ok st where ok: "media_new (mn_media env) (mn_sizes env) cfg (ma_iq default_args) (w_media ?w3) = Some (ok, st)"
    "all_calls_succeed (mn_media env) \<and> audio_text cfg ''encode_type'' ''G711A'' = Some ''G711A'' \<longrightarrow> ok"
    using media_returns [OF readable] unfolding returns_def by metis
  with works have new: "media_new (mn_media env) (mn_sizes env) cfg (ma_iq default_args) (w_media ?w3) = Some (True, st)" by simp
  obtain w4 where w4: "main_wait env (trace Media_up (?w3\<lparr>w_media := st\<rparr>)) = (?r, w4)" "w_level w4 = 2"
    using main_wait_runs [OF assms(1,3,4,5) _ assms(6,7), of "trace Media_up (?w3\<lparr>w_media := st\<rparr>)"] by (auto simp: trace_def)
  have "\<exists>w5. main_media env (ma_iq default_args) ?w3 = Some (?r, w5) \<and> w_level w5 = 2"
    using new w4 by (simp add: main_media_def leave_result trace_def)
  then obtain w5 where w5: "main_configured env default_args ?w2 = Some (?r, w5)" "w_level w5 = 2"
    using valid vals(1-3) by (auto simp: main_configured_def default_args_def)
  obtain w6 where w6: "main_parameters env default_args (trace Logger_up w1) = Some (?r, w6)" "w_level w6 = 2"
    using init w5 by (simp add: main_parameters_def leave_result trace_def)
  have down: "w_level (service_delete c (trace e w6)) = 2" for c e
    using w6(2) by (simp add: service_delete_def trace_def)
  show ?thesis
    using w1(1) w6 down env by (simp add: main_service_def leave_result)
qed

text \<open>C17. The delivered program works as a whole: with the configuration file of the repository in its place, the lock free and every
  call of the device succeeding, it goes through all stages, keeps running with the pipeline up as long as no signal
  comes and every channel progresses, and then a signal makes it release everything and exit with code 0. The only assumption on the
  file's content is that \<^verbatim>\<open>inet_pton\<close> accepts its address.\<close>

theorem shipped_program_runs:
  assumes "delivered env" and "not_started w" and "mn_ticks env = ts @ stop"
    and "\<forall>t \<in> set ts. tk_running t" and "list_all (\<lambda>t. \<not> tk_running t) stop"
    and "sorted (mn_time env # map snd (concat (map tk_records ts)))"
    and "\<forall>k < length ts. turn_progress True True (mn_time env) [] ts k"
  shows "\<exists>w'. gzh_ipc_main env [] False w = Some (if stop = [] then None else Some 0, w') \<and> w_level w' = 2 \<and>
     life (w_trace w') Off = Some (if stop = [] then Live else Off) \<and> (w_locked w' \<longleftrightarrow> stop = []) \<and>
     (stop \<noteq> [] \<longrightarrow> ms_held (w_media w') = [] \<and> live_after (ms_log (w_media w')) [] = Some [])"
proof -
  let ?r = "if stop = [] then Waiting else Ended (Inr 0)"
  have args: "main_arguments [] False = Inr default_args" "\<not> ma_check default_args"
    by (simp_all add: main_arguments_def default_args_def)
  obtain w' where w': "main_service env default_args w = Some (?r, w')" "w_level w' = 2"
    using delivered_service [OF assms] by blast
  have "file_readable env (ma_ini default_args)"
    using delivered_loads [OF assms(1)] shipped_readable by (auto simp: file_readable_def)
  from main_service_scope [OF works_binds this assms(2)] assms(1) w'(1) have
    "at_stage (if ?r = Waiting then Live else Off) w'" "w_locked w' \<longleftrightarrow> ?r = Waiting" "?r \<noteq> Waiting \<longrightarrow> no_media (w_media w')"
    by (auto simp: delivered_def)
  with args w' show ?thesis
    by (cases "stop = []") (auto simp: gzh_ipc_main_def exit_code_def at_stage_def st_is_def good_def)
qed

definition delivered_env :: main_env where
  "delivered_env = \<lparr>mn_pid = 7, mn_lock = \<lparr>le_open = True, le_flock = Some True\<rparr>, mn_starting = set_ok, mn_ready = set_ok,
     mn_stopping = set_ok, mn_cleared = True, mn_logger = True, mn_files = (\<lambda>_. Some (IniFormat.ini_text shipped_ini)), mn_load = load_ok,
     mn_pton4 = \<lambda>a. a = ''192.168.0.101'', mn_pton6 = \<lambda>_. False, mn_media = working_env, mn_sizes = example_sizes, mn_time = 0,
     mn_ticks =
       [\<lparr>tk_running = True, tk_set = set_ok, tk_records = [(0, 1), (1, 1), (2, 1), (3, 1)], tk_now = 1\<rparr>,
        \<lparr>tk_running = False, tk_set = set_ok, tk_records = [], tk_now = 2\<rparr>]\<rparr>"

theorem shipped_program_runs_witness:
  "\<exists>w'. gzh_ipc_main delivered_env [] False no_world = Some (Some 0, w') \<and> ms_held (w_media w') = []"
proof -
  let ?ts = "[\<lparr>tk_running = True, tk_set = set_ok, tk_records = [(0, 1), (1, 1), (2, 1), (3, 1)], tk_now = 1\<rparr>]"
  let ?stop = "[\<lparr>tk_running = False, tk_set = set_ok, tk_records = [], tk_now = 2\<rparr>]"
  have "set_succeeds 7 s set_ok" if "s \<in> {''starting'', ''ready'', ''stopping''}" for s
    using that by (auto simp: set_succeeds_def set_ok_def state_text_def show_int_def show_nat.simps)
  then have "delivered delivered_env" "mn_ticks delivered_env = ?ts @ ?stop"
    by (simp_all add: delivered_def delivered_env_def all_calls_succeed_def working_env_def)
  moreover have "not_started no_world" by (simp add: not_started_def no_world_def no_config_def at_stage_def)
  moreover have "mn_time delivered_env = 0" by (simp add: delivered_env_def)
  moreover have "turn_progress True True 0 [] ?ts 0"
    by (simp add: turn_progress_def all_progressed_def progressed_def)
  ultimately have "\<exists>w'. gzh_ipc_main delivered_env [] False no_world = Some (if ?stop = [] then None else Some 0, w') \<and> w_level w' = 2 \<and>
     life (w_trace w') Off = Some (if ?stop = [] then Live else Off) \<and> (w_locked w' \<longleftrightarrow> ?stop = []) \<and>
     (?stop \<noteq> [] \<longrightarrow> ms_held (w_media w') = [] \<and> live_after (ms_log (w_media w')) [] = Some [])"
    by (intro shipped_program_runs [where ts = ?ts]) simp_all
  then show ?thesis by auto
qed

end
