(* ===== verification/Spec2Isabelle.thy ===== *)
theory Spec2Isabelle
  imports Dictionary IniFormat Param ConfigExample NetworkRecovery EndpointStream PublisherManager IspProperties IspFastboot ElogHexdump LogPort
    MediaProperties OverlayThread FpsRun RockIvaProperties ShippedProgram
begin

text \<open>
  A verification library for the RV1106 network camera application \<^verbatim>\<open>gzh_ipc\<close>.

  \<^bold>\<open>The program.\<close> \<^verbatim>\<open>src/main.cpp\<close> loads an INI file into a process-wide dictionary
  (\<^verbatim>\<open>common/param\<close>), checks it (\<^verbatim>\<open>src/config/config_validation.hpp\<close>), starts the media
  pipeline (\<^verbatim>\<open>src/media\<close>) and watches the heartbeats of its threads
  (\<^verbatim>\<open>src/service/service_state.hpp\<close>): the camera is tuned through \<^verbatim>\<open>common/isp/rv1106/isp.c\<close>, encoded frames are
  pushed into bounded queues (\<^verbatim>\<open>src/publisher/publisher_queue.hpp\<close>), one send thread for each
  endpoint writes them through FFmpeg (\<^verbatim>\<open>src/publisher/ffmpeg_publisher.cpp\<close>), and a monitor
  thread moves the host route to the receiver between the wired and the wireless
  interface (\<^verbatim>\<open>src/network\<close>). The second video channel feeds the person detection
  (\<^verbatim>\<open>common/rockiva\<close>), whose result callback draws on the frames (\<^verbatim>\<open>src/osd\<close>) and sends
  them on. Every part logs through EasyLogger
  (\<^verbatim>\<open>common/easylogger\<close>) into a rotated file (\<^verbatim>\<open>src/logging\<close>).

  \<^bold>\<open>Theories and the code they model.\<close>

  \<^item> \<open>IpcPrelude\<close>, \<open>CNumbers\<close>: lists, C strings, ASCII classes, and the C library's decimal
    printing and \<^verbatim>\<open>strtol\<close> at the 32-bit width of the target.
  \<^item> \<open>Dictionary\<close>: \<^verbatim>\<open>common/param/dictionary.c\<close>. The record \<open>dictionary\<close> has the three parallel
    arrays and the counters of the struct; every allocation's outcome is an argument. The locale
    \<open>string_store\<close> states the contract of a string map; its interpretation \<open>dict\<close> discharges it for
    the open-addressing code, and the properties rest on it.
  \<^item> \<open>IniParser\<close>, \<open>IniFormat\<close>: \<^verbatim>\<open>common/param/iniparser.c\<close>. The line classifier with its \<^verbatim>\<open>sscanf\<close>
    patterns, the load loop with its 1024-character buffer and continuation lines, the typed
    getters, the dump functions as text. \<open>IniFormat\<close> proves that loading terminates, stays within the
    buffer, denotes the assignments of the lines, and inverts dumping.
  \<^item> \<open>Param\<close>: \<^verbatim>\<open>common/param/param.c\<close>: the store over an abstract file system, with the
    outcome of each system call of the atomic save as an argument.
  \<^item> \<open>ConfigValidation\<close>, \<open>ConfigExample\<close>: the start-up check, in the code's order of tests, errors as
    \<open>Inl\<close>; what an accepted configuration gives to the runtime getters; a complete
    accepted configuration as the witness. \<open>ShippedConfig\<close>: the file \<^verbatim>\<open>src/rv1106_sc3336.ini\<close> of the repository, line
    by line, through the parser and the check.
  \<^item> \<open>Annexb\<close>: \<^verbatim>\<open>src/publisher/annexb.cpp\<close>, with a reference definition on streams of units.
  \<^item> \<open>PublisherQueue\<close>: \<^verbatim>\<open>publisher_queue.hpp\<close>; each member function is one atomic step (it holds the
    mutex throughout), waiting in \<^verbatim>\<open>pop\<close> is the outcome \<open>Pop_wait\<close>. The locale \<open>gop_source\<close> is the
    contract the send thread relies on.
  \<^item> \<open>FfmpegSettings\<close>: the values \<^verbatim>\<open>ffmpeg_publisher.cpp\<close> reads from the configuration, the parameters of the
    codecs and of the connection. \<open>FfmpegConnection\<close>: \<^verbatim>\<open>FfmpegConnection\<close> and \<^verbatim>\<open>PublisherEndpoint::send_loop\<close> of
    \<^verbatim>\<open>ffmpeg_publisher.cpp\<close>. A step relation interleaves the producer, the network monitor
    and the send thread; the operations on FFmpeg are a list, over which the protocol is stated. An exception of a failing
    allocation is a result of its own, with everything done before it. \<open>EndpointStream\<close> compares what is written on one
    connection with what the queue accepted.
  \<^item> \<open>PublisherManager\<close>: endpoint creation, the checks of \<^verbatim>\<open>ffmpeg_publisher_init\<close>, the fan-out.
  \<^item> \<open>LinkPolicy\<close>, \<open>RouteIdentity\<close>, \<open>NetworkRoute\<close>: \<^verbatim>\<open>network_route.hpp\<close>, \<^verbatim>\<open>route_identity.hpp\<close> and
    \<^verbatim>\<open>network_route.cpp\<close>: the link choice, the reading of \<^verbatim>\<open>/proc/net/route\<close>, one iteration of the
    monitor over the answers of the kernel. \<open>NetworkRecovery\<close> puts the monitor, the kernel's routes and the record of the
    owned interface into one step relation, in which the program may be killed after any operation and started again.
  \<^item> \<open>IspState\<close>, \<open>IspSettings\<close>, \<open>IspControl\<close>: \<^verbatim>\<open>isp.c\<close>. A call of the tuning library is an entry of a
    log, and its result a function of the log so far, so that results may depend on everything that happened; \<open>None\<close>
    is undefined behaviour (a NULL dereference, an overrun). \<open>IspSafety\<close> states the contract of a setter as the locale
    \<open>isp_contract\<close>, extended by \<open>isp_ini\<close> and interpreted for all settings; \<open>IspProperties\<close>
    holds the properties. \<open>IspFastboot\<close>: the start from the boot loader's measurements, with the kernel command line
    of \<^verbatim>\<open>common.c\<close>.
  \<^item> \<open>Elog\<close>, \<open>ElogProperties\<close>, \<open>ElogHexdump\<close>: \<^verbatim>\<open>elog.c\<close> and \<^verbatim>\<open>elog_utils.c\<close> in the configuration of
    \<^verbatim>\<open>include/elog_cfg.h\<close>. \<open>LogPort\<close>: \<^verbatim>\<open>elog_port.c\<close> and \<^verbatim>\<open>logger.cpp\<close>.
  \<^item> \<open>MediaSdk\<close>, \<open>VideoPipeline\<close>, \<open>MediaPipeline\<close>: \<^verbatim>\<open>src/media\<close>: the calls of the sensor, encoder, audio and
    binding libraries as a logged alphabet, \<^verbatim>\<open>video.cpp\<close>'s start and shutdown with the clean-up
    stack it builds, and \<^verbatim>\<open>media.cpp\<close> and \<^verbatim>\<open>audio.cpp\<close> around it. \<open>MediaProtocol\<close> is the
    resource protocol as a locale over that log; \<open>MediaProperties\<close> holds the properties.
    \<open>CaptureLoops\<close>: the loops of the capture threads over the answers of the driver.
  \<^item> \<open>OverlayCanvas\<close>, \<open>FpsText\<close>: \<^verbatim>\<open>src/osd\<close>: the drawing of boxes and of the frame-rate text into
    an NV12 image, with every write of the source as a write to an array of a given size. \<open>OverlayThread\<close>: the thread
    that takes detection results, draws and publishes them; \<open>FpsRun\<close>: the frame-rate thread with the counters the
    capture threads share with it.
  \<^item> \<open>RockIva\<close>, \<open>RockIvaThreads\<close>, \<open>RockIvaProperties\<close>: \<^verbatim>\<open>rockiva.c\<close>: start and stop, the input of a
    frame with its wait, and a step relation that interleaves the callbacks of the detection
    library with the threads that push frames and take results.
  \<^item> \<open>ServiceMain\<close>, \<open>ServiceProperties\<close>: \<^verbatim>\<open>service_state.hpp\<close> and \<^verbatim>\<open>main.cpp\<close>: the instance lock, the heartbeat
    record and its watchdog, and the whole of \<^verbatim>\<open>main\<close> over the answers of its environment.
    \<open>ShippedProgram\<close>: that program with the delivered configuration file, from its start to its exit.

  \<^bold>\<open>What the lemmas show.\<close> For each component: an invariant and its preservation (\<open>dict_inv\<close>,
  \<open>queue_inv\<close>, \<open>tags_ok\<close>, \<open>holds\<close>, \<open>port_goes\<close>, the bounded result list of \<open>RockIvaThreads\<close>), the functional behaviour of its operations, and the
  behaviour under failing allocations, system calls and library calls. Across components: an accepted
  configuration passes every check of the publisher (\<open>PublisherManager\<close>), gives \<open>isp_set_from_ini\<close> no
  undefined behaviour (\<open>IspProperties\<close>) and never ends in one when the media are started
  (\<open>MediaProperties\<close>), what the media start acquires is released in whatever way the start ends, the
  detection library gets no frame back before its release notice, \<^verbatim>\<open>main\<close> gives back what it
  acquired on every path and stops when a watched thread has stopped beating
  (\<open>ServiceProperties\<close>), what a receiver gets on one connection is a gapless piece of what the queue accepted
  (\<open>EndpointStream\<close>), the delivered configuration brings the program up and a signal ends it
  with code 0 (\<open>ShippedProgram\<close>), a route left by a killed run is found and taken over again (\<open>NetworkRecovery\<close>), a saved parameter file is read back (\<open>Param\<close> over
  \<open>IniFormat\<close>), and the log files stay bounded whatever is logged (\<open>LogPort\<close> over \<open>Elog\<close>).

  \<^bold>\<open>Conventions.\<close> Characters are ASCII-classified bytes (plain \<^verbatim>\<open>char\<close> is unsigned on the target); \<^verbatim>\<open>long\<close> has 32
  bits; sizes are naturals, counters of fixed width are words. Pointers that may be NULL
  are options or the datatype \<open>cptr\<close>. A loop that may not end is a \<open>partial_function (option)\<close>; no definition uses
  fuel except \<open>dict_probe\<close>, which is given the table's size and returns \<open>None\<close> past it; it
  is proved not to run out. A theorem about the send thread's use of FFmpeg has the hypothesis that the run has
  fewer than \<open>2 ^ 32\<close> events, the width of the epoch counter; \<open>EndpointStream\<close> also assumes that the stop flag and the
  readiness of a generation of the route monitor change as \<open>route_coherent\<close> says, which is how \<^verbatim>\<open>network_route.cpp\<close> and
  \<^verbatim>\<open>ffmpeg_publisher_interrupt\<close> set them. The results of the media libraries are, as those
  of the tuning library, functions of the log of calls. In \<open>MediaProperties\<close> a configuration file is readable when no
  section header holds a colon (\<open>file_readable\<close>, \<open>cfg_readable\<close>), and the detection library is assumed to give one release notice
  for each frame it took, as its interface documents.

  \<^bold>\<open>Not modelled.\<close> \<^verbatim>\<open>iniparser_getdouble\<close> and \<^verbatim>\<open>rk_param_get_double\<close> (\<^verbatim>\<open>atof\<close>), the error callback of the parser, the assertion hook of EasyLogger (a failed
  assertion is \<open>None\<close>) and its colours, which the configuration leaves out,
  \<^verbatim>\<open>dictionary_del\<close>; failures of the array allocations in \<^verbatim>\<open>dictionary_new\<close> after its first; \<^verbatim>\<open>bad_alloc\<close> outside the publisher's data path; the texts of log lines and of error
  messages, with the helpers that only build them; the time and version texts of \<^verbatim>\<open>common.c\<close>; \<^verbatim>\<open>getopt\<close>, whose
  answers are an input of \<^verbatim>\<open>main\<close>; the
  passing of time between turns of a loop beyond the clock readings the code makes. \<^verbatim>\<open>inet_pton\<close>, \<^verbatim>\<open>av_url_split\<close>,
  \<^verbatim>\<open>sscanf\<close> of a float and the rounding of floats are parameters, and so is the processor's division of the frame
  count by the elapsed time, of which \<open>FpsRun\<close> only uses that it gives no negative rate. The headers of the vendor's libraries and the
  libraries themselves are outside the model.
\<close>

end
